(* ===== verification/Prelude.thy ===== *)
theory Prelude
  imports Main "HOL-Library.List_Lexorder" "HOL-Library.Char_ord"
begin

text \<open>
  Shared vocabulary of the development: results of fallible Go functions as sums, the
  sequencing operator used in place of Go's "if err != nil return", the named collections of
  simplification rules, and generic facts on lists used as tables (a table is the list of its
  rows, an UPDATE maps the matching rows, a SELECT filters them).
\<close>

named_theorems result_simps
named_theorems table_simps

section \<open>Results\<close>

text \<open>A Go function returning \<^verbatim>\<open>(T, error)\<close> is modelled with the error on the left.\<close>

type_synonym ('e, 'a) result = "'e + 'a"

definition and_then :: "'e + 'a \<Rightarrow> ('a \<Rightarrow> 'e + 'b) \<Rightarrow> 'e + 'b" where
  "and_then r f = (case r of Inl e \<Rightarrow> Inl e | Inr x \<Rightarrow> f x)"

definition require :: "bool \<Rightarrow> 'e \<Rightarrow> 'e + unit" where
  "require b e = (if b then Inr () else Inl e)"

definition from_option :: "'e \<Rightarrow> 'a option \<Rightarrow> 'e + 'a" where
  "from_option e x = (case x of None \<Rightarrow> Inl e | Some y \<Rightarrow> Inr y)"

lemma and_then_Inl [simp]: "and_then (Inl e) f = Inl e"
  by (simp add: and_then_def)

lemma and_then_Inr [simp]: "and_then (Inr x) f = f x"
  by (simp add: and_then_def)

lemma and_then_eq_Inr [result_simps]:
  "and_then r f = Inr y \<longleftrightarrow> (\<exists>x. r = Inr x \<and> f x = Inr y)"
  by (cases r) auto

lemma and_then_eq_Inl [result_simps]:
  "and_then r f = Inl e \<longleftrightarrow> r = Inl e \<or> (\<exists>x. r = Inr x \<and> f x = Inl e)"
  by (cases r) auto

lemma require_True [simp]: "require True e = Inr ()"
  by (simp add: require_def)

lemma require_False [simp]: "require False e = Inl e"
  by (simp add: require_def)

lemma require_eq_Inr [result_simps]: "require b e = Inr u \<longleftrightarrow> b"
  by (simp add: require_def)

lemma require_eq_Inl [result_simps]: "require b e = Inl e' \<longleftrightarrow> \<not> b \<and> e' = e"
  by (auto simp: require_def)

lemma from_option_simps [simp]:
  "from_option e None = Inl e"
  "from_option e (Some y) = Inr y"
  by (simp_all add: from_option_def)

lemma from_option_eq_Inr [result_simps]: "from_option e x = Inr y \<longleftrightarrow> x = Some y"
  by (cases x) auto

lemma from_option_eq_Inl [result_simps]: "from_option e x = Inl e' \<longleftrightarrow> x = None \<and> e' = e"
  by (cases x) auto

text \<open>A loop whose body may return an error: the first error ends it.\<close>

fun map_result :: "('a \<Rightarrow> 'e + 'b) \<Rightarrow> 'a list \<Rightarrow> 'e + 'b list" where
  "map_result f [] = Inr []"
| "map_result f (x # xs) =
     and_then (f x) (\<lambda>y. and_then (map_result f xs) (\<lambda>ys. Inr (y # ys)))"

fun fold_result :: "('a \<Rightarrow> 's \<Rightarrow> 'e + 's) \<Rightarrow> 'a list \<Rightarrow> 's \<Rightarrow> 'e + 's" where
  "fold_result f [] s = Inr s"
| "fold_result f (x # xs) s = and_then (f x s) (\<lambda>s'. fold_result f xs s')"

lemma map_result_length: "map_result f xs = Inr ys \<Longrightarrow> length ys = length xs"
  by (induction xs arbitrary: ys) (auto simp: result_simps)

lemma fold_result_invariant:
  assumes "fold_result f xs s = Inr s'" and "P s"
    and "\<And>x t t'. x \<in> set xs \<Longrightarrow> P t \<Longrightarrow> f x t = Inr t' \<Longrightarrow> P t'"
  shows "P s'"
  using assms
proof (induction xs arbitrary: s)
  case Nil
  then show ?case by simp
next
  case (Cons x xs)
  then obtain t where t: "f x s = Inr t" and rest: "fold_result f xs t = Inr s'"
    by (auto simp: result_simps)
  have "P t" using Cons.prems(2,3) t by (metis list.set_intros(1))
  then show ?case
    using Cons.IH [OF rest] Cons.prems(3) by (meson list.set_intros(2))
qed

section \<open>Tables\<close>

text \<open>
  \<open>update_where p f t\<close> is \<^verbatim>\<open>UPDATE t SET f WHERE p\<close>; \<open>affected p t\<close> its RowsAffected;
  \<open>select_where p t\<close> is \<^verbatim>\<open>SELECT * FROM t WHERE p\<close> in row order.
\<close>

definition update_where :: "('r \<Rightarrow> bool) \<Rightarrow> ('r \<Rightarrow> 'r) \<Rightarrow> 'r list \<Rightarrow> 'r list" where
  "update_where p f t = map (\<lambda>r. if p r then f r else r) t"

definition affected :: "('r \<Rightarrow> bool) \<Rightarrow> 'r list \<Rightarrow> nat" where
  "affected p t = length (filter p t)"

definition select_where :: "('r \<Rightarrow> bool) \<Rightarrow> 'r list \<Rightarrow> 'r list" where
  "select_where p t = filter p t"

lemma set_update_where [table_simps]:
  "set (update_where p f t) = f ` {r \<in> set t. p r} \<union> {r \<in> set t. \<not> p r}"
  by (auto simp: update_where_def)

lemma mem_update_where [table_simps]:
  "r \<in> set (update_where p f t) \<longleftrightarrow> (\<exists>r0 \<in> set t. r = (if p r0 then f r0 else r0))"
  by (auto simp: update_where_def)

lemma set_select_where [table_simps]: "set (select_where p t) = {r \<in> set t. p r}"
  by (simp add: select_where_def)

lemma affected_eq_0 [table_simps]: "affected p t = 0 \<longleftrightarrow> (\<forall>r \<in> set t. \<not> p r)"
  by (auto simp: affected_def filter_empty_conv)

lemma map_update_where:
  assumes "\<And>r. p r \<Longrightarrow> g (f r) = g r"
  shows "map g (update_where p f t) = map g t"
  using assms by (auto simp: update_where_def)

lemma update_where_none:
  "\<forall>r \<in> set t. \<not> p r \<Longrightarrow> update_where p f t = t"
  by (auto simp: update_where_def intro: map_idI)

lemma distinct_key_eq:
  "distinct (map g t) \<Longrightarrow> a \<in> set t \<Longrightarrow> b \<in> set t \<Longrightarrow> g a = g b \<Longrightarrow> a = b"
  by (auto simp: distinct_map dest: inj_onD)

lemma find_Some_mem:
  "find p t = Some r \<Longrightarrow> r \<in> set t \<and> p r"
  by (induction t) (auto split: if_splits)

lemma find_None_mem:
  "find p t = None \<longleftrightarrow> (\<forall>r \<in> set t. \<not> p r)"
  by (auto simp: find_None_iff)

lemma filter_key_one:
  "distinct (map g t) \<Longrightarrow> r \<in> set t \<Longrightarrow> p r \<Longrightarrow> (\<And>x. p x \<Longrightarrow> g x = k) \<Longrightarrow> filter p t = [r]"
proof (induction t)
  case Nil
  then show ?case by simp
next
  case (Cons x xs)
  have none: "filter p xs = []" if "g x = k"
  proof -
    have "\<not> p y" if y: "y \<in> set xs" for y
      using Cons.prems(1) Cons.prems(4) [of y] y \<open>g x = k\<close> by (auto simp: image_iff)
    then show ?thesis by (simp add: filter_empty_conv)
  qed
  show ?case
  proof (cases "p x")
    case True
    then have "g x = k" by (rule Cons.prems(4))
    moreover have "x = r"
      using Cons.prems(1,2) Cons.prems(4) [OF Cons.prems(3)] \<open>g x = k\<close>
      by (auto simp: image_iff)
    ultimately show ?thesis using none True by simp
  next
    case False
    then have "r \<in> set xs" using Cons.prems(2,3) by auto
    then have "filter p xs = [r]"
      using Cons.IH [OF _ _ Cons.prems(3) Cons.prems(4)] Cons.prems(1) by simp
    with False show ?thesis by simp
  qed
qed

lemma affected_key_one:
  "distinct (map g t) \<Longrightarrow> r \<in> set t \<Longrightarrow> p r \<Longrightarrow> (\<And>x. p x \<Longrightarrow> g x = k) \<Longrightarrow> affected p t = 1"
  using filter_key_one [of g t r p k] by (simp add: affected_def)

section \<open>Stable order on strings\<close>

text \<open>
  Go compares strings bytewise; strings are \<open>char list\<close> and the order of
  \<^verbatim>\<open>HOL-Library.List_Lexorder\<close> over \<^verbatim>\<open>Char_ord\<close> is the same one, so the
  library's \<open>sort\<close> and \<open>sort_key\<close> (stable insertion sort) stand for \<^verbatim>\<open>sort.Strings\<close>
  and \<^verbatim>\<open>sort.SliceStable\<close>.
\<close>

lemma sort_distinct_unique:
  fixes xs ys :: "'a::linorder list"
  assumes "set xs = set ys" and "distinct xs" and "distinct ys"
  shows "sort xs = sort ys"
  using assms by (metis distinct_sort set_sort sorted_distinct_set_unique sorted_sort)

end
