(* ===== verification/GoText.thy ===== *)
theory GoText
  imports Prelude
begin

text \<open>
  The part of Go's \<^verbatim>\<open>strings\<close> and \<^verbatim>\<open>unicode/utf8\<close> packages that the domain layer calls. A Go
  string is a byte sequence and is modelled as a \<open>string\<close>, a list of 8-bit characters: lengths and
  indices count bytes, runes are decoded from UTF-8.
\<close>

abbreviation byte :: "char \<Rightarrow> nat" where
  "byte c \<equiv> of_char c"

section \<open>UTF-8\<close>

text \<open>
  \<open>utf8_width s\<close> is the width of the well-formed UTF-8 sequence at the front of \<open>s\<close>, 0 when the
  front is not well-formed (the acceptance ranges of \<^verbatim>\<open>utf8.DecodeRuneInString\<close>).
\<close>

definition cont_byte :: "char \<Rightarrow> bool" where
  "cont_byte c \<longleftrightarrow> 128 \<le> byte c \<and> byte c \<le> 191"

definition second_ok :: "nat \<Rightarrow> nat \<Rightarrow> bool" where
  "second_ok b0 b1 \<longleftrightarrow>
     (if b0 = 224 then 160 \<le> b1 \<and> b1 \<le> 191
      else if b0 = 237 then 128 \<le> b1 \<and> b1 \<le> 159
      else if b0 = 240 then 144 \<le> b1 \<and> b1 \<le> 191
      else if b0 = 244 then 128 \<le> b1 \<and> b1 \<le> 143
      else 128 \<le> b1 \<and> b1 \<le> 191)"

definition utf8_width :: "string \<Rightarrow> nat" where
  "utf8_width s =
     (case s of [] \<Rightarrow> 0
      | c # cs \<Rightarrow>
        let b = byte c in
        if b < 128 then 1
        else if 194 \<le> b \<and> b \<le> 223 then
          (case cs of c1 # _ \<Rightarrow> if cont_byte c1 then 2 else 0 | _ \<Rightarrow> 0)
        else if 224 \<le> b \<and> b \<le> 239 then
          (case cs of c1 # c2 # _ \<Rightarrow>
             if second_ok b (byte c1) \<and> cont_byte c2 then 3 else 0 | _ \<Rightarrow> 0)
        else if 240 \<le> b \<and> b \<le> 244 then
          (case cs of c1 # c2 # c3 # _ \<Rightarrow>
             if second_ok b (byte c1) \<and> cont_byte c2 \<and> cont_byte c3 then 4 else 0 | _ \<Rightarrow> 0)
        else 0)"

text \<open>
  \<open>rune_count\<close> is \<^verbatim>\<open>utf8.RuneCountInString\<close>: an ill-formed byte counts as one rune of width 1.
\<close>

function utf8_valid :: "string \<Rightarrow> bool" where
  "utf8_valid s =
     (if s = [] then True
      else if utf8_width s = 0 then False
      else utf8_valid (drop (utf8_width s) s))"
  by pat_completeness auto
termination
  by (relation "measure length") auto

function rune_count :: "string \<Rightarrow> nat" where
  "rune_count s = (if s = [] then 0 else Suc (rune_count (drop (max 1 (utf8_width s)) s)))"
  by pat_completeness auto
termination
  by (relation "measure length") auto

declare utf8_valid.simps [simp del] rune_count.simps [simp del]

lemma utf8_valid_Nil [simp]: "utf8_valid []"
  by (simp add: utf8_valid.simps)

lemma rune_count_Nil [simp]: "rune_count [] = 0"
  by (simp add: rune_count.simps)

lemma utf8_valid_ascii_Cons [simp]:
  "byte c < 128 \<Longrightarrow> utf8_valid (c # cs) = utf8_valid cs"
  by (subst utf8_valid.simps) (simp add: utf8_width_def)

lemma rune_count_ascii_Cons [simp]:
  "byte c < 128 \<Longrightarrow> rune_count (c # cs) = Suc (rune_count cs)"
  by (subst rune_count.simps) (simp add: utf8_width_def)

lemma rune_count_le_length: "rune_count s \<le> length s"
proof (induction s rule: rune_count.induct)
  case (1 s)
  show ?case
  proof (cases "s = []")
    case False
    then have "rune_count (drop (max 1 (utf8_width s)) s) \<le> length s - max 1 (utf8_width s)"
      using 1 by simp
    moreover have "0 < length s" using False by simp
    ultimately have "Suc (rune_count (drop (max 1 (utf8_width s)) s)) \<le> length s" by linarith
    then show ?thesis using False by (simp add: rune_count.simps [of s])
  qed simp
qed

section \<open>Trimming\<close>

text \<open>
  \<^verbatim>\<open>strings.TrimSpace\<close> removes leading and trailing Unicode white space. \<open>space_tokens\<close> lists the
  UTF-8 encodings of the code points \<^verbatim>\<open>unicode.IsSpace\<close> accepts.
\<close>

definition bytes :: "nat list \<Rightarrow> string" where
  "bytes ns = map char_of ns"

definition space_tokens :: "string list" where
  "space_tokens =
     map bytes
      ([[9], [10], [11], [12], [13], [32], [194, 133], [194, 160], [225, 154, 128]]
       @ map (\<lambda>n. [226, 128, n]) [128, 129, 130, 131, 132, 133, 134, 135, 136, 137, 138, 168, 169, 175]
       @ [[226, 129, 159], [227, 128, 128]])"

definition front_space :: "string list \<Rightarrow> string \<Rightarrow> string option" where
  "front_space toks s = find (\<lambda>t. take (length t) s = t) toks"

function trim_left_with :: "string list \<Rightarrow> string \<Rightarrow> string" where
  "trim_left_with toks s =
     (case front_space toks s of
        None \<Rightarrow> s
      | Some t \<Rightarrow> if t = [] \<or> s = [] then s else trim_left_with toks (drop (length t) s))"
  by pat_completeness auto
termination
  by (relation "measure (\<lambda>(toks, s). length s)") auto

declare trim_left_with.simps [simp del]

definition TrimSpace :: "string \<Rightarrow> string" where
  "TrimSpace s =
     rev (trim_left_with (map rev space_tokens) (rev (trim_left_with space_tokens s)))"

definition is_blank :: "string \<Rightarrow> bool" where
  "is_blank s \<longleftrightarrow> TrimSpace s = []"

lemma trim_left_with_suffix: "\<exists>p. s = p @ trim_left_with toks s"
proof (induction toks s rule: trim_left_with.induct)
  case (1 toks s)
  show ?case
  proof (cases "front_space toks s")
    case None
    then show ?thesis by (subst trim_left_with.simps) simp
  next
    case (Some t)
    show ?thesis
    proof (cases "t = [] \<or> s = []")
      case True
      with Some show ?thesis by (subst trim_left_with.simps) simp
    next
      case False
      with 1 Some obtain p where p: "drop (length t) s = p @ trim_left_with toks (drop (length t) s)"
        by blast
      have "s = (take (length t) s @ p) @ trim_left_with toks (drop (length t) s)"
        by (metis append.assoc append_take_drop_id p)
      then have "\<exists>q. s = q @ trim_left_with toks (drop (length t) s)" by blast
      with Some False show ?thesis by (simp add: trim_left_with.simps [of toks s])
    qed
  qed
qed

lemma trim_left_with_stop:
  "front_space toks (trim_left_with toks s) \<in> {None, Some []} \<or> trim_left_with toks s = []"
proof (induction toks s rule: trim_left_with.induct)
  case (1 toks s)
  show ?case
  proof (cases "front_space toks s")
    case None
    then show ?thesis by (simp add: trim_left_with.simps [of toks s])
  next
    case (Some t)
    then show ?thesis
      using 1 [OF Some] by (cases "t = [] \<or> s = []") (auto simp: trim_left_with.simps [of toks s])
  qed
qed

lemma trim_left_with_idem [simp]:
  "trim_left_with toks (trim_left_with toks s) = trim_left_with toks s"
  using trim_left_with_stop [of toks s]
  by (subst trim_left_with.simps) (auto split: option.splits)

text \<open>Trimming never invents text: the result is an infix of the input.\<close>

lemma TrimSpace_infix: "\<exists>p q. s = p @ TrimSpace s @ q"
proof -
  obtain p where p: "s = p @ trim_left_with space_tokens s"
    using trim_left_with_suffix by blast
  obtain q where q: "rev (trim_left_with space_tokens s) =
      q @ trim_left_with (map rev space_tokens) (rev (trim_left_with space_tokens s))"
    using trim_left_with_suffix by blast
  then have "trim_left_with space_tokens s = TrimSpace s @ rev q"
    unfolding TrimSpace_def by (metis rev_append rev_rev_ident)
  with p show ?thesis by metis
qed

lemma TrimSpace_length: "length (TrimSpace s) \<le> length s"
  using TrimSpace_infix [of s] by (metis add_leD1 le_add2 length_append)

section \<open>Evaluating trims\<close>

text \<open>
  Code equations for evaluation by rewriting: the tokens as literals, and the common case of text
  that starts and ends with a visible ASCII character, which trimming leaves alone.
\<close>

lemma space_tokens_code [code]:
  "space_tokens = [[CHR 0x09], [CHR 0x0A], [CHR 0x0B], [CHR 0x0C], [CHR 0x0D], [CHR 0x20],
     [CHR 0xC2, CHR 0x85], [CHR 0xC2, CHR 0xA0], [CHR 0xE1, CHR 0x9A, CHR 0x80],
     [CHR 0xE2, CHR 0x80, CHR 0x80], [CHR 0xE2, CHR 0x80, CHR 0x81], [CHR 0xE2, CHR 0x80, CHR 0x82],
     [CHR 0xE2, CHR 0x80, CHR 0x83], [CHR 0xE2, CHR 0x80, CHR 0x84], [CHR 0xE2, CHR 0x80, CHR 0x85],
     [CHR 0xE2, CHR 0x80, CHR 0x86], [CHR 0xE2, CHR 0x80, CHR 0x87], [CHR 0xE2, CHR 0x80, CHR 0x88],
     [CHR 0xE2, CHR 0x80, CHR 0x89], [CHR 0xE2, CHR 0x80, CHR 0x8A], [CHR 0xE2, CHR 0x80, CHR 0xA8],
     [CHR 0xE2, CHR 0x80, CHR 0xA9], [CHR 0xE2, CHR 0x80, CHR 0xAF], [CHR 0xE2, CHR 0x81, CHR 0x9F],
     [CHR 0xE3, CHR 0x80, CHR 0x80]]"
  by code_simp

fun starts_with :: "string \<Rightarrow> string \<Rightarrow> bool" where
  "starts_with [] s = True"
| "starts_with (c # t) [] = False"
| "starts_with (c # t) (d # s) = (c = d \<and> starts_with t s)"

lemma starts_with_iff: "starts_with t s \<longleftrightarrow> take (length t) s = t"
  by (induction t s rule: starts_with.induct) auto

lemma front_space_code [code]: "front_space toks s = find (\<lambda>t. starts_with t s) toks"
  by (simp add: front_space_def starts_with_iff)

definition visible :: "char \<Rightarrow> bool" where
  "visible c \<longleftrightarrow> 33 \<le> byte c \<and> byte c < 128"

lemma space_tokens_invisible:
  "list_all (\<lambda>t. t \<noteq> [] \<and> \<not> visible (hd t) \<and> \<not> visible (last t)) space_tokens"
  unfolding space_tokens_code by (simp add: visible_def)

lemma trim_left_visible:
  assumes "s \<noteq> []" "visible (hd s)" "\<forall>t \<in> set toks. t \<noteq> [] \<and> \<not> visible (hd t)"
  shows "trim_left_with toks s = s"
proof -
  have "take (length t) s \<noteq> t" if "t \<in> set toks" for t
    using assms that by (cases s; cases t) auto
  then have "front_space toks s = None" by (simp add: front_space_def find_None_iff)
  then show ?thesis by (subst trim_left_with.simps) simp
qed

lemma TrimSpace_visible:
  assumes "s \<noteq> []" "visible (hd s)" "visible (last s)" shows "TrimSpace s = s"
proof -
  have "trim_left_with space_tokens s = s"
    using assms space_tokens_invisible by (intro trim_left_visible) (auto simp: list_all_iff)
  moreover have "trim_left_with (map rev space_tokens) (rev s) = rev s"
    using assms space_tokens_invisible
    by (intro trim_left_visible) (auto simp: list_all_iff hd_rev)
  ultimately show ?thesis by (simp add: TrimSpace_def)
qed

lemma TrimSpace_code [code]:
  "TrimSpace s =
     (if s = [] then [] else if visible (hd s) \<and> visible (last s) then s
      else rev (trim_left_with (map rev space_tokens) (rev (trim_left_with space_tokens s))))"
proof -
  have "TrimSpace [] = []" using TrimSpace_length [of "[]"] by simp
  then show ?thesis using TrimSpace_visible [of s] by (auto simp: TrimSpace_def)
qed

section \<open>Splitting and joining paths\<close>

text \<open>\<^verbatim>\<open>strings.Split(s, "/")\<close> for a one-byte separator, and \<^verbatim>\<open>strings.Join\<close>.\<close>

fun Split :: "char \<Rightarrow> string \<Rightarrow> string list" where
  "Split sep [] = [[]]"
| "Split sep (c # cs) =
     (if c = sep then [] # Split sep cs
      else (case Split sep cs of [] \<Rightarrow> [[c]] | x # xs \<Rightarrow> (c # x) # xs))"

fun Join :: "string list \<Rightarrow> string \<Rightarrow> string" where
  "Join [] sep = []"
| "Join [x] sep = x"
| "Join (x # y # ys) sep = x @ sep @ Join (y # ys) sep"

lemma Split_not_Nil [simp]: "Split sep s \<noteq> []"
  by (cases s) (auto split: list.splits)

lemma Split_no_sep: "x \<in> set (Split sep s) \<Longrightarrow> sep \<notin> set x"
proof (induction s arbitrary: x)
  case (Cons c cs)
  then show ?case by (cases "Split sep cs") (auto split: if_splits)
qed simp

lemma Split_single: "sep \<notin> set s \<Longrightarrow> Split sep s = [s]"
  by (induction s) auto

lemma Split_append_sep:
  "sep \<notin> set x \<Longrightarrow> Split sep (x @ sep # s) = x # Split sep s"
  by (induction x) auto

lemma Split_Join:
  "xs \<noteq> [] \<Longrightarrow> \<forall>x \<in> set xs. sep \<notin> set x \<Longrightarrow> Split sep (Join xs [sep]) = xs"
  by (induction xs "[sep]" rule: Join.induct) (auto simp: Split_single Split_append_sep)

lemma Join_inj:
  assumes "xs \<noteq> []" and "ys \<noteq> []" and "\<forall>x \<in> set xs. sep \<notin> set x" and "\<forall>y \<in> set ys. sep \<notin> set y"
    and "Join xs [sep] = Join ys [sep]"
  shows "xs = ys"
  using assms Split_Join by metis

end
