(* ===== verification/DomainError.thy ===== *)
theory DomainError
  imports GoText
begin

text \<open>
  \<^verbatim>\<open>internal/domain/errors.go\<close> and \<^verbatim>\<open>internal/domain/validation.go\<close>: the structured domain error
  with its deterministically ordered details, and the text and collection bounds every request
  validator shares. The human-readable message of an error and of a detail is not part of the
  model: no decision of the program reads it.
\<close>

section \<open>Codes\<close>

definition CodeInvalidArgument :: string where
  "CodeInvalidArgument = ''INVALID_ARGUMENT''"

definition CodeInvalidTransition :: string where
  "CodeInvalidTransition = ''INVALID_STATUS_TRANSITION''"

definition CodeIssueNotFound :: string where
  "CodeIssueNotFound = ''ISSUE_NOT_FOUND''"

definition CodeIssueArchived :: string where
  "CodeIssueArchived = ''ISSUE_ARCHIVED''"

definition CodeVersionConflict :: string where
  "CodeVersionConflict = ''VERSION_CONFLICT''"

definition CodeActiveAttemptExists :: string where
  "CodeActiveAttemptExists = ''ACTIVE_ATTEMPT_EXISTS''"

definition CodeAttemptNotFound :: string where
  "CodeAttemptNotFound = ''ATTEMPT_NOT_FOUND''"

definition CodeAttemptNotActive :: string where
  "CodeAttemptNotActive = ''ATTEMPT_NOT_ACTIVE''"

definition CodeLeaseExpired :: string where
  "CodeLeaseExpired = ''LEASE_EXPIRED''"

definition CodeInvalidLeaseToken :: string where
  "CodeInvalidLeaseToken = ''INVALID_LEASE_TOKEN''"

definition CodeIssueChangedDuringAttempt :: string where
  "CodeIssueChangedDuringAttempt = ''ISSUE_CHANGED_DURING_ATTEMPT''"

definition CodeUnresolvedBlockersAdded :: string where
  "CodeUnresolvedBlockersAdded = ''UNRESOLVED_BLOCKERS_ADDED''"

definition CodeBlocksCycle :: string where
  "CodeBlocksCycle = ''BLOCKS_CYCLE''"

definition CodeLimitExceeded :: string where
  "CodeLimitExceeded = ''LIMIT_EXCEEDED''"

definition CodeIDGeneration :: string where
  "CodeIDGeneration = ''ID_GENERATION_FAILED''"

definition CodeIdempotencyConflict :: string where
  "CodeIdempotencyConflict = ''IDEMPOTENCY_CONFLICT''"

definition CodeStorageCorrupt :: string where
  "CodeStorageCorrupt = ''STORAGE_CORRUPT''"

definition CodeStorageConstraint :: string where
  "CodeStorageConstraint = ''STORAGE_CONSTRAINT''"

definition CodeReviewAlreadyExists :: string where
  "CodeReviewAlreadyExists = ''REVIEW_ALREADY_EXISTS''"

definition CodeReviewTargetStale :: string where
  "CodeReviewTargetStale = ''STALE_REVIEW_TARGET''"

definition CodeReviewRequestClaimed :: string where
  "CodeReviewRequestClaimed = ''REVIEW_REQUEST_CLAIMED''"

definition CodeReviewRequestNotReplaceable :: string where
  "CodeReviewRequestNotReplaceable = ''REVIEW_REQUEST_NOT_REPLACEABLE''"

definition CodeReviewRequestRequired :: string where
  "CodeReviewRequestRequired = ''REVIEW_REQUEST_REQUIRED''"

definition CodeReviewPurposeRequired :: string where
  "CodeReviewPurposeRequired = ''REVIEW_PURPOSE_REQUIRED''"

definition CodeWorkflowGateUnsatisfied :: string where
  "CodeWorkflowGateUnsatisfied = ''WORKFLOW_GATE_UNSATISFIED''"

definition CodeInvalidReservationSet :: string where
  "CodeInvalidReservationSet = ''INVALID_RESERVATION_SET''"

definition CodeResourceReservationConflict :: string where
  "CodeResourceReservationConflict = ''RESOURCE_RESERVATION_CONFLICT''"

definition CodeReservationNotFound :: string where
  "CodeReservationNotFound = ''RESERVATION_NOT_FOUND''"

definition CodeReservationNotActive :: string where
  "CodeReservationNotActive = ''RESERVATION_NOT_ACTIVE''"

definition CodePolicyNotFound :: string where
  "CodePolicyNotFound = ''POLICY_NOT_FOUND''"

definition CodePolicyArchived :: string where
  "CodePolicyArchived = ''POLICY_ARCHIVED''"

definition CodeGateSnapshotNotFound :: string where
  "CodeGateSnapshotNotFound = ''GATE_SNAPSHOT_NOT_FOUND''"

definition CodeStorageFailure :: string where
  "CodeStorageFailure = ''STORAGE_FAILURE''"

definition CodeValidationError :: string where
  "CodeValidationError = ''VALIDATION_ERROR''"

definition CodeInvalidEpicParent :: string where
  "CodeInvalidEpicParent = ''INVALID_EPIC_PARENT''"

definition CodeLabelNotFound :: string where
  "CodeLabelNotFound = ''LABEL_NOT_FOUND''"

definition CodeIssueNotArchived :: string where
  "CodeIssueNotArchived = ''ISSUE_NOT_ARCHIVED''"

definition CodeSessionNotFound :: string where
  "CodeSessionNotFound = ''SESSION_NOT_FOUND''"

definition CodeSessionNotActive :: string where
  "CodeSessionNotActive = ''SESSION_NOT_ACTIVE''"

definition CodeProjectNotInitialized :: string where
  "CodeProjectNotInitialized = ''PROJECT_NOT_INITIALIZED''"

section \<open>Errors\<close>

record Detail =
  EntityIndex :: "int option"
  Field :: string
  DCode :: string

record Error =
  Code :: string
  Details :: "Detail list"
  Retryable :: bool

type_synonym 'a res = "Error + 'a"

text \<open>
  \<open>compareEntityIndex\<close> orders an absent index before every present one; \<open>detail_less\<close> is the
  comparator \<^verbatim>\<open>SortDetails\<close> passes to \<^verbatim>\<open>sort.SliceStable\<close>.
\<close>

fun compareEntityIndex :: "int option \<Rightarrow> int option \<Rightarrow> int" where
  "compareEntityIndex None None = 0"
| "compareEntityIndex None (Some _) = -1"
| "compareEntityIndex (Some _) None = 1"
| "compareEntityIndex (Some l) (Some r) = (if l < r then -1 else if l > r then 1 else 0)"

definition detail_less :: "Detail \<Rightarrow> Detail \<Rightarrow> bool" where
  "detail_less l r =
     (let c = compareEntityIndex (EntityIndex l) (EntityIndex r) in
      if c \<noteq> 0 then c < 0
      else if Field l \<noteq> Field r then Field l < Field r
      else DCode l < DCode r)"

fun insert_detail :: "Detail \<Rightarrow> Detail list \<Rightarrow> Detail list" where
  "insert_detail d [] = [d]"
| "insert_detail d (e # es) = (if detail_less e d then e # insert_detail d es else d # e # es)"

definition SortDetails :: "Detail list \<Rightarrow> Detail list" where
  "SortDetails ds = foldr insert_detail ds []"

definition NewError :: "string \<Rightarrow> bool \<Rightarrow> Detail list \<Rightarrow> Error" where
  "NewError code retryable details =
     \<lparr>Code = code, Details = SortDetails details, Retryable = retryable\<rparr>"

definition detail :: "string \<Rightarrow> string \<Rightarrow> Detail" where
  "detail field code = \<lparr>EntityIndex = None, Field = field, DCode = code\<rparr>"

definition validationError :: "string \<Rightarrow> string \<Rightarrow> Error" where
  "validationError field code = NewError CodeInvalidArgument False [detail field code]"

definition invalidEnum :: "string \<Rightarrow> Error" where
  "invalidEnum field = NewError CodeInvalidArgument False [detail field ''INVALID_ENUM'']"

lemma Code_NewError [simp]: "Code (NewError c r ds) = c"
  by (simp add: NewError_def)

lemma Code_validationError [simp]: "Code (validationError f c) = CodeInvalidArgument"
  by (simp add: validationError_def)

lemma Code_invalidEnum [simp]: "Code (invalidEnum f) = CodeInvalidArgument"
  by (simp add: invalidEnum_def)

section \<open>Shared validation\<close>

definition MaxIdempotencyKeyRunes :: int where
  "MaxIdempotencyKeyRunes = 128"

definition ValidateText :: "string \<Rightarrow> string \<Rightarrow> int \<Rightarrow> unit res" where
  "ValidateText field value maxRunes =
     (if \<not> utf8_valid value then Inl (validationError field ''INVALID_UTF8'')
      else if CHR 0x00 \<in> set value then Inl (validationError field ''NUL_NOT_ALLOWED'')
      else if 0 \<le> maxRunes \<and> int (rune_count value) > maxRunes
      then Inl (NewError CodeLimitExceeded False [detail field ''MAX_RUNES''])
      else Inr ())"

definition CopyBounded :: "string \<Rightarrow> 'a list \<Rightarrow> int \<Rightarrow> 'a list res" where
  "CopyBounded field values maximum =
     (if maximum < 0 then Inl (NewError CodeInvalidArgument False [detail field ''INVALID_LIMIT''])
      else if int (length values) > maximum
      then Inl (NewError CodeLimitExceeded False [detail field ''MAX_ITEMS''])
      else Inr values)"

lemma ValidateText_Inr [result_simps]:
  "ValidateText f v m = Inr u \<longleftrightarrow>
     utf8_valid v \<and> CHR 0x00 \<notin> set v \<and> (0 \<le> m \<longrightarrow> int (rune_count v) \<le> m)"
  by (auto simp: ValidateText_def)

lemma CopyBounded_Inr [result_simps]:
  "CopyBounded f vs m = Inr ws \<longleftrightarrow> 0 \<le> m \<and> int (length vs) \<le> m \<and> ws = vs"
  by (auto simp: CopyBounded_def)

section \<open>Order of error details\<close>

lemma compareEntityIndex_sign:
  "compareEntityIndex a b < 0 \<longleftrightarrow> 0 < compareEntityIndex b a"
  "compareEntityIndex a b = 0 \<longleftrightarrow> a = b"
  by (cases a; cases b; auto)+

lemma compareEntityIndex_trans:
  "compareEntityIndex a b < 0 \<Longrightarrow> compareEntityIndex b c < 0 \<Longrightarrow> compareEntityIndex a c < 0"
  by (cases a; cases b; cases c) (auto split: if_splits)

lemma detail_less_asym: "detail_less a b \<Longrightarrow> \<not> detail_less b a"
  using compareEntityIndex_sign [of "EntityIndex a" "EntityIndex b"]
    compareEntityIndex_sign [of "EntityIndex b" "EntityIndex a"]
  by (auto simp: detail_less_def Let_def split: if_splits)

lemma detail_not_less_trans:
  assumes "\<not> detail_less b a" and "\<not> detail_less c b"
  shows "\<not> detail_less c a"
proof -
  have tri: "compareEntityIndex x y < 0 \<or> x = y \<or> compareEntityIndex y x < 0" for x y
    by (cases x; cases y) auto
  show ?thesis
    using assms tri [of "EntityIndex a" "EntityIndex b"] tri [of "EntityIndex b" "EntityIndex c"]
      compareEntityIndex_trans [of "EntityIndex a" "EntityIndex b" "EntityIndex c"]
      compareEntityIndex_sign [of "EntityIndex a" "EntityIndex c"]
      compareEntityIndex_sign [of "EntityIndex c" "EntityIndex a"]
      compareEntityIndex_sign [of "EntityIndex a" "EntityIndex b"]
      compareEntityIndex_sign [of "EntityIndex b" "EntityIndex a"]
      compareEntityIndex_sign [of "EntityIndex b" "EntityIndex c"]
      compareEntityIndex_sign [of "EntityIndex c" "EntityIndex b"]
    by (auto simp: detail_less_def Let_def split: if_splits)
qed

lemma set_insert_detail: "set (insert_detail d es) = insert d (set es)"
  by (induction es) auto

lemma insert_detail_sorted:
  "sorted_wrt (\<lambda>a b. \<not> detail_less b a) es \<Longrightarrow>
   sorted_wrt (\<lambda>a b. \<not> detail_less b a) (insert_detail d es)"
proof (induction es)
  case (Cons e es)
  show ?case
  proof (cases "detail_less e d")
    case True
    then show ?thesis
      using Cons by (auto simp: set_insert_detail dest: detail_less_asym)
  next
    case False
    then have "\<not> detail_less x d" if "x \<in> set (e # es)" for x
      using that Cons.prems detail_not_less_trans [of e d x] by auto
    then show ?thesis using False Cons.prems by auto
  qed
qed simp

text \<open>The details of every error are in the documented order, whatever order they were built in.\<close>

lemma SortDetails_sorted: "sorted_wrt (\<lambda>a b. \<not> detail_less b a) (SortDetails ds)"
  by (induction ds) (auto simp: SortDetails_def insert_detail_sorted)

lemma set_SortDetails: "set (SortDetails ds) = set ds"
  by (induction ds) (auto simp: SortDetails_def set_insert_detail)

end
