(* ===== verification/IssueStatus.thy ===== *)
theory IssueStatus
  imports DomainError
begin

text \<open>
  \<^verbatim>\<open>internal/domain/issue.go\<close>, \<^verbatim>\<open>issue_projection.go\<close> and the vocabularies of
  \<^verbatim>\<open>vocabulary.go\<close>: issue types, stored and effective statuses, priorities, and the status
  machine. A Go enumeration is a string type: its named constants are constructors, every other
  string the \<open>_other\<close> constructor, and \<open>Valid\<close> tells them apart.
\<close>

datatype Type = TypeEpic | TypeTask | TypeBug | Type_other string

datatype Status =
    StatusOpen | StatusReady | StatusBlocked | StatusReview | StatusDone | StatusCancelled
  | Status_other string

datatype EffectiveStatus =
    EffectiveStatusOpen | EffectiveStatusReady | EffectiveStatusBlocked | EffectiveStatusReview
  | EffectiveStatusDone | EffectiveStatusCancelled | EffectiveStatusInProgress
  | EffectiveStatus_other string

datatype Priority =
    PriorityLow | PriorityMedium | PriorityHigh | PriorityCritical | Priority_other string

definition AllIssueTypes :: "Type list" where
  "AllIssueTypes = [TypeEpic, TypeTask, TypeBug]"

definition AllStatuses :: "Status list" where
  "AllStatuses =
     [StatusOpen, StatusReady, StatusBlocked, StatusReview, StatusDone, StatusCancelled]"

definition AllPriorities :: "Priority list" where
  "AllPriorities = [PriorityLow, PriorityMedium, PriorityHigh, PriorityCritical]"

fun enumValid :: "'t \<Rightarrow> 't list \<Rightarrow> bool" where
  "enumValid v [] = False"
| "enumValid v (c # cs) = (if v = c then True else enumValid v cs)"

definition Type_Valid :: "Type \<Rightarrow> bool" where
  "Type_Valid t = enumValid t AllIssueTypes"

definition Executable :: "Type \<Rightarrow> bool" where
  "Executable t \<longleftrightarrow> t = TypeTask \<or> t = TypeBug"

definition Status_Valid :: "Status \<Rightarrow> bool" where
  "Status_Valid s = enumValid s AllStatuses"

definition Terminal :: "Status \<Rightarrow> bool" where
  "Terminal s \<longleftrightarrow> s = StatusDone \<or> s = StatusCancelled"

definition Priority_Valid :: "Priority \<Rightarrow> bool" where
  "Priority_Valid p = enumValid p AllPriorities"

text \<open>The conversions \<^verbatim>\<open>Status(value)\<close>, \<^verbatim>\<open>string(status)\<close> and \<^verbatim>\<open>EffectiveStatus(stored)\<close>.\<close>

fun Status_string :: "Status \<Rightarrow> string" where
  "Status_string StatusOpen = ''open''"
| "Status_string StatusReady = ''ready''"
| "Status_string StatusBlocked = ''blocked''"
| "Status_string StatusReview = ''review''"
| "Status_string StatusDone = ''done''"
| "Status_string StatusCancelled = ''cancelled''"
| "Status_string (Status_other s) = s"

definition Status_of :: "string \<Rightarrow> Status" where
  "Status_of s =
     (if s = ''open'' then StatusOpen else if s = ''ready'' then StatusReady
      else if s = ''blocked'' then StatusBlocked else if s = ''review'' then StatusReview
      else if s = ''done'' then StatusDone else if s = ''cancelled'' then StatusCancelled
      else Status_other s)"

fun EffectiveStatus_string :: "EffectiveStatus \<Rightarrow> string" where
  "EffectiveStatus_string EffectiveStatusOpen = ''open''"
| "EffectiveStatus_string EffectiveStatusReady = ''ready''"
| "EffectiveStatus_string EffectiveStatusBlocked = ''blocked''"
| "EffectiveStatus_string EffectiveStatusReview = ''review''"
| "EffectiveStatus_string EffectiveStatusDone = ''done''"
| "EffectiveStatus_string EffectiveStatusCancelled = ''cancelled''"
| "EffectiveStatus_string EffectiveStatusInProgress = ''in_progress''"
| "EffectiveStatus_string (EffectiveStatus_other s) = s"

definition EffectiveStatus_of :: "string \<Rightarrow> EffectiveStatus" where
  "EffectiveStatus_of s =
     (if s = ''open'' then EffectiveStatusOpen else if s = ''ready'' then EffectiveStatusReady
      else if s = ''blocked'' then EffectiveStatusBlocked
      else if s = ''review'' then EffectiveStatusReview
      else if s = ''done'' then EffectiveStatusDone
      else if s = ''cancelled'' then EffectiveStatusCancelled
      else if s = ''in_progress'' then EffectiveStatusInProgress
      else EffectiveStatus_other s)"

fun EffectiveStatus_Valid :: "EffectiveStatus \<Rightarrow> bool" where
  "EffectiveStatus_Valid (EffectiveStatus_other s) = False"
| "EffectiveStatus_Valid _ = True"

definition ParseStatus :: "string \<Rightarrow> Status res" where
  "ParseStatus value =
     (let parsed = Status_of value in
      if \<not> Status_Valid parsed then Inl (invalidEnum ''status'') else Inr parsed)"

definition ParseEffectiveStatus :: "string \<Rightarrow> EffectiveStatus res" where
  "ParseEffectiveStatus value =
     (let parsed = EffectiveStatus_of value in
      if \<not> EffectiveStatus_Valid parsed then Inl (invalidEnum ''effective_status'')
      else Inr parsed)"

definition EffectiveStatusFor :: "Status \<Rightarrow> bool \<Rightarrow> EffectiveStatus res" where
  "EffectiveStatusFor stored hasActiveAttempt =
     (if \<not> Status_Valid stored then Inl (invalidEnum ''status'')
      else if hasActiveAttempt then Inr EffectiveStatusInProgress
      else Inr (EffectiveStatus_of (Status_string stored)))"

section \<open>Issues\<close>

type_synonym time = int \<comment> \<open>nanoseconds; stored timestamps are fixed width, so text order is time order\<close>

record Issue =
  IID :: string
  SequenceNo :: int
  IType :: Type
  Title :: string
  Description :: "string option"
  AcceptanceCriteria :: "string option"
  IStatus :: Status
  IPriority :: Priority
  ParentID :: "string option"
  BlockedReason :: "string option"
  IVersion :: int
  CreatedAt :: time
  UpdatedAt :: time
  ClosedAt :: "time option"
  ArchivedAt :: "time option"
  Labels :: "string list"

section \<open>The status machine\<close>

definition CanTransition :: "Status \<Rightarrow> Status \<Rightarrow> bool" where
  "CanTransition from to =
     (if \<not> Status_Valid from \<or> \<not> Status_Valid to then False
      else case from of
        StatusOpen \<Rightarrow> to = StatusReady \<or> to = StatusCancelled
      | StatusReady \<Rightarrow>
          to = StatusBlocked \<or> to = StatusReview \<or> to = StatusDone \<or> to = StatusCancelled
      | StatusBlocked \<Rightarrow> to = StatusReady \<or> to = StatusCancelled
      | StatusReview \<Rightarrow>
          to = StatusReady \<or> to = StatusBlocked \<or> to = StatusDone \<or> to = StatusCancelled
      | StatusDone \<Rightarrow> to = StatusReady
      | StatusCancelled \<Rightarrow> to = StatusOpen
      | _ \<Rightarrow> False)"

definition ApplyStatusTransition :: "Status \<Rightarrow> Status \<Rightarrow> string \<Rightarrow> string res" where
  "ApplyStatusTransition from to blockedReason =
     (if \<not> CanTransition from to
      then Inl (NewError CodeInvalidTransition False [detail ''status'' CodeInvalidTransition])
      else if to = StatusBlocked then
        (if TrimSpace blockedReason = ''''
         then Inl (NewError CodeInvalidArgument False [detail ''blocked_reason'' ''REQUIRED''])
         else Inr blockedReason)
      else Inr '''')"

definition ApplyFinishTransition :: "Status \<Rightarrow> Status \<Rightarrow> string \<Rightarrow> string res" where
  "ApplyFinishTransition from to blockedReason =
     (if from = StatusReady \<and> to = StatusReady then Inr ''''
      else ApplyStatusTransition from to blockedReason)"

definition ApplyPatchStatusTransition :: "Type \<Rightarrow> Status \<Rightarrow> Status \<Rightarrow> string \<Rightarrow> string res" where
  "ApplyPatchStatusTransition issueType from to blockedReason =
     (if \<not> Executable issueType \<and> from = StatusOpen \<and> to = StatusDone then Inr ''''
      else ApplyStatusTransition from to blockedReason)"

lemma Status_Valid_iff [simp]: "Status_Valid s \<longleftrightarrow> (\<forall>x. s \<noteq> Status_other x)"
  by (cases s) (simp_all add: Status_Valid_def AllStatuses_def)

lemma Type_Valid_iff [simp]: "Type_Valid t \<longleftrightarrow> (\<forall>x. t \<noteq> Type_other x)"
  by (cases t) (simp_all add: Type_Valid_def AllIssueTypes_def)

lemma Status_of_string: "Status_Valid s \<Longrightarrow> Status_of (Status_string s) = s"
  by (cases s) (simp_all add: Status_of_def)

lemma Status_string_of: "Status_string (Status_of v) = v"
  by (simp add: Status_of_def)

lemma EffectiveStatus_string_of: "EffectiveStatus_string (EffectiveStatus_of v) = v"
  by (simp add: EffectiveStatus_of_def)

lemma CanTransition_irrefl: "\<not> CanTransition s s"
  by (cases s) (simp_all add: CanTransition_def)

lemma ApplyStatusTransition_Inr [result_simps]:
  "ApplyStatusTransition from to r = Inr r' \<longleftrightarrow>
     CanTransition from to \<and>
     (if to = StatusBlocked then TrimSpace r \<noteq> '''' \<and> r' = r else r' = '''')"
  by (auto simp: ApplyStatusTransition_def)

text \<open>
  The states reachable by direct status writes: a finished or cancelled issue is never stuck, it
  leaves its terminal status only by being reopened, and \<open>review\<close> is entered only from \<open>ready\<close>.
\<close>

inductive status_steps :: "Status \<Rightarrow> Status \<Rightarrow> bool" where
  status_refl: "status_steps s s"
| status_step: "status_steps s t \<Longrightarrow> CanTransition t u \<Longrightarrow> status_steps s u"

lemma status_steps_valid: "status_steps s t \<Longrightarrow> Status_Valid s \<Longrightarrow> Status_Valid t"
  by (induction rule: status_steps.induct) (auto simp: CanTransition_def split: if_splits)

lemma status_steps_open:
  assumes "Status_Valid t"
  shows "status_steps StatusOpen t"
proof -
  have ready: "status_steps StatusOpen StatusReady"
    by (rule status_step [OF status_refl]) (simp add: CanTransition_def)
  have from_ready: "status_steps StatusOpen u" if "CanTransition StatusReady u" for u
    using ready that by (rule status_step)
  show ?thesis
    using assms ready by (cases t) (auto intro: status_refl from_ready simp: CanTransition_def)
qed

lemma status_steps_trans:
  "status_steps t u \<Longrightarrow> status_steps s t \<Longrightarrow> status_steps s u"
  by (induction rule: status_steps.induct) (auto intro: status_step)

lemma status_steps_back_to_open:
  assumes "Status_Valid s"
  shows "status_steps s StatusOpen"
proof -
  have canc: "status_steps StatusCancelled StatusOpen"
    by (rule status_step [OF status_refl]) (simp add: CanTransition_def)
  have via: "status_steps u StatusOpen" if "CanTransition u StatusCancelled" for u
    using canc status_step [OF status_refl that] by (rule status_steps_trans)
  have fin: "status_steps StatusDone StatusOpen"
  proof (rule status_steps_trans)
    show "status_steps StatusDone StatusReady"
      by (rule status_step [OF status_refl]) (simp add: CanTransition_def)
    show "status_steps StatusReady StatusOpen"
      by (rule via) (simp add: CanTransition_def)
  qed
  show ?thesis
    using assms canc fin by (cases s) (auto intro: status_refl via simp: CanTransition_def)
qed

section \<open>Properties\<close>

text \<open>
  The issue status machine has no trap: from every valid status every other valid status can
  be reached by allowed transitions, and allowed transitions never leave the valid statuses.
\<close>

lemma status_machine_connected:
  assumes "Status_Valid s"
  shows "status_steps s t \<longleftrightarrow> Status_Valid t"
  using assms status_steps_valid status_steps_open status_steps_back_to_open status_steps_trans
  by blast


end
