(* ===== verification/Resource.thy ===== *)
theory Resource
  imports DomainError
begin

text \<open>
  Reservable resources: \<^verbatim>\<open>internal/domain/reservation.go\<close>, \<^verbatim>\<open>reservation_glob.go\<close>,
  \<^verbatim>\<open>reservation_overlap.go\<close> and \<^verbatim>\<open>reservation_request.go\<close>. A caller-supplied resource is
  normalized into a comparison form; two normalized resources conflict exactly when some
  project-relative path belongs to both, and a batch request is accepted only when its members do
  not conflict with each other.
\<close>

datatype ResourceKind =
    ResourceKindFile | ResourceKindDirectory | ResourceKindGlob | ResourceKindLogical
  | ResourceKind_other string

fun ResourceKind_Valid :: "ResourceKind \<Rightarrow> bool" where
  "ResourceKind_Valid (ResourceKind_other s) = False"
| "ResourceKind_Valid _ = True"

fun ResourceKind_string :: "ResourceKind \<Rightarrow> string" where
  "ResourceKind_string ResourceKindFile = ''file''"
| "ResourceKind_string ResourceKindDirectory = ''directory''"
| "ResourceKind_string ResourceKindGlob = ''glob''"
| "ResourceKind_string ResourceKindLogical = ''logical''"
| "ResourceKind_string (ResourceKind_other s) = s"

definition MaxReservationResources :: int where "MaxReservationResources = 50"
definition MaxResourcePathRunes :: int where "MaxResourcePathRunes = 4096"
definition MaxLogicalNamespaceRunes :: int where "MaxLogicalNamespaceRunes = 64"
definition MaxLogicalNameRunes :: int where "MaxLogicalNameRunes = 256"

record Resource =
  RKind :: ResourceKind
  Path :: string
  Namespace :: string
  Name :: string

section \<open>Segments and glob shapes\<close>

datatype globSegmentKind = globSegmentLiteral | globSegmentStar | globSegmentStarStar

record globSegment =
  seg_kind :: globSegmentKind
  seg_text :: string

definition is_upper :: "char \<Rightarrow> bool" where
  "is_upper c \<longleftrightarrow> byte CHR ''A'' \<le> byte c \<and> byte c \<le> byte CHR ''Z''"

definition lower_byte :: "char \<Rightarrow> char" where
  "lower_byte c = (if is_upper c then char_of (byte c + (byte CHR ''a'' - byte CHR ''A'')) else c)"

definition asciiFold :: "string \<Rightarrow> string" where
  "asciiFold value = (if \<not> list_ex is_upper value then value else map lower_byte value)"

definition foldedText :: "globSegment \<Rightarrow> string" where
  "foldedText segment =
     (if seg_kind segment \<noteq> globSegmentLiteral then seg_text segment
      else asciiFold (seg_text segment))"

definition classifyGlobSegment :: "string \<Rightarrow> ResourceKind \<Rightarrow> globSegment res" where
  "classifyGlobSegment text kind =
     (if kind \<noteq> ResourceKindGlob
      then Inr \<lparr>seg_kind = globSegmentLiteral, seg_text = text\<rparr>
      else if text = ''*'' then Inr \<lparr>seg_kind = globSegmentStar, seg_text = ''*''\<rparr>
      else if text = ''**'' then Inr \<lparr>seg_kind = globSegmentStarStar, seg_text = ''**''\<rparr>
      else if list_ex (\<lambda>c. c \<in> set ''*?[]{}'' \<or> c = CHR 0x5C) text
      then Inl (validationError ''path'' ''INVALID_GLOB_SEGMENT'')
      else Inr \<lparr>seg_kind = globSegmentLiteral, seg_text = text\<rparr>)"

definition validateStarStarPlacement :: "globSegment list \<Rightarrow> ResourceKind \<Rightarrow> unit res" where
  "validateStarStarPlacement segments kind =
     (if kind \<noteq> ResourceKindGlob then Inr ()
      else if list_ex (\<lambda>i. seg_kind (segments ! i) = globSegmentStarStar \<and> i \<noteq> length segments - 1)
                [0..<length segments]
      then Inl (validationError ''path'' ''STARSTAR_MUST_BE_LAST'')
      else Inr ())"

record globShape =
  prefix :: "string list"
  starIsGlob :: "bool list"
  hasStarStar :: bool

definition shape_step :: "globShape \<Rightarrow> globSegment \<Rightarrow> globShape" where
  "shape_step shape segment =
     (case seg_kind segment of
        globSegmentStarStar \<Rightarrow> shape\<lparr>hasStarStar := True\<rparr>
      | globSegmentStar \<Rightarrow>
          shape\<lparr>prefix := prefix shape @ [''*''], starIsGlob := starIsGlob shape @ [True]\<rparr>
      | globSegmentLiteral \<Rightarrow>
          shape\<lparr>prefix := prefix shape @ [asciiFold (seg_text segment)],
                starIsGlob := starIsGlob shape @ [False]\<rparr>)"

definition shapeOf :: "globSegment list \<Rightarrow> globShape" where
  "shapeOf segments =
     foldl shape_step \<lparr>prefix = [], starIsGlob = [], hasStarStar = False\<rparr> segments"

definition matchesPath :: "globShape \<Rightarrow> string list \<Rightarrow> bool" where
  "matchesPath g candidate =
     (if (if hasStarStar g then length candidate < length (prefix g)
          else length candidate \<noteq> length (prefix g)) then False
      else list_all (\<lambda>i. starIsGlob g ! i \<or> prefix g ! i = candidate ! i) [0..<length (prefix g)])"

definition intersects :: "globShape \<Rightarrow> globShape \<Rightarrow> bool" where
  "intersects g other =
     (let shared = min (length (prefix g)) (length (prefix other)) in
      if list_ex (\<lambda>i. \<not> starIsGlob g ! i \<and> \<not> starIsGlob other ! i
                       \<and> prefix g ! i \<noteq> prefix other ! i) [0..<shared] then False
      else if length (prefix g) = length (prefix other) then True
      else if length (prefix g) < length (prefix other) then hasStarStar g
      else hasStarStar other)"

definition intersectsDescendantsOf :: "globShape \<Rightarrow> string list \<Rightarrow> bool" where
  "intersectsDescendantsOf g dir =
     (let shared = min (length (prefix g)) (length dir) in
      if list_ex (\<lambda>i. \<not> starIsGlob g ! i \<and> prefix g ! i \<noteq> dir ! i) [0..<shared] then False
      else if length (prefix g) > length dir then True
      else if length (prefix g) = length dir then hasStarStar g
      else hasStarStar g)"

section \<open>Normalization\<close>

record NormalizedResource =
  nkind :: ResourceKind
  display :: string
  segments :: "globSegment list"
  namespace :: string
  name :: string

definition Key :: "NormalizedResource \<Rightarrow> string" where
  "Key r =
     (if nkind r = ResourceKindLogical then namespace r @ '':'' @ name r
      else ResourceKind_string (nkind r) @ '':'' @ Join (map foldedText (segments r)) ''/'')"

definition is_lower :: "char \<Rightarrow> bool" where
  "is_lower c \<longleftrightarrow> byte CHR ''a'' \<le> byte c \<and> byte c \<le> byte CHR ''z''"

definition is_digit :: "char \<Rightarrow> bool" where
  "is_digit c \<longleftrightarrow> byte CHR ''0'' \<le> byte c \<and> byte c \<le> byte CHR ''9''"

definition validLogicalNamespace :: "string \<Rightarrow> bool" where
  "validLogicalNamespace ns =
     (if ns = '''' then False
      else list_all (\<lambda>i.
             (if i = 0 then is_lower (ns ! i)
              else is_lower (ns ! i) \<or> is_digit (ns ! i) \<or> ns ! i = CHR ''.'' \<or> ns ! i = CHR ''-''))
             [0..<length ns])"

definition normalizeLogical :: "Resource \<Rightarrow> NormalizedResource res" where
  "normalizeLogical input =
     and_then (ValidateText ''namespace'' (Namespace input) MaxLogicalNamespaceRunes) (\<lambda>_.
     and_then (require (validLogicalNamespace (Namespace input))
                (validationError ''namespace'' ''INVALID_NAMESPACE'')) (\<lambda>_.
     let nm = TrimSpace (Name input) in
     and_then (ValidateText ''name'' nm MaxLogicalNameRunes) (\<lambda>_.
     and_then (require (nm \<noteq> '''') (validationError ''name'' ''REQUIRED'')) (\<lambda>_.
     Inr \<lparr>nkind = ResourceKindLogical, display = Namespace input @ '':'' @ nm, segments = [],
          namespace = Namespace input, name = nm\<rparr>))))"

definition isWindowsVolumeForm :: "string \<Rightarrow> bool" where
  "isWindowsVolumeForm path =
     (if length path < 2 \<or> path ! 1 \<noteq> CHR '':'' then False
      else is_upper (path ! 0) \<or> is_lower (path ! 0))"

fun normalize_parts :: "ResourceKind \<Rightarrow> string list \<Rightarrow> globSegment list res" where
  "normalize_parts kind [] = Inr []"
| "normalize_parts kind (part # rest) =
     (if part = '''' \<or> part = ''.'' then normalize_parts kind rest
      else if part = ''..'' then Inl (validationError ''path'' ''PARENT_SEGMENT_NOT_ALLOWED'')
      else and_then (classifyGlobSegment part kind) (\<lambda>segment.
           and_then (normalize_parts kind rest) (\<lambda>segs. Inr (segment # segs))))"

definition normalizePath :: "Resource \<Rightarrow> NormalizedResource res" where
  "normalizePath input =
     and_then (ValidateText ''path'' (Path input) MaxResourcePathRunes) (\<lambda>_.
     and_then (require (CHR 0x5C \<notin> set (Path input))
                (validationError ''path'' ''BACKSLASH_NOT_ALLOWED'')) (\<lambda>_.
     and_then (require (take 1 (Path input) \<noteq> ''/'')
                (validationError ''path'' ''ABSOLUTE_PATH_NOT_ALLOWED'')) (\<lambda>_.
     and_then (require (\<not> isWindowsVolumeForm (Path input))
                (validationError ''path'' ''VOLUME_FORM_NOT_ALLOWED'')) (\<lambda>_.
     and_then (normalize_parts (RKind input) (Split CHR ''/'' (Path input))) (\<lambda>segs.
     and_then (require (segs \<noteq> []) (validationError ''path'' ''EMPTY_ROOT_NOT_ALLOWED'')) (\<lambda>_.
     and_then (validateStarStarPlacement segs (RKind input)) (\<lambda>_.
     Inr \<lparr>nkind = RKind input, display = Join (map seg_text segs) ''/'', segments = segs,
          namespace = '''', name = ''''\<rparr>)))))))"

definition Normalize :: "Resource \<Rightarrow> NormalizedResource res" where
  "Normalize input =
     (if \<not> ResourceKind_Valid (RKind input) then Inl (invalidEnum ''kind'')
      else if RKind input = ResourceKindLogical then normalizeLogical input
      else normalizePath input)"

section \<open>Overlap\<close>

record PreparedOverlap =
  po_resource :: NormalizedResource
  folded :: "string list"
  shape :: globShape

definition empty_shape :: globShape where
  "empty_shape = \<lparr>prefix = [], starIsGlob = [], hasStarStar = False\<rparr>"

definition foldedSegments :: "globSegment list \<Rightarrow> string list" where
  "foldedSegments segs = map foldedText segs"

definition PrepareOverlap :: "NormalizedResource \<Rightarrow> PreparedOverlap" where
  "PrepareOverlap resource =
     (let prepared = \<lparr>po_resource = resource, folded = [], shape = empty_shape\<rparr> in
      if nkind resource \<noteq> ResourceKindLogical then
        (let prepared = prepared\<lparr>folded := foldedSegments (segments resource)\<rparr> in
         if nkind resource = ResourceKindGlob
         then prepared\<lparr>shape := shapeOf (segments resource)\<rparr>
         else prepared)
      else prepared)"

definition FirstLiteralSegment :: "PreparedOverlap \<Rightarrow> string option" where
  "FirstLiteralSegment p =
     (case segments (po_resource p) of
        [] \<Rightarrow> None
      | s # _ \<Rightarrow> if seg_kind s \<noteq> globSegmentLiteral then None else Some (folded p ! 0))"

definition equalSegments :: "string list \<Rightarrow> string list \<Rightarrow> bool" where
  "equalSegments a b =
     (if length a \<noteq> length b then False
      else list_all (\<lambda>i. a ! i = b ! i) [0..<length a])"

definition isPrefixOrEqual :: "string list \<Rightarrow> string list \<Rightarrow> bool" where
  "isPrefixOrEqual p candidate =
     (if length p > length candidate then False
      else list_all (\<lambda>i. p ! i = candidate ! i) [0..<length p])"

definition PreparedOverlaps :: "PreparedOverlap \<Rightarrow> PreparedOverlap \<Rightarrow> bool" where
  "PreparedOverlaps p other =
     (let a = po_resource p; b = po_resource other in
      if nkind a = ResourceKindLogical \<or> nkind b = ResourceKindLogical then
        nkind a = nkind b \<and> namespace a = namespace b \<and> name a = name b
      else if (case (FirstLiteralSegment p, FirstLiteralSegment other) of
                 (Some x, Some y) \<Rightarrow> x \<noteq> y | _ \<Rightarrow> False) then False
      else case (nkind a, nkind b) of
        (ResourceKindFile, ResourceKindFile) \<Rightarrow> equalSegments (folded p) (folded other)
      | (ResourceKindDirectory, ResourceKindDirectory) \<Rightarrow>
          isPrefixOrEqual (folded p) (folded other) \<or> isPrefixOrEqual (folded other) (folded p)
      | (ResourceKindDirectory, ResourceKindFile) \<Rightarrow> isPrefixOrEqual (folded p) (folded other)
      | (ResourceKindFile, ResourceKindDirectory) \<Rightarrow> isPrefixOrEqual (folded other) (folded p)
      | (ResourceKindGlob, ResourceKindGlob) \<Rightarrow> intersects (shape p) (shape other)
      | (ResourceKindFile, ResourceKindGlob) \<Rightarrow> matchesPath (shape other) (folded p)
      | (ResourceKindGlob, ResourceKindFile) \<Rightarrow> matchesPath (shape p) (folded other)
      | (ResourceKindDirectory, ResourceKindGlob) \<Rightarrow>
          matchesPath (shape other) (folded p) \<or> intersectsDescendantsOf (shape other) (folded p)
      | (ResourceKindGlob, ResourceKindDirectory) \<Rightarrow>
          matchesPath (shape p) (folded other) \<or> intersectsDescendantsOf (shape p) (folded other)
      | _ \<Rightarrow> False)"

definition Overlaps :: "NormalizedResource \<Rightarrow> NormalizedResource \<Rightarrow> bool" where
  "Overlaps a b = PreparedOverlaps (PrepareOverlap a) (PrepareOverlap b)"

section \<open>Batch requests\<close>

record PreparedResource =
  Index :: nat
  PResource :: NormalizedResource

definition wrapResourceRequestError :: "nat \<Rightarrow> Error \<Rightarrow> Error" where
  "wrapResourceRequestError index err =
     (if Details err = []
      then NewError CodeInvalidArgument False
             [\<lparr>EntityIndex = Some (int index), Field = ''resources'', DCode = ''''\<rparr>]
      else NewError (Code err) (Retryable err)
             (map (\<lambda>d. d\<lparr>EntityIndex := Some (int index)\<rparr>) (Details err)))"

definition map_error :: "(Error \<Rightarrow> Error) \<Rightarrow> 'a res \<Rightarrow> 'a res" where
  "map_error f r = (case r of Inl e \<Rightarrow> Inl (f e) | Inr x \<Rightarrow> Inr x)"

definition identity :: "NormalizedResource \<Rightarrow> ResourceKind \<times> string" where
  "identity r = (nkind r, Key r)"

text \<open>The loop of \<^verbatim>\<open>PrepareReservationRequest\<close>: \<open>seen\<close> holds the identities kept so far.\<close>

fun prepare_loop ::
  "nat \<Rightarrow> (ResourceKind \<times> string) list \<Rightarrow> PreparedResource list \<Rightarrow> Resource list \<Rightarrow> PreparedResource list res" where
  "prepare_loop index seen prepared [] = Inr prepared"
| "prepare_loop index seen prepared (resource # rest) =
     and_then (map_error (wrapResourceRequestError index) (Normalize resource)) (\<lambda>candidate.
       if identity candidate \<in> set seen then prepare_loop (Suc index) seen prepared rest
       else if list_ex (\<lambda>existing. Overlaps candidate (PResource existing)) prepared
       then Inl (NewError CodeInvalidReservationSet False
              [\<lparr>EntityIndex = Some (int index), Field = ''resources'', DCode = ''INTERNAL_OVERLAP''\<rparr>])
       else prepare_loop (Suc index) (identity candidate # seen)
              (prepared @ [\<lparr>Index = index, PResource = candidate\<rparr>]) rest)"

definition PrepareReservationRequest :: "Resource list \<Rightarrow> PreparedResource list res" where
  "PrepareReservationRequest resources =
     (if resources = [] then Inl (validationError ''resources'' ''REQUIRED'')
      else if int (length resources) > MaxReservationResources
      then Inl (NewError CodeLimitExceeded False [detail ''resources'' ''MAX_ITEMS''])
      else prepare_loop 0 [] [] resources)"

end
