(* ===== verification/ResourceOverlap.thy ===== *)
theory ResourceOverlap
  imports Resource
begin

text \<open>
  What the overlap test of \<^verbatim>\<open>reservation_overlap.go\<close> decides. A path resource denotes a set of
  project-relative paths (\<open>language\<close>): a file its own path, a directory itself and everything
  below it, a glob the paths its segments match. \<open>Overlaps\<close> is proved to hold exactly when two
  languages share a path.
\<close>

section \<open>Patterns\<close>

text \<open>
  The abstract pattern: per position a required segment or a wildcard, and whether any number of
  further segments may follow.
\<close>

type_synonym pattern = "string option list \<times> bool"

definition pmatch :: "pattern \<Rightarrow> string list \<Rightarrow> bool" where
  "pmatch q p \<longleftrightarrow>
     length (fst q) \<le> length p \<and> (snd q \<or> length p = length (fst q)) \<and>
     (\<forall>i < length (fst q). \<forall>t. fst q ! i = Some t \<longrightarrow> p ! i = t)"

definition pmeet :: "pattern \<Rightarrow> pattern \<Rightarrow> bool" where
  "pmeet q r \<longleftrightarrow>
     (\<forall>i < min (length (fst q)) (length (fst r)).
        \<forall>s t. fst q ! i = Some s \<longrightarrow> fst r ! i = Some t \<longrightarrow> s = t) \<and>
     (length (fst q) < length (fst r) \<longrightarrow> snd q) \<and> (length (fst r) < length (fst q) \<longrightarrow> snd r)"

lemma pmeet_sym: "pmeet q r \<longleftrightarrow> pmeet r q"
  unfolding pmeet_def by (metis min.commute)

lemma pmatch_pmeet: "pmatch q p \<Longrightarrow> pmatch r p \<Longrightarrow> pmeet q r"
proof -
  assume q: "pmatch q p" and r: "pmatch r p"
  have "s = t" if "i < min (length (fst q)) (length (fst r))" "fst q ! i = Some s" "fst r ! i = Some t"
    for i s t
  proof -
    have "p ! i = s" using q that by (simp add: pmatch_def)
    moreover have "p ! i = t" using r that by (simp add: pmatch_def)
    ultimately show ?thesis by simp
  qed
  moreover have "length (fst q) < length (fst r) \<Longrightarrow> snd q" "length (fst r) < length (fst q) \<Longrightarrow> snd r"
    using q r by (auto simp: pmatch_def)
  ultimately show ?thesis unfolding pmeet_def by blast
qed

text \<open>The witness: take the required segment wherever either side has one, \<open>a\<close> elsewhere.\<close>

definition pwitness :: "pattern \<Rightarrow> pattern \<Rightarrow> string list" where
  "pwitness q r =
     map (\<lambda>i. case (if i < length (fst q) then fst q ! i else None) of
                Some s \<Rightarrow> s
              | None \<Rightarrow> (case (if i < length (fst r) then fst r ! i else None) of
                          Some t \<Rightarrow> t | None \<Rightarrow> ''a''))
       [0..<max (length (fst q)) (length (fst r))]"

lemma pwitness_matches:
  assumes "pmeet q r"
  shows "pmatch q (pwitness q r) \<and> pmatch r (pwitness q r)"
proof -
  have len: "length (pwitness q r) = max (length (fst q)) (length (fst r))"
    by (simp add: pwitness_def)
  have q: "pwitness q r ! i = s" if "i < length (fst q)" "fst q ! i = Some s" for i s
    using that by (simp add: pwitness_def)
  have r: "pwitness q r ! i = t" if i: "i < length (fst r)" and t: "fst r ! i = Some t" for i t
  proof (cases "i < length (fst q) \<and> fst q ! i \<noteq> None")
    case True
    then obtain s where "fst q ! i = Some s" by auto
    moreover have "s = t"
      using assms True i t calculation unfolding pmeet_def by auto
    ultimately show ?thesis using True q by simp
  next
    case False
    then show ?thesis using i t by (auto simp: pwitness_def)
  qed
  show ?thesis
    using assms q r unfolding pmatch_def pmeet_def by (auto simp: len max_def)
qed

theorem pmeet_iff: "pmeet q r \<longleftrightarrow> (\<exists>p. pmatch q p \<and> pmatch r p)"
  using pmatch_pmeet pwitness_matches by blast

section \<open>The pattern of a normalized resource\<close>

definition seg_pattern :: "globSegment \<Rightarrow> string option" where
  "seg_pattern s = (if seg_kind s = globSegmentStar then None else Some (foldedText s))"

definition pattern_of :: "NormalizedResource \<Rightarrow> pattern" where
  "pattern_of r =
     (if nkind r = ResourceKindDirectory then (map seg_pattern (segments r), True)
      else (map seg_pattern (filter (\<lambda>s. seg_kind s \<noteq> globSegmentStarStar) (segments r)),
            \<exists>s \<in> set (segments r). seg_kind s = globSegmentStarStar))"

text \<open>
  Segment lists as normalization produces them: only globs have wildcards, and \<^verbatim>\<open>**\<close> is last.
\<close>

definition literal_segment :: "string \<Rightarrow> bool" where
  "literal_segment t \<longleftrightarrow> t \<noteq> '''' \<and> t \<noteq> ''.'' \<and> t \<noteq> ''..'' \<and> CHR ''/'' \<notin> set t"

definition wf_resource :: "NormalizedResource \<Rightarrow> bool" where
  "wf_resource r \<longleftrightarrow>
     (nkind r = ResourceKindLogical \<longrightarrow> validLogicalNamespace (namespace r) \<and> segments r = []) \<and>
     (nkind r \<noteq> ResourceKindLogical \<longrightarrow>
       nkind r \<in> {ResourceKindFile, ResourceKindDirectory, ResourceKindGlob} \<and>
       segments r \<noteq> [] \<and>
       (nkind r \<noteq> ResourceKindGlob \<longrightarrow> (\<forall>s \<in> set (segments r). seg_kind s = globSegmentLiteral)) \<and>
       (\<forall>s \<in> set (segments r). (seg_kind s = globSegmentStar \<longrightarrow> seg_text s = ''*'') \<and>
          (seg_kind s = globSegmentStarStar \<longrightarrow> seg_text s = ''**'') \<and>
          (seg_kind s = globSegmentLiteral \<longrightarrow> literal_segment (seg_text s))) \<and>
       (nkind r = ResourceKindGlob \<longrightarrow>
          (\<forall>s \<in> set (segments r). seg_kind s = globSegmentLiteral \<longrightarrow> CHR ''*'' \<notin> set (seg_text s))) \<and>
       (\<forall>s \<in> set (butlast (segments r)). seg_kind s \<noteq> globSegmentStarStar))"

definition path_kind :: "NormalizedResource \<Rightarrow> bool" where
  "path_kind r \<longleftrightarrow> nkind r \<noteq> ResourceKindLogical"

definition language :: "NormalizedResource \<Rightarrow> string list set" where
  "language r =
     (case nkind r of
        ResourceKindFile \<Rightarrow> {map foldedText (segments r)}
      | ResourceKindDirectory \<Rightarrow> {p. \<exists>rest. p = map foldedText (segments r) @ rest}
      | ResourceKindGlob \<Rightarrow>
          {p. let fixed = filter (\<lambda>s. seg_kind s \<noteq> globSegmentStarStar) (segments r) in
              \<exists>front rest. p = front @ rest \<and> list_all2 (\<lambda>s x. seg_kind s = globSegmentStar \<or> x = foldedText s) fixed front \<and>
                (rest = [] \<or> globSegmentStarStar \<in> seg_kind ` set (segments r))}
      | _ \<Rightarrow> {})"

lemma pattern_of_literal:
  assumes "\<forall>s \<in> set segs. seg_kind s = globSegmentLiteral"
  shows "map seg_pattern (filter (\<lambda>s. seg_kind s \<noteq> globSegmentStarStar) segs) =
           map Some (map foldedText segs)"
    and "map seg_pattern segs = map Some (map foldedText segs)"
  using assms by (induction segs) (auto simp: seg_pattern_def)

lemma pmatch_Some_iff:
  "pmatch (map Some ts, e) p \<longleftrightarrow> (\<exists>rest. p = ts @ rest \<and> (e \<or> rest = []))"
proof
  assume m: "pmatch (map Some ts, e) p"
  then have "take (length ts) p = ts"
    by (intro nth_equalityI) (auto simp: pmatch_def)
  then have "p = ts @ drop (length ts) p" by (metis append_take_drop_id)
  moreover have "e \<or> drop (length ts) p = []" using m by (auto simp: pmatch_def)
  ultimately show "\<exists>rest. p = ts @ rest \<and> (e \<or> rest = [])" by blast
next
  assume "\<exists>rest. p = ts @ rest \<and> (e \<or> rest = [])"
  then show "pmatch (map Some ts, e) p" by (auto simp: pmatch_def nth_append)
qed

lemma pmatch_segs_iff:
  "pmatch (map seg_pattern segs, e) p \<longleftrightarrow>
     (\<exists>front rest. p = front @ rest \<and>
        list_all2 (\<lambda>s x. seg_kind s = globSegmentStar \<or> x = foldedText s) segs front \<and>
        (rest = [] \<or> e))"
proof
  assume m: "pmatch (map seg_pattern segs, e) p"
  let ?n = "length segs"
  have "list_all2 (\<lambda>s x. seg_kind s = globSegmentStar \<or> x = foldedText s) segs (take ?n p)"
  proof (rule list_all2_all_nthI)
    show "length segs = length (take ?n p)" using m by (auto simp: pmatch_def)
    fix i assume i: "i < length segs"
    then have "seg_pattern (segs ! i) = Some t \<Longrightarrow> p ! i = t" for t
      using m by (auto simp: pmatch_def)
    then show "seg_kind (segs ! i) = globSegmentStar \<or> take ?n p ! i = foldedText (segs ! i)"
      using i by (cases "seg_kind (segs ! i) = globSegmentStar") (simp_all add: seg_pattern_def)
  qed
  moreover have "p = take ?n p @ drop ?n p" by simp
  moreover have "drop ?n p = [] \<or> e" using m by (auto simp: pmatch_def)
  ultimately show "\<exists>front rest. p = front @ rest \<and>
      list_all2 (\<lambda>s x. seg_kind s = globSegmentStar \<or> x = foldedText s) segs front \<and> (rest = [] \<or> e)"
    by blast
next
  assume "\<exists>front rest. p = front @ rest \<and>
      list_all2 (\<lambda>s x. seg_kind s = globSegmentStar \<or> x = foldedText s) segs front \<and> (rest = [] \<or> e)"
  then show "pmatch (map seg_pattern segs, e) p"
    by (auto simp: pmatch_def list_all2_conv_all_nth seg_pattern_def nth_append split: if_splits)
qed

lemma language_pattern:
  assumes "wf_resource r" and "path_kind r"
  shows "p \<in> language r \<longleftrightarrow> pmatch (pattern_of r) p"
proof -
  consider "nkind r = ResourceKindFile" | "nkind r = ResourceKindDirectory"
    | "nkind r = ResourceKindGlob"
    using assms by (auto simp: wf_resource_def path_kind_def)
  then show ?thesis
  proof cases
    case 1
    then have lit: "\<forall>s \<in> set (segments r). seg_kind s = globSegmentLiteral"
      using assms by (auto simp: wf_resource_def path_kind_def)
    then have "\<not> (\<exists>s \<in> set (segments r). seg_kind s = globSegmentStarStar)" by auto
    then have "pattern_of r = (map Some (map foldedText (segments r)), False)"
      using 1 pattern_of_literal(1) [OF lit] by (auto simp: pattern_of_def)
    then show ?thesis using 1 by (simp add: language_def pmatch_Some_iff del: map_map)
  next
    case 2
    then have lit: "\<forall>s \<in> set (segments r). seg_kind s = globSegmentLiteral"
      using assms by (auto simp: wf_resource_def path_kind_def)
    then have "pattern_of r = (map Some (map foldedText (segments r)), True)"
      using 2 pattern_of_literal(2) [OF lit] by (simp add: pattern_of_def)
    then show ?thesis using 2 by (simp add: language_def pmatch_Some_iff del: map_map)
  next
    case 3
    have "globSegmentStarStar \<in> seg_kind ` set (segments r) \<longleftrightarrow>
        (\<exists>s \<in> set (segments r). seg_kind s = globSegmentStarStar)" by force
    with 3 show ?thesis
      by (simp add: language_def pattern_of_def pmatch_segs_iff Let_def)
  qed
qed

section \<open>The code's comparisons as pattern meets\<close>

lemma foldl_shape:
  "prefix (foldl shape_step g segs) =
     prefix g @ map (\<lambda>s. if seg_kind s = globSegmentStar then ''*'' else asciiFold (seg_text s))
       (filter (\<lambda>s. seg_kind s \<noteq> globSegmentStarStar) segs)"
  "starIsGlob (foldl shape_step g segs) =
     starIsGlob g @ map (\<lambda>s. seg_kind s = globSegmentStar)
       (filter (\<lambda>s. seg_kind s \<noteq> globSegmentStarStar) segs)"
  "hasStarStar (foldl shape_step g segs) \<longleftrightarrow>
     hasStarStar g \<or> (\<exists>s \<in> set segs. seg_kind s = globSegmentStarStar)"
  by (induction segs arbitrary: g)
    (auto simp: shape_step_def split: globSegmentKind.splits)

text \<open>How a shape is read as a pattern.\<close>

definition shape_pattern :: "globShape \<Rightarrow> pattern" where
  "shape_pattern g =
     (map (\<lambda>i. if starIsGlob g ! i then None else Some (prefix g ! i)) [0..<length (prefix g)],
      hasStarStar g)"

lemma shape_pattern_shapeOf:
  "shape_pattern (shapeOf segs) =
     (map seg_pattern (filter (\<lambda>s. seg_kind s \<noteq> globSegmentStarStar) segs),
      \<exists>s \<in> set segs. seg_kind s = globSegmentStarStar)"
proof -
  let ?fs = "filter (\<lambda>s. seg_kind s \<noteq> globSegmentStarStar) segs"
  have mem: "?fs ! i \<in> set ?fs" if "i < length ?fs" for i using that by (rule nth_mem)
  have "seg_kind (?fs ! i) \<noteq> globSegmentStarStar" if "i < length ?fs" for i
    using mem [OF that] by simp
  then show ?thesis
    unfolding shape_pattern_def shapeOf_def
    by (auto simp: foldl_shape seg_pattern_def foldedText_def intro!: nth_equalityI
        intro: globSegmentKind.exhaust)
qed

lemma matchesPath_pmatch: "matchesPath g c \<longleftrightarrow> pmatch (shape_pattern g) c"
  unfolding matchesPath_def pmatch_def shape_pattern_def
  by (auto simp: list_all_iff split: if_splits)

lemma intersects_pmeet: "intersects g h \<longleftrightarrow> pmeet (shape_pattern g) (shape_pattern h)"
  unfolding intersects_def pmeet_def shape_pattern_def Let_def
  by (auto simp: list_ex_iff split: if_splits)

lemma directory_pmeet:
  "matchesPath g d \<or> intersectsDescendantsOf g d \<longleftrightarrow>
     pmeet (shape_pattern g) (map Some d, True)"
  unfolding matchesPath_pmatch intersectsDescendantsOf_def pmeet_def pmatch_def shape_pattern_def Let_def
  by (auto simp: list_ex_iff split: if_splits)

lemma glob_directory_pmeet:
  "pmeet (shape_pattern g) (map Some d, False) \<or> intersectsDescendantsOf g d \<longleftrightarrow>
     pmeet (shape_pattern g) (map Some d, True)"
  unfolding directory_pmeet [symmetric] by (simp add: matchesPath_pmatch pmeet_iff pmatch_Some_iff)

lemma matchesPath_pmeet:
  "matchesPath g d \<longleftrightarrow> pmeet (shape_pattern g) (map Some d, False)"
  unfolding matchesPath_pmatch pmeet_iff by (auto simp: pmatch_Some_iff)

lemma isPrefixOrEqual_iff: "isPrefixOrEqual p c \<longleftrightarrow> (\<exists>rest. c = p @ rest)"
proof
  assume "isPrefixOrEqual p c"
  then have "take (length p) c = p"
    by (intro nth_equalityI) (auto simp: isPrefixOrEqual_def list_all_iff split: if_splits)
  then show "\<exists>rest. c = p @ rest" by (metis append_take_drop_id)
qed (auto simp: isPrefixOrEqual_def list_all_iff nth_append)

lemma equalSegments_iff: "equalSegments a b \<longleftrightarrow> a = b"
  by (auto simp: equalSegments_def list_all_iff intro: nth_equalityI)

lemma pmeet_Some_Some:
  "pmeet (map Some a, d) (map Some b, e) \<longleftrightarrow>
     (\<exists>p. (\<exists>x. p = a @ x \<and> (d \<or> x = [])) \<and> (\<exists>y. p = b @ y \<and> (e \<or> y = [])))"
  by (simp add: pmeet_iff pmatch_Some_iff)

lemma pmeet_directories:
  "pmeet (map Some a, True) (map Some b, True) \<longleftrightarrow> (\<exists>r. b = a @ r) \<or> (\<exists>r. a = b @ r)"
proof -
  have "(\<exists>x y. a @ x = b @ y) \<longleftrightarrow> (\<exists>r. b = a @ r) \<or> (\<exists>r. a = b @ r)"
    by (metis append_assoc append_eq_append_conv2)
  then show ?thesis unfolding pmeet_Some_Some by auto
qed

lemma pmeet_literals:
  "pmeet (map Some a, False) (map Some b, False) \<longleftrightarrow> a = b"
  "pmeet (map Some a, False) (map Some b, True) \<longleftrightarrow> (\<exists>r. a = b @ r)"
  "pmeet (map Some a, True) (map Some b, False) \<longleftrightarrow> (\<exists>r. b = a @ r)"
  by (auto simp: pmeet_Some_Some)

lemma folded_PrepareOverlap:
  "path_kind r \<Longrightarrow> folded (PrepareOverlap r) = foldedSegments (segments r)"
  by (auto simp: PrepareOverlap_def path_kind_def Let_def)

lemma shape_PrepareOverlap:
  "nkind r = ResourceKindGlob \<Longrightarrow> shape (PrepareOverlap r) = shapeOf (segments r)"
  by (simp add: PrepareOverlap_def Let_def)

lemma po_resource_PrepareOverlap [simp]: "po_resource (PrepareOverlap r) = r"
  by (simp add: PrepareOverlap_def Let_def)

lemma FirstLiteralSegment_pattern:
  assumes "wf_resource r" and "path_kind r"
    and "FirstLiteralSegment (PrepareOverlap r) = Some x"
  shows "\<exists>rest. fst (pattern_of r) = Some x # rest"
  using assms
  by (cases "segments r")
    (auto simp: FirstLiteralSegment_def folded_PrepareOverlap foldedSegments_def pattern_of_def
      seg_pattern_def path_kind_def split: if_splits)

lemma first_literals_disjoint:
  assumes "wf_resource a" and "path_kind a" and "wf_resource b" and "path_kind b"
    and "FirstLiteralSegment (PrepareOverlap a) = Some x"
    and "FirstLiteralSegment (PrepareOverlap b) = Some y" and "x \<noteq> y"
  shows "\<not> pmeet (pattern_of a) (pattern_of b)"
proof
  assume m: "pmeet (pattern_of a) (pattern_of b)"
  obtain ra where ra: "fst (pattern_of a) = Some x # ra"
    using FirstLiteralSegment_pattern assms by blast
  obtain rb where rb: "fst (pattern_of b) = Some y # rb"
    using FirstLiteralSegment_pattern assms by blast
  have "(0::nat) < min (length (fst (pattern_of a))) (length (fst (pattern_of b)))"
    by (simp add: ra rb)
  then have "x = y" using m ra rb unfolding pmeet_def by (metis nth_Cons_0)
  with assms show False by simp
qed

lemma pattern_of_glob:
  "nkind r = ResourceKindGlob \<Longrightarrow> shape_pattern (shapeOf (segments r)) = pattern_of r"
  by (simp add: shape_pattern_shapeOf pattern_of_def)

lemma pattern_of_file:
  assumes "wf_resource r" and "nkind r = ResourceKindFile"
  shows "pattern_of r = (map Some (foldedSegments (segments r)), False)"
proof -
  have lit: "\<forall>s \<in> set (segments r). seg_kind s = globSegmentLiteral"
    using assms by (auto simp: wf_resource_def)
  then have "\<not> (\<exists>s \<in> set (segments r). seg_kind s = globSegmentStarStar)" by auto
  then show ?thesis
    using assms pattern_of_literal(1) [OF lit] by (auto simp: pattern_of_def foldedSegments_def)
qed

lemma pattern_of_directory:
  assumes "wf_resource r" and "nkind r = ResourceKindDirectory"
  shows "pattern_of r = (map Some (foldedSegments (segments r)), True)"
proof -
  have lit: "\<forall>s \<in> set (segments r). seg_kind s = globSegmentLiteral"
    using assms by (auto simp: wf_resource_def)
  then show ?thesis using assms pattern_of_literal(2) [OF lit]
    by (simp add: pattern_of_def foldedSegments_def)
qed

lemmas prepared_simps = folded_PrepareOverlap shape_PrepareOverlap path_kind_def
lemmas compare_simps = equalSegments_iff isPrefixOrEqual_iff

lemma kind_compare_pmeet:
  assumes wf: "wf_resource a" "wf_resource b" and pk: "path_kind a" "path_kind b"
    and nofirst: "\<not> (case (FirstLiteralSegment (PrepareOverlap a), FirstLiteralSegment (PrepareOverlap b)) of
             (Some x, Some y) \<Rightarrow> x \<noteq> y | _ \<Rightarrow> False)"
  shows "Overlaps a b \<longleftrightarrow> pmeet (pattern_of a) (pattern_of b)"
proof -
  have ka: "nkind a = ResourceKindFile \<or> nkind a = ResourceKindDirectory \<or> nkind a = ResourceKindGlob"
    and kb: "nkind b = ResourceKindFile \<or> nkind b = ResourceKindDirectory \<or> nkind b = ResourceKindGlob"
    using wf pk by (auto simp: wf_resource_def path_kind_def)
  note pats = pattern_of_file [OF wf(1)] pattern_of_directory [OF wf(1)]
    pattern_of_file [OF wf(2)] pattern_of_directory [OF wf(2)]
  have gg: "nkind a = ResourceKindGlob \<Longrightarrow> shape_pattern (shapeOf (segments a)) = pattern_of a"
      "nkind b = ResourceKindGlob \<Longrightarrow> shape_pattern (shapeOf (segments b)) = pattern_of b"
    by (simp_all add: pattern_of_glob)
  have swap: "pmeet (map Some d, e) (pattern_of b) = pmeet (pattern_of b) (map Some d, e)" for d e
    by (rule pmeet_sym)
  have dirs: "nkind a = ResourceKindGlob \<Longrightarrow> (pmeet (pattern_of a) (map Some d, False) \<or>
        intersectsDescendantsOf (shapeOf (segments a)) d) = pmeet (pattern_of a) (map Some d, True)"
      "nkind b = ResourceKindGlob \<Longrightarrow> (pmeet (pattern_of b) (map Some d, False) \<or>
        intersectsDescendantsOf (shapeOf (segments b)) d) = pmeet (pattern_of b) (map Some d, True)"
    for d using glob_directory_pmeet [of "shapeOf (segments a)" d]
      glob_directory_pmeet [of "shapeOf (segments b)" d] by (simp_all add: gg)
  show ?thesis
    using ka kb nofirst pk
    unfolding Overlaps_def PreparedOverlaps_def Let_def po_resource_PrepareOverlap
    by (elim disjE)
      (simp_all add: prepared_simps compare_simps pats gg intersects_pmeet matchesPath_pmeet
        dirs pmeet_literals pmeet_directories swap)
qed

lemma overlaps_pmeet:
  assumes wf: "wf_resource a" "wf_resource b" and pk: "path_kind a" "path_kind b"
  shows "Overlaps a b \<longleftrightarrow> pmeet (pattern_of a) (pattern_of b)"
proof (cases "case (FirstLiteralSegment (PrepareOverlap a), FirstLiteralSegment (PrepareOverlap b)) of
             (Some x, Some y) \<Rightarrow> x \<noteq> y | _ \<Rightarrow> False")
  case False
  then show ?thesis by (rule kind_compare_pmeet [OF wf pk])
next
  case True
  then obtain x y where "FirstLiteralSegment (PrepareOverlap a) = Some x"
      "FirstLiteralSegment (PrepareOverlap b) = Some y" "x \<noteq> y"
    by (auto split: option.splits)
  then have "\<not> pmeet (pattern_of a) (pattern_of b)"
    using first_literals_disjoint wf pk by blast
  moreover have "\<not> Overlaps a b"
    using True pk by (auto simp: Overlaps_def PreparedOverlaps_def Let_def path_kind_def)
  ultimately show ?thesis by simp
qed

section \<open>Overlap and languages\<close>

text \<open>Paths as the project has them: no empty or dot segment, compared after case folding.\<close>

definition real_path :: "string list \<Rightarrow> bool" where
  "real_path p \<longleftrightarrow> p \<noteq> [] \<and> (\<forall>t \<in> set p. literal_segment t \<and> asciiFold t = t)"

lemma byte_char_of [simp]: "n < 256 \<Longrightarrow> byte (char_of n) = n"
  by simp

lemma lower_byte_cases: "lower_byte c = c \<or> byte (lower_byte c) \<in> {97..122} \<and> is_upper c"
  by (auto simp: lower_byte_def is_upper_def)

lemma lower_byte_not_upper: "\<not> is_upper (lower_byte c)"
  by (auto simp: lower_byte_def is_upper_def)

lemma asciiFold_map: "asciiFold t = map lower_byte t"
  by (auto simp: asciiFold_def list_ex_iff lower_byte_def intro!: map_idI [symmetric])

lemma asciiFold_idem: "asciiFold (asciiFold t) = asciiFold t"
  using lower_byte_not_upper by (simp add: asciiFold_map lower_byte_def)

lemma lower_byte_eq_other:
  "\<not> is_lower c \<Longrightarrow> lower_byte x = c \<longleftrightarrow> x = c \<and> \<not> is_upper c"
  using lower_byte_cases [of x] lower_byte_not_upper [of x]
  by (auto simp: is_lower_def lower_byte_def)

lemma slash_asciiFold: "CHR ''/'' \<in> set (asciiFold t) \<longleftrightarrow> CHR ''/'' \<in> set t"
proof -
  have "lower_byte x = CHR ''/'' \<longleftrightarrow> x = CHR ''/''" for x
    using lower_byte_eq_other [of "CHR ''/''" x] by (simp add: is_lower_def is_upper_def)
  then show ?thesis by (metis asciiFold_map image_iff list.set_map)
qed

lemma literal_segment_asciiFold: "literal_segment t \<Longrightarrow> literal_segment (asciiFold t)"
  unfolding literal_segment_def slash_asciiFold
  by (auto simp: asciiFold_map lower_byte_eq_other is_lower_def is_upper_def map_eq_Cons_conv)

lemma pattern_of_literal_segments:
  assumes "wf_resource r" and "path_kind r" and "Some t \<in> set (fst (pattern_of r))"
  shows "literal_segment t \<and> asciiFold t = t"
proof -
  obtain s where s: "s \<in> set (segments r)" "seg_pattern s = Some t" "seg_kind s \<noteq> globSegmentStarStar"
    using assms by (auto simp: pattern_of_def wf_resource_def path_kind_def image_iff split: if_splits)
      (metis globSegmentKind.distinct(3))+
  then have "seg_kind s = globSegmentLiteral" "t = asciiFold (seg_text s)"
    by (cases "seg_kind s"; auto simp: seg_pattern_def foldedText_def)+
  then show ?thesis
    using assms s by (auto simp: wf_resource_def path_kind_def literal_segment_asciiFold asciiFold_idem)
qed

lemma pwitness_real:
  assumes "wf_resource a" "path_kind a" "wf_resource b" "path_kind b"
    and "t \<in> set (pwitness (pattern_of a) (pattern_of b))"
  shows "literal_segment t \<and> asciiFold t = t"
proof -
  have "t = ''a'' \<or> Some t \<in> set (fst (pattern_of a)) \<or> Some t \<in> set (fst (pattern_of b))"
  proof -
    obtain i where i: "t = (case (if i < length (fst (pattern_of a)) then fst (pattern_of a) ! i else None) of
        Some s \<Rightarrow> s | None \<Rightarrow> (case (if i < length (fst (pattern_of b)) then fst (pattern_of b) ! i else None) of
          Some t \<Rightarrow> t | None \<Rightarrow> ''a''))"
      using assms(5) unfolding pwitness_def set_map by blast
    show ?thesis
      using i nth_mem [of i "fst (pattern_of a)"] nth_mem [of i "fst (pattern_of b)"]
      by (cases "fst (pattern_of a) ! i"; cases "fst (pattern_of b) ! i")
        (auto split: if_splits)
  qed
  moreover have "literal_segment ''a'' \<and> asciiFold ''a'' = ''a''"
    by (simp add: literal_segment_def asciiFold_def is_upper_def)
  ultimately show ?thesis using pattern_of_literal_segments assms by blast
qed

lemma pattern_nonempty:
  assumes "wf_resource r" "path_kind r" shows "fst (pattern_of r) \<noteq> [] \<or> snd (pattern_of r)"
  using assms by (auto simp: pattern_of_def wf_resource_def path_kind_def filter_empty_conv)

lemma pmeet_real_path:
  assumes wf: "wf_resource a" "path_kind a" "wf_resource b" "path_kind b"
    and m: "pmeet (pattern_of a) (pattern_of b)"
  shows "\<exists>p. real_path p \<and> pmatch (pattern_of a) p \<and> pmatch (pattern_of b) p"
proof (cases "pwitness (pattern_of a) (pattern_of b) = []")
  case False
  then show ?thesis
    using pwitness_matches [OF m] pwitness_real [OF wf] unfolding real_path_def by blast
next
  case True
  then have "fst (pattern_of a) = []" "fst (pattern_of b) = []"
    by (simp_all add: pwitness_def max_def split: if_splits)
  then have "pmatch (pattern_of a) [''a'']" "pmatch (pattern_of b) [''a'']"
    using pattern_nonempty wf by (auto simp: pmatch_def)
  moreover have "real_path [''a'']"
    by (simp add: real_path_def literal_segment_def asciiFold_def is_upper_def)
  ultimately show ?thesis by blast
qed

lemma overlaps_languages:
  assumes wf: "wf_resource a" "wf_resource b" and pk: "path_kind a" "path_kind b"
  shows "Overlaps a b \<longleftrightarrow> (\<exists>p. real_path p \<and> p \<in> language a \<and> p \<in> language b)"
  using pmeet_real_path [OF wf(1) pk(1) wf(2) pk(2)] pmatch_pmeet
  unfolding overlaps_pmeet [OF wf pk] language_pattern [OF wf(1) pk(1)] language_pattern [OF wf(2) pk(2)]
  by blast

lemma overlaps_logical:
  "\<not> path_kind a \<or> \<not> path_kind b \<Longrightarrow>
     Overlaps a b \<longleftrightarrow> nkind a = nkind b \<and> namespace a = namespace b \<and> name a = name b"
  by (auto simp: Overlaps_def PreparedOverlaps_def Let_def path_kind_def)

lemma overlaps_sym:
  assumes "wf_resource a" "wf_resource b" shows "Overlaps a b \<longleftrightarrow> Overlaps b a"
proof (cases "path_kind a \<and> path_kind b")
  case True
  then have p: "path_kind a" "path_kind b" by simp_all
  show ?thesis
    unfolding overlaps_pmeet [OF assms p] overlaps_pmeet [OF assms(2,1) p(2,1)] by (rule pmeet_sym)
next
  case False
  then have "\<not> path_kind a \<or> \<not> path_kind b" "\<not> path_kind b \<or> \<not> path_kind a" by auto
  then show ?thesis
    unfolding overlaps_logical [of a b, OF \<open>\<not> path_kind a \<or> \<not> path_kind b\<close>]
      overlaps_logical [of b a, OF \<open>\<not> path_kind b \<or> \<not> path_kind a\<close>] by argo
qed

lemma overlaps_refl:
  assumes "wf_resource a" shows "Overlaps a a"
proof (cases "path_kind a")
  case True
  show ?thesis unfolding overlaps_pmeet [OF assms assms True True] by (simp add: pmeet_def)
next
  case False
  then show ?thesis by (simp add: overlaps_logical)
qed

end
