(* ===== verification/TextFacts.thy ===== *)
theory TextFacts
  imports DomainError
begin

text \<open>
  Trimming and text bounds: removing white space at either end keeps text valid UTF-8 and never
  lengthens it, so a validated and trimmed value validates again. The key fact is that a UTF-8
  sequence never runs across a byte that starts a new one.
\<close>

section \<open>Rune boundaries\<close>

definition starts_rune :: "char \<Rightarrow> bool" where
  "starts_rune c \<longleftrightarrow> \<not> (128 \<le> byte c \<and> byte c \<le> 191)"

lemma width_le: "utf8_width s \<le> length s"
  by (auto simp: utf8_width_def Let_def split: list.splits)

lemma width_boundary:
  assumes "starts_rune c" and "x \<noteq> []" shows "utf8_width (x @ c # y) = utf8_width x"
proof -
  have nc: "\<not> cont_byte c" "\<not> second_ok b (byte c)" for b
    using assms(1) by (auto simp: cont_byte_def second_ok_def starts_rune_def split: if_splits)
  consider a where "x = [a]" | a b where "x = [a, b]" | a b d where "x = [a, b, d]"
    | a b d e r where "x = a # b # d # e # r"
    using assms(2) by (metis neq_Nil_conv)
  then show ?thesis
    by cases (simp_all add: utf8_width_def nc Let_def split: list.splits)
qed

lemma valid_boundary:
  assumes "starts_rune c" shows "utf8_valid (x @ c # y) \<longleftrightarrow> utf8_valid x \<and> utf8_valid (c # y)"
proof (induction x rule: utf8_valid.induct)
  case (1 x)
  show ?case
  proof (cases "x = [] \<or> utf8_width x = 0")
    case True
    then show ?thesis
      using width_boundary [OF assms, of x y]
      by (cases "x = []") (simp_all add: utf8_valid.simps [of x] utf8_valid.simps [of "x @ c # y"])
  next
    case False
    then show ?thesis
      using 1 width_boundary [OF assms, of x y] width_le [of x]
      by (simp add: utf8_valid.simps [of x] utf8_valid.simps [of "x @ c # y"])
  qed
qed

lemma count_boundary:
  assumes "starts_rune c" shows "rune_count (x @ c # y) = rune_count x + rune_count (c # y)"
proof (induction x rule: rune_count.induct)
  case (1 x)
  show ?case
  proof (cases "x = []")
    case False
    then have "max 1 (utf8_width x) \<le> length x" using width_le [of x] by (cases x) auto
    then show ?thesis
      using 1 False width_boundary [OF assms False, of y]
      by (simp add: rune_count.simps [of x] rune_count.simps [of "x @ c # y"])
  qed simp
qed

section \<open>Trimming\<close>

definition rune_token :: "string \<Rightarrow> bool" where
  "rune_token t \<longleftrightarrow> t \<noteq> [] \<and> starts_rune (hd t) \<and> utf8_width t = length t"

lemma space_tokens_runes: "list_all rune_token space_tokens"
  by code_simp

lemma width_token_append:
  assumes "rune_token t" shows "utf8_width (t @ s) = length t"
proof -
  have "utf8_width t = length t" "t \<noteq> []" using assms by (auto simp: rune_token_def)
  then consider a where "t = [a]" | a b where "t = [a, b]" | a b c where "t = [a, b, c]"
    | a b c d where "t = [a, b, c, d]" | a b c d e r where "t = a # b # c # d # e # r"
    by (metis neq_Nil_conv)
  then show ?thesis
    using \<open>utf8_width t = length t\<close>
    by cases (auto simp: utf8_width_def Let_def split: if_splits list.splits)
qed

lemma token_front:
  assumes "rune_token t"
  shows "utf8_valid (t @ s) = utf8_valid s" and "rune_count (t @ s) = Suc (rune_count s)"
  using width_token_append [OF assms] assms
  by (simp_all add: utf8_valid.simps [of "t @ s"] rune_count.simps [of "t @ s"] rune_token_def max_def
      Suc_le_eq)

lemma token_back:
  assumes "rune_token t"
  shows "utf8_valid (s @ t) = utf8_valid s" and "rune_count (s @ t) = Suc (rune_count s)"
proof -
  obtain c cs where t: "t = c # cs" "starts_rune c" using assms by (cases t) (auto simp: rune_token_def)
  have v: "utf8_valid t" "rune_count t = 1"
    using token_front [OF assms, of "[]"] by simp_all
  show "utf8_valid (s @ t) = utf8_valid s" "rune_count (s @ t) = Suc (rune_count s)"
    using valid_boundary [OF t(2)] count_boundary [OF t(2)] v unfolding t(1) by simp_all
qed

lemma trim_left_valid:
  assumes "\<forall>t \<in> set toks. rune_token t"
  shows "(utf8_valid s \<longrightarrow> utf8_valid (trim_left_with toks s)) \<and>
     rune_count (trim_left_with toks s) \<le> rune_count s"
  using assms
proof (induction toks s rule: trim_left_with.induct)
  case (1 toks s)
  show ?case
  proof (cases "front_space toks s")
    case None
    then show ?thesis by (simp add: trim_left_with.simps [of toks s])
  next
    case (Some t)
    then have t: "rune_token t" "take (length t) s = t" "t \<noteq> []"
      using 1(2) by (auto simp: front_space_def find_Some_iff rune_token_def)
    then have s: "s = t @ drop (length t) s" by (metis append_take_drop_id)
    have "s \<noteq> []" using t by auto
    then show ?thesis
      using 1(1) [OF Some] 1(2) t Some token_front [OF t(1), of "drop (length t) s"] s
      by (simp add: trim_left_with.simps [of toks s])
  qed
qed

lemma trim_right_valid:
  assumes "\<forall>t \<in> set toks. rune_token (rev t)"
  shows "(utf8_valid (rev s) \<longrightarrow> utf8_valid (rev (trim_left_with toks s))) \<and>
     rune_count (rev (trim_left_with toks s)) \<le> rune_count (rev s)"
  using assms
proof (induction toks s rule: trim_left_with.induct)
  case (1 toks s)
  show ?case
  proof (cases "front_space toks s")
    case None
    then show ?thesis by (simp add: trim_left_with.simps [of toks s])
  next
    case (Some t)
    then have t: "rune_token (rev t)" "take (length t) s = t" "t \<noteq> []"
      using 1(2) by (auto simp: front_space_def find_Some_iff rune_token_def)
    then have "s = t @ drop (length t) s" by (metis append_take_drop_id)
    then have s: "rev s = rev (drop (length t) s) @ rev t" by (metis rev_append)
    have "s \<noteq> []" using t by auto
    then show ?thesis
      using 1(1) [OF Some] 1(2) t Some token_back [OF t(1), of "rev (drop (length t) s)"] s
      by (simp add: trim_left_with.simps [of toks s])
  qed
qed

lemma TrimSpace_valid:
  "(utf8_valid s \<longrightarrow> utf8_valid (TrimSpace s)) \<and> rune_count (TrimSpace s) \<le> rune_count s"
proof -
  have toks: "\<forall>t \<in> set space_tokens. rune_token t"
    using space_tokens_runes by (simp add: list_all_iff)
  then have rtoks: "\<forall>t \<in> set (map rev space_tokens). rune_token (rev t)" by simp
  show ?thesis
    using trim_left_valid [OF toks, of s]
      trim_right_valid [OF rtoks, of "rev (trim_left_with space_tokens s)"]
    unfolding TrimSpace_def by (simp only: rev_rev_ident) linarith
qed

lemma TrimSpace_subset: "set (TrimSpace s) \<subseteq> set s"
  using TrimSpace_infix [of s] by (metis Un_iff set_append subsetI)

lemma ValidateText_TrimSpace:
  assumes "ValidateText f s m = Inr ()" shows "ValidateText g (TrimSpace s) m = Inr ()"
  using assms TrimSpace_valid [of s] TrimSpace_subset [of s]
  unfolding ValidateText_Inr by fastforce

end
