(* ===== verification/ResourceNormalize.thy ===== *)
theory ResourceNormalize
  imports ResourceOverlap TextFacts
begin

text \<open>
  What \<^verbatim>\<open>domain.Normalize\<close> guarantees of its result: the shape the overlap test relies on, that the
  comparison key identifies the denoted paths, and how far a stored resource survives being
  normalized again (\<^verbatim>\<open>internal/adapters/sqlite/reservations.go\<close> stores \<open>identityResource\<close> and
  re-normalizes it on every scan).
\<close>

section \<open>UTF-8 across the separator\<close>

lemma slash_starts_rune: "starts_rune CHR ''/''"
  by (simp add: starts_rune_def)

lemma utf8_valid_Join:
  "utf8_valid (Join xs ''/'') \<longleftrightarrow> (\<forall>x \<in> set xs. utf8_valid x)"
  by (induction xs "''/''" rule: Join.induct) (simp_all add: valid_boundary [OF slash_starts_rune])

lemma rune_count_Join:
  "xs \<noteq> [] \<Longrightarrow> Suc (rune_count (Join xs ''/'')) = (\<Sum>x\<leftarrow>xs. Suc (rune_count x))"
  by (induction xs "''/''" rule: Join.induct) (simp_all add: count_boundary [OF slash_starts_rune])

lemma Join_Split: "Join (Split sep s) [sep] = s"
proof (induction s)
  case (Cons c cs)
  then show ?case
    by (cases "Split sep cs"; cases "tl (Split sep cs)") (auto simp: neq_Nil_conv)
qed simp

lemma Split_subset: "x \<in> set (Split sep s) \<Longrightarrow> set x \<subseteq> set s"
proof (induction s arbitrary: x)
  case (Cons c cs)
  then show ?case
    by (cases "Split sep cs") (fastforce split: if_splits)+
qed simp

lemma set_Join: "set (Join xs sep) \<subseteq> \<Union> (set ` set xs) \<union> set sep"
  by (induction xs sep rule: Join.induct) auto

lemma rune_count_Join_filter:
  assumes "filter p xs \<noteq> []"
  shows "rune_count (Join (filter p xs) ''/'') \<le> rune_count (Join xs ''/'')"
proof -
  have "(\<Sum>x\<leftarrow>filter p xs. Suc (rune_count x)) \<le> (\<Sum>x\<leftarrow>xs. Suc (rune_count x))"
    by (induction xs) auto
  moreover have "xs \<noteq> []" using assms by auto
  ultimately show ?thesis using rune_count_Join [OF assms] rune_count_Join [of xs] by simp
qed

section \<open>Trimming is idempotent\<close>

lemma front_space_prefix:
  assumes "front_space toks (x @ y) = None" shows "front_space toks x = None"
proof -
  have "take (length t) x \<noteq> t" if "t \<in> set toks" for t
  proof
    assume e: "take (length t) x = t"
    then have "length t \<le> length x" by (metis length_take min.cobounded1)
    then have "take (length t) (x @ y) = t" using e by simp
    with assms that show False by (simp add: front_space_def find_None_iff)
  qed
  then show ?thesis by (simp add: front_space_def find_None_iff)
qed

lemma trim_left_with_prefix:
  assumes "[] \<notin> set toks" and "trim_left_with toks s = x @ y"
  shows "trim_left_with toks x = x"
proof (cases "trim_left_with toks s = []")
  case True
  then show ?thesis using assms by (simp add: trim_left_with.simps [of toks "[]"] split: option.splits)
next
  case False
  have "front_space toks (x @ y) \<noteq> Some []"
    using assms(1) by (auto simp: front_space_def find_Some_iff dest: nth_mem)
  then have "front_space toks (x @ y) = None"
    using trim_left_with_stop [of toks s] False assms(2) by auto
  then have "front_space toks x = None" by (rule front_space_prefix)
  then show ?thesis by (subst trim_left_with.simps) simp
qed

lemma TrimSpace_idem [simp]: "TrimSpace (TrimSpace s) = TrimSpace s"
proof -
  let ?t = "trim_left_with space_tokens s"
  have ne: "[] \<notin> set space_tokens" by (simp add: space_tokens_def bytes_def)
  obtain q where "rev ?t = q @ trim_left_with (map rev space_tokens) (rev ?t)"
    using trim_left_with_suffix by blast
  then have "?t = TrimSpace s @ rev q"
    unfolding TrimSpace_def by (metis rev_append rev_rev_ident)
  then have "trim_left_with space_tokens (TrimSpace s) = TrimSpace s"
    by (rule trim_left_with_prefix [OF ne])
  then show ?thesis
    unfolding TrimSpace_def [of "TrimSpace s"] by (simp add: TrimSpace_def)
qed

section \<open>The normal form\<close>

lemma classifyGlobSegment_cases:
  assumes "classifyGlobSegment t k = Inr s"
  shows "seg_text s = t" and "k \<noteq> ResourceKindGlob \<Longrightarrow> seg_kind s = globSegmentLiteral"
    and "seg_kind s = globSegmentStar \<Longrightarrow> t = ''*''" and "seg_kind s = globSegmentStarStar \<Longrightarrow> t = ''**''"
    and "k = ResourceKindGlob \<Longrightarrow> seg_kind s = globSegmentLiteral \<Longrightarrow> CHR ''*'' \<notin> set t"
proof -
  show "seg_text s = t" "k \<noteq> ResourceKindGlob \<Longrightarrow> seg_kind s = globSegmentLiteral"
    "seg_kind s = globSegmentStar \<Longrightarrow> t = ''*''" "seg_kind s = globSegmentStarStar \<Longrightarrow> t = ''**''"
    using assms unfolding classifyGlobSegment_def by (metis (no_types, lifting) Inr_inject
        globSegment.select_convs globSegmentKind.distinct sum.distinct(1))+
  show "CHR ''*'' \<notin> set t" if "k = ResourceKindGlob" "seg_kind s = globSegmentLiteral"
  proof
    assume "CHR ''*'' \<in> set t"
    then have "list_ex (\<lambda>c. c \<in> set ''*?[]{}'' \<or> c = CHR 0x5C) t" by (auto simp: list_ex_iff)
    with assms that show False by (auto simp: classifyGlobSegment_def simp del: list.set split: if_splits)
  qed
qed

definition kept_part :: "string \<Rightarrow> bool" where
  "kept_part t \<longleftrightarrow> t \<noteq> '''' \<and> t \<noteq> ''.''"

lemma normalize_parts_texts:
  "normalize_parts k parts = Inr segs \<Longrightarrow> map seg_text segs = filter kept_part parts"
  by (induction k parts arbitrary: segs rule: normalize_parts.induct)
    (auto simp: result_simps kept_part_def classifyGlobSegment_cases(1) split: if_splits)

lemma normalize_parts_again:
  "normalize_parts k parts = Inr segs \<Longrightarrow> normalize_parts k (map seg_text segs) = Inr segs"
  by (induction k parts arbitrary: segs rule: normalize_parts.induct)
    (auto simp: result_simps classifyGlobSegment_cases(1) split: if_splits)

lemma normalize_parts_segments:
  assumes "normalize_parts k parts = Inr segs" and "s \<in> set segs"
  shows "seg_text s \<in> set parts \<and> kept_part (seg_text s) \<and> seg_text s \<noteq> ''..'' \<and>
     classifyGlobSegment (seg_text s) k = Inr s"
  using assms
  by (induction k parts arbitrary: segs rule: normalize_parts.induct)
    (auto simp: result_simps kept_part_def classifyGlobSegment_cases(1) split: if_splits)

lemma in_set_butlast_conv:
  "x \<in> set (butlast xs) \<longleftrightarrow> (\<exists>i < length xs. i \<noteq> length xs - 1 \<and> xs ! i = x)"
proof
  assume "x \<in> set (butlast xs)"
  then obtain i where "i < length xs - 1" "butlast xs ! i = x" by (auto simp: in_set_conv_nth)
  then show "\<exists>i < length xs. i \<noteq> length xs - 1 \<and> xs ! i = x"
    by (intro exI [of _ i]) (auto simp: nth_butlast)
next
  assume "\<exists>i < length xs. i \<noteq> length xs - 1 \<and> xs ! i = x"
  then obtain i where "i < length xs" "i \<noteq> length xs - 1" "xs ! i = x" by blast
  then have "i < length xs - 1" "xs ! i = x" by linarith+
  then show "x \<in> set (butlast xs)" by (metis in_set_conv_nth length_butlast nth_butlast)
qed

lemma starstar_last:
  "validateStarStarPlacement segs ResourceKindGlob = Inr () \<longleftrightarrow>
     (\<forall>s \<in> set (butlast segs). seg_kind s \<noteq> globSegmentStarStar)"
proof -
  have "(\<exists>i \<in> {0..<length segs}. seg_kind (segs ! i) = globSegmentStarStar \<and> i \<noteq> length segs - 1) \<longleftrightarrow>
      (\<exists>s \<in> set (butlast segs). seg_kind s = globSegmentStarStar)"
    unfolding Bex_def in_set_butlast_conv by auto
  then show ?thesis unfolding validateStarStarPlacement_def list_ex_iff set_upt by auto
qed

lemma normalizePath_Inr:
  assumes "normalizePath input = Inr r"
  shows "normalize_parts (RKind input) (Split CHR ''/'' (Path input)) = Inr (segments r)"
    and "segments r \<noteq> []" and "validateStarStarPlacement (segments r) (RKind input) = Inr ()"
    and "r = \<lparr>nkind = RKind input, display = Join (map seg_text (segments r)) ''/'',
               segments = segments r, namespace = '''', name = ''''\<rparr>"
    and "utf8_valid (Path input)" and "CHR 0x00 \<notin> set (Path input)"
    and "int (rune_count (Path input)) \<le> MaxResourcePathRunes" and "CHR 0x5C \<notin> set (Path input)"
  using assms by (auto simp: normalizePath_def result_simps MaxResourcePathRunes_def)

lemma normalizeLogical_Inr:
  assumes "normalizeLogical input = Inr r"
  shows "r = \<lparr>nkind = ResourceKindLogical, display = Namespace input @ '':'' @ TrimSpace (Name input),
      segments = [], namespace = Namespace input, name = TrimSpace (Name input)\<rparr>"
    and "validLogicalNamespace (Namespace input)"
    and "ValidateText ''namespace'' (Namespace input) MaxLogicalNamespaceRunes = Inr ()"
    and "ValidateText ''name'' (TrimSpace (Name input)) MaxLogicalNameRunes = Inr ()"
    and "TrimSpace (Name input) \<noteq> ''''"
  using assms by (auto simp: normalizeLogical_def Let_def result_simps)

lemma normalizeLogical_fields:
  assumes "normalizeLogical input = Inr r"
  shows "nkind r = ResourceKindLogical" "namespace r = Namespace input" "segments r = []"
    "name r = TrimSpace (Name input)"
  using normalizeLogical_Inr(1) [OF assms] by (metis NormalizedResource.select_convs)+

lemma normalize_cases:
  assumes "Normalize input = Inr r"
  obtains (logical) "RKind input = ResourceKindLogical" "normalizeLogical input = Inr r"
    | (path) "RKind input \<in> {ResourceKindFile, ResourceKindDirectory, ResourceKindGlob}"
        "normalizePath input = Inr r"
  using assms by (cases "RKind input") (auto simp: Normalize_def split: if_splits)

lemma normalize_kind:
  assumes "Normalize input = Inr r" shows "nkind r = RKind input" and "ResourceKind_Valid (nkind r)"
proof -
  show k: "nkind r = RKind input"
    using assms
  proof (cases rule: normalize_cases)
    case logical
    then show ?thesis using normalizeLogical_Inr(1) by (metis NormalizedResource.select_convs(1))
  next
    case path
    then show ?thesis using normalizePath_Inr(4) by (metis NormalizedResource.select_convs(1))
  qed
  show "ResourceKind_Valid (nkind r)"
    using assms k by (cases rule: normalize_cases) auto
qed

lemma normalizePath_segments:
  assumes n: "normalizePath input = Inr r" and s: "s \<in> set (segments r)"
  shows "literal_segment (seg_text s)" and "classifyGlobSegment (seg_text s) (nkind r) = Inr s"
proof -
  note segs = normalize_parts_segments [OF normalizePath_Inr(1) [OF n] s]
  have k: "nkind r = RKind input" using normalizePath_Inr(4) [OF n] by (metis NormalizedResource.select_convs(1))
  show "literal_segment (seg_text s)"
    using segs Split_no_sep unfolding literal_segment_def kept_part_def by blast
  show "classifyGlobSegment (seg_text s) (nkind r) = Inr s" using segs k by simp
qed

lemma normalize_wf:
  assumes "Normalize input = Inr r" shows "wf_resource r"
  using assms
proof (cases rule: normalize_cases)
  case logical
  then show ?thesis
    using normalizeLogical_fields normalizeLogical_Inr(2) by (simp add: wf_resource_def)
next
  case n: path
  have k: "nkind r = RKind input" using assms by (rule normalize_kind)
  note cls = normalizePath_segments [OF n(2)]
  have lit: "nkind r \<noteq> ResourceKindGlob \<Longrightarrow> \<forall>s \<in> set (segments r). seg_kind s = globSegmentLiteral"
    using cls(2) classifyGlobSegment_cases(2) by blast
  have ss: "\<forall>s \<in> set (butlast (segments r)). seg_kind s \<noteq> globSegmentStarStar"
  proof (cases "nkind r = ResourceKindGlob")
    case True
    then show ?thesis using normalizePath_Inr(3) [OF n(2)] k by (simp add: starstar_last)
  next
    case False
    then show ?thesis using lit in_set_butlastD by fastforce
  qed
  have shapes: "(seg_kind s = globSegmentStar \<longrightarrow> seg_text s = ''*'') \<and>
      (seg_kind s = globSegmentStarStar \<longrightarrow> seg_text s = ''**'') \<and> literal_segment (seg_text s) \<and>
      (nkind r = ResourceKindGlob \<longrightarrow> seg_kind s = globSegmentLiteral \<longrightarrow> CHR ''*'' \<notin> set (seg_text s))"
    if "s \<in> set (segments r)" for s
    using cls [OF that] classifyGlobSegment_cases(3-5) by blast
  show ?thesis
    unfolding wf_resource_def
    using lit ss n(1) k normalizePath_Inr(2) [OF n(2)] shapes by auto
qed

section \<open>Re-normalizing a stored identity\<close>

text \<open>
  The lossless payload \<^verbatim>\<open>marshalIdentity\<close> stores and \<^verbatim>\<open>scanReservationRow\<close> feeds back to
  \<^verbatim>\<open>domain.Normalize\<close>: the display path, or the logical namespace and name.
\<close>

definition identityResource :: "NormalizedResource \<Rightarrow> Resource" where
  "identityResource r =
     (if nkind r = ResourceKindLogical
      then \<lparr>RKind = nkind r, Path = '''', Namespace = namespace r, Name = name r\<rparr>
      else \<lparr>RKind = nkind r, Path = display r, Namespace = '''', Name = ''''\<rparr>)"

lemma renormalize_logical:
  assumes "normalizeLogical input = Inr r" and "RKind input = ResourceKindLogical"
  shows "Normalize (identityResource r) = Inr r"
proof -
  note n = normalizeLogical_Inr [OF assms(1)]
  then show ?thesis
    using normalizeLogical_fields [OF assms(1)]
    by (simp add: Normalize_def identityResource_def normalizeLogical_def Let_def)
qed

lemma display_valid:
  assumes n: "normalizePath input = Inr r"
  shows "utf8_valid (display r)" and "CHR 0x00 \<notin> set (display r)" and "CHR 0x5C \<notin> set (display r)"
    and "int (rune_count (display r)) \<le> MaxResourcePathRunes" and "take 1 (display r) \<noteq> ''/''"
    and "Split CHR ''/'' (display r) = map seg_text (segments r)"
proof -
  let ?parts = "Split CHR ''/'' (Path input)"
  have texts: "map seg_text (segments r) = filter kept_part ?parts"
    using normalizePath_Inr(1) [OF n] by (rule normalize_parts_texts)
  have disp: "display r = Join (filter kept_part ?parts) ''/''"
    using normalizePath_Inr(4) [OF n] texts by (metis NormalizedResource.select_convs(2))
  have ne: "filter kept_part ?parts \<noteq> []" using normalizePath_Inr(2) [OF n] texts by (metis map_is_Nil_conv)
  have join: "Join ?parts ''/'' = Path input" by (rule Join_Split)
  show "utf8_valid (display r)"
    using normalizePath_Inr(5) [OF n] join utf8_valid_Join [of ?parts] utf8_valid_Join [of "filter kept_part ?parts"] disp
    by auto
  show "int (rune_count (display r)) \<le> MaxResourcePathRunes"
    using normalizePath_Inr(7) [OF n] join rune_count_Join_filter [OF ne] disp by simp
  have parts_sub: "x \<in> set ?parts \<Longrightarrow> set x \<subseteq> set (Path input)" for x
    by (rule Split_subset)
  then have sub: "set (display r) \<subseteq> set (Path input) \<union> {CHR ''/''}"
    using set_Join [of "filter kept_part ?parts" "''/''"] unfolding disp by fastforce
  show "CHR 0x00 \<notin> set (display r)" "CHR 0x5C \<notin> set (display r)"
    using sub normalizePath_Inr(6,8) [OF n] by auto
  show "Split CHR ''/'' (display r) = map seg_text (segments r)"
    unfolding disp texts using ne Split_no_sep by (intro Split_Join) auto
  obtain x xs where x: "filter kept_part ?parts = x # xs" using ne by (cases "filter kept_part ?parts") auto
  then have "x \<in> set ?parts" "x \<noteq> ''''" using filter_eq_Cons_iff [of kept_part] kept_part_def
    by (metis in_set_conv_decomp, metis)
  moreover from this have "CHR ''/'' \<notin> set x" using Split_no_sep by blast
  ultimately obtain c cs where c: "x = c # cs" "c \<noteq> CHR ''/''"
    by (metis list.exhaust list.set_intros(1))
  show "take 1 (display r) \<noteq> ''/''"
    unfolding disp x c(1) using c(2) by (cases xs) simp_all
qed

theorem renormalize:
  assumes "Normalize input = Inr r"
  shows "Normalize (identityResource r) =
    (if path_kind r \<and> isWindowsVolumeForm (display r)
     then Inl (validationError ''path'' ''VOLUME_FORM_NOT_ALLOWED'') else Inr r)"
  using assms
proof (cases rule: normalize_cases)
  case logical
  then show ?thesis
    using renormalize_logical normalize_kind(1) [OF assms] by (simp add: path_kind_def)
next
  case n: path
  note d = display_valid [OF n(2)]
  have k: "nkind r = RKind input" using assms by (rule normalize_kind)
  have parts: "normalize_parts (nkind r) (map seg_text (segments r)) = Inr (segments r)"
    using normalize_parts_again [OF normalizePath_Inr(1) [OF n(2)]] k by simp
  have r: "r = \<lparr>nkind = nkind r, display = Join (map seg_text (segments r)) ''/'',
               segments = segments r, namespace = '''', name = ''''\<rparr>"
    using normalizePath_Inr(4) [OF n(2)] k by simp
  have v: "ResourceKind_Valid (nkind r)" "nkind r \<noteq> ResourceKindLogical" using n(1) k by auto
  show ?thesis
    using d parts normalizePath_Inr(2,3) [OF n(2)] k v r [symmetric]
    by (simp add: Normalize_def identityResource_def normalizePath_def path_kind_def
        ValidateText_def validateStarStarPlacement_def require_def)
qed

section \<open>The comparison key\<close>

text \<open>Case-insensitively equal patterns: what \<open>identity\<close> compares.\<close>

lemma Key_path: "path_kind r \<Longrightarrow>
    Key r = ResourceKind_string (nkind r) @ '':'' @ Join (foldedSegments (segments r)) ''/''"
  by (simp add: Key_def path_kind_def foldedSegments_def)

lemma foldedSegments_no_slash:
  assumes "wf_resource r" and "path_kind r" and "t \<in> set (foldedSegments (segments r))"
  shows "CHR ''/'' \<notin> set t"
proof -
  obtain s where s: "s \<in> set (segments r)" "t = foldedText s"
    using assms by (auto simp: foldedSegments_def)
  then show ?thesis
    using assms by (cases "seg_kind s")
      (auto simp: wf_resource_def path_kind_def foldedText_def slash_asciiFold literal_segment_def)
qed

lemma identity_path:
  assumes "wf_resource a" "wf_resource b" "path_kind a" "identity a = identity b"
  shows "nkind a = nkind b" and "foldedSegments (segments a) = foldedSegments (segments b)"
proof -
  show k: "nkind a = nkind b" using assms(4) by (simp add: identity_def)
  then have pb: "path_kind b" using assms(3) by (simp add: path_kind_def)
  have "Join (foldedSegments (segments a)) ''/'' = Join (foldedSegments (segments b)) ''/''"
    using assms(4) k Key_path [OF assms(3)] Key_path [OF pb] by (simp add: identity_def)
  moreover have "foldedSegments (segments a) \<noteq> []" "foldedSegments (segments b) \<noteq> []"
    using assms pb by (auto simp: wf_resource_def path_kind_def foldedSegments_def)
  ultimately show "foldedSegments (segments a) = foldedSegments (segments b)"
    using Join_inj foldedSegments_no_slash assms(1,2,3) pb by metis
qed

lemma star_asciiFold: "CHR ''*'' \<in> set (asciiFold t) \<longleftrightarrow> CHR ''*'' \<in> set t"
proof -
  have "lower_byte x = CHR ''*'' \<longleftrightarrow> x = CHR ''*''" for x
    using lower_byte_eq_other [of "CHR ''*''" x] by (simp add: is_lower_def is_upper_def)
  then show ?thesis by (metis asciiFold_map image_iff list.set_map)
qed

lemma glob_segment_folded_inj:
  assumes "wf_resource a" "wf_resource b" "nkind a = ResourceKindGlob" "nkind b = ResourceKindGlob"
    and "s \<in> set (segments a)" "t \<in> set (segments b)" "foldedText s = foldedText t"
  shows "seg_kind s = seg_kind t"
proof -
  have stars: "CHR ''*'' \<in> set (foldedText s) \<longleftrightarrow> seg_kind s \<noteq> globSegmentLiteral"
    if "wf_resource r" "nkind r = ResourceKindGlob" "s \<in> set (segments r)" for r s
    using that by (cases "seg_kind s") (auto simp: wf_resource_def foldedText_def star_asciiFold)
  have texts: "seg_kind s = globSegmentStar \<Longrightarrow> foldedText s = ''*''"
      "seg_kind s = globSegmentStarStar \<Longrightarrow> foldedText s = ''**''"
    if "wf_resource r" "nkind r = ResourceKindGlob" "s \<in> set (segments r)" for r s
    using that by (auto simp: wf_resource_def foldedText_def)
  have "seg_kind s = globSegmentLiteral \<longleftrightarrow> seg_kind t = globSegmentLiteral"
    using stars [OF assms(1,3,5)] stars [OF assms(2,4,6)] assms(7) by simp
  moreover have "\<not> (seg_kind s = globSegmentStar \<and> seg_kind t = globSegmentStarStar)"
      "\<not> (seg_kind s = globSegmentStarStar \<and> seg_kind t = globSegmentStar)"
    using texts(1) [OF assms(1,3,5)] texts(2) [OF assms(1,3,5)] texts(1) [OF assms(2,4,6)]
      texts(2) [OF assms(2,4,6)] assms(7) by auto
  ultimately show ?thesis by (metis globSegmentKind.exhaust)
qed

lemma pattern_of_pairs:
  "map seg_pattern (filter (\<lambda>s. seg_kind s \<noteq> globSegmentStarStar) xs) =
     map (\<lambda>(k, t). if k = globSegmentStar then None else Some t)
       (filter (\<lambda>(k, t). k \<noteq> globSegmentStarStar) (map (\<lambda>s. (seg_kind s, foldedText s)) xs))"
  "(\<exists>s \<in> set xs. seg_kind s = globSegmentStarStar) \<longleftrightarrow>
     globSegmentStarStar \<in> fst ` set (map (\<lambda>s. (seg_kind s, foldedText s)) xs)"
  by (induction xs) (auto simp: seg_pattern_def)

lemma map_eq_same:
  assumes "map f xs = map f ys" and "\<And>x y. x \<in> set xs \<Longrightarrow> y \<in> set ys \<Longrightarrow> f x = f y \<Longrightarrow> g x = g y"
  shows "map g xs = map g ys"
  using assms
proof (induction xs arbitrary: ys)
  case (Cons x xs)
  then obtain y zs where "ys = y # zs" "f x = f y" "map f xs = map f zs" by auto
  with Cons show ?case by auto
qed simp

text \<open>Resources with the same identity denote the same paths.\<close>

lemma identity_language:
  assumes wf: "wf_resource a" "wf_resource b" and "path_kind a" and i: "identity a = identity b"
  shows "language a = language b"
proof -
  note e = identity_path [OF wf assms(3) i]
  show ?thesis
  proof (cases "nkind a = ResourceKindGlob")
    case False
    then show ?thesis using e by (auto simp: language_def foldedSegments_def split: ResourceKind.splits)
  next
    case True
    then have "seg_kind x = seg_kind y"
      if "x \<in> set (segments a)" "y \<in> set (segments b)" "foldedText x = foldedText y" for x y
      using glob_segment_folded_inj [OF wf] e(1) that by simp
    then have "map (\<lambda>s. (seg_kind s, foldedText s)) (segments a) =
        map (\<lambda>s. (seg_kind s, foldedText s)) (segments b)"
      using e(2) unfolding foldedSegments_def
      by (elim map_eq_same) (simp only: prod.inject)
    then have "pattern_of a = pattern_of b"
      using True e(1) by (simp add: pattern_of_def pattern_of_pairs del: set_map)
    moreover have "path_kind b" using e(1) assms(3) by (simp add: path_kind_def)
    ultimately show ?thesis
      by (intro set_eqI) (simp add: language_pattern [OF wf(1) assms(3)] language_pattern [OF wf(2)])
  qed
qed

lemma colon_split:
  assumes "x @ c # y = u @ c # v" and "c \<notin> set x" and "c \<notin> set u" shows "x = u \<and> y = v"
  using assms by (induction x arbitrary: u) (auto simp: Cons_eq_append_conv append_eq_Cons_conv)

lemma validLogicalNamespace_no_colon: "validLogicalNamespace ns \<Longrightarrow> CHR '':'' \<notin> set ns"
proof
  assume v: "validLogicalNamespace ns" and "CHR '':'' \<in> set ns"
  then obtain i where "i < length ns" "ns ! i = CHR '':''" by (auto simp: in_set_conv_nth)
  moreover from this have "ns \<noteq> []" by auto
  ultimately show False
    using v unfolding validLogicalNamespace_def list_all_iff
    by (auto simp: is_lower_def is_digit_def dest!: bspec [of _ _ i] split: if_splits)
qed

lemma identity_overlaps:
  assumes wf: "wf_resource a" "wf_resource b" and i: "identity a = identity b"
  shows "Overlaps a b"
proof (cases "path_kind a")
  case True
  then have "path_kind b" using i by (simp add: identity_def path_kind_def)
  moreover have "Overlaps a a" using wf(1) by (rule overlaps_refl)
  ultimately show ?thesis
    using identity_language [OF wf True i] overlaps_languages [OF wf(1) wf(1) True True]
      overlaps_languages [OF wf True] by blast
next
  case False
  have k: "nkind a = nkind b" "Key a = Key b" using i by (simp_all add: identity_def)
  with False wf have "CHR '':'' \<notin> set (namespace a)" "CHR '':'' \<notin> set (namespace b)"
    by (auto simp: path_kind_def wf_resource_def validLogicalNamespace_no_colon)
  then have "namespace a = namespace b \<and> name a = name b"
    using k False colon_split [of "namespace a" "CHR '':''" "name a"] by (simp add: Key_def path_kind_def)
  then show ?thesis using False k by (simp add: overlaps_logical)
qed

section \<open>Batch requests\<close>

text \<open>What holds of the accumulator of \<open>prepare_loop\<close>.\<close>

definition prepared_ok :: "nat \<Rightarrow> Resource list \<Rightarrow> PreparedResource list \<Rightarrow> bool" where
  "prepared_ok n resources prepared \<longleftrightarrow>
     (\<forall>p \<in> set prepared. Index p < n \<and> Normalize (resources ! Index p) = Inr (PResource p)) \<and>
     sorted_wrt (\<lambda>p q. Index p < Index q \<and> \<not> Overlaps (PResource q) (PResource p)) prepared \<and>
     (\<forall>i < n. \<exists>r. Normalize (resources ! i) = Inr r \<and>
        (\<exists>p \<in> set prepared. identity (PResource p) = identity r \<and> Index p \<le> i))"

lemma prepare_loop_ok:
  assumes "prepare_loop (length pre) seen prepared rest = Inr out"
    and "set seen = (\<lambda>p. identity (PResource p)) ` set prepared"
    and "prepared_ok (length pre) (pre @ rest) prepared"
  shows "prepared_ok (length (pre @ rest)) (pre @ rest) out"
  using assms
proof (induction rest arbitrary: pre seen prepared)
  case Nil
  then show ?case by simp
next
  case (Cons x rest)
  note ok = Cons.prems(3)
  have nth: "(pre @ x # rest) ! length pre = x" by simp
  obtain c where c: "Normalize x = Inr c"
    using Cons.prems(1) by (cases "Normalize x") (auto simp: map_error_def)
  show ?case
  proof (cases "identity c \<in> set seen")
    case True
    then obtain p where "p \<in> set prepared" "identity (PResource p) = identity c" "Index p < length pre"
      using Cons.prems(2) ok by (auto simp: prepared_ok_def)
    then have new: "\<exists>r. Normalize ((pre @ x # rest) ! length pre) = Inr r \<and>
        (\<exists>p \<in> set prepared. identity (PResource p) = identity r \<and> Index p \<le> length pre)"
      using c by (auto intro!: bexI [of _ p])
    have "prepared_ok (Suc (length pre)) (pre @ x # rest) prepared"
      unfolding prepared_ok_def
    proof (intro conjI)
      show "\<forall>p \<in> set prepared. Index p < Suc (length pre) \<and>
          Normalize ((pre @ x # rest) ! Index p) = Inr (PResource p)"
        using ok by (simp add: prepared_ok_def less_Suc_eq)
      show "sorted_wrt (\<lambda>p q. Index p < Index q \<and> \<not> Overlaps (PResource q) (PResource p)) prepared"
        using ok by (simp add: prepared_ok_def)
      show "\<forall>i < Suc (length pre). \<exists>r. Normalize ((pre @ x # rest) ! i) = Inr r \<and>
          (\<exists>p \<in> set prepared. identity (PResource p) = identity r \<and> Index p \<le> i)"
        using ok new unfolding prepared_ok_def by (metis less_Suc_eq)
    qed
    then show ?thesis
      using Cons.IH [of "pre @ [x]" seen prepared] Cons.prems(1,2) c True by (simp add: map_error_def)
  next
    case False
    have no: "\<forall>p \<in> set prepared. \<not> Overlaps c (PResource p)"
      using Cons.prems(1) c False by (auto simp: map_error_def list_ex_iff split: if_splits)
    let ?new = "\<lparr>Index = length pre, PResource = c\<rparr>"
    have "prepared_ok (Suc (length pre)) (pre @ x # rest) (prepared @ [?new])"
      unfolding prepared_ok_def
    proof (intro conjI)
      show "\<forall>p \<in> set (prepared @ [?new]). Index p < Suc (length pre) \<and>
          Normalize ((pre @ x # rest) ! Index p) = Inr (PResource p)"
        using ok c by (auto simp: prepared_ok_def)
      show "sorted_wrt (\<lambda>p q. Index p < Index q \<and> \<not> Overlaps (PResource q) (PResource p)) (prepared @ [?new])"
        using ok no by (auto simp: prepared_ok_def sorted_wrt_append)
      show "\<forall>i < Suc (length pre). \<exists>r. Normalize ((pre @ x # rest) ! i) = Inr r \<and>
          (\<exists>p \<in> set (prepared @ [?new]). identity (PResource p) = identity r \<and> Index p \<le> i)"
      proof (intro allI impI)
        fix i assume "i < Suc (length pre)"
        then consider "i < length pre" | "i = length pre" by linarith
        then show "\<exists>r. Normalize ((pre @ x # rest) ! i) = Inr r \<and>
          (\<exists>p \<in> set (prepared @ [?new]). identity (PResource p) = identity r \<and> Index p \<le> i)"
          using ok c by cases (auto simp: prepared_ok_def)
      qed
    qed
    then show ?thesis
      using Cons.IH [of "pre @ [x]" "identity c # seen" "prepared @ [?new]"] Cons.prems(1,2) c False no
      by (auto simp: map_error_def list_ex_iff split: if_splits)
  qed
qed

lemma prepare_request_ok:
  assumes "PrepareReservationRequest resources = Inr prepared"
  shows "prepared_ok (length resources) resources prepared"
    and "resources \<noteq> []" and "length resources \<le> 50"
proof -
  show "resources \<noteq> []" "length resources \<le> 50"
    using assms by (auto simp: PrepareReservationRequest_def MaxReservationResources_def split: if_splits)
  have "prepare_loop (length ([] :: Resource list)) [] [] resources = Inr prepared"
    using assms by (auto simp: PrepareReservationRequest_def split: if_splits)
  then show "prepared_ok (length resources) resources prepared"
    using prepare_loop_ok [of "[]" "[]" "[]" resources prepared] by (simp add: prepared_ok_def)
qed

section \<open>Properties\<close>

definition file_at :: "string \<Rightarrow> Resource" where
  "file_at p = \<lparr>RKind = ResourceKindFile, Path = p, Namespace = '''', Name = ''''\<rparr>"

definition glob_at :: "string \<Rightarrow> Resource" where
  "glob_at p = \<lparr>RKind = ResourceKindGlob, Path = p, Namespace = '''', Name = ''''\<rparr>"

definition normalized_of :: "Resource \<Rightarrow> NormalizedResource" where
  "normalized_of input = (case Normalize input of Inr r \<Rightarrow> r | Inl _ \<Rightarrow> undefined)"

text \<open>
  C6. The overlap test is exact: for any two accepted path resources (file, directory or glob),
  \<^verbatim>\<open>domain.Overlaps\<close> answers true if and only if some project-relative path (no empty, dot or
  dot-dot segment, ASCII case folded) belongs to both. There are no missed conflicts and no
  spurious ones.
\<close>

theorem overlaps_exact:
  assumes "Normalize x = Inr a" and "Normalize y = Inr b" and "path_kind a" and "path_kind b"
  shows "Overlaps a b \<longleftrightarrow> (\<exists>p. real_path p \<and> p \<in> language a \<and> p \<in> language b)"
  using overlaps_languages normalize_wf assms by blast

theorem overlaps_exact_witness:
  "let a = normalized_of (file_at ''Src//Main.go''); b = normalized_of (glob_at ''src/*'') in
   Overlaps a b \<and> (\<exists>p. real_path p \<and> p \<in> language a \<and> p \<in> language b)"
proof -
  have a: "Normalize (file_at ''Src//Main.go'') = Inr (normalized_of (file_at ''Src//Main.go''))"
    by code_simp
  have b: "Normalize (glob_at ''src/*'') = Inr (normalized_of (glob_at ''src/*''))" by code_simp
  have p: "path_kind (normalized_of (file_at ''Src//Main.go''))" "path_kind (normalized_of (glob_at ''src/*''))"
    by code_simp+
  have "Overlaps (normalized_of (file_at ''Src//Main.go'')) (normalized_of (glob_at ''src/*''))"
    by code_simp
  then show ?thesis using overlaps_exact [OF a b p] by (simp add: Let_def)
qed

text \<open>
  Overlap is a symmetric relation on accepted resources of every kind, and every accepted resource
  overlaps itself: which of two holders asked first cannot change a conflict.
\<close>

lemma overlaps_symmetric:
  assumes "Normalize x = Inr a" and "Normalize y = Inr b"
  shows "(Overlaps a b \<longleftrightarrow> Overlaps b a) \<and> Overlaps a a"
  using overlaps_sym overlaps_refl normalize_wf assms by blast

text \<open>
  C29. A stored reservation is re-normalized on every read. The identity payload survives that
  unchanged, except for one class of accepted inputs: a path whose cleaned form begins with a
  volume prefix such as \<^verbatim>\<open>C:\<close>, which is then rejected.
\<close>

theorem stored_identity_renormalizes:
  assumes "Normalize input = Inr r"
  shows "Normalize (identityResource r) =
    (if path_kind r \<and> isWindowsVolumeForm (display r)
     then Inl (validationError ''path'' ''VOLUME_FORM_NOT_ALLOWED'') else Inr r)"
  using assms by (rule renormalize)

theorem stored_identity_renormalizes_witness:
  "Normalize (identityResource (normalized_of (file_at ''./a//b''))) =
     Inr (normalized_of (file_at ''./a//b''))"
proof -
  have n: "Normalize (file_at ''./a//b'') = Inr (normalized_of (file_at ''./a//b''))" by code_simp
  have "\<not> isWindowsVolumeForm (display (normalized_of (file_at ''./a//b'')))" by code_simp
  then show ?thesis using stored_identity_renormalizes [OF n] by simp
qed


text \<open>
  C30. The identity used to collapse duplicates in a request (kind and comparison key) is sound:
  two accepted resources with the same identity denote the same paths and conflict with each
  other, so dropping the second one loses nothing.
\<close>

theorem same_identity_same_paths:
  assumes "Normalize x = Inr a" and "Normalize y = Inr b" and "identity a = identity b"
  shows "Overlaps a b \<and> (path_kind a \<longrightarrow> language a = language b)"
  using identity_overlaps identity_language normalize_wf assms by blast

theorem same_identity_same_paths_witness:
  "language (normalized_of (file_at ''A/b'')) = language (normalized_of (file_at ''a//B''))"
proof -
  have a: "Normalize (file_at ''A/b'') = Inr (normalized_of (file_at ''A/b''))" by code_simp
  have b: "Normalize (file_at ''a//B'') = Inr (normalized_of (file_at ''a//B''))" by code_simp
  have i: "identity (normalized_of (file_at ''A/b'')) = identity (normalized_of (file_at ''a//B''))"
    by code_simp
  have "path_kind (normalized_of (file_at ''A/b''))" by code_simp
  then show ?thesis using same_identity_same_paths [OF a b i] by simp
qed

text \<open>
  C28. An accepted batch request is usable as it stands: every returned resource is the
  normalization of the request element its index names, indices increase, no two returned
  resources conflict, and every element of the request is represented by a returned one of the
  same identity, at the same or an earlier index.
\<close>

theorem prepare_request_correct:
  assumes "PrepareReservationRequest resources = Inr prepared"
  shows "(\<forall>p \<in> set prepared. Index p < length resources \<and>
            Normalize (resources ! Index p) = Inr (PResource p)) \<and>
     sorted_wrt (\<lambda>p q. Index p < Index q \<and> \<not> Overlaps (PResource q) (PResource p)) prepared \<and>
     (\<forall>i < length resources. \<exists>r. Normalize (resources ! i) = Inr r \<and>
        (\<exists>p \<in> set prepared. identity (PResource p) = identity r \<and> Index p \<le> i)) \<and>
     0 < length resources \<and> length resources \<le> 50"
  using prepare_request_ok [OF assms] by (simp add: prepared_ok_def)

definition sample_request :: "Resource list" where
  "sample_request = [file_at ''a/b'', file_at ''A//b'', glob_at ''docs/**'']"

definition sample_prepared :: "PreparedResource list" where
  "sample_prepared =
     (case PrepareReservationRequest sample_request of Inr p \<Rightarrow> p | Inl _ \<Rightarrow> undefined)"

theorem prepare_request_correct_witness:
  "length sample_prepared = 2 \<and>
   sorted_wrt (\<lambda>p q. Index p < Index q \<and> \<not> Overlaps (PResource q) (PResource p)) sample_prepared"
proof -
  have p: "PrepareReservationRequest sample_request = Inr sample_prepared" by code_simp
  have "length sample_prepared = 2" by code_simp
  then show ?thesis using prepare_request_correct [OF p] by blast
qed

end
