(* ===== verification/AttemptInput.thy ===== *)
theory AttemptInput
  imports IssueStatus ResourceNormalize
begin

text \<open>
  Request validation of the attempt lifecycle: \<^verbatim>\<open>internal/domain/attempt.go\<close>,
  \<^verbatim>\<open>internal/domain/artifact.go\<close> and \<^verbatim>\<open>internal/domain/issue_identifier.go\<close>. Every validator
  returns the normalized copy of its input or the first error in source order.

  Code outside the repository enters through the record \<open>env\<close>: the ULID library's strict parser
  (the canonical string of the parsed value), \<^verbatim>\<open>url.ParseRequestURI\<close> (scheme, host, whether
  credentials are present), \<^verbatim>\<open>json.Compact\<close> and the SHA-256 digest of a lease token.
\<close>

record env =
  ulid_ParseStrict :: "string \<Rightarrow> string option"
  url_ParseRequestURI :: "string \<Rightarrow> (string \<times> string \<times> bool) option"
  json_Compact :: "string \<Rightarrow> string option"
  sha256_Sum256 :: "string \<Rightarrow> string"

definition ids_ParseStrict :: "env \<Rightarrow> string \<Rightarrow> bool" where
  "ids_ParseStrict env v = (ulid_ParseStrict env v = Some v)"

definition canonical_ulid :: "env \<Rightarrow> string \<Rightarrow> bool" where
  "canonical_ulid env v =
     (case ulid_ParseStrict env v of
        None \<Rightarrow> False
      | Some c \<Rightarrow> \<not> (length v \<noteq> 26 \<or> c \<noteq> v))"

section \<open>Enumerations\<close>

datatype AttemptKind = AttemptKindWork | AttemptKindReview | AttemptKind_other string

fun AttemptKind_Valid :: "AttemptKind \<Rightarrow> bool" where
  "AttemptKind_Valid k \<longleftrightarrow> k = AttemptKindWork \<or> k = AttemptKindReview"

datatype AttemptStatus =
    AttemptStatusActive | AttemptStatusCompleted | AttemptStatusFailed | AttemptStatusInterrupted
  | AttemptStatusExpired | AttemptStatusCancelled

datatype AttemptOutcome =
    AttemptOutcomeCompleted | AttemptOutcomeFailed | AttemptOutcomeInterrupted
  | AttemptOutcome_other string

definition AttemptOutcome_Valid :: "AttemptOutcome \<Rightarrow> bool" where
  "AttemptOutcome_Valid v \<longleftrightarrow>
     v = AttemptOutcomeCompleted \<or> v = AttemptOutcomeFailed \<or> v = AttemptOutcomeInterrupted"

datatype ReviewOutcome =
    ReviewOutcomeApproved | ReviewOutcomeChangesRequested | ReviewOutcomeBlocked
  | ReviewOutcome_other string

definition ReviewOutcome_Valid :: "ReviewOutcome \<Rightarrow> bool" where
  "ReviewOutcome_Valid v \<longleftrightarrow>
     v = ReviewOutcomeApproved \<or> v = ReviewOutcomeChangesRequested \<or> v = ReviewOutcomeBlocked"

datatype FailureReasonCode =
    FailureReasonImplementationError | FailureReasonEnvironmentError | FailureReasonMissingDependency
  | FailureReasonInvalidRequirements | FailureReasonTestsFailed | FailureReasonContextLost
  | FailureReasonTimeout | FailureReasonOther | FailureReason_unsupported string

fun FailureReasonCode_Valid :: "FailureReasonCode \<Rightarrow> bool" where
  "FailureReasonCode_Valid (FailureReason_unsupported s) = False"
| "FailureReasonCode_Valid _ = True"

datatype InterruptionReasonCode =
    InterruptionReasonHandoff | InterruptionReasonUserRequest | InterruptionReasonContextLimit
  | InterruptionReasonClientShutdown | InterruptionReasonEnvironmentChange | InterruptionReasonOther
  | InterruptionReason_unsupported string

fun InterruptionReasonCode_Valid :: "InterruptionReasonCode \<Rightarrow> bool" where
  "InterruptionReasonCode_Valid (InterruptionReason_unsupported s) = False"
| "InterruptionReasonCode_Valid _ = True"

datatype AttemptNoteKind =
    AttemptNoteKindProgress | AttemptNoteKindFinding | AttemptNoteKindWarning
  | AttemptNoteKindCheckpoint | AttemptNoteKind_other string

fun AttemptNoteKind_Valid :: "AttemptNoteKind \<Rightarrow> bool" where
  "AttemptNoteKind_Valid (AttemptNoteKind_other s) = False"
| "AttemptNoteKind_Valid _ = True"

datatype ArtifactType =
    ArtifactTypeFile | ArtifactTypeDirectory | ArtifactTypeURL | ArtifactTypeCommit
  | ArtifactTypeBranch | ArtifactTypePullRequest | ArtifactTypeLog | ArtifactTypeOther
  | ArtifactType_unsupported string

fun ArtifactType_Valid :: "ArtifactType \<Rightarrow> bool" where
  "ArtifactType_Valid (ArtifactType_unsupported s) = False"
| "ArtifactType_Valid _ = True"

section \<open>Bounds\<close>

definition DefaultLeaseSeconds :: int where "DefaultLeaseSeconds = 900"
definition MinLeaseSeconds :: int where "MinLeaseSeconds = 60"
definition MaxLeaseSeconds :: int where "MaxLeaseSeconds = 3600"
definition MaxLeaseTokenRunes :: int where "MaxLeaseTokenRunes = 512"
definition MaxAttemptNoteRunes :: int where "MaxAttemptNoteRunes = 50000"
definition MaxAttemptNoteNextSteps :: int where "MaxAttemptNoteNextSteps = 20"
definition MaxAttemptNoteNextStepRunes :: int where "MaxAttemptNoteNextStepRunes = 1000"
definition MaxVerificationItems :: int where "MaxVerificationItems = 20"
definition MaxVerificationRunes :: int where "MaxVerificationRunes = 1000"
definition MaxTitleRunes :: int where "MaxTitleRunes = 300"
definition MaxArtifactsPerAttemptMutation :: int where "MaxArtifactsPerAttemptMutation = 20"
definition MaxArtifactURIRunes :: int where "MaxArtifactURIRunes = 4096"
definition MaxArtifactMetadataBytes :: int where "MaxArtifactMetadataBytes = 8192"
definition MaxReleaseResourceIDs :: int where "MaxReleaseResourceIDs = MaxReservationResources"

section \<open>Decimal numbers\<close>

text \<open>\<^verbatim>\<open>strconv.Itoa\<close> and the value of a digit string.\<close>

fun Itoa :: "nat \<Rightarrow> string" where
  "Itoa n = (if n < 10 then [char_of (48 + n)] else Itoa (n div 10) @ [char_of (48 + n mod 10)])"

declare Itoa.simps [simp del]

definition digits_value :: "string \<Rightarrow> nat" where
  "digits_value ds = foldl (\<lambda>n c. n * 10 + (byte c - 48)) 0 ds"

lemma Itoa_digits_value:
  assumes "ds \<noteq> []" and "\<forall>c \<in> set ds. is_digit c" and "hd ds \<noteq> CHR ''0''"
  shows "Itoa (digits_value ds) = ds \<and> 0 < digits_value ds"
  using assms
proof (induction ds rule: rev_induct)
  case (snoc c ds)
  define b where "b = byte c - 48"
  have c: "b < 10" "byte c = 48 + b"
    using snoc.prems(2) by (auto simp: is_digit_def b_def)
  then have char: "char_of (48 + b) = c" by (metis char_of_char)
  have v: "digits_value (ds @ [c]) = digits_value ds * 10 + b"
    by (simp add: digits_value_def b_def)
  show ?case
  proof (cases "ds = []")
    case True
    have "char_of (48 :: nat) = CHR ''0''" by code_simp
    then have "b = 0 \<Longrightarrow> c = CHR ''0''" using char by simp
    with True have "0 < b" using snoc.prems(3) by auto
    with True c char v show ?thesis by (simp add: digits_value_def Itoa.simps)
  next
    case False
    with snoc have i: "Itoa (digits_value ds) = ds" "0 < digits_value ds" by simp_all
    then have "\<not> digits_value ds * 10 + b < 10" by linarith
    with i c char show ?thesis unfolding v by (subst Itoa.simps) simp
  qed
qed simp

section \<open>Issue identifiers\<close>

datatype IssueIdentifierKind = IssueIdentifierInternalID | IssueIdentifierDisplayID

record IssueIdentifier =
  id_kind :: IssueIdentifierKind
  id_value :: string
  id_sequence :: int

definition invalidIssueIdentifier :: Error where
  "invalidIssueIdentifier = validationError ''issue_id'' ''INVALID_IDENTIFIER''"

definition ParseIssueIdentifier :: "env \<Rightarrow> string \<Rightarrow> IssueIdentifier res" where
  "ParseIssueIdentifier env v =
     (if ids_ParseStrict env v
      then Inr \<lparr>id_kind = IssueIdentifierInternalID, id_value = v, id_sequence = 0\<rparr>
      else if length v < 6 \<or> asciiFold (take 6 v) \<noteq> asciiFold ''ISSUE-''
      then Inl invalidIssueIdentifier
      else
        let digits = drop 6 v in
        if digits = '''' \<or> digits ! 0 = CHR ''0'' then Inl invalidIssueIdentifier
        else if \<not> list_all is_digit digits then Inl invalidIssueIdentifier
        else if digits_value digits \<ge> 2 ^ 63 \<or> digits_value digits = 0 then Inl invalidIssueIdentifier
        else Inr \<lparr>id_kind = IssueIdentifierDisplayID,
                  id_value = ''ISSUE-'' @ Itoa (digits_value digits),
                  id_sequence = int (digits_value digits)\<rparr>)"

section \<open>Shared checks\<close>

definition check_attempt_id :: "env \<Rightarrow> string \<Rightarrow> unit res" where
  "check_attempt_id env v = require (canonical_ulid env v) (validationError ''attempt_id'' ''INVALID_ULID'')"

definition check_lease_token :: "string \<Rightarrow> unit res" where
  "check_lease_token v =
     and_then (require (TrimSpace v \<noteq> '''') (validationError ''lease_token'' ''REQUIRED'')) (\<lambda>_.
     ValidateText ''lease_token'' v MaxLeaseTokenRunes)"

definition check_items :: "string \<Rightarrow> string list \<Rightarrow> int \<Rightarrow> int \<Rightarrow> string list res" where
  "check_items field values maxItems maxRunes =
     and_then (CopyBounded field values maxItems) (\<lambda>items.
     and_then (map_result (\<lambda>v.
        and_then (require (TrimSpace v \<noteq> '''') (validationError field ''REQUIRED'')) (\<lambda>_.
        ValidateText field v maxRunes)) items) (\<lambda>_.
     Inr items))"

definition check_optional :: "(string \<Rightarrow> unit res) \<Rightarrow> string option \<Rightarrow> unit res" where
  "check_optional f v = (case v of None \<Rightarrow> Inr () | Some x \<Rightarrow> f x)"

definition normalize_idempotency_key :: "string option \<Rightarrow> string option res" where
  "normalize_idempotency_key v =
     (case v of
        None \<Rightarrow> Inr None
      | Some k \<Rightarrow>
          and_then (ValidateText ''idempotency_key'' k MaxIdempotencyKeyRunes) (\<lambda>_.
          let key = TrimSpace k in
          if key = '''' then Inl (validationError ''idempotency_key'' ''REQUIRED'') else Inr (Some key)))"

definition copyOptionalSessionID :: "env \<Rightarrow> string option \<Rightarrow> string option res" where
  "copyOptionalSessionID env v =
     (case v of
        None \<Rightarrow> Inr None
      | Some s \<Rightarrow> and_then (require (canonical_ulid env s) (validationError ''session_id'' ''INVALID_ULID''))
                    (\<lambda>_. Inr (Some s)))"

definition validateLeaseSeconds :: "int option \<Rightarrow> int res" where
  "validateLeaseSeconds v =
     (let seconds = (case v of None \<Rightarrow> DefaultLeaseSeconds | Some s \<Rightarrow> s) in
      if seconds < MinLeaseSeconds \<or> seconds > MaxLeaseSeconds
      then Inl (validationError ''lease_seconds'' ''OUT_OF_RANGE'')
      else Inr seconds)"

section \<open>Artifacts\<close>

record ArtifactInput =
  art_type :: ArtifactType
  art_uri :: string
  art_title :: "string option"
  art_metadata :: "string option"

text \<open>Whether \<^verbatim>\<open>path.Clean\<close> of a relative path is \<^verbatim>\<open>.\<close>: dot-dot segments consume a named one.\<close>

fun clean_segments :: "string list \<Rightarrow> string list \<Rightarrow> string list" where
  "clean_segments out [] = out"
| "clean_segments out (s # rest) =
     (if s = '''' \<or> s = ''.'' then clean_segments out rest
      else if s = ''..'' then
        (case out of
           [] \<Rightarrow> clean_segments [''..''] rest
         | t # ts \<Rightarrow> if t = ''..'' then clean_segments (''..'' # out) rest else clean_segments ts rest)
      else clean_segments (s # out) rest)"

definition validateArtifactURI :: "env \<Rightarrow> string \<Rightarrow> ArtifactType \<Rightarrow> string \<Rightarrow> unit res" where
  "validateArtifactURI env field kind v =
     (if kind = ArtifactTypeFile \<or> kind = ArtifactTypeDirectory then
        (if take 1 v = ''/'' \<or> isWindowsVolumeForm v \<or> CHR 0x5C \<in> set v
            \<or> clean_segments [] (Split CHR ''/'' v) = []
         then Inl (validationError field ''INVALID_PATH'')
         else if ''..'' \<in> set (Split CHR ''/'' v) then Inl (validationError field ''INVALID_PATH'')
         else Inr ())
      else if kind = ArtifactTypeURL then
        (case url_ParseRequestURI env v of
           None \<Rightarrow> Inl (validationError field ''INVALID_URL'')
         | Some (scheme, host, hasUser) \<Rightarrow>
             if scheme = '''' \<or> host = ''''
                \<or> asciiFold scheme \<noteq> ''http'' \<and> asciiFold scheme \<noteq> ''https'' \<or> hasUser
             then Inl (validationError field ''INVALID_URL'') else Inr ())
      else Inr ())"

definition normalizeArtifactMetadata :: "env \<Rightarrow> string \<Rightarrow> string option \<Rightarrow> string option res" where
  "normalizeArtifactMetadata env field v =
     (case v of
        None \<Rightarrow> Inr None
      | Some m \<Rightarrow>
          if int (length m) > MaxArtifactMetadataBytes
          then Inl (NewError CodeLimitExceeded False [detail field ''MAX_BYTES''])
          else (case json_Compact env m of
              None \<Rightarrow> Inl (validationError field ''INVALID_JSON'')
            | Some compact \<Rightarrow>
                if compact = ''null'' then Inr None
                else if take 1 compact \<noteq> ''{'' then Inl (validationError field ''INVALID_JSON_TYPE'')
                else Inr (Some compact)))"

definition itemField :: "string \<Rightarrow> nat \<Rightarrow> string \<Rightarrow> string" where
  "itemField field index nm = field @ ''['' @ Itoa index @ ''].'' @ nm"

definition validate_artifact :: "env \<Rightarrow> string \<Rightarrow> nat \<Rightarrow> ArtifactInput \<Rightarrow> ArtifactInput res" where
  "validate_artifact env field index item =
     and_then (require (ArtifactType_Valid (art_type item))
                (validationError (itemField field index ''type'') ''INVALID_ENUM'')) (\<lambda>_.
     and_then (require (TrimSpace (art_uri item) \<noteq> '''')
                (validationError (itemField field index ''uri'') ''REQUIRED'')) (\<lambda>_.
     and_then (ValidateText (itemField field index ''uri'') (art_uri item) MaxArtifactURIRunes) (\<lambda>_.
     and_then (validateArtifactURI env (itemField field index ''uri'') (art_type item) (art_uri item)) (\<lambda>_.
     and_then (check_optional (\<lambda>t.
         and_then (require (TrimSpace t \<noteq> '''') (validationError (itemField field index ''title'') ''REQUIRED'')) (\<lambda>_.
         ValidateText (itemField field index ''title'') t MaxTitleRunes)) (art_title item)) (\<lambda>_.
     and_then (normalizeArtifactMetadata env (itemField field index ''metadata'') (art_metadata item)) (\<lambda>metadata.
     Inr (item\<lparr>art_metadata := metadata\<rparr>)))))))"

fun validate_artifacts_from :: "env \<Rightarrow> string \<Rightarrow> nat \<Rightarrow> ArtifactInput list \<Rightarrow> ArtifactInput list res" where
  "validate_artifacts_from env field index [] = Inr []"
| "validate_artifacts_from env field index (item # rest) =
     and_then (validate_artifact env field index item) (\<lambda>item'.
     and_then (validate_artifacts_from env field (Suc index) rest) (\<lambda>rest'. Inr (item' # rest')))"

definition ValidateArtifactInputs :: "env \<Rightarrow> string \<Rightarrow> ArtifactInput list \<Rightarrow> ArtifactInput list res" where
  "ValidateArtifactInputs env field values =
     and_then (CopyBounded field values MaxArtifactsPerAttemptMutation) (\<lambda>items.
     validate_artifacts_from env field 0 items)"

section \<open>Finishing an attempt\<close>

record AttemptAcknowledgement =
  ack_version :: int
  ack_event :: int

record FinishAttemptInput =
  fin_attempt :: string
  fin_token :: string
  fin_session :: "string option"
  fin_outcome :: AttemptOutcome
  fin_summary :: string
  fin_next_steps :: "string list"
  fin_verification :: "string list"
  fin_target :: "Status option"
  fin_blocked_reason :: "string option"
  fin_review :: "ReviewOutcome option"
  fin_failure :: "FailureReasonCode option"
  fin_interruption :: "InterruptionReasonCode option"
  fin_details :: "string option"
  fin_ack :: "AttemptAcknowledgement option"
  fin_artifacts :: "ArtifactInput list"
  fin_key :: "string option"

definition forbid :: "'a option \<Rightarrow> string \<Rightarrow> unit res" where
  "forbid x field = require (x = None) (validationError field ''FORBIDDEN'')"

definition finish_outcome_shape :: "FinishAttemptInput \<Rightarrow> unit res" where
  "finish_outcome_shape i =
     and_then
       (if fin_outcome i = AttemptOutcomeFailed then
          and_then (require (fin_failure i \<noteq> None) (validationError ''failure_reason_code'' ''REQUIRED'')) (\<lambda>_.
          and_then (forbid (fin_target i) ''target_issue_status'') (\<lambda>_.
          and_then (forbid (fin_review i) ''review_outcome'') (\<lambda>_.
          and_then (forbid (fin_blocked_reason i) ''blocked_reason'') (\<lambda>_.
          forbid (fin_interruption i) ''interruption_reason_code''))))
        else Inr ())
       (\<lambda>_. if fin_outcome i = AttemptOutcomeInterrupted then
          and_then (require (fin_interruption i \<noteq> None)
            (validationError ''interruption_reason_code'' ''REQUIRED'')) (\<lambda>_.
          and_then (forbid (fin_target i) ''target_issue_status'') (\<lambda>_.
          and_then (forbid (fin_review i) ''review_outcome'') (\<lambda>_.
          and_then (forbid (fin_blocked_reason i) ''blocked_reason'') (\<lambda>_.
          forbid (fin_failure i) ''failure_reason_code''))))
        else Inr ())"

definition FinishAttemptInput_Validate :: "env \<Rightarrow> FinishAttemptInput \<Rightarrow> FinishAttemptInput res" where
  "FinishAttemptInput_Validate env i =
     and_then (check_attempt_id env (fin_attempt i)) (\<lambda>_.
     and_then (check_lease_token (fin_token i)) (\<lambda>_.
     and_then (require (AttemptOutcome_Valid (fin_outcome i)) (validationError ''outcome'' ''INVALID_ENUM'')) (\<lambda>_.
     and_then (require (TrimSpace (fin_summary i) \<noteq> '''') (validationError ''result_summary'' ''REQUIRED'')) (\<lambda>_.
     and_then (ValidateText ''result_summary'' (fin_summary i) MaxAttemptNoteRunes) (\<lambda>_.
     and_then (check_items ''next_steps'' (fin_next_steps i) MaxAttemptNoteNextSteps MaxAttemptNoteNextStepRunes) (\<lambda>next.
     and_then (check_items ''verification'' (fin_verification i) MaxVerificationItems MaxVerificationRunes) (\<lambda>verification.
     and_then (ValidateArtifactInputs env ''artifacts'' (fin_artifacts i)) (\<lambda>artifacts.
     and_then (require (case fin_target i of None \<Rightarrow> True
                 | Some s \<Rightarrow> \<not> (s = StatusOpen \<or> s = StatusCancelled \<or> \<not> Status_Valid s))
                (validationError ''target_issue_status'' ''INVALID_ENUM'')) (\<lambda>_.
     and_then (require (case fin_review i of None \<Rightarrow> True | Some r \<Rightarrow> ReviewOutcome_Valid r)
                (validationError ''review_outcome'' ''INVALID_ENUM'')) (\<lambda>_.
     and_then (require (case fin_failure i of None \<Rightarrow> True | Some r \<Rightarrow> FailureReasonCode_Valid r)
                (validationError ''failure_reason_code'' ''INVALID_ENUM'')) (\<lambda>_.
     and_then (require (case fin_interruption i of None \<Rightarrow> True | Some r \<Rightarrow> InterruptionReasonCode_Valid r)
                (validationError ''interruption_reason_code'' ''INVALID_ENUM'')) (\<lambda>_.
     and_then (check_optional (\<lambda>v. ValidateText ''blocked_reason'' v MaxAttemptNoteRunes) (fin_blocked_reason i)) (\<lambda>_.
     and_then (check_optional (\<lambda>v. ValidateText ''reason_details'' v MaxAttemptNoteRunes) (fin_details i)) (\<lambda>_.
     and_then (finish_outcome_shape i) (\<lambda>_.
     and_then (require (case fin_ack i of None \<Rightarrow> True | Some a \<Rightarrow> \<not> (ack_version a < 1 \<or> ack_event a < 0))
                (validationError ''acknowledged_changes'' ''INVALID_VALUE'')) (\<lambda>_.
     and_then (normalize_idempotency_key (fin_key i)) (\<lambda>key.
     and_then (copyOptionalSessionID env (fin_session i)) (\<lambda>session.
     Inr (i\<lparr>fin_next_steps := next, fin_verification := verification, fin_artifacts := artifacts,
            fin_key := key, fin_session := session\<rparr>)))))))))))))))))))"

definition blocked_reason_shape :: "FinishAttemptInput \<Rightarrow> bool \<Rightarrow> unit res" where
  "blocked_reason_shape i blocks =
     and_then
       (if blocks then
          require (case fin_blocked_reason i of None \<Rightarrow> False | Some r \<Rightarrow> TrimSpace r \<noteq> '''')
            (validationError ''blocked_reason'' ''REQUIRED'')
        else forbid (fin_blocked_reason i) ''blocked_reason'')
       (\<lambda>_. if fin_details i \<noteq> None \<and> \<not> blocks
             then Inl (validationError ''reason_details'' ''FORBIDDEN'') else Inr ())"

definition ValidateFinishAttemptForKind :: "env \<Rightarrow> FinishAttemptInput \<Rightarrow> AttemptKind \<Rightarrow> unit res" where
  "ValidateFinishAttemptForKind env i kind =
     and_then (FinishAttemptInput_Validate env i) (\<lambda>_.
     and_then (require (AttemptKind_Valid kind) (validationError ''kind'' ''INVALID_ENUM'')) (\<lambda>_.
     if fin_outcome i \<noteq> AttemptOutcomeCompleted then Inr ()
     else if kind = AttemptKindWork then
       (case fin_target i of
          None \<Rightarrow> Inl (validationError ''target_issue_status'' ''REQUIRED'')
        | Some target \<Rightarrow>
            and_then (forbid (fin_review i) ''review_outcome'') (\<lambda>_.
            and_then (forbid (fin_failure i) ''failure_reason_code'') (\<lambda>_.
            and_then (forbid (fin_interruption i) ''interruption_reason_code'') (\<lambda>_.
            blocked_reason_shape i (target = StatusBlocked)))))
     else
       (case fin_review i of
          None \<Rightarrow> Inl (validationError ''review_outcome'' ''REQUIRED'')
        | Some review \<Rightarrow>
            and_then (forbid (fin_target i) ''target_issue_status'') (\<lambda>_.
            and_then (forbid (fin_failure i) ''failure_reason_code'') (\<lambda>_.
            and_then (forbid (fin_interruption i) ''interruption_reason_code'') (\<lambda>_.
            blocked_reason_shape i (review = ReviewOutcomeBlocked)))))))"

section \<open>The other attempt requests\<close>

record ClaimIssueInput =
  clm_issue :: string
  clm_lease :: "int option"
  clm_session :: "string option"
  clm_resources :: "Resource list"
  clm_key :: "string option"

definition ClaimIssueInput_Validate :: "env \<Rightarrow> ClaimIssueInput \<Rightarrow> ClaimIssueInput res" where
  "ClaimIssueInput_Validate env i =
     and_then (ParseIssueIdentifier env (clm_issue i)) (\<lambda>_.
     and_then (validateLeaseSeconds (clm_lease i)) (\<lambda>lease.
     and_then (copyOptionalSessionID env (clm_session i)) (\<lambda>session.
     and_then (if clm_resources i \<noteq> []
               then and_then (PrepareReservationRequest (clm_resources i)) (\<lambda>_. Inr ()) else Inr ()) (\<lambda>_.
     and_then (normalize_idempotency_key (clm_key i)) (\<lambda>key.
     Inr \<lparr>clm_issue = clm_issue i, clm_lease = Some lease, clm_session = session,
          clm_resources = clm_resources i, clm_key = key\<rparr>)))))"

record RenewAttemptInput =
  ren_attempt :: string
  ren_token :: string
  ren_lease :: "int option"
  ren_session :: "string option"

definition RenewAttemptInput_Validate :: "env \<Rightarrow> RenewAttemptInput \<Rightarrow> RenewAttemptInput res" where
  "RenewAttemptInput_Validate env i =
     and_then (require (\<not> (ulid_ParseStrict env (ren_attempt i) = None \<or> length (ren_attempt i) \<noteq> 26))
                (validationError ''attempt_id'' ''INVALID_ULID'')) (\<lambda>_.
     and_then (check_lease_token (ren_token i)) (\<lambda>_.
     and_then (validateLeaseSeconds (ren_lease i)) (\<lambda>lease.
     and_then (copyOptionalSessionID env (ren_session i)) (\<lambda>session.
     Inr \<lparr>ren_attempt = ren_attempt i, ren_token = ren_token i, ren_lease = Some lease, ren_session = session\<rparr>))))"

record SaveAttemptNoteInput =
  note_attempt :: string
  note_token :: string
  note_session :: "string option"
  note_kind :: AttemptNoteKind
  note_content :: string
  note_next_steps :: "string list"
  note_important :: bool
  note_artifacts :: "ArtifactInput list"
  note_key :: "string option"

definition SaveAttemptNoteInput_Validate :: "env \<Rightarrow> SaveAttemptNoteInput \<Rightarrow> SaveAttemptNoteInput res" where
  "SaveAttemptNoteInput_Validate env i =
     and_then (check_attempt_id env (note_attempt i)) (\<lambda>_.
     and_then (check_lease_token (note_token i)) (\<lambda>_.
     and_then (require (AttemptNoteKind_Valid (note_kind i)) (validationError ''kind'' ''INVALID_ENUM'')) (\<lambda>_.
     and_then (require (TrimSpace (note_content i) \<noteq> '''') (validationError ''content'' ''REQUIRED'')) (\<lambda>_.
     and_then (ValidateText ''content'' (note_content i) MaxAttemptNoteRunes) (\<lambda>_.
     and_then (check_items ''next_steps'' (note_next_steps i) MaxAttemptNoteNextSteps MaxAttemptNoteNextStepRunes) (\<lambda>next.
     and_then (ValidateArtifactInputs env ''artifacts'' (note_artifacts i)) (\<lambda>artifacts.
     and_then (copyOptionalSessionID env (note_session i)) (\<lambda>session.
     and_then (normalize_idempotency_key (note_key i)) (\<lambda>key.
     Inr (i\<lparr>note_next_steps := next, note_artifacts := artifacts, note_session := session, note_key := key\<rparr>))))))))))"

record ReserveResourcesInput =
  rsv_attempt :: string
  rsv_token :: string
  rsv_session :: "string option"
  rsv_resources :: "Resource list"
  rsv_key :: "string option"

definition ReserveResourcesInput_Validate :: "env \<Rightarrow> ReserveResourcesInput \<Rightarrow> ReserveResourcesInput res" where
  "ReserveResourcesInput_Validate env i =
     and_then (check_attempt_id env (rsv_attempt i)) (\<lambda>_.
     and_then (check_lease_token (rsv_token i)) (\<lambda>_.
     and_then (PrepareReservationRequest (rsv_resources i)) (\<lambda>_.
     and_then (copyOptionalSessionID env (rsv_session i)) (\<lambda>session.
     and_then (normalize_idempotency_key (rsv_key i)) (\<lambda>key.
     Inr (i\<lparr>rsv_session := session, rsv_key := key\<rparr>))))))"

record ReleaseResourcesInput =
  rel_attempt :: string
  rel_token :: string
  rel_session :: "string option"
  rel_ids :: "string list"
  rel_key :: "string option"

fun check_release_ids :: "env \<Rightarrow> nat \<Rightarrow> string list \<Rightarrow> string list \<Rightarrow> unit res" where
  "check_release_ids env index seen [] = Inr ()"
| "check_release_ids env index seen (i # rest) =
     (if \<not> canonical_ulid env i
      then Inl (NewError CodeInvalidArgument False
             [\<lparr>EntityIndex = Some (int index), Field = ''reservation_ids'', DCode = ''INVALID_ULID''\<rparr>])
      else if i \<in> set seen
      then Inl (NewError CodeInvalidArgument False
             [\<lparr>EntityIndex = Some (int index), Field = ''reservation_ids'', DCode = ''DUPLICATE''\<rparr>])
      else check_release_ids env (Suc index) (i # seen) rest)"

definition ReleaseResourcesInput_Validate :: "env \<Rightarrow> ReleaseResourcesInput \<Rightarrow> ReleaseResourcesInput res" where
  "ReleaseResourcesInput_Validate env i =
     and_then (check_attempt_id env (rel_attempt i)) (\<lambda>_.
     and_then (check_lease_token (rel_token i)) (\<lambda>_.
     and_then (CopyBounded ''reservation_ids'' (rel_ids i) MaxReleaseResourceIDs) (\<lambda>reservationIDs.
     and_then (check_release_ids env 0 [] reservationIDs) (\<lambda>_.
     and_then (copyOptionalSessionID env (rel_session i)) (\<lambda>session.
     and_then (normalize_idempotency_key (rel_key i)) (\<lambda>key.
     Inr (i\<lparr>rel_ids := reservationIDs, rel_session := session, rel_key := key\<rparr>)))))))"

end
