(* ===== verification/AttemptPolicy.thy ===== *)
theory AttemptPolicy
  imports AttemptInput
begin

text \<open>
  The attempt-lifecycle decisions of \<^verbatim>\<open>internal/domain/attempt_policy.go\<close>: whether an issue can be
  claimed, the status a finished attempt leaves behind, the closing timestamp, and which concurrent
  changes need acknowledgement. \<^verbatim>\<open>BlocksPathExists\<close> is in \<open>BlocksGraph\<close>.
\<close>

section \<open>Decisions\<close>

definition EvaluateClaim :: "Issue \<Rightarrow> int \<Rightarrow> bool \<Rightarrow> AttemptKind res" where
  "EvaluateClaim issue unresolvedBlockers hasActiveAttempt =
     (if ArchivedAt issue \<noteq> None then Inl (NewError CodeIssueArchived False [])
      else if \<not> Executable (IType issue)
      then Inl (NewError CodeInvalidArgument False [detail ''issue_id'' ''NOT_EXECUTABLE''])
      else if unresolvedBlockers > 0
      then Inl (NewError CodeInvalidArgument False [detail ''issue_id'' ''BLOCKED''])
      else and_then
        (if IStatus issue = StatusReady then Inr AttemptKindWork
         else if IStatus issue = StatusReview then Inr AttemptKindReview
         else Inl (NewError CodeInvalidArgument False [detail ''issue_id'' ''NOT_CLAIMABLE'']))
        (\<lambda>kind. if hasActiveAttempt then Inl (NewError CodeActiveAttemptExists False []) else Inr kind))"

definition FinishTargetStatus :: "AttemptKind \<Rightarrow> FinishAttemptInput \<Rightarrow> Status \<Rightarrow> Status res" where
  "FinishTargetStatus kind input current =
     (if fin_outcome input \<noteq> AttemptOutcomeCompleted then Inr current
      else if kind = AttemptKindWork then
        (case fin_target input of
           None \<Rightarrow> Inl (NewError CodeInvalidArgument False [detail ''target_issue_status'' ''REQUIRED''])
         | Some s \<Rightarrow> Inr s)
      else (case fin_review input of
           None \<Rightarrow> Inl (NewError CodeInvalidArgument False [detail ''review_outcome'' ''REQUIRED''])
         | Some ReviewOutcomeApproved \<Rightarrow> Inr StatusDone
         | Some ReviewOutcomeChangesRequested \<Rightarrow> Inr StatusReady
         | Some ReviewOutcomeBlocked \<Rightarrow> Inr StatusBlocked
         | Some (ReviewOutcome_other s) \<Rightarrow> Inl (invalidEnum ''review_outcome'')))"

definition NextClosedAt :: "Status \<Rightarrow> Status \<Rightarrow> time \<Rightarrow> time option \<Rightarrow> time option" where
  "NextClosedAt from to now current =
     (if \<not> Terminal from \<and> Terminal to then Some now
      else if Terminal from \<and> \<not> Terminal to then None
      else current)"

definition changeClassificationRequired :: "string list" where
  "changeClassificationRequired =
     [''description'', ''acceptance_criteria'', ''status'', ''blocked_reason'']"

definition changeClassificationWarning :: "string list" where
  "changeClassificationWarning = [''title'', ''priority'', ''labels'', ''parent_id'', ''type'']"

definition issue_changed :: "string \<Rightarrow> string" where
  "issue_changed field = ''ISSUE_CHANGED:'' @ field"

definition ClassifyIssueChanges :: "string list \<Rightarrow> string list \<times> string list" where
  "ClassifyIssueChanges changedFields =
     (let required = remdups (filter (\<lambda>f. f \<in> set changeClassificationRequired) changedFields);
          warnings = remdups (filter (\<lambda>f. f \<notin> set changeClassificationRequired
                                        \<and> f \<in> set changeClassificationWarning) changedFields)
      in (sort (map issue_changed warnings), sort required))"

section \<open>Lemmas\<close>

lemma EvaluateClaim_Inr [result_simps]:
  "EvaluateClaim issue n active = Inr kind \<longleftrightarrow>
     ArchivedAt issue = None \<and> Executable (IType issue) \<and> n \<le> 0 \<and> \<not> active \<and>
     (IStatus issue = StatusReady \<and> kind = AttemptKindWork \<or>
      IStatus issue = StatusReview \<and> kind = AttemptKindReview)"
  by (auto simp: EvaluateClaim_def result_simps split: if_splits)

lemma forbid_Inr [result_simps]: "forbid x f = Inr u \<longleftrightarrow> x = None"
  by (simp add: forbid_def result_simps)

lemma canonical_ulid_iff: "canonical_ulid env v \<longleftrightarrow> ulid_ParseStrict env v = Some v \<and> length v = 26"
  by (auto simp: canonical_ulid_def split: option.splits)

lemma check_optional_Inr [result_simps]:
  "check_optional f v = Inr u \<longleftrightarrow> (\<forall>x. v = Some x \<longrightarrow> f x = Inr ())"
  by (cases v) (auto simp: check_optional_def)

lemma validateLeaseSeconds_Inr [result_simps]:
  "validateLeaseSeconds v = Inr s \<longleftrightarrow> 60 \<le> s \<and> s \<le> 3600 \<and> (v = Some s \<or> v = None \<and> s = 900)"
  by (auto simp: validateLeaseSeconds_def DefaultLeaseSeconds_def MinLeaseSeconds_def
      MaxLeaseSeconds_def Let_def split: option.splits if_splits)

lemma blocked_reason_shape_Inr [result_simps]:
  "blocked_reason_shape i b = Inr u \<longleftrightarrow>
     (if b then \<exists>r. fin_blocked_reason i = Some r \<and> TrimSpace r \<noteq> ''''
      else fin_blocked_reason i = None \<and> fin_details i = None)"
  by (cases b) (auto simp: blocked_reason_shape_def result_simps split: option.splits if_splits)

lemma CanTransition_finish:
  "CanTransition StatusReady s \<longleftrightarrow> s \<in> {StatusBlocked, StatusReview, StatusDone, StatusCancelled}"
  "CanTransition StatusReview s \<longleftrightarrow> s \<in> {StatusReady, StatusBlocked, StatusDone, StatusCancelled}"
  by (cases s; simp add: CanTransition_def Status_Valid_def AllStatuses_def)+

lemma Finish_Validate_target:
  assumes "FinishAttemptInput_Validate env i = Inr j"
  shows "\<And>s. fin_target i = Some s \<Longrightarrow> s \<in> {StatusReady, StatusBlocked, StatusReview, StatusDone}"
    and "\<And>r. fin_review i = Some r \<Longrightarrow> ReviewOutcome_Valid r"
proof -
  show "s \<in> {StatusReady, StatusBlocked, StatusReview, StatusDone}" if "fin_target i = Some s" for s
    using assms that unfolding FinishAttemptInput_Validate_def
    by (cases s) (auto simp: result_simps Status_Valid_def AllStatuses_def)
  show "ReviewOutcome_Valid r" if "fin_review i = Some r" for r
    using assms that unfolding FinishAttemptInput_Validate_def by (auto simp: result_simps)
qed

lemma normalize_idempotency_key_again:
  assumes "normalize_idempotency_key k = Inr k'" shows "normalize_idempotency_key k' = Inr k'"
  using assms ValidateText_TrimSpace [of "''idempotency_key''"]
  by (auto simp: normalize_idempotency_key_def Let_def and_then_eq_Inr split: option.splits if_splits)

lemma check_items_Inr: "check_items f vs m n = Inr ws \<Longrightarrow> ws = vs"
  by (auto simp: check_items_def result_simps)

lemma copyOptionalSessionID_Inr: "copyOptionalSessionID env s = Inr s' \<Longrightarrow> s' = s"
  by (auto simp: copyOptionalSessionID_def result_simps split: option.splits)

text \<open>Documented behaviour of \<^verbatim>\<open>json.Compact\<close>: it only removes white space, once.\<close>

definition compact_stable :: "env \<Rightarrow> bool" where
  "compact_stable env \<longleftrightarrow>
     (\<forall>m c. json_Compact env m = Some c \<longrightarrow> json_Compact env c = Some c \<and> length c \<le> length m)"

lemma normalizeArtifactMetadata_again:
  assumes "compact_stable env" and "normalizeArtifactMetadata env f m = Inr m'"
  shows "normalizeArtifactMetadata env f m' = Inr m'"
proof (cases m')
  case (Some c)
  then obtain x where x: "m = Some x"
    using assms(2) by (cases m) (simp_all add: normalizeArtifactMetadata_def)
  have len: "int (length x) \<le> MaxArtifactMetadataBytes"
    using assms(2) x by (simp add: normalizeArtifactMetadata_def split: if_splits)
  obtain d where d: "json_Compact env x = Some d"
    using assms(2) x len by (cases "json_Compact env x") (simp_all add: normalizeArtifactMetadata_def)
  have c: "d = c" "c \<noteq> ''null''" "take 1 c = ''{''"
    using assms(2) unfolding x normalizeArtifactMetadata_def Some by (simp_all add: len d split: if_splits)
  have "json_Compact env c = Some c" "length c \<le> length x"
    using assms(1) d c(1) unfolding compact_stable_def by blast+
  with len c Some show ?thesis by (simp add: normalizeArtifactMetadata_def)
qed (simp add: normalizeArtifactMetadata_def)

lemma validate_artifacts_again:
  "validate_artifacts_from env f n items = Inr items' \<Longrightarrow> compact_stable env \<Longrightarrow>
     validate_artifacts_from env f n items' = Inr items'"
proof (induction env f n items arbitrary: items' rule: validate_artifacts_from.induct)
  case (2 env f n item rest)
  then obtain a as where a: "validate_artifact env f n item = Inr a"
      "validate_artifacts_from env f (Suc n) rest = Inr as" "items' = a # as"
    by (auto simp: result_simps)
  have "validate_artifact env f n a = Inr a"
  proof -
    obtain md where md: "normalizeArtifactMetadata env (itemField f n ''metadata'') (art_metadata item) = Inr md"
        "a = item\<lparr>art_metadata := md\<rparr>"
      using a(1) unfolding validate_artifact_def and_then_eq_Inr by blast
    have again: "normalizeArtifactMetadata env (itemField f n ''metadata'') md = Inr md"
      using md(1) by (rule normalizeArtifactMetadata_again [OF 2(3)])
    show ?thesis
      using a(1) unfolding validate_artifact_def md(2) by (simp add: and_then_eq_Inr again)
  qed
  with a 2 show ?case by simp
qed simp

lemma validate_artifacts_length:
  "validate_artifacts_from env f n items = Inr items' \<Longrightarrow> length items' = length items"
  by (induction env f n items arbitrary: items' rule: validate_artifacts_from.induct) (auto simp: result_simps)

lemma Finish_Validate_fields:
  assumes "FinishAttemptInput_Validate env i = Inr j"
  obtains artifacts key where
    "ValidateArtifactInputs env ''artifacts'' (fin_artifacts i) = Inr artifacts"
    "normalize_idempotency_key (fin_key i) = Inr key"
    "j = i\<lparr>fin_artifacts := artifacts, fin_key := key\<rparr>"
proof -
  obtain nx vf artifacts key ses where
    "check_items ''next_steps'' (fin_next_steps i) MaxAttemptNoteNextSteps MaxAttemptNoteNextStepRunes = Inr nx"
    "check_items ''verification'' (fin_verification i) MaxVerificationItems MaxVerificationRunes = Inr vf"
    "ValidateArtifactInputs env ''artifacts'' (fin_artifacts i) = Inr artifacts"
    "normalize_idempotency_key (fin_key i) = Inr key" "copyOptionalSessionID env (fin_session i) = Inr ses"
    "j = i\<lparr>fin_next_steps := nx, fin_verification := vf, fin_artifacts := artifacts, fin_key := key,
           fin_session := ses\<rparr>"
    using assms unfolding FinishAttemptInput_Validate_def and_then_eq_Inr by auto
  then show thesis
    using that [of artifacts key] check_items_Inr copyOptionalSessionID_Inr by fastforce
qed

lemma Finish_Validate_again:
  assumes "compact_stable env" and v: "FinishAttemptInput_Validate env i = Inr j"
  shows "FinishAttemptInput_Validate env j = Inr j"
proof -
  obtain artifacts key where f: "ValidateArtifactInputs env ''artifacts'' (fin_artifacts i) = Inr artifacts"
    "normalize_idempotency_key (fin_key i) = Inr key" "j = i\<lparr>fin_artifacts := artifacts, fin_key := key\<rparr>"
    using Finish_Validate_fields [OF v] by blast
  have n: "normalize_idempotency_key key = Inr key" using f(2) by (rule normalize_idempotency_key_again)
  have a: "ValidateArtifactInputs env ''artifacts'' artifacts = Inr artifacts"
    using f(1) validate_artifacts_again [OF _ assms(1)] validate_artifacts_length
    by (fastforce simp: ValidateArtifactInputs_def result_simps)
  have shape: "finish_outcome_shape j = finish_outcome_shape i"
    by (simp add: f(3) finish_outcome_shape_def)
  show ?thesis
    using v unfolding FinishAttemptInput_Validate_def shape unfolding f(3)
    by (auto simp: and_then_eq_Inr f(1,2) a n)
qed

text \<open>
  \<open>closed_at\<close> is set exactly for terminal statuses, and a transition within the terminal statuses
  keeps the original closing time.
\<close>

lemma closed_at_tracks_terminal:
  assumes "current \<noteq> None \<longleftrightarrow> Terminal from"
  shows "NextClosedAt from to now current \<noteq> None \<longleftrightarrow> Terminal to"
    and "Terminal from \<Longrightarrow> Terminal to \<Longrightarrow> NextClosedAt from to now current = current"
  using assms by (auto simp: NextClosedAt_def)

section \<open>Properties\<close>

text \<open>
  C32. A validated completion is never refused by the status machine: for an issue still in the
  status its attempt kind is claimed from (ready for work, review for review), the target status
  exists, the finish transition to it is allowed, and the stored blocked reason is the non-blank
  reason the request gave exactly when the target is blocked.
\<close>

theorem finish_transition_total:
  assumes "EvaluateClaim issue n False = Inr kind"
    and "ValidateFinishAttemptForKind env i kind = Inr ()"
    and "fin_outcome i = AttemptOutcomeCompleted"
  shows "\<exists>st. FinishTargetStatus kind i (IStatus issue) = Inr st \<and>
     st \<in> {StatusReady, StatusBlocked, StatusReview, StatusDone} \<and>
     ApplyFinishTransition (IStatus issue) st (case fin_blocked_reason i of None \<Rightarrow> '''' | Some r \<Rightarrow> r) =
       Inr (if st = StatusBlocked then the (fin_blocked_reason i) else '''') \<and>
     (st = StatusBlocked \<longrightarrow> TrimSpace (the (fin_blocked_reason i)) \<noteq> '''')"
proof -
  obtain j where j: "FinishAttemptInput_Validate env i = Inr j"
    using assms(2) by (auto simp: ValidateFinishAttemptForKind_def result_simps)
  note target = Finish_Validate_target [OF j]
  from assms(1) consider "IStatus issue = StatusReady" "kind = AttemptKindWork"
    | "IStatus issue = StatusReview" "kind = AttemptKindReview"
    by (auto simp: EvaluateClaim_Inr)
  then show ?thesis
  proof cases
    case 1
    then obtain t where t: "fin_target i = Some t" "blocked_reason_shape i (t = StatusBlocked) = Inr ()"
      using assms(2,3) j by (auto simp: ValidateFinishAttemptForKind_def result_simps split: option.splits)
    have s: "FinishTargetStatus kind i (IStatus issue) = Inr t"
      using 1 t assms(3) by (simp add: FinishTargetStatus_def)
    show ?thesis
      using 1 t(2) target(1) [OF t(1)] unfolding s
      by (auto simp: ApplyFinishTransition_def ApplyStatusTransition_Inr CanTransition_finish
          blocked_reason_shape_Inr)
  next
    case 2
    then obtain r where r: "fin_review i = Some r" "blocked_reason_shape i (r = ReviewOutcomeBlocked) = Inr ()"
      using assms(2,3) j by (auto simp: ValidateFinishAttemptForKind_def result_simps split: option.splits)
    then have "r \<in> {ReviewOutcomeApproved, ReviewOutcomeChangesRequested, ReviewOutcomeBlocked}"
      using target(2) by (auto simp: ReviewOutcome_Valid_def)
    then consider "r = ReviewOutcomeApproved" | "r = ReviewOutcomeChangesRequested"
      | "r = ReviewOutcomeBlocked" by blast
    then show ?thesis
    proof cases
      case 3
      then obtain b where "fin_blocked_reason i = Some b" "TrimSpace b \<noteq> ''''"
        using r(2) by (auto simp: blocked_reason_shape_Inr)
      then show ?thesis
        using 2 r(1) 3 assms(3)
        by (simp add: FinishTargetStatus_def ApplyFinishTransition_def ApplyStatusTransition_Inr
            CanTransition_finish)
    qed (use 2 r assms(3) in \<open>simp_all add: FinishTargetStatus_def ApplyFinishTransition_def
        ApplyStatusTransition_Inr CanTransition_finish blocked_reason_shape_Inr\<close>)
  qed
qed

definition sample_env :: env where
  "sample_env = \<lparr>ulid_ParseStrict = (\<lambda>v. if length v = 26 then Some v else None),
     url_ParseRequestURI = (\<lambda>v. None), json_Compact = (\<lambda>v. if take 1 v = ''{'' then Some v else None),
     sha256_Sum256 = (\<lambda>v. v)\<rparr>"

definition sample_ulid :: "char \<Rightarrow> string" where "sample_ulid c = replicate 26 c"

definition sample_issue :: Issue where
  "sample_issue = \<lparr>IID = sample_ulid CHR ''I'', SequenceNo = 1, IType = TypeTask, Title = ''t'',
     Description = None, AcceptanceCriteria = None, IStatus = StatusReady, IPriority = PriorityMedium,
     ParentID = None, BlockedReason = None, IVersion = 1, CreatedAt = 0, UpdatedAt = 0,
     ClosedAt = None, ArchivedAt = None, Labels = []\<rparr>"

definition sample_finish :: FinishAttemptInput where
  "sample_finish = \<lparr>fin_attempt = sample_ulid CHR ''A'', fin_token = ''tok'', fin_session = None,
     fin_outcome = AttemptOutcomeCompleted, fin_summary = ''done'', fin_next_steps = [''x''],
     fin_verification = [], fin_target = Some StatusBlocked, fin_blocked_reason = Some ''waiting'',
     fin_review = None, fin_failure = None, fin_interruption = None, fin_details = None,
     fin_ack = None,
     fin_artifacts = [\<lparr>art_type = ArtifactTypeFile, art_uri = ''a/b'', art_title = None, art_metadata = Some ''{}''\<rparr>],
     fin_key = Some '' k ''\<rparr>"

theorem finish_transition_total_witness:
  "\<exists>st. FinishTargetStatus AttemptKindWork sample_finish (IStatus sample_issue) = Inr st \<and>
     st = StatusBlocked"
proof -
  have "EvaluateClaim sample_issue 0 False = Inr AttemptKindWork" by code_simp
  moreover have "ValidateFinishAttemptForKind sample_env sample_finish AttemptKindWork = Inr ()" by code_simp
  moreover have "fin_outcome sample_finish = AttemptOutcomeCompleted" by (simp add: sample_finish_def)
  ultimately have "\<exists>st. FinishTargetStatus AttemptKindWork sample_finish (IStatus sample_issue) = Inr st"
    using finish_transition_total by blast
  then show ?thesis by (auto simp: FinishTargetStatus_def sample_finish_def)
qed

text \<open>
  C33. Validating a finish request is idempotent: the normalized copy a validation returns passes
  again and is returned unchanged, so the second validation \<^verbatim>\<open>ValidateFinishAttemptForKind\<close> runs
  inside the transaction cannot refuse or alter what the first accepted.
\<close>

theorem finish_validate_idempotent:
  assumes "compact_stable env" and "FinishAttemptInput_Validate env i = Inr j"
  shows "FinishAttemptInput_Validate env j = Inr j"
  using assms by (rule Finish_Validate_again)

definition normalized_finish :: FinishAttemptInput where
  "normalized_finish = sample_finish\<lparr>fin_key := Some ''k''\<rparr>"

theorem finish_validate_idempotent_witness:
  "FinishAttemptInput_Validate sample_env normalized_finish = Inr normalized_finish"
proof (rule finish_validate_idempotent)
  show "compact_stable sample_env"
    by (auto simp: compact_stable_def sample_env_def split: if_splits)
  show "FinishAttemptInput_Validate sample_env sample_finish = Inr normalized_finish" by code_simp
qed

text \<open>
  The classification of concurrent changes depends only on the set of changed fields: neither
  the order of the events nor repetitions matter, both lists come out sorted without repetition,
  and the fields that need acknowledgement are exactly the four of the contract that occur.
\<close>

lemma classify_changes_canonical:
  "(set fs = set gs \<longrightarrow> ClassifyIssueChanges fs = ClassifyIssueChanges gs) \<and>
   (let (warnings, required) = ClassifyIssueChanges fs in
      sorted warnings \<and> sorted required \<and> distinct warnings \<and> distinct required \<and>
      set required = set fs \<inter> {''description'', ''acceptance_criteria'', ''status'', ''blocked_reason''} \<and>
      set warnings = issue_changed `
        (set fs \<inter> {''title'', ''priority'', ''labels'', ''parent_id'', ''type''}))"
proof -
  have inj: "inj issue_changed" by (simp add: issue_changed_def inj_def)
  have dist: "distinct (map issue_changed (remdups xs))" for xs
    using inj by (simp add: distinct_map inj_on_def inj_def)
  have sets: "set (remdups (filter P fs)) = set (remdups (filter P gs))" if "set fs = set gs" for P
    using that by auto
  have same: "sort (map issue_changed (remdups (filter P fs))) = sort (map issue_changed (remdups (filter P gs)))"
      "sort (remdups (filter P fs)) = sort (remdups (filter P gs))" if "set fs = set gs" for P
  proof -
    show "sort (map issue_changed (remdups (filter P fs))) = sort (map issue_changed (remdups (filter P gs)))"
      using sets [OF that] by (intro sort_distinct_unique dist) (simp only: set_map)
    show "sort (remdups (filter P fs)) = sort (remdups (filter P gs))"
      using sets [OF that] by (intro sort_distinct_unique distinct_remdups)
  qed
  have req: "{x \<in> set fs. x \<in> set changeClassificationRequired} =
      set fs \<inter> {''description'', ''acceptance_criteria'', ''status'', ''blocked_reason''}"
    by (auto simp: changeClassificationRequired_def)
  have warn: "{x \<in> set fs. x \<notin> set changeClassificationRequired \<and> x \<in> set changeClassificationWarning} =
      set fs \<inter> {''title'', ''priority'', ''labels'', ''parent_id'', ''type''}"
    by (auto simp: changeClassificationRequired_def changeClassificationWarning_def)
  show ?thesis
    unfolding ClassifyIssueChanges_def Let_def prod.case
    by (simp add: same dist req warn)
qed


end
