(* ===== verification/BlocksGraph.thy ===== *)
theory BlocksGraph
  imports AttemptPolicy
begin

text \<open>
  Reachability over \<^verbatim>\<open>blocks\<close> edges. The program decides it twice: a breadth-first search over a
  neighbour function (\<^verbatim>\<open>domain.BlocksPathExists\<close>, \<^verbatim>\<open>internal/domain/attempt_policy.go\<close>) and a
  recursive SQL query over the relations table (\<^verbatim>\<open>blocksPathExists\<close>,
  \<^verbatim>\<open>internal/adapters/sqlite/relations.go\<close>). Both are proved to decide the transitive closure; a
  locale states what a cycle check needs of such a test, interpreted on both.
\<close>

section \<open>Breadth-first search\<close>

text \<open>One pass over the neighbours of the current node; \<open>None\<close> is the early \<^verbatim>\<open>return true\<close>.\<close>

fun scan_neighbors ::
  "'n \<Rightarrow> 'n list \<Rightarrow> 'n list \<Rightarrow> 'n list \<Rightarrow> ('n list \<times> 'n list) option" where
  "scan_neighbors sought seen queue [] = Some (seen, queue)"
| "scan_neighbors sought seen queue (nxt # rest) =
     (if nxt = sought then None
      else if nxt \<in> set seen then scan_neighbors sought seen queue rest
      else scan_neighbors sought (nxt # seen) (queue @ [nxt]) rest)"

text \<open>
  The queue loop. It need not end for an arbitrary neighbour function, so it is a partial function
  and not returning is \<open>None\<close>.
\<close>

partial_function (option) search_loop ::
  "('n \<Rightarrow> 'n list) \<Rightarrow> 'n \<Rightarrow> 'n list \<Rightarrow> 'n list \<Rightarrow> bool option" where
  [code]: "search_loop neighbors sought seen queue =
     (case queue of
        [] \<Rightarrow> Some False
      | current # rest \<Rightarrow>
          (case scan_neighbors sought seen rest (neighbors current) of
             None \<Rightarrow> Some True
           | Some (seen', queue') \<Rightarrow> search_loop neighbors sought seen' queue'))"

definition BlocksPathExists :: "'n \<Rightarrow> 'n \<Rightarrow> ('n \<Rightarrow> 'n list) \<Rightarrow> bool option" where
  "BlocksPathExists start sought neighbors = search_loop neighbors sought [start] [start]"

definition edges_of :: "('n \<Rightarrow> 'n list) \<Rightarrow> ('n \<times> 'n) set" where
  "edges_of neighbors = {(x, y). y \<in> set (neighbors x)}"

lemma scan_neighbors_None:
  "scan_neighbors sought seen queue ns = None \<longleftrightarrow> sought \<in> set ns"
proof (induction sought seen queue ns rule: scan_neighbors.induct)
  case (2 sought seen queue nxt rest)
  show ?case
  proof (cases "nxt = sought")
    case False
    then have ne: "sought \<noteq> nxt" by blast
    show ?thesis
      using 2 False ne by (cases "nxt \<in> set seen") simp_all
  qed simp
qed simp

lemma scan_neighbors_new:
  assumes "scan_neighbors sought seen queue ns = Some (seen', queue')"
  shows "\<exists>new. queue' = queue @ new \<and> seen' = rev new @ seen \<and> distinct new \<and>
    set new = set ns - set seen"
  using assms
proof (induction sought seen queue ns arbitrary: seen' queue' rule: scan_neighbors.induct)
  case (2 sought seen queue nxt rest)
  show ?case
  proof (cases "nxt \<in> set seen")
    case True
    then show ?thesis using 2 by (auto split: if_splits)
  next
    case False
    then obtain new where "queue' = (queue @ [nxt]) @ new" "seen' = rev new @ nxt # seen"
        "distinct new" "set new = set rest - set (nxt # seen)"
      using 2 by (metis option.distinct(1) scan_neighbors.simps(2))
    then show ?thesis using False by (intro exI [of _ "nxt # new"]) auto
  qed
qed auto

lemma scan_neighbors_Some:
  assumes "scan_neighbors sought seen queue ns = Some (seen', queue')"
  shows "set seen' = set seen \<union> set ns" and "set queue' = set queue \<union> (set ns - set seen)"
    and "\<exists>new. queue' = queue @ new \<and> seen' = rev new @ seen \<and> distinct new \<and> set new \<inter> set seen = {}"
proof -
  obtain new where new: "queue' = queue @ new" "seen' = rev new @ seen" "distinct new"
      "set new = set ns - set seen"
    using scan_neighbors_new [OF assms] by blast
  then show "set seen' = set seen \<union> set ns" "set queue' = set queue \<union> (set ns - set seen)"
    by (simp_all add: Un_commute)
  show "\<exists>new. queue' = queue @ new \<and> seen' = rev new @ seen \<and> distinct new \<and> set new \<inter> set seen = {}"
    using new by (intro exI [of _ new]) blast
qed

text \<open>
  The loop invariant: the queue lies within the seen nodes, the seen nodes are reachable from
  \<open>start\<close>, and a seen node that has left the queue has all its neighbours seen and is not adjacent
  to \<open>sought\<close>.
\<close>

definition search_inv :: "('n \<Rightarrow> 'n list) \<Rightarrow> 'n \<Rightarrow> 'n \<Rightarrow> 'n list \<Rightarrow> 'n list \<Rightarrow> bool" where
  "search_inv neighbors start sought seen queue \<longleftrightarrow>
     start \<in> set seen \<and> set queue \<subseteq> set seen \<and> distinct seen \<and>
     set seen \<subseteq> (edges_of neighbors)\<^sup>* `` {start} \<and>
     (\<forall>x \<in> set seen - set queue. set (neighbors x) \<subseteq> set seen \<and> sought \<notin> set (neighbors x))"

lemma search_inv_step:
  assumes inv: "search_inv neighbors start sought seen (current # rest)"
    and scan: "scan_neighbors sought seen rest (neighbors current) = Some (seen', queue')"
  shows "search_inv neighbors start sought seen' queue'"
proof -
  note s = scan_neighbors_Some [OF scan]
  have notin: "sought \<notin> set (neighbors current)" using scan scan_neighbors_None [of sought seen rest "neighbors current"] by simp
  have cur: "(start, current) \<in> (edges_of neighbors)\<^sup>*" using inv by (auto simp: search_inv_def)
  have "(start, y) \<in> (edges_of neighbors)\<^sup>*" if "y \<in> set (neighbors current)" for y
    using cur that by (auto simp: edges_of_def intro: rtrancl_into_rtrancl)
  then have reach: "set seen' \<subseteq> (edges_of neighbors)\<^sup>* `` {start}"
    using inv s(1) by (auto simp: search_inv_def)
  have dist: "distinct seen'" using inv s(3) by (auto simp: search_inv_def)
  have closed: "set (neighbors x) \<subseteq> set seen' \<and> sought \<notin> set (neighbors x)"
    if "x \<in> set seen' - set queue'" for x
  proof (cases "x = current")
    case True
    then show ?thesis using s(1) notin by simp
  next
    case False
    then have "x \<in> set seen - set (current # rest)" using that s by auto
    then show ?thesis using inv s(1) by (auto simp: search_inv_def)
  qed
  show ?thesis
    using inv reach dist closed s(1,2) unfolding search_inv_def by auto
qed

lemma search_loop_correct:
  assumes "finite ((edges_of neighbors)\<^sup>* `` {start})"
    and "search_inv neighbors start sought seen queue"
  shows "search_loop neighbors sought seen queue = Some ((start, sought) \<in> (edges_of neighbors)\<^sup>+)"
  using assms(2)
proof (induction "card ((edges_of neighbors)\<^sup>* `` {start} - set seen) + length queue"
    arbitrary: seen queue rule: less_induct)
  case less
  let ?R = "(edges_of neighbors)\<^sup>* `` {start}"
  show ?case
  proof (cases queue)
    case Nil
    have "set seen = ?R"
    proof
      show "set seen \<subseteq> ?R" using less.prems by (auto simp: search_inv_def)
      have "y \<in> set seen" if "(start, y) \<in> (edges_of neighbors)\<^sup>*" for y
        using that
      proof induction
        case base
        then show ?case using less.prems by (simp add: search_inv_def)
      next
        case (step y z)
        then show ?case using less.prems Nil by (auto simp: search_inv_def edges_of_def)
      qed
      then show "?R \<subseteq> set seen" by auto
    qed
    then have "(start, sought) \<notin> (edges_of neighbors)\<^sup>+"
      using less.prems Nil by (auto simp: search_inv_def edges_of_def dest!: tranclD2)
    then show ?thesis using Nil by (simp add: search_loop.simps)
  next
    case (Cons current rest)
    show ?thesis
    proof (cases "scan_neighbors sought seen rest (neighbors current)")
      case None
      then have "(current, sought) \<in> edges_of neighbors"
        by (simp add: scan_neighbors_None edges_of_def)
      moreover have "(start, current) \<in> (edges_of neighbors)\<^sup>*"
        using less.prems Cons by (auto simp: search_inv_def)
      ultimately show ?thesis using None Cons by (simp add: search_loop.simps rtrancl_into_trancl1)
    next
      case (Some p)
      obtain seen' queue' where p: "p = (seen', queue')" by (cases p)
      have scan: "scan_neighbors sought seen rest (neighbors current) = Some (seen', queue')"
        using Some p by simp
      obtain new where new: "queue' = rest @ new" "seen' = rev new @ seen" "distinct new"
          "set new \<inter> set seen = {}"
        using scan_neighbors_Some(3) [OF scan] by blast
      have inv: "search_inv neighbors start sought seen' queue'"
        using search_inv_step less.prems Cons scan by metis
      have sub: "set new \<subseteq> ?R - set seen" using inv new by (auto simp: search_inv_def)
      have "card (?R - set seen') = card ((?R - set seen) - set new)"
        using new by (intro arg_cong [of _ _ card]) auto
      also have "\<dots> = card (?R - set seen) - length new"
        using sub new(3) by (subst card_Diff_subset) (auto simp: distinct_card)
      finally have "card (?R - set seen') + length new = card (?R - set seen)"
        using card_mono [OF _ sub] assms(1) new(3) by (simp add: distinct_card)
      then have "card (?R - set seen') + length queue' < card (?R - set seen) + length queue"
        using new Cons by simp
      then have "search_loop neighbors sought seen' queue' = Some ((start, sought) \<in> (edges_of neighbors)\<^sup>+)"
        using inv by (rule less.hyps)
      then show ?thesis using scan Cons by (simp add: search_loop.simps [of _ _ seen "current # rest"])
    qed
  qed
qed

lemma BlocksPathExists_correct:
  assumes "finite ((edges_of neighbors)\<^sup>* `` {start})"
  shows "BlocksPathExists start sought neighbors = Some ((start, sought) \<in> (edges_of neighbors)\<^sup>+)"
  unfolding BlocksPathExists_def
  by (rule search_loop_correct [OF assms]) (simp add: search_inv_def)

section \<open>Relations\<close>

datatype RelationType =
  RelationTypeBlocks | RelationTypeRelatedTo | RelationTypeDuplicates | RelationType_other string

definition AllRelationTypes :: "RelationType list" where
  "AllRelationTypes = [RelationTypeBlocks, RelationTypeRelatedTo, RelationTypeDuplicates]"

definition RelationType_Valid :: "RelationType \<Rightarrow> bool" where
  "RelationType_Valid t = enumValid t AllRelationTypes"

datatype RelationAction = RelationActionAdd | RelationActionRemove | RelationAction_other string

definition RelationAction_Valid :: "RelationAction \<Rightarrow> bool" where
  "RelationAction_Valid a \<longleftrightarrow> a = RelationActionAdd \<or> a = RelationActionRemove"

record IssueRelation =
  rl_id :: string
  rl_source :: string
  rl_target :: string
  rl_type :: RelationType
  rl_created :: time

definition CanonicalRelationEndpoints :: "RelationType \<Rightarrow> string \<Rightarrow> string \<Rightarrow> string \<times> string" where
  "CanonicalRelationEndpoints relationType sourceID targetID =
     (if relationType = RelationTypeRelatedTo \<and> sourceID > targetID then (targetID, sourceID)
      else (sourceID, targetID))"

definition selfRelationError :: Error where
  "selfRelationError = NewError CodeInvalidArgument False [detail ''target_issue_id'' ''SELF_RELATION'']"

record ManageIssueRelationInput =
  mr_action :: RelationAction
  mr_source :: string
  mr_target :: string
  mr_type :: RelationType
  mr_key :: "string option"

definition parseRelationIdentifier :: "env \<Rightarrow> string \<Rightarrow> string \<Rightarrow> IssueIdentifier res" where
  "parseRelationIdentifier env field v =
     and_then (ValidateText field v (-1)) (\<lambda>_.
     case ParseIssueIdentifier env v of
       Inl e \<Rightarrow> Inl (validationError field ''INVALID_IDENTIFIER'')
     | Inr identifier \<Rightarrow> Inr identifier)"

definition ManageIssueRelationInput_Validate ::
  "env \<Rightarrow> ManageIssueRelationInput \<Rightarrow> ManageIssueRelationInput res" where
  "ManageIssueRelationInput_Validate env i =
     and_then (require (RelationAction_Valid (mr_action i)) (invalidEnum ''action'')) (\<lambda>_.
     and_then (require (RelationType_Valid (mr_type i)) (invalidEnum ''relation_type'')) (\<lambda>_.
     and_then (parseRelationIdentifier env ''source_issue_id'' (mr_source i)) (\<lambda>source.
     and_then (parseRelationIdentifier env ''target_issue_id'' (mr_target i)) (\<lambda>target.
     and_then (require (\<not> (id_kind source = id_kind target \<and> id_value source = id_value target))
                selfRelationError) (\<lambda>_.
     and_then (normalize_idempotency_key (mr_key i)) (\<lambda>key.
     Inr \<lparr>mr_action = mr_action i, mr_source = id_value source, mr_target = id_value target,
          mr_type = mr_type i, mr_key = key\<rparr>))))))"

section \<open>The recursive query\<close>

text \<open>
  \<^verbatim>\<open>WITH RECURSIVE reachable\<close>: SQLite keeps a queue of rows, drops a row that was ever produced
  (\<^verbatim>\<open>UNION\<close>), and joins each extracted row with the table once.
\<close>

definition blocks_targets :: "IssueRelation list \<Rightarrow> string \<Rightarrow> string list" where
  "blocks_targets rows issue =
     map rl_target (filter (\<lambda>r. rl_source r = issue \<and> rl_type r = RelationTypeBlocks) rows)"

fun union_rows :: "'n list \<Rightarrow> 'n list \<Rightarrow> 'n list \<Rightarrow> 'n list \<times> 'n list" where
  "union_rows produced queue [] = (produced, queue)"
| "union_rows produced queue (r # rs) =
     (if r \<in> set produced then union_rows produced queue rs
      else union_rows (r # produced) (queue @ [r]) rs)"

lemma union_rows_new:
  "\<exists>new. union_rows produced queue rs = (rev new @ produced, queue @ new) \<and> distinct new \<and>
     set new = set rs - set produced"
proof (induction produced queue rs rule: union_rows.induct)
  case (2 produced queue r rs)
  show ?case
  proof (cases "r \<in> set produced")
    case True
    then show ?thesis using 2 by (simp add: insert_Diff_if)
  next
    case False
    then obtain new where "union_rows (r # produced) (queue @ [r]) rs =
        (rev new @ r # produced, (queue @ [r]) @ new)" "distinct new" "set new = set rs - set (r # produced)"
      using 2 by blast
    then show ?thesis using False by (intro exI [of _ "r # new"]) auto
  qed
qed simp

function recursive_union :: "IssueRelation list \<Rightarrow> string list \<Rightarrow> string list \<Rightarrow> string list" where
  "recursive_union rows produced [] = produced"
| "recursive_union rows produced (issue # queue) =
     (case union_rows produced queue (blocks_targets rows issue) of
        (produced', queue') \<Rightarrow> recursive_union rows produced' queue')"
  by pat_completeness auto

definition pending :: "IssueRelation list \<Rightarrow> string list \<Rightarrow> nat" where
  "pending rows produced = card (rl_target ` set rows - set produced)"

lemma blocks_targets_sub: "set (blocks_targets rows issue) \<subseteq> rl_target ` set rows"
  by (auto simp: blocks_targets_def)

lemma pending_less:
  assumes "distinct new" and "set new = set ts - set produced" and "set ts \<subseteq> rl_target ` set rows"
  shows "pending rows (rev new @ produced) + length new = pending rows produced"
proof -
  have sub: "set new \<subseteq> rl_target ` set rows - set produced" using assms by auto
  have "pending rows (rev new @ produced) = card ((rl_target ` set rows - set produced) - set new)"
    unfolding pending_def by (rule arg_cong [of _ _ card]) auto
  also have "\<dots> = pending rows produced - length new"
    using sub assms(1) by (simp add: card_Diff_subset distinct_card pending_def)
  finally show ?thesis
    using card_mono [OF _ sub] assms(1) by (simp add: distinct_card pending_def)
qed

lemma union_rows_pending:
  assumes "union_rows produced queue (blocks_targets rows issue) = (produced', queue')"
  shows "pending rows produced' + length queue' < Suc (pending rows produced + length queue)"
proof -
  obtain new where new: "union_rows produced queue (blocks_targets rows issue) = (rev new @ produced, queue @ new)"
      "distinct new" "set new = set (blocks_targets rows issue) - set produced"
    using union_rows_new [of produced queue "blocks_targets rows issue"] by metis
  then show ?thesis
    using pending_less [OF new(2,3) blocks_targets_sub] assms by simp
qed

termination recursive_union
  by (relation "measure (\<lambda>(rows, produced, queue). pending rows produced + length queue)")
    (auto split: prod.splits simp: union_rows_pending)

definition blocksPathExists :: "IssueRelation list \<Rightarrow> string \<Rightarrow> string \<Rightarrow> bool" where
  "blocksPathExists rows startID soughtID =
     (case union_rows [] [] (blocks_targets rows startID) of
        (produced, queue) \<Rightarrow> soughtID \<in> set (recursive_union rows produced queue))"

definition blocks_edges :: "IssueRelation list \<Rightarrow> (string \<times> string) set" where
  "blocks_edges rows =
     {(rl_source r, rl_target r) | r. r \<in> set rows \<and> rl_type r = RelationTypeBlocks}"

lemma blocks_edges_append:
  "blocks_edges (rows @ [e]) =
     (if rl_type e = RelationTypeBlocks then insert (rl_source e, rl_target e) (blocks_edges rows) else blocks_edges rows)"
  by (auto simp: blocks_edges_def)

lemma blocks_targets_edges: "y \<in> set (blocks_targets rows x) \<longleftrightarrow> (x, y) \<in> blocks_edges rows"
  by (auto simp: blocks_targets_def blocks_edges_def)

lemma edges_of_blocks_targets: "edges_of (blocks_targets rows) = blocks_edges rows"
  by (auto simp: edges_of_def blocks_targets_edges)

definition union_inv :: "IssueRelation list \<Rightarrow> string \<Rightarrow> string list \<Rightarrow> string list \<Rightarrow> bool" where
  "union_inv rows start produced queue \<longleftrightarrow>
     set queue \<subseteq> set produced \<and> set (blocks_targets rows start) \<subseteq> set produced \<and>
     set produced \<subseteq> (blocks_edges rows)\<^sup>+ `` {start} \<and>
     (\<forall>x \<in> set produced - set queue. set (blocks_targets rows x) \<subseteq> set produced)"

lemma recursive_union_closure:
  "union_inv rows start produced queue \<Longrightarrow>
     set (recursive_union rows produced queue) = (blocks_edges rows)\<^sup>+ `` {start}"
proof (induction rows produced queue rule: recursive_union.induct)
  case (1 rows produced)
  have "y \<in> set produced" if "(start, y) \<in> (blocks_edges rows)\<^sup>+" for y
    using that
  proof induction
    case (base y)
    then show ?case using 1 by (auto simp: union_inv_def blocks_targets_edges [symmetric])
  next
    case (step y z)
    then have "z \<in> set (blocks_targets rows y)" by (simp add: blocks_targets_edges)
    then show ?case using 1 step.IH by (auto simp: union_inv_def)
  qed
  then show ?case using 1 by (auto simp: union_inv_def)
next
  case (2 rows produced issue queue)
  obtain new where new: "union_rows produced queue (blocks_targets rows issue) = (rev new @ produced, queue @ new)"
      "set new = set (blocks_targets rows issue) - set produced"
    using union_rows_new [of produced queue "blocks_targets rows issue"] by metis
  have "issue \<in> set produced" "set produced \<subseteq> (blocks_edges rows)\<^sup>+ `` {start}"
    using 2(2) by (simp_all add: union_inv_def)
  then have cur: "(start, issue) \<in> (blocks_edges rows)\<^sup>+" by blast
  have reach: "set new \<subseteq> (blocks_edges rows)\<^sup>+ `` {start}"
  proof
    fix y assume "y \<in> set new"
    then have "(issue, y) \<in> blocks_edges rows" using new(2) by (simp add: blocks_targets_edges)
    with cur show "y \<in> (blocks_edges rows)\<^sup>+ `` {start}" by (simp add: trancl_into_trancl)
  qed
  have closed: "set (blocks_targets rows x) \<subseteq> set (rev new @ produced)"
    if "x \<in> set (rev new @ produced) - set (queue @ new)" for x
  proof (cases "x = issue")
    case False
    then have "x \<in> set produced - set (issue # queue)" using that by auto
    then show ?thesis using 2(2) by (auto simp: union_inv_def)
  qed (use new(2) in auto)
  have "union_inv rows start (rev new @ produced) (queue @ new)"
    unfolding union_inv_def
  proof (intro conjI ballI)
    show "set (queue @ new) \<subseteq> set (rev new @ produced)" "set (blocks_targets rows start) \<subseteq> set (rev new @ produced)"
      using 2(2) by (auto simp: union_inv_def)
    show "set (rev new @ produced) \<subseteq> (blocks_edges rows)\<^sup>+ `` {start}"
      using 2(2) reach by (simp add: union_inv_def)
  qed (rule closed)
  then show ?case using 2(1) [OF new(1) [symmetric]] new(1) by simp
qed

lemma blocksPathExists_correct:
  "blocksPathExists rows a b \<longleftrightarrow> (a, b) \<in> (blocks_edges rows)\<^sup>+"
proof -
  obtain new where new: "union_rows [] [] (blocks_targets rows a) = (rev new, new)"
      "set new = set (blocks_targets rows a)"
    using union_rows_new [of "[]" "[]" "blocks_targets rows a"] by auto
  have "union_inv rows a (rev new) new"
    using new(2) by (auto simp: union_inv_def blocks_targets_edges)
  then have "set (recursive_union rows (rev new) new) = (blocks_edges rows)\<^sup>+ `` {a}"
    by (rule recursive_union_closure)
  then show ?thesis using new(1) by (simp add: blocksPathExists_def)
qed

section \<open>The contract of a cycle check\<close>

text \<open>What a caller needs of a path test over a set of edges, and what follows for edge insertion.\<close>

locale path_test =
  fixes edges :: "('n \<times> 'n) set" and has_path :: "'n \<Rightarrow> 'n \<Rightarrow> bool"
  assumes has_path_iff: "has_path a b \<longleftrightarrow> (a, b) \<in> edges\<^sup>+"
begin

lemma acyclic_iff: "acyclic edges \<longleftrightarrow> (\<forall>x. \<not> has_path x x)"
  by (simp add: acyclic_def has_path_iff)

lemma insert_acyclic_iff:
  assumes "acyclic edges" and "s \<noteq> t"
  shows "acyclic (insert (s, t) edges) \<longleftrightarrow> \<not> has_path t s"
  using assms by (auto simp: acyclic_insert has_path_iff rtrancl_eq_or_trancl)

lemma insert_keeps_paths: "has_path a b \<Longrightarrow> (a, b) \<in> (insert e edges)\<^sup>+"
  unfolding has_path_iff by (rule trancl_mono) auto

end

lemma finite_blocks_reach: "finite ((edges_of (blocks_targets rows))\<^sup>* `` {start})"
proof -
  have "(edges_of (blocks_targets rows))\<^sup>* `` {start} \<subseteq> insert start (rl_target ` set rows)"
  proof
    fix y assume "y \<in> (edges_of (blocks_targets rows))\<^sup>* `` {start}"
    then have "(start, y) \<in> (edges_of (blocks_targets rows))\<^sup>*" by simp
    then show "y \<in> insert start (rl_target ` set rows)"
      by (cases rule: rtranclE) (auto simp: edges_of_blocks_targets blocks_edges_def)
  qed
  then show ?thesis by (rule finite_subset) simp
qed

lemma search_on_rows:
  "BlocksPathExists a b (blocks_targets rows) = Some ((a, b) \<in> (blocks_edges rows)\<^sup>+)"
  using BlocksPathExists_correct [OF finite_blocks_reach] by (simp add: edges_of_blocks_targets)

interpretation sql_path: path_test "blocks_edges rows" "blocksPathExists rows" for rows
  by unfold_locales (rule blocksPathExists_correct)

interpretation bfs_path: path_test "blocks_edges rows"
    "\<lambda>a b. BlocksPathExists a b (blocks_targets rows) = Some True" for rows
  by unfold_locales (simp add: search_on_rows)

section \<open>Properties\<close>

text \<open>
  C34. The shared reachability search terminates and is exact whenever finitely many nodes can be
  reached from its start: it returns true precisely when a non-empty directed path leads to the
  sought node (so a node on a cycle reaches itself).
\<close>

theorem search_terminates_exactly:
  assumes "finite ((edges_of neighbors)\<^sup>* `` {start})"
  shows "BlocksPathExists start sought neighbors = Some ((start, sought) \<in> (edges_of neighbors)\<^sup>+)"
  using assms by (rule BlocksPathExists_correct)

definition ring :: "int \<Rightarrow> int list" where
  "ring n = [(n + 1) mod 3]"

theorem search_terminates_exactly_witness:
  "BlocksPathExists 0 0 ring = Some True \<and> (0, 0) \<in> (edges_of ring)\<^sup>+"
proof -
  have "(edges_of ring)\<^sup>* `` {0} \<subseteq> {0, 1, 2}"
  proof
    fix y assume "y \<in> (edges_of ring)\<^sup>* `` {0}"
    then have "(0, y) \<in> (edges_of ring)\<^sup>*" by simp
    then show "y \<in> {0, 1, 2}" by induction (auto simp: edges_of_def ring_def)
  qed
  then have "finite ((edges_of ring)\<^sup>* `` {0})" by (rule finite_subset) simp
  then have "BlocksPathExists 0 0 ring = Some ((0, 0) \<in> (edges_of ring)\<^sup>+)"
    by (rule search_terminates_exactly)
  moreover have "BlocksPathExists 0 0 ring = Some True" by code_simp
  ultimately show ?thesis by simp
qed

text \<open>
  C35. The two implementations of the cycle test agree on every relations table, cyclic ones
  included: the recursive SQL query answers what the breadth-first search over the same rows
  answers, and the search always returns.
\<close>

theorem sql_path_agrees_with_search:
  "BlocksPathExists a b (blocks_targets rows) = Some (blocksPathExists rows a b)"
  by (simp add: search_on_rows blocksPathExists_correct)

end
