(* ===== verification/Gates.thy ===== *)
theory Gates
  imports BlocksGraph "HOL-Library.Product_Lexorder" "HOL-Library.Multiset"
begin

text \<open>
  Workflow policies and gates: \<^verbatim>\<open>internal/domain/workflow_policy.go\<close>, \<^verbatim>\<open>workflow_gate.go\<close> and the
  label normalization of \<^verbatim>\<open>label.go\<close>. A policy selects issues by type and labels and owns
  requirements; the requirements of every matching policy are evaluated at one of four enforcement
  points. The decisions that read stored policies and snapshots are in \<open>Store\<close>.
\<close>

section \<open>Labels\<close>

definition MaxLabelNameRunes :: int where "MaxLabelNameRunes = 64"
definition MaxLabelsPerIssue :: int where "MaxLabelsPerIssue = 50"

definition asciiLower :: "string \<Rightarrow> string" where
  "asciiLower v = map (\<lambda>c. if is_upper c then char_of (byte c + (byte CHR ''a'' - byte CHR ''A'')) else c) v"

definition NormalizeLabelName :: "string \<Rightarrow> (string \<times> string) res" where
  "NormalizeLabelName nm =
     and_then (ValidateText ''labels'' nm MaxLabelNameRunes) (\<lambda>_.
     let displayName = TrimSpace nm in
     if displayName = '''' then Inl (validationError ''labels'' ''REQUIRED'')
     else Inr (displayName, asciiLower displayName))"

fun adjacent_equal :: "'a list \<Rightarrow> bool" where
  "adjacent_equal (a # b # xs) \<longleftrightarrow> a = b \<or> adjacent_equal (b # xs)"
| "adjacent_equal _ \<longleftrightarrow> False"

definition NormalizeLabelNames :: "string list \<Rightarrow> string list res" where
  "NormalizeLabelNames names =
     and_then (CopyBounded ''labels'' names MaxLabelsPerIssue) (\<lambda>values.
     and_then (map_result NormalizeLabelName values) (\<lambda>named.
     let normalized = sort_key snd named in
     if adjacent_equal (map snd normalized) then Inl (validationError ''labels'' ''DUPLICATE'')
     else Inr (map fst normalized)))"

section \<open>Policies\<close>

definition MaxPolicyRequirements :: int where "MaxPolicyRequirements = 50"
definition MaxPolicyLabelsAll :: int where "MaxPolicyLabelsAll = 20"
definition MaxPolicyKeyRunes :: int where "MaxPolicyKeyRunes = 128"

datatype PolicyStatus = PolicyStatusActive | PolicyStatusArchived | PolicyStatus_other string

fun PolicyStatus_Valid :: "PolicyStatus \<Rightarrow> bool" where
  "PolicyStatus_Valid PolicyStatusActive = True"
| "PolicyStatus_Valid PolicyStatusArchived = True"
| "PolicyStatus_Valid (PolicyStatus_other s) = False"

datatype RequirementKind =
    RequirementKindIssueFieldNonblank | RequirementKindAttemptEvidence | RequirementKindReviewApproval
  | RequirementKind_other string

fun RequirementKind_Valid :: "RequirementKind \<Rightarrow> bool" where
  "RequirementKind_Valid (RequirementKind_other s) = False"
| "RequirementKind_Valid _ = True"

datatype EnforcementPoint =
    EnforcementPointClaimWork | EnforcementPointCompleteWorkToReview
  | EnforcementPointCompleteWorkToDone | EnforcementPointApproveReview | EnforcementPoint_other string

fun EnforcementPoint_Valid :: "EnforcementPoint \<Rightarrow> bool" where
  "EnforcementPoint_Valid (EnforcementPoint_other s) = False"
| "EnforcementPoint_Valid _ = True"

fun appliesAt :: "RequirementKind \<Rightarrow> EnforcementPoint \<Rightarrow> bool" where
  "appliesAt RequirementKindIssueFieldNonblank point \<longleftrightarrow>
     point = EnforcementPointClaimWork \<or> point = EnforcementPointCompleteWorkToReview
     \<or> point = EnforcementPointCompleteWorkToDone"
| "appliesAt RequirementKindAttemptEvidence point \<longleftrightarrow>
     point = EnforcementPointCompleteWorkToReview \<or> point = EnforcementPointCompleteWorkToDone"
| "appliesAt RequirementKindReviewApproval point \<longleftrightarrow>
     point = EnforcementPointCompleteWorkToDone \<or> point = EnforcementPointApproveReview"
| "appliesAt (RequirementKind_other s) point \<longleftrightarrow> False"

record PolicySelector =
  IssueTypes :: "Type list"
  LabelsAll :: "string list"

definition Selector_Matches :: "PolicySelector \<Rightarrow> Type \<Rightarrow> string list \<Rightarrow> bool" where
  "Selector_Matches selector issueType issueLabels =
     (if issueType = TypeEpic then False
      else if length (IssueTypes selector) > 0 \<and> issueType \<notin> set (IssueTypes selector) then False
      else if length (LabelsAll selector) = 0 then True
      else
        let folded = map (\<lambda>label. asciiLower (TrimSpace label)) issueLabels in
        list_all (\<lambda>required. asciiLower (TrimSpace required) \<in> set folded) (LabelsAll selector))"

record PolicyRequirement =
  pr_policy :: string
  pr_key :: string
  pr_kind :: RequirementKind
  pr_field :: string
  pr_evidence :: string
  pr_purpose :: string
  pr_allow_na :: bool

record WorkflowPolicy =
  wp_id :: string
  wp_selector :: PolicySelector
  wp_status :: PolicyStatus
  wp_version :: int
  wp_requirements :: "PolicyRequirement list"
  wp_created :: time
  wp_updated :: time

section \<open>Validation\<close>

text \<open>
  \<^verbatim>\<open>PolicySelectorInput\<close> has the fields of \<open>PolicySelector\<close>, and \<^verbatim>\<open>PolicyRequirementInput\<close> those of
  \<open>PolicyRequirement\<close> without the owner, which stays empty until the policy is stored.
\<close>

definition executableTypes :: "Type list" where "executableTypes = [TypeTask, TypeBug]"

fun check_issue_types :: "Type list \<Rightarrow> Type list \<Rightarrow> unit res" where
  "check_issue_types seenTypes [] = Inr ()"
| "check_issue_types seenTypes (t # ts) =
     (if t = TypeEpic \<or> \<not> Type_Valid t then Inl (validationError ''selector.issue_types'' ''UNSUPPORTED_TYPE'')
      else if t \<in> set seenTypes then Inl (validationError ''selector.issue_types'' ''DUPLICATE'')
      else check_issue_types (t # seenTypes) ts)"

fun normalize_selector_labels :: "string list \<Rightarrow> string list \<Rightarrow> string list res" where
  "normalize_selector_labels seenLabels [] = Inr []"
| "normalize_selector_labels seenLabels (nm # rest) =
     and_then (NormalizeLabelName nm) (\<lambda>(display_name, folded).
     if folded \<in> set seenLabels then Inl (validationError ''selector.labels_all'' ''DUPLICATE'')
     else and_then (normalize_selector_labels (folded # seenLabels) rest) (\<lambda>labels.
       Inr (display_name # labels)))"

definition PolicySelectorInput_Validate :: "PolicySelector \<Rightarrow> PolicySelector res" where
  "PolicySelectorInput_Validate i =
     and_then (CopyBounded ''selector.issue_types'' (IssueTypes i) (int (length executableTypes))) (\<lambda>types.
     and_then (check_issue_types [] types) (\<lambda>_.
     and_then (CopyBounded ''selector.labels_all'' (LabelsAll i) MaxPolicyLabelsAll) (\<lambda>rawLabels.
     and_then (normalize_selector_labels [] rawLabels) (\<lambda>labels.
     Inr \<lparr>IssueTypes = types, LabelsAll = sort labels\<rparr>))))"

definition validate_requirement :: "PolicyRequirement \<Rightarrow> PolicyRequirement res" where
  "validate_requirement i =
     and_then (ValidateText ''key'' (pr_key i) MaxPolicyKeyRunes) (\<lambda>_.
     let key = TrimSpace (pr_key i) in
     if key = '''' then Inl (validationError ''key'' ''REQUIRED'')
     else if \<not> RequirementKind_Valid (pr_kind i) then Inl (invalidEnum ''kind'')
     else
       let result = \<lparr>pr_policy = '''', pr_key = key, pr_kind = pr_kind i, pr_field = '''',
                     pr_evidence = '''', pr_purpose = '''', pr_allow_na = False\<rparr> in
       (case pr_kind i of
          RequirementKindIssueFieldNonblank \<Rightarrow>
            if pr_field i \<noteq> ''acceptance_criteria''
            then Inl (validationError ''field'' ''UNSUPPORTED_FIELD'')
            else if pr_evidence i \<noteq> '''' \<or> pr_purpose i \<noteq> ''''
            then Inl (validationError ''kind'' ''UNEXPECTED_FIELD'')
            else if pr_allow_na i then Inl (validationError ''kind'' ''UNEXPECTED_FIELD'')
            else Inr (result\<lparr>pr_field := pr_field i\<rparr>)
        | RequirementKindAttemptEvidence \<Rightarrow>
            if pr_field i \<noteq> '''' \<or> pr_purpose i \<noteq> ''''
            then Inl (validationError ''kind'' ''UNEXPECTED_FIELD'')
            else and_then (ValidateText ''evidence_key'' (pr_evidence i) MaxPolicyKeyRunes) (\<lambda>_.
              let evidenceKey = TrimSpace (pr_evidence i) in
              if evidenceKey = '''' then Inl (validationError ''evidence_key'' ''REQUIRED'')
              else Inr (result\<lparr>pr_evidence := evidenceKey, pr_allow_na := pr_allow_na i\<rparr>))
        | RequirementKindReviewApproval \<Rightarrow>
            if pr_field i \<noteq> '''' \<or> pr_evidence i \<noteq> ''''
            then Inl (validationError ''kind'' ''UNEXPECTED_FIELD'')
            else if pr_allow_na i then Inl (validationError ''kind'' ''UNEXPECTED_FIELD'')
            else and_then (ValidateText ''purpose'' (pr_purpose i) MaxPolicyKeyRunes) (\<lambda>_.
              let purpose = TrimSpace (pr_purpose i) in
              if purpose = '''' then Inl (validationError ''purpose'' ''REQUIRED'')
              else Inr (result\<lparr>pr_purpose := purpose\<rparr>))
        | RequirementKind_other s \<Rightarrow> Inr result))"

fun validate_requirements :: "string list \<Rightarrow> PolicyRequirement list \<Rightarrow> PolicyRequirement list res" where
  "validate_requirements seenKeys [] = Inr []"
| "validate_requirements seenKeys (r # rs) =
     and_then (validate_requirement r) (\<lambda>normalized.
     if pr_key normalized \<in> set seenKeys then Inl (validationError ''requirements'' ''DUPLICATE_KEY'')
     else and_then (validate_requirements (pr_key normalized # seenKeys) rs) (\<lambda>validated.
       Inr (normalized # validated)))"

definition WorkflowPolicyInput_Validate ::
  "PolicySelector \<times> PolicyRequirement list \<Rightarrow> (PolicySelector \<times> PolicyRequirement list) res" where
  "WorkflowPolicyInput_Validate i =
     and_then (PolicySelectorInput_Validate (fst i)) (\<lambda>selector.
     and_then (CopyBounded ''requirements'' (snd i) MaxPolicyRequirements) (\<lambda>requirements.
     and_then (validate_requirements [] requirements) (\<lambda>validated.
     Inr (selector, validated))))"

section \<open>The effective requirements of an issue\<close>

definition policy_contributes :: "Type \<Rightarrow> string list \<Rightarrow> WorkflowPolicy \<Rightarrow> bool" where
  "policy_contributes issueType issueLabels p \<longleftrightarrow>
     \<not> wp_status p \<noteq> PolicyStatusActive \<and> Selector_Matches (wp_selector p) issueType issueLabels"

definition requirement_id :: "PolicyRequirement \<Rightarrow> string \<times> string" where
  "requirement_id r = (pr_policy r, pr_key r)"

text \<open>The loop that skips an entry with the same policy and key as the entry before it.\<close>

fun drop_repeats :: "PolicyRequirement list \<Rightarrow> PolicyRequirement list" where
  "drop_repeats (a # b # rs) =
     (if requirement_id b = requirement_id a then drop_repeats (a # rs)
      else a # drop_repeats (b # rs))"
| "drop_repeats rs = rs"

definition MatchWorkflowPolicies ::
  "WorkflowPolicy list \<Rightarrow> Type \<Rightarrow> string list \<Rightarrow> PolicyRequirement list" where
  "MatchWorkflowPolicies policies issueType issueLabels =
     (let matched = concat (map wp_requirements (filter (policy_contributes issueType issueLabels) policies))
      in drop_repeats (sort_key requirement_id matched))"

section \<open>Gate evaluation\<close>

record GateEvidence =
  AcceptanceCriteriaBlank :: bool
  AttemptEvidenceKeys :: "string list"
  ReviewApprovalPurposes :: "string list"

record UnmetRequirement =
  um_policy :: string
  um_key :: string
  um_point :: EnforcementPoint

record GateEvaluation =
  ev_point :: EnforcementPoint
  Satisfied :: "PolicyRequirement list"
  Unmet :: "UnmetRequirement list"

definition Passed :: "GateEvaluation \<Rightarrow> bool" where
  "Passed e \<longleftrightarrow> length (Unmet e) = 0"

definition isSatisfied :: "PolicyRequirement \<Rightarrow> GateEvidence \<Rightarrow> bool" where
  "isSatisfied r evidence =
     (case pr_kind r of
        RequirementKindIssueFieldNonblank \<Rightarrow> \<not> AcceptanceCriteriaBlank evidence
      | RequirementKindAttemptEvidence \<Rightarrow> pr_evidence r \<in> set (AttemptEvidenceKeys evidence)
      | RequirementKindReviewApproval \<Rightarrow> pr_purpose r \<in> set (ReviewApprovalPurposes evidence)
      | RequirementKind_other s \<Rightarrow> False)"

fun evaluate_requirements ::
  "EnforcementPoint \<Rightarrow> GateEvidence \<Rightarrow> GateEvaluation \<Rightarrow> PolicyRequirement list \<Rightarrow> GateEvaluation res" where
  "evaluate_requirements point evidence result [] = Inr result"
| "evaluate_requirements point evidence result (r # rs) =
     (if \<not> RequirementKind_Valid (pr_kind r) then Inl (invalidEnum ''kind'')
      else if \<not> appliesAt (pr_kind r) point then evaluate_requirements point evidence result rs
      else if isSatisfied r evidence
      then evaluate_requirements point evidence (result\<lparr>Satisfied := Satisfied result @ [r]\<rparr>) rs
      else evaluate_requirements point evidence
        (result\<lparr>Unmet := Unmet result @ [\<lparr>um_policy = pr_policy r, um_key = pr_key r, um_point = point\<rparr>]\<rparr>) rs)"

definition EvaluateGate ::
  "EnforcementPoint \<Rightarrow> PolicyRequirement list \<Rightarrow> GateEvidence \<Rightarrow> GateEvaluation res" where
  "EvaluateGate point requirements evidence =
     (if \<not> EnforcementPoint_Valid point then Inl (invalidEnum ''enforcement_point'')
      else evaluate_requirements point evidence \<lparr>ev_point = point, Satisfied = [], Unmet = []\<rparr> requirements)"

definition workflowGateUnsatisfiedError :: "GateEvaluation \<Rightarrow> Error" where
  "workflowGateUnsatisfiedError evaluation =
     NewError CodeWorkflowGateUnsatisfied False
       (map (\<lambda>u. detail (um_key u) CodeWorkflowGateUnsatisfied) (Unmet evaluation))"

definition evaluateGate :: "EnforcementPoint \<Rightarrow> PolicyRequirement list \<Rightarrow> GateEvidence \<Rightarrow> unit res" where
  "evaluateGate point requirements evidence =
     and_then (EvaluateGate point requirements evidence) (\<lambda>evaluation.
     if Passed evaluation then Inr () else Inl (workflowGateUnsatisfiedError evaluation))"

definition acceptanceCriteriaBlank :: "string option \<Rightarrow> bool" where
  "acceptanceCriteriaBlank text = (case text of None \<Rightarrow> True | Some t \<Rightarrow> TrimSpace t = '''')"

definition enforcementPointForCreateStatus :: "Status \<Rightarrow> EnforcementPoint option" where
  "enforcementPointForCreateStatus status =
     (if status = StatusReview then Some EnforcementPointCompleteWorkToReview
      else if status = StatusDone then Some EnforcementPointCompleteWorkToDone
      else None)"

definition enforcementPointForFinish ::
  "AttemptKind \<Rightarrow> Status \<Rightarrow> ReviewOutcome option \<Rightarrow> EnforcementPoint option" where
  "enforcementPointForFinish kind target reviewOutcome =
     (if kind = AttemptKindWork then
        (if target = StatusReview then Some EnforcementPointCompleteWorkToReview
         else if target = StatusDone then Some EnforcementPointCompleteWorkToDone
         else None)
      else if kind = AttemptKindReview \<and> reviewOutcome = Some ReviewOutcomeApproved
      then Some EnforcementPointApproveReview
      else None)"

section \<open>Snapshots\<close>

record SourcePolicyRef =
  sp_policy :: string
  sp_version :: int

definition matchingSourcePolicies ::
  "WorkflowPolicy list \<Rightarrow> Type \<Rightarrow> string list \<Rightarrow> SourcePolicyRef list" where
  "matchingSourcePolicies policies issueType issueLabels =
     map (\<lambda>p. \<lparr>sp_policy = wp_id p, sp_version = wp_version p\<rparr>)
       (filter (policy_contributes issueType issueLabels) policies)"

text \<open>The fingerprint, a digest of the other fields that nothing reads back, is left out.\<close>

record GateSnapshot =
  gs_requirements :: "PolicyRequirement list"
  gs_sources :: "SourcePolicyRef list"
  gs_issue_version :: int
  gs_created :: time

definition NewGateSnapshot ::
  "PolicyRequirement list \<Rightarrow> SourcePolicyRef list \<Rightarrow> int \<Rightarrow> time \<Rightarrow> GateSnapshot" where
  "NewGateSnapshot requirements sourcePolicies issueVersion now =
     \<lparr>gs_requirements = requirements, gs_sources = sort_key sp_policy sourcePolicies,
      gs_issue_version = issueVersion, gs_created = now\<rparr>"

section \<open>Sorting by a key\<close>

lemma sort_key_perm:
  assumes "mset xs = mset ys" and "distinct (map f xs)"
  shows "sort_key f xs = sort_key f ys"
  using assms by (intro sort_key_inj_key_eq) (auto simp: distinct_map)

lemma adjacent_equal_sorted:
  fixes xs :: "'a::linorder list"
  shows "sorted xs \<Longrightarrow> adjacent_equal xs \<longleftrightarrow> \<not> distinct xs"
proof (induction xs rule: adjacent_equal.induct)
  case (1 a b xs)
  then show ?case by auto
qed auto

lemma sorted_remdups_adj_distinct:
  fixes xs :: "'a::linorder list"
  shows "sorted xs \<Longrightarrow> distinct (remdups_adj xs)"
proof (induction xs rule: remdups_adj.induct)
  case (3 x y xs)
  then show ?case by (auto simp: remdups_adj_set)
qed auto

lemma ids_drop_repeats:
  "map requirement_id (drop_repeats rs) = remdups_adj (map requirement_id rs)"
proof (induction rs rule: drop_repeats.induct)
  case (1 a b rs)
  then show ?case by (cases "requirement_id b = requirement_id a") auto
qed auto

lemma drop_repeats_subset: "set (drop_repeats rs) \<subseteq> set rs"
  by (induction rs rule: drop_repeats.induct) auto

lemma drop_repeats_distinct: "distinct (map requirement_id rs) \<Longrightarrow> drop_repeats rs = rs"
  by (induction rs rule: drop_repeats.induct) auto

section \<open>Matching\<close>

definition contributed :: "WorkflowPolicy list \<Rightarrow> Type \<Rightarrow> string list \<Rightarrow> PolicyRequirement set" where
  "contributed policies t labels =
     (\<Union>p \<in> {p \<in> set policies. policy_contributes t labels p}. set (wp_requirements p))"

lemma set_matched:
  "set (concat (map wp_requirements (filter (policy_contributes t labels) policies))) = contributed policies t labels"
  by (auto simp: contributed_def)

lemma Match_ids:
  "map requirement_id (MatchWorkflowPolicies ps t labels) =
     remdups_adj (map requirement_id (sort_key requirement_id
       (concat (map wp_requirements (filter (policy_contributes t labels) ps)))))"
  by (simp add: MatchWorkflowPolicies_def ids_drop_repeats)

lemma Match_subset: "set (MatchWorkflowPolicies ps t labels) \<subseteq> contributed ps t labels"
  using drop_repeats_subset unfolding MatchWorkflowPolicies_def Let_def
  by (metis set_matched set_sort)

lemma Match_id_set:
  "requirement_id ` set (MatchWorkflowPolicies ps t labels) = requirement_id ` contributed ps t labels"
proof -
  have "set (map requirement_id (MatchWorkflowPolicies ps t labels)) = requirement_id ` contributed ps t labels"
    unfolding Match_ids by (simp add: contributed_def)
  then show ?thesis by simp
qed

lemma Match_sorted:
  "sorted_wrt (<) (map requirement_id (MatchWorkflowPolicies ps t labels))"
  unfolding Match_ids strict_sorted_iff by (simp add: sorted_remdups_adj_distinct)

text \<open>What the store keeps: every requirement carries its owner's id, keys and ids are unique.\<close>

definition policies_wf :: "WorkflowPolicy list \<Rightarrow> bool" where
  "policies_wf ps \<longleftrightarrow> distinct (map wp_id ps) \<and>
     list_all (\<lambda>p. distinct (map pr_key (wp_requirements p)) \<and>
       list_all (\<lambda>r. pr_policy r = wp_id p) (wp_requirements p)) ps"

lemma matched_distinct:
  "policies_wf ps \<Longrightarrow> distinct (map requirement_id (concat (map wp_requirements (filter P ps))))"
proof (induction ps)
  case (Cons p ps)
  have own: "distinct (map requirement_id (wp_requirements p))"
  proof -
    have "distinct (map pr_key (wp_requirements p))" using Cons.prems by (simp add: policies_wf_def)
    then show ?thesis by (auto simp: distinct_map inj_on_def requirement_id_def)
  qed
  have "fst i = wp_id p" if "i \<in> set (map requirement_id (wp_requirements p))" for i
    using that Cons.prems by (auto simp: policies_wf_def list_all_iff requirement_id_def)
  moreover have "fst i \<noteq> wp_id p"
    if "i \<in> set (map requirement_id (concat (map wp_requirements (filter P ps))))" for i
    using that Cons.prems by (auto simp: policies_wf_def list_all_iff requirement_id_def image_iff)
  ultimately have "set (map requirement_id (wp_requirements p)) \<inter>
      set (map requirement_id (concat (map wp_requirements (filter P ps)))) = {}" by blast
  moreover have "distinct (map requirement_id (concat (map wp_requirements (filter P ps))))"
    using Cons by (simp add: policies_wf_def)
  ultimately show ?case using own by simp
qed simp

lemma Match_wf:
  assumes "policies_wf ps"
  shows "MatchWorkflowPolicies ps t labels =
    sort_key requirement_id (concat (map wp_requirements (filter (policy_contributes t labels) ps)))"
proof -
  have "distinct (map requirement_id (sort_key requirement_id
      (concat (map wp_requirements (filter (policy_contributes t labels) ps)))))"
    using matched_distinct [OF assms] by (simp add: distinct_map)
  then show ?thesis unfolding MatchWorkflowPolicies_def Let_def by (rule drop_repeats_distinct)
qed

lemma mset_matched:
  "mset (concat (map wp_requirements (filter P ps))) =
     (\<Sum>p \<in># filter_mset P (mset ps). mset (wp_requirements p))"
  by (induction ps) auto

lemma Match_perm:
  assumes "policies_wf ps" and "mset ps = mset qs"
  shows "MatchWorkflowPolicies ps t labels = MatchWorkflowPolicies qs t labels"
proof -
  have "policies_wf qs"
    using assms mset_eq_setD [OF assms(2)] mset_eq_imp_distinct_iff [of "map wp_id ps" "map wp_id qs"]
    by (simp add: policies_wf_def list_all_iff)
  moreover have "mset (concat (map wp_requirements (filter (policy_contributes t labels) ps))) =
      mset (concat (map wp_requirements (filter (policy_contributes t labels) qs)))"
    using assms(2) by (simp add: mset_matched)
  ultimately show ?thesis
    using Match_wf assms(1) matched_distinct [OF assms(1)] sort_key_perm by metis
qed

section \<open>Monotonicity in the labels\<close>

definition label_fold :: "string \<Rightarrow> string" where
  "label_fold l = asciiLower (TrimSpace l)"

lemma Selector_Matches_iff:
  "Selector_Matches s t labels \<longleftrightarrow>
     t \<noteq> TypeEpic \<and> (IssueTypes s = [] \<or> t \<in> set (IssueTypes s)) \<and>
     label_fold ` set (LabelsAll s) \<subseteq> label_fold ` set labels"
  by (auto simp: Selector_Matches_def label_fold_def list_all_iff)

lemma contributed_mono:
  "label_fold ` set labels \<subseteq> label_fold ` set labels' \<Longrightarrow>
     contributed ps t labels \<subseteq> contributed ps t labels'"
  by (fastforce simp: contributed_def policy_contributes_def Selector_Matches_iff)

section \<open>Evaluation\<close>

text \<open>The requirements that apply at a point and are not met.\<close>

definition unmet_at :: "EnforcementPoint \<Rightarrow> GateEvidence \<Rightarrow> PolicyRequirement list \<Rightarrow> PolicyRequirement list" where
  "unmet_at point evidence rs = filter (\<lambda>r. appliesAt (pr_kind r) point \<and> \<not> isSatisfied r evidence) rs"

lemma unmet_at_Nil:
  "unmet_at point evidence rs = [] \<longleftrightarrow>
     list_all (\<lambda>r. appliesAt (pr_kind r) point \<longrightarrow> isSatisfied r evidence) rs"
  by (simp add: unmet_at_def filter_empty_conv list_all_iff)

lemma evaluate_requirements_spec:
  "evaluate_requirements point evidence result rs = Inr e \<longleftrightarrow>
     list_all (\<lambda>r. RequirementKind_Valid (pr_kind r)) rs \<and>
     e = result\<lparr>Satisfied := Satisfied result @
             filter (\<lambda>r. appliesAt (pr_kind r) point \<and> isSatisfied r evidence) rs,
           Unmet := Unmet result @ map (\<lambda>r. \<lparr>um_policy = pr_policy r, um_key = pr_key r, um_point = point\<rparr>)
             (unmet_at point evidence rs)\<rparr>"
  by (induction point evidence result rs rule: evaluate_requirements.induct) (auto simp: unmet_at_def)

lemma evaluate_requirements_error:
  "evaluate_requirements point evidence result rs = Inl e \<longleftrightarrow>
     \<not> list_all (\<lambda>r. RequirementKind_Valid (pr_kind r)) rs \<and> e = invalidEnum ''kind''"
  by (induction point evidence result rs rule: evaluate_requirements.induct) auto

lemma evaluateGate_Inr [result_simps]:
  "evaluateGate point rs evidence = Inr u \<longleftrightarrow>
     EnforcementPoint_Valid point \<and> list_all (\<lambda>r. RequirementKind_Valid (pr_kind r)) rs \<and>
     unmet_at point evidence rs = []"
  by (auto simp: evaluateGate_def EvaluateGate_def Passed_def evaluate_requirements_spec
      and_then_eq_Inr split: if_splits)

lemma evaluateGate_Inl:
  assumes "EnforcementPoint_Valid point" and "list_all (\<lambda>r. RequirementKind_Valid (pr_kind r)) rs"
    and "evaluateGate point rs evidence = Inl e"
  shows "Code e = CodeWorkflowGateUnsatisfied \<and>
    Field ` set (Details e) = pr_key ` set (unmet_at point evidence rs) \<and> unmet_at point evidence rs \<noteq> []"
proof -
  have "\<exists>ev. EvaluateGate point rs evidence = Inr ev"
    using assms(1,2) evaluate_requirements_error
    by (cases "EvaluateGate point rs evidence") (auto simp: EvaluateGate_def)
  then obtain ev where ev: "EvaluateGate point rs evidence = Inr ev" by blast
  then have u: "Unmet ev = map (\<lambda>r. \<lparr>um_policy = pr_policy r, um_key = pr_key r, um_point = point\<rparr>)
      (unmet_at point evidence rs)"
    using assms(1) by (simp add: EvaluateGate_def evaluate_requirements_spec)
  then have e: "e = workflowGateUnsatisfiedError ev" "unmet_at point evidence rs \<noteq> []"
    using assms(3) ev by (auto simp: evaluateGate_def Passed_def split: if_splits)
  show ?thesis
    using e u by (simp add: workflowGateUnsatisfiedError_def NewError_def set_SortDetails detail_def image_image)
qed

text \<open>More evidence keeps a gate passed.\<close>

definition evidence_le :: "GateEvidence \<Rightarrow> GateEvidence \<Rightarrow> bool" where
  "evidence_le a b \<longleftrightarrow> (AcceptanceCriteriaBlank b \<longrightarrow> AcceptanceCriteriaBlank a) \<and>
     set (AttemptEvidenceKeys a) \<subseteq> set (AttemptEvidenceKeys b) \<and>
     set (ReviewApprovalPurposes a) \<subseteq> set (ReviewApprovalPurposes b)"

lemma isSatisfied_mono: "evidence_le a b \<Longrightarrow> isSatisfied r a \<Longrightarrow> isSatisfied r b"
  by (auto simp: isSatisfied_def evidence_le_def split: RequirementKind.splits)

lemma evaluateGate_mono:
  "evidence_le a b \<Longrightarrow> evaluateGate point rs a = Inr u \<Longrightarrow> evaluateGate point rs b = Inr ()"
  by (auto simp: evaluateGate_Inr unmet_at_def filter_empty_conv dest: isSatisfied_mono)

section \<open>Normalization\<close>

lemma NormalizeLabelName_Inr:
  "NormalizeLabelName nm = Inr (d, f) \<Longrightarrow>
     NormalizeLabelName d = Inr (d, f) \<and> f = label_fold d \<and> d = TrimSpace nm"
  using ValidateText_TrimSpace [of "''labels''" nm MaxLabelNameRunes "''labels''"]
  by (auto simp: NormalizeLabelName_def Let_def and_then_eq_Inr label_fold_def split: if_splits)

lemma map_result_all: "map_result f xs = Inr ys \<Longrightarrow> list_all2 (\<lambda>x y. f x = Inr y) xs ys"
  by (induction xs arbitrary: ys) (auto simp: result_simps)

lemma map_result_iff: "map_result f xs = Inr ys \<longleftrightarrow> list_all2 (\<lambda>x y. f x = Inr y) xs ys"
  by (induction xs arbitrary: ys) (auto simp: result_simps list_all2_Cons1)

lemma map_result_map: "list_all2 (\<lambda>x y. f x = Inr y) xs ys \<Longrightarrow> ys = map (\<lambda>x. projr (f x)) xs"
  by (induction rule: list_all2_induct) auto

lemma map_result_perm:
  assumes "map_result f xs = Inr ys" and "mset xs' = mset xs"
  shows "\<exists>ys'. map_result f xs' = Inr ys' \<and> mset ys' = mset ys"
proof -
  have all: "list_all2 (\<lambda>x y. f x = Inr y) xs ys" using assms(1) by (rule map_result_all)
  have ok: "f x = Inr (projr (f x))" if "x \<in> set xs" for x
    using all that by (auto simp: list_all2_conv_all_nth in_set_conv_nth)
  have "set xs' = set xs" using assms(2) by (rule mset_eq_setD)
  then have "map_result f xs' = Inr (map (\<lambda>x. projr (f x)) xs')"
    using ok unfolding map_result_iff list_all2_map2 by (auto simp: list_all2_same)
  moreover have "mset (map (\<lambda>x. projr (f x)) xs') = mset ys"
    using assms(2) map_result_map [OF all] by (simp add: mset_map)
  ultimately show ?thesis by blast
qed

lemma NormalizeLabelNames_Inr:
  assumes "NormalizeLabelNames ns = Inr ls"
  obtains named where "map_result NormalizeLabelName ns = Inr named"
    "ls = map fst (sort_key snd named)" "distinct (map snd named)" "int (length ns) \<le> MaxLabelsPerIssue"
proof -
  obtain named where n: "map_result NormalizeLabelName ns = Inr named" "int (length ns) \<le> MaxLabelsPerIssue"
      "\<not> adjacent_equal (map snd (sort_key snd named))" "ls = map fst (sort_key snd named)"
    using assms unfolding NormalizeLabelNames_def
    by (auto simp: and_then_eq_Inr CopyBounded_Inr Let_def split: if_splits)
  have "distinct (map snd (sort_key snd named))" using n(3) adjacent_equal_sorted [OF sorted_sort_key] by blast
  then have "distinct (map snd named)" by (simp add: distinct_map)
  with n that show thesis by blast
qed

lemma NormalizeLabelNames_perm:
  assumes "NormalizeLabelNames ns = Inr ls" and "mset ms = mset ns"
  shows "NormalizeLabelNames ms = Inr ls"
proof -
  obtain named where n: "map_result NormalizeLabelName ns = Inr named"
      "ls = map fst (sort_key snd named)" "distinct (map snd named)" "int (length ns) \<le> MaxLabelsPerIssue"
    using assms(1) by (rule NormalizeLabelNames_Inr)
  obtain named' where n': "map_result NormalizeLabelName ms = Inr named'" "mset named' = mset named"
    using map_result_perm [OF n(1) assms(2)] by blast
  have sk: "sort_key snd named' = sort_key snd named"
    using n'(2) n(3) by (intro sort_key_perm [symmetric]) simp_all
  have "distinct (map snd (sort_key snd named))" using n(3) by (simp add: distinct_map)
  then have na: "\<not> adjacent_equal (map snd (sort_key snd named))"
    using adjacent_equal_sorted [OF sorted_sort_key] by blast
  have len: "length ms = length ns" using assms(2) by (metis size_mset)
  show ?thesis
    unfolding NormalizeLabelNames_def and_then_eq_Inr CopyBounded_Inr
    using n(2,4) n'(1) na sk len by (auto simp: Let_def MaxLabelsPerIssue_def)
qed

lemma NormalizeLabelNames_again:
  assumes "NormalizeLabelNames ns = Inr ls"
  shows "NormalizeLabelNames ls = Inr ls \<and> sorted_wrt (<) (map label_fold ls)"
proof -
  obtain named where n: "map_result NormalizeLabelName ns = Inr named"
      "ls = map fst (sort_key snd named)" "distinct (map snd named)" "int (length ns) \<le> MaxLabelsPerIssue"
    using assms(1) by (rule NormalizeLabelNames_Inr)
  have all: "list_all2 (\<lambda>x y. NormalizeLabelName x = Inr y) ns named" using n(1) by (rule map_result_all)
  have norm: "NormalizeLabelName (fst p) = Inr p \<and> snd p = label_fold (fst p)" if p: "p \<in> set named" for p
  proof -
    obtain k where k: "k < length named" "named ! k = p" using p by (auto simp: in_set_conv_nth)
    then have "NormalizeLabelName (ns ! k) = Inr (fst p, snd p)"
      using all by (auto simp: list_all2_conv_all_nth)
    from NormalizeLabelName_Inr [OF this] show ?thesis by (auto simp only: prod.collapse)
  qed
  have "map_result NormalizeLabelName ls = Inr (sort_key snd named)"
    unfolding map_result_iff n(2) list_all2_map1 using norm by (auto simp: list_all2_same)
  moreover have srt: "sorted (map snd (sort_key snd named))" by (rule sorted_sort_key)
  moreover have d: "distinct (map snd (sort_key snd named))" using n(3) by (simp add: distinct_map)
  moreover have "sort_key snd (sort_key snd named) = sort_key snd named"
    using srt by (rule sort_key_id_if_sorted)
  moreover have "length ls = length ns" using n(2) map_result_length [OF n(1)] by simp
  moreover have "sorted_wrt (<) (map label_fold ls)"
  proof -
    have "map label_fold ls = map snd (sort_key snd named)" using norm by (simp add: n(2))
    then show ?thesis using srt d by (simp add: strict_sorted_iff)
  qed
  ultimately show ?thesis
    using n(2,4) adjacent_equal_sorted [OF srt] unfolding NormalizeLabelNames_def
    by (simp add: and_then_eq_Inr CopyBounded_Inr MaxLabelsPerIssue_def Let_def)
qed

lemma selector_labels_Inr:
  "normalize_selector_labels seen raws = Inr labels \<Longrightarrow>
     (\<forall>d \<in> set labels. NormalizeLabelName d = Inr (d, label_fold d)) \<and>
     distinct (map label_fold labels) \<and> label_fold ` set labels \<inter> set seen = {} \<and> length labels = length raws"
proof (induction seen raws arbitrary: labels rule: normalize_selector_labels.induct)
  case (2 seen nm rest)
  obtain d f where n: "NormalizeLabelName nm = Inr (d, f)"
    using 2(2) by (auto simp: and_then_eq_Inr)
  then obtain ls where ls: "f \<notin> set seen" "normalize_selector_labels (f # seen) rest = Inr ls" "labels = d # ls"
    using 2(2) by (auto simp: and_then_eq_Inr split: if_splits)
  have d: "NormalizeLabelName d = Inr (d, f)" "f = label_fold d" using NormalizeLabelName_Inr [OF n] by blast+
  have "(\<forall>d \<in> set ls. NormalizeLabelName d = Inr (d, label_fold d)) \<and> distinct (map label_fold ls) \<and>
      label_fold ` set ls \<inter> set (f # seen) = {} \<and> length ls = length rest"
    by (rule 2(1) [OF ls(1,2)])
  then show ?case using d ls(1,3) by auto
qed simp

lemma selector_labels_fixed:
  assumes "\<forall>d \<in> set labels. NormalizeLabelName d = Inr (d, label_fold d)"
    and "distinct (map label_fold labels)" and "label_fold ` set labels \<inter> set seen = {}"
  shows "normalize_selector_labels seen labels = Inr labels"
  using assms
proof (induction labels arbitrary: seen)
  case (Cons l ls)
  have "normalize_selector_labels (label_fold l # seen) ls = Inr ls"
    using Cons.prems by (intro Cons.IH) auto
  then show ?case using Cons.prems by simp
qed simp

lemma PolicySelectorInput_Validate_again:
  assumes "PolicySelectorInput_Validate i = Inr s"
  shows "PolicySelectorInput_Validate s = Inr s"
proof -
  obtain labels where l: "normalize_selector_labels [] (LabelsAll i) = Inr labels"
      "int (length (LabelsAll i)) \<le> MaxPolicyLabelsAll"
      "check_issue_types [] (IssueTypes i) = Inr ()" "int (length (IssueTypes i)) \<le> int (length executableTypes)"
      "s = \<lparr>IssueTypes = IssueTypes i, LabelsAll = sort labels\<rparr>"
    using assms unfolding PolicySelectorInput_Validate_def by (auto simp: and_then_eq_Inr CopyBounded_Inr)
  note inv = selector_labels_Inr [OF l(1)]
  have "distinct (map label_fold (sort labels))" using inv by (simp add: distinct_map)
  then have "normalize_selector_labels [] (sort labels) = Inr (sort labels)"
    using inv by (intro selector_labels_fixed) simp_all
  then show ?thesis
    using l inv unfolding PolicySelectorInput_Validate_def
    by (simp add: and_then_eq_Inr CopyBounded_Inr MaxPolicyLabelsAll_def sorted_sort_id)
qed

lemma validate_requirement_again:
  assumes v: "validate_requirement i = Inr r" shows "validate_requirement r = Inr r"
proof -
  define key where "key = TrimSpace (pr_key i)"
  have k: "ValidateText ''key'' key MaxPolicyKeyRunes = Inr ()" "key \<noteq> ''''" "TrimSpace key = key"
      "RequirementKind_Valid (pr_kind i)"
    using v ValidateText_TrimSpace [of "''key''" "pr_key i" MaxPolicyKeyRunes "''key''"]
    unfolding validate_requirement_def Let_def key_def [symmetric]
    by (simp_all add: and_then_eq_Inr key_def split: if_splits)
  show ?thesis
  proof (cases "pr_kind i")
    case RequirementKindIssueFieldNonblank
    then have r: "pr_field i = ''acceptance_criteria''"
        "r = \<lparr>pr_policy = '''', pr_key = key, pr_kind = RequirementKindIssueFieldNonblank,
           pr_field = ''acceptance_criteria'', pr_evidence = '''', pr_purpose = '''', pr_allow_na = False\<rparr>"
      using v unfolding validate_requirement_def Let_def key_def [symmetric]
      by (simp_all add: and_then_eq_Inr split: if_splits)
    show ?thesis
      using k r(2) by (simp add: validate_requirement_def and_then_eq_Inr)
  next
    case RequirementKindAttemptEvidence
    define e where "e = TrimSpace (pr_evidence i)"
    have e: "ValidateText ''evidence_key'' e MaxPolicyKeyRunes = Inr ()" "e \<noteq> ''''" "TrimSpace e = e"
        "r = \<lparr>pr_policy = '''', pr_key = key, pr_kind = pr_kind i, pr_field = '''', pr_evidence = e,
           pr_purpose = '''', pr_allow_na = pr_allow_na i\<rparr>"
      using v RequirementKindAttemptEvidence
        ValidateText_TrimSpace [of "''evidence_key''" "pr_evidence i" MaxPolicyKeyRunes "''evidence_key''"]
      unfolding validate_requirement_def Let_def key_def [symmetric] e_def [symmetric]
      by (simp_all add: and_then_eq_Inr e_def split: if_splits)
    show ?thesis
      using k e RequirementKindAttemptEvidence by (simp add: validate_requirement_def and_then_eq_Inr)
  next
    case RequirementKindReviewApproval
    define e where "e = TrimSpace (pr_purpose i)"
    have e: "ValidateText ''purpose'' e MaxPolicyKeyRunes = Inr ()" "e \<noteq> ''''" "TrimSpace e = e"
        "r = \<lparr>pr_policy = '''', pr_key = key, pr_kind = pr_kind i, pr_field = '''', pr_evidence = '''',
           pr_purpose = e, pr_allow_na = False\<rparr>"
      using v RequirementKindReviewApproval
        ValidateText_TrimSpace [of "''purpose''" "pr_purpose i" MaxPolicyKeyRunes "''purpose''"]
      unfolding validate_requirement_def Let_def key_def [symmetric] e_def [symmetric]
      by (simp_all add: and_then_eq_Inr e_def split: if_splits)
    show ?thesis
      using k e RequirementKindReviewApproval by (simp add: validate_requirement_def and_then_eq_Inr)
  qed (use k in simp)
qed

lemma validate_requirements_again:
  "validate_requirements seen rs = Inr vs \<Longrightarrow> validate_requirements seen vs = Inr vs \<and>
     length vs = length rs \<and> distinct (map pr_key vs)"
proof -
  have "validate_requirements seen vs = Inr vs \<and> length vs = length rs \<and> distinct (map pr_key vs) \<and>
      pr_key ` set vs \<inter> set seen = {}" if "validate_requirements seen rs = Inr vs" for seen rs vs
    using that
  proof (induction seen rs arbitrary: vs rule: validate_requirements.induct)
    case (2 seen r rs)
    obtain v where v: "validate_requirement r = Inr v" using 2(2) by (auto simp: and_then_eq_Inr)
    obtain ws where ws: "pr_key v \<notin> set seen" "validate_requirements (pr_key v # seen) rs = Inr ws" "vs = v # ws"
      using 2(2) v by (auto simp: and_then_eq_Inr split: if_splits)
    have "validate_requirements (pr_key v # seen) ws = Inr ws \<and> length ws = length rs \<and>
        distinct (map pr_key ws) \<and> pr_key ` set ws \<inter> set (pr_key v # seen) = {}"
      by (rule 2(1) [OF ws(1,2)])
    then show ?case using ws(1,3) validate_requirement_again [OF v] by auto
  qed simp
  then show "validate_requirements seen rs = Inr vs \<Longrightarrow> validate_requirements seen vs = Inr vs \<and>
     length vs = length rs \<and> distinct (map pr_key vs)" by blast
qed

lemma WorkflowPolicyInput_Validate_again:
  assumes "WorkflowPolicyInput_Validate i = Inr j"
  shows "WorkflowPolicyInput_Validate j = Inr j \<and> distinct (map pr_key (snd j))"
proof -
  obtain s vs where j: "PolicySelectorInput_Validate (fst i) = Inr s" "int (length (snd i)) \<le> MaxPolicyRequirements"
      "validate_requirements [] (snd i) = Inr vs" "j = (s, vs)"
    using assms unfolding WorkflowPolicyInput_Validate_def by (auto simp: and_then_eq_Inr CopyBounded_Inr)
  show ?thesis
    using j PolicySelectorInput_Validate_again [OF j(1)] validate_requirements_again [OF j(3)]
    unfolding WorkflowPolicyInput_Validate_def
    by (simp add: and_then_eq_Inr CopyBounded_Inr MaxPolicyRequirements_def)
qed

section \<open>Properties\<close>

text \<open>
  C36. The effective requirement set of an issue is the union of the requirements of the active
  policies that match it: strictly ordered by policy id and key, complete in every identity,
  nothing from elsewhere, and, for stored policies, independent of the order in which the database
  returns the policies.
\<close>

theorem effective_requirements_canonical:
  "sorted_wrt (<) (map requirement_id (MatchWorkflowPolicies ps t labels)) \<and>
   set (MatchWorkflowPolicies ps t labels) \<subseteq> contributed ps t labels \<and>
   requirement_id ` set (MatchWorkflowPolicies ps t labels) = requirement_id ` contributed ps t labels \<and>
   (policies_wf ps \<longrightarrow> mset qs = mset ps \<longrightarrow>
      MatchWorkflowPolicies qs t labels = MatchWorkflowPolicies ps t labels)"
  using Match_sorted Match_subset Match_id_set Match_perm by metis

definition sample_requirement :: "string \<Rightarrow> string \<Rightarrow> RequirementKind \<Rightarrow> PolicyRequirement" where
  "sample_requirement p k kind = \<lparr>pr_policy = p, pr_key = k, pr_kind = kind, pr_field = '''',
     pr_evidence = ''tests'', pr_purpose = ''security'', pr_allow_na = False\<rparr>"

definition sample_policy :: "string \<Rightarrow> string list \<Rightarrow> WorkflowPolicy" where
  "sample_policy p labels = \<lparr>wp_id = p, wp_selector = \<lparr>IssueTypes = [], LabelsAll = labels\<rparr>,
     wp_status = PolicyStatusActive, wp_version = 1,
     wp_requirements = [sample_requirement p ''b'' RequirementKindAttemptEvidence,
       sample_requirement p ''a'' RequirementKindReviewApproval],
     wp_created = 1, wp_updated = 1\<rparr>"

definition sample_policies :: "WorkflowPolicy list" where
  "sample_policies = [sample_policy ''P'' [''API ''], sample_policy ''Q'' []]"

theorem effective_requirements_canonical_witness:
  "MatchWorkflowPolicies (rev sample_policies) TypeBug [''api''] =
   MatchWorkflowPolicies sample_policies TypeBug [''api''] \<and>
   length (MatchWorkflowPolicies sample_policies TypeBug [''api'']) = 4"
proof
  have wf: "policies_wf sample_policies" by code_simp
  show "MatchWorkflowPolicies (rev sample_policies) TypeBug [''api''] =
      MatchWorkflowPolicies sample_policies TypeBug [''api'']"
    using effective_requirements_canonical [of sample_policies TypeBug "[''api'']" "rev sample_policies"] wf
    by (simp only: mset_rev)
  show "length (MatchWorkflowPolicies sample_policies TypeBug [''api'']) = 4" by code_simp
qed

text \<open>
  C37. Adding labels to an issue can only add requirements: if every label of one list occurs in
  the other up to white space and ASCII case, every requirement identity of the first is in force
  for the second. In particular a change of case changes nothing.
\<close>

theorem labels_only_add_requirements:
  assumes "label_fold ` set labels \<subseteq> label_fold ` set labels'"
  shows "requirement_id ` set (MatchWorkflowPolicies ps t labels) \<subseteq>
    requirement_id ` set (MatchWorkflowPolicies ps t labels')"
  unfolding Match_id_set using contributed_mono [OF assms] by (rule image_mono)

theorem labels_only_add_requirements_witness:
  "requirement_id ` set (MatchWorkflowPolicies [sample_policy ''P'' [''api'']] TypeTask ['' API'']) \<subseteq>
   requirement_id ` set (MatchWorkflowPolicies [sample_policy ''P'' [''api'']] TypeTask [''ui'', ''Api''])"
proof (rule labels_only_add_requirements)
  have "label_fold '' API'' = label_fold ''Api''" by code_simp
  then show "label_fold ` set ['' API''] \<subseteq> label_fold ` set [''ui'', ''Api'']" by simp
qed

text \<open>
  C12. A gate lets an operation through exactly when every requirement that applies at the point is
  met; an unknown point or an unknown kind anywhere in the set is an error, never a pass. When the
  set is well formed and the gate refuses, the error is \<^verbatim>\<open>WORKFLOW_GATE_UNSATISFIED\<close> and its detail
  fields are exactly the keys of the unmet requirements. More evidence never closes an open gate.
\<close>

theorem gate_decides_exactly:
  "(evaluateGate point rs evidence = Inr () \<longleftrightarrow>
      EnforcementPoint_Valid point \<and> list_all (\<lambda>r. RequirementKind_Valid (pr_kind r)) rs \<and>
      list_all (\<lambda>r. appliesAt (pr_kind r) point \<longrightarrow> isSatisfied r evidence) rs) \<and>
   (\<forall>e. EnforcementPoint_Valid point \<longrightarrow> list_all (\<lambda>r. RequirementKind_Valid (pr_kind r)) rs \<longrightarrow>
      evaluateGate point rs evidence = Inl e \<longrightarrow>
      Code e = CodeWorkflowGateUnsatisfied \<and>
      Field ` set (Details e) = pr_key ` set (unmet_at point evidence rs)) \<and>
   (\<forall>more. evidence_le evidence more \<longrightarrow> evaluateGate point rs evidence = Inr () \<longrightarrow>
      evaluateGate point rs more = Inr ())"
proof (intro conjI allI impI)
  show "evaluateGate point rs evidence = Inr () \<longleftrightarrow>
      EnforcementPoint_Valid point \<and> list_all (\<lambda>r. RequirementKind_Valid (pr_kind r)) rs \<and>
      list_all (\<lambda>r. appliesAt (pr_kind r) point \<longrightarrow> isSatisfied r evidence) rs"
    by (simp only: evaluateGate_Inr unmet_at_Nil)
  fix e more
  show "Code e = CodeWorkflowGateUnsatisfied" "Field ` set (Details e) = pr_key ` set (unmet_at point evidence rs)"
    if "EnforcementPoint_Valid point" "list_all (\<lambda>r. RequirementKind_Valid (pr_kind r)) rs"
      "evaluateGate point rs evidence = Inl e"
    using evaluateGate_Inl [OF that] by simp_all
  show "evaluateGate point rs more = Inr ()"
    if "evidence_le evidence more" "evaluateGate point rs evidence = Inr ()"
    using that by (rule evaluateGate_mono)
qed

definition sample_evidence :: "string list \<Rightarrow> GateEvidence" where
  "sample_evidence keys =
     \<lparr>AcceptanceCriteriaBlank = True, AttemptEvidenceKeys = keys, ReviewApprovalPurposes = []\<rparr>"

theorem gate_decides_exactly_witness:
  "evaluateGate EnforcementPointCompleteWorkToReview (wp_requirements (sample_policy ''P'' []))
     (sample_evidence [''tests'', ''docs'']) = Inr () \<and>
   (\<exists>e. evaluateGate EnforcementPointCompleteWorkToReview (wp_requirements (sample_policy ''P'' []))
     (sample_evidence []) = Inl e \<and> Code e = CodeWorkflowGateUnsatisfied)"
proof
  have "evidence_le (sample_evidence [''tests'']) (sample_evidence [''tests'', ''docs''])"
    by (simp add: evidence_le_def sample_evidence_def)
  moreover have "evaluateGate EnforcementPointCompleteWorkToReview (wp_requirements (sample_policy ''P'' []))
     (sample_evidence [''tests'']) = Inr ()" by code_simp
  ultimately show "evaluateGate EnforcementPointCompleteWorkToReview (wp_requirements (sample_policy ''P'' []))
     (sample_evidence [''tests'', ''docs'']) = Inr ()"
    using gate_decides_exactly by blast
  have "\<exists>e. evaluateGate EnforcementPointCompleteWorkToReview (wp_requirements (sample_policy ''P'' []))
     (sample_evidence []) = Inl e"
    by (rule exI [of _ "projl (evaluateGate EnforcementPointCompleteWorkToReview
      (wp_requirements (sample_policy ''P'' [])) (sample_evidence []))"]) code_simp
  moreover have "EnforcementPoint_Valid EnforcementPointCompleteWorkToReview \<and>
      list_all (\<lambda>r. RequirementKind_Valid (pr_kind r)) (wp_requirements (sample_policy ''P'' []))" by code_simp
  ultimately show "\<exists>e. evaluateGate EnforcementPointCompleteWorkToReview (wp_requirements (sample_policy ''P'' []))
     (sample_evidence []) = Inl e \<and> Code e = CodeWorkflowGateUnsatisfied"
    using gate_decides_exactly by blast
qed

text \<open>
  Policy validation normalizes: its result passes again unchanged, so a stored policy can be
  validated on every read, and the keys of the result are pairwise different.
\<close>

lemma policy_validation_idempotent:
  assumes "WorkflowPolicyInput_Validate i = Inr j"
  shows "WorkflowPolicyInput_Validate j = Inr j \<and> distinct (map pr_key (snd j))"
  using assms by (rule WorkflowPolicyInput_Validate_again)

definition sample_policy_input :: "PolicySelector \<times> PolicyRequirement list" where
  "sample_policy_input = (\<lparr>IssueTypes = [TypeBug], LabelsAll = ['' ui'', ''API'']\<rparr>,
     [\<lparr>pr_policy = '''', pr_key = '' k '', pr_kind = RequirementKindReviewApproval, pr_field = '''',
       pr_evidence = '''', pr_purpose = ''security'', pr_allow_na = False\<rparr>])"

definition normalized_policy_input :: "PolicySelector \<times> PolicyRequirement list" where
  "normalized_policy_input = (\<lparr>IssueTypes = [TypeBug], LabelsAll = [''API'', ''ui'']\<rparr>,
     [\<lparr>pr_policy = '''', pr_key = ''k'', pr_kind = RequirementKindReviewApproval, pr_field = '''',
       pr_evidence = '''', pr_purpose = ''security'', pr_allow_na = False\<rparr>])"


text \<open>
  Label normalization is canonical: an accepted list of names gives the same result in every
  order, the result is accepted again unchanged, and its canonical forms are strictly increasing,
  so no two labels of an issue differ only in case or surrounding white space.
\<close>

lemma label_names_canonical:
  assumes "NormalizeLabelNames ns = Inr ls"
  shows "(\<forall>ms. mset ms = mset ns \<longrightarrow> NormalizeLabelNames ms = Inr ls) \<and>
     NormalizeLabelNames ls = Inr ls \<and> sorted_wrt (<) (map label_fold ls)"
  using NormalizeLabelNames_perm [OF assms] NormalizeLabelNames_again [OF assms] by blast


end
