(* ===== verification/Store.thy ===== *)
theory Store
  imports Gates
begin

text \<open>
  The SQLite store: one record with a list of rows per table of \<^verbatim>\<open>internal/migrations/sql\<close>, the
  constraints the schema enforces on every statement, transactions (\<^verbatim>\<open>transaction.go\<close>: the callback
  runs on one connection and an error rolls everything back), and the row loaders shared by the
  repositories of \<^verbatim>\<open>internal/adapters/sqlite\<close>.

  A timestamp is an integer number of nanoseconds since Go's zero time; the fixed-width text form
  the database stores orders the same way. JSON columns hold the value they encode.
\<close>

section \<open>Rows\<close>

record WorkAttempt =
  wa_id :: string
  wa_issue :: string
  wa_session :: "string option"
  wa_label :: "string option"
  wa_kind :: AttemptKind
  wa_status :: AttemptStatus
  wa_version_at_start :: int
  wa_event_at_start :: int
  wa_lease :: time
  wa_started :: time
  wa_heartbeat :: time
  wa_finished :: "time option"
  wa_summary :: "string option"
  wa_next_steps :: "string list"
  wa_verification :: "string list"
  wa_failure :: "FailureReasonCode option"
  wa_interruption :: "InterruptionReasonCode option"
  wa_details :: "string option"
  wa_token_hash :: string

record AttemptNote =
  an_id :: string
  an_attempt :: string
  an_kind :: AttemptNoteKind
  an_content :: string
  an_next_steps :: "string list"
  an_important :: bool
  an_created :: time

record Artifact =
  af_id :: string
  af_issue :: string
  af_attempt :: "string option"
  af_input :: ArtifactInput
  af_created :: time

datatype ReservationStatus = ReservationStatusActive | ReservationStatusReleased

datatype ReservationReleaseReason =
    ReservationReleaseReasonCompleted | ReservationReleaseReasonFailed
  | ReservationReleaseReasonInterrupted | ReservationReleaseReasonExpired
  | ReservationReleaseReasonForceReleased | ReservationReleaseReasonExplicit
  | ReservationReleaseReason_other string

record Reservation =
  rs_id :: string
  rs_issue :: string
  rs_attempt :: string
  rs_kind :: ResourceKind
  rs_display :: string
  rs_comparison :: string
  rs_identity :: Resource
  rs_status :: ReservationStatus
  rs_version :: int
  rs_created :: time
  rs_released :: "time option"
  rs_reason :: "ReservationReleaseReason option"

datatype ReviewRequestStatus =
    ReviewRequestStatusOpen | ReviewRequestStatusClaimed | ReviewRequestStatusApproved
  | ReviewRequestStatusChangesRequested | ReviewRequestStatusBlocked
  | ReviewRequestStatusCancelled | ReviewRequestStatusSuperseded

record ReviewTarget =
  rt_id :: string
  rt_issue :: string
  rt_issue_version :: int
  rt_event :: int
  rt_artifacts :: "string list"
  rt_purposes :: "string list"
  rt_version :: int
  rt_created :: time

record ReviewRequest =
  rq_id :: string
  rq_issue :: string
  rq_target :: string
  rq_issue_version :: int
  rq_event :: int
  rq_artifacts :: "string list"
  rq_purposes :: "string list"
  rq_status :: ReviewRequestStatus
  rq_supersedes :: "string option"
  rq_attempt :: "string option"
  rq_version :: int
  rq_created :: time
  rq_resolved :: "time option"

record ReviewOutcomeRecord =
  ro_id :: string
  ro_request :: string
  ro_attempt :: string
  ro_outcome :: ReviewOutcome
  ro_reason :: "string option"
  ro_version :: int
  ro_created :: time

record ReviewApproval =
  ra_id :: string
  ra_issue :: string
  ra_target :: string
  ra_request :: string
  ra_attempt :: string
  ra_purpose :: string
  ra_issue_version :: int
  ra_event :: int
  ra_version :: int
  ra_created :: time

datatype EvidenceResult = EvidenceResultSatisfied | EvidenceResultNotApplicable | EvidenceResult_other string

record AttemptEvidence =
  ae_id :: string
  ae_attempt :: string
  ae_issue :: string
  ae_key :: string
  ae_result :: EvidenceResult
  ae_summary :: string
  ae_details :: string
  ae_artifacts :: "string list"
  ae_version :: int
  ae_created :: time
  ae_updated :: time

text \<open>
  The project row, of which a database has exactly one (\<^verbatim>\<open>runtime.go\<close> creates it and refuses any
  other), agent sessions, labels, comments and decisions. The labels of an issue are kept in its row,
  by name: labels are never renamed or deleted and their names are unique.
\<close>

record Project =
  pj_id :: string
  pj_next :: int
  pj_updated :: time

record AgentSession =
  as_id :: string
  as_client :: string
  as_version :: "string option"
  as_label :: "string option"
  as_model :: "string option"
  as_instance :: "string option"
  as_started :: time
  as_seen :: time
  as_ended :: "time option"
  as_handle :: "string option"

record Label =
  lb_id :: string
  lb_name :: string
  lb_description :: "string option"
  lb_created :: time

record Comment =
  cm_id :: string
  cm_issue :: string
  cm_content :: string
  cm_session :: "string option"
  cm_created :: time

datatype DecisionStatus =
    DecisionStatusActive | DecisionStatusSuperseded | DecisionStatusRejected | DecisionStatus_other string

fun DecisionStatus_Valid :: "DecisionStatus \<Rightarrow> bool" where
  "DecisionStatus_Valid (DecisionStatus_other s) = False"
| "DecisionStatus_Valid _ = True"

record Decision =
  dc_id :: string
  dc_issue :: "string option"
  dc_title :: string
  dc_summary :: string
  dc_content :: string
  dc_status :: DecisionStatus
  dc_supersedes :: "string option"
  dc_session :: "string option"
  dc_created :: time

text \<open>The audit tables of gate evidence and of workflow policies; a policy event holds a copy of the policy.\<close>

record EvidenceEvent =
  ge_evidence :: string
  ge_attempt :: string
  ge_issue :: string
  ge_key :: string
  ge_type :: string
  ge_version :: int
  ge_result :: EvidenceResult
  ge_artifacts :: "string list"
  ge_created :: time

record PolicyEvent =
  we_policy :: string
  we_type :: string
  we_session :: "string option"
  we_prior :: "int option"
  we_new :: int
  we_payload :: WorkflowPolicy
  we_created :: time

section \<open>Events\<close>

text \<open>
  The JSON payloads. Only \<^verbatim>\<open>changed_fields\<close>, which the update events of an issue carry, is read back.
\<close>

record issueUpdatedPayload =
  iu_changed :: "string list"
  iu_title :: "string option"
  iu_type :: "Type option"
  iu_priority :: "Priority option"
  iu_status :: "Status option"
  iu_parent :: "string option"
  iu_description_set :: "bool option"
  iu_acceptance_set :: "bool option"
  iu_blocked_set :: "bool option"
  iu_labels :: "string list option"

datatype Payload =
    PayloadAttemptStarted string AttemptKind
  | PayloadAttemptFinished string AttemptOutcome "Status option" "FailureReasonCode option"
      "InterruptionReasonCode option"
  | PayloadAttempt string
  | PayloadAttemptCancelled string string
  | PayloadNote string AttemptNoteKind
  | PayloadReserved string ResourceKind string string
  | PayloadReleased string ReservationReleaseReason
  | PayloadReview string string "string option" "ReviewOutcome option" "string option"
  | PayloadReplace string string "string option" "string option"
  | PayloadRelation string string string RelationType
  | PayloadIssueCreated int Type Status Priority "string option" "string list"
  | PayloadIssueUpdated issueUpdatedPayload
  | PayloadIssueArchived int time
  | PayloadIssueUnarchived int time
  | PayloadComment string
  | PayloadDecision string DecisionStatus "string option"

fun changed_fields :: "Payload \<Rightarrow> string list option" where
  "changed_fields (PayloadIssueUpdated u) = Some (iu_changed u)"
| "changed_fields _ = None"

datatype EventSource = SourceIssue | SourceReview

record Event =
  ev_id :: int
  ev_issue :: "string option"
  ev_type :: string
  ev_session :: "string option"
  ev_attempt :: "string option"
  ev_payload :: Payload
  ev_created :: time
  ev_source :: EventSource

section \<open>Stored responses\<close>

record IssueProjection =
  ip_issue :: Issue
  ip_effective :: EffectiveStatus
  ip_blockers :: int
  ip_blocked :: bool
  ip_claimable :: bool
  ip_active :: "string option"

record ClaimIssueResult =
  cir_issue :: Issue
  cir_projection :: IssueProjection
  cir_attempt :: WorkAttempt
  cir_reservations :: "Reservation list"
  cir_token :: string

record SaveAttemptNoteResult =
  snr_note :: AttemptNote
  snr_artifacts :: "Artifact list"

record FinishAttemptResult =
  far_attempt :: WorkAttempt
  far_issue :: Issue
  far_warnings :: "string list"
  far_latest :: int
  far_artifacts :: "Artifact list"

record ReplaceReviewRequestResult =
  rrr_predecessor :: ReviewRequest
  rrr_successor :: ReviewRequest
  rrr_target :: ReviewTarget
  rrr_latest :: int

record ManageIssueRelationResult =
  mir_relation :: IssueRelation
  mir_changed :: bool
  mir_affected :: "IssueProjection list"

record CreatedPlanIssue =
  cpi_ref :: string
  cpi_issue :: Issue

record PlanDecision =
  pd_id :: string
  pd_issue :: "string option"
  pd_title :: string
  pd_summary :: string
  pd_content :: string
  pd_status :: DecisionStatus
  pd_created :: time

record ApplyIssuePlanResult =
  apr_issues :: "CreatedPlanIssue list"
  apr_relations :: "IssueRelation list"
  apr_decisions :: "PlanDecision list"
  apr_latest :: int

datatype Response =
    ResponseClaim ClaimIssueResult
  | ResponseNote SaveAttemptNoteResult
  | ResponseFinish FinishAttemptResult
  | ResponseReservations "Reservation list"
  | ResponseEvidence AttemptEvidence
  | ResponseReplace ReplaceReviewRequestResult
  | ResponseRelation ManageIssueRelationResult
  | ResponsePolicy WorkflowPolicy
  | ResponseIssue Issue
  | ResponseUpdate Issue "string list"
  | ResponseComment Comment
  | ResponsePlan ApplyIssuePlanResult

record IdempotencyRecord =
  ir_operation :: string
  ir_key :: string
  ir_hash :: string
  ir_response :: Response

section \<open>The database\<close>

record db =
  db_issues :: "Issue list"
  db_sessions :: "AgentSession list"
  db_relations :: "IssueRelation list"
  db_attempts :: "WorkAttempt list"
  db_notes :: "AttemptNote list"
  db_artifacts :: "Artifact list"
  db_events :: "Event list"
  db_idempotency :: "IdempotencyRecord list"
  db_policies :: "WorkflowPolicy list"
  db_attempt_snapshots :: "(string \<times> GateSnapshot) list"
  db_target_snapshots :: "(string \<times> GateSnapshot) list"
  db_evidence :: "AttemptEvidence list"
  db_reservations :: "Reservation list"
  db_targets :: "ReviewTarget list"
  db_requests :: "ReviewRequest list"
  db_outcomes :: "ReviewOutcomeRecord list"
  db_approvals :: "ReviewApproval list"
  db_evidence_events :: "EvidenceEvent list"
  db_policy_events :: "PolicyEvent list"
  db_project :: "Project option"
  db_labels :: "Label list"
  db_comments :: "Comment list"
  db_decisions :: "Decision list"

abbreviation session_ids :: "db \<Rightarrow> string list" where
  "session_ids d \<equiv> map as_id (db_sessions d)"

section \<open>Constraints of the schema\<close>

definition is_active :: "WorkAttempt \<Rightarrow> bool" where
  "is_active a \<longleftrightarrow> wa_status a = AttemptStatusActive"

definition is_unresolved :: "ReviewRequest \<Rightarrow> bool" where
  "is_unresolved r \<longleftrightarrow> rq_status r \<in> {ReviewRequestStatusOpen, ReviewRequestStatusClaimed}"

definition is_held :: "Reservation \<Rightarrow> bool" where
  "is_held r \<longleftrightarrow> rs_status r = ReservationStatusActive"

text \<open>A nullable foreign key.\<close>

definition refers :: "'k list \<Rightarrow> 'k option \<Rightarrow> bool" where
  "refers ids v \<longleftrightarrow> (case v of None \<Rightarrow> True | Some k \<Rightarrow> k \<in> set ids)"

lemma refers_simps [simp]: "refers ids None" "refers ids (Some k) \<longleftrightarrow> k \<in> set ids"
  by (simp_all add: refers_def)

definition attempt_row_ok :: "WorkAttempt \<Rightarrow> bool" where
  "attempt_row_ok a \<longleftrightarrow> length (wa_id a) = 26 \<and> AttemptKind_Valid (wa_kind a) \<and>
     wa_version_at_start a \<ge> 1 \<and> wa_event_at_start a \<ge> 0 \<and> wa_token_hash a \<noteq> [] \<and>
     (is_active a \<longleftrightarrow> wa_finished a = None) \<and>
     (wa_status a = AttemptStatusFailed \<longleftrightarrow> wa_failure a \<noteq> None) \<and>
     (wa_status a = AttemptStatusInterrupted \<longleftrightarrow> wa_interruption a \<noteq> None)"

definition attempts_ok :: "db \<Rightarrow> bool" where
  "attempts_ok d \<longleftrightarrow> distinct (map wa_id (db_attempts d)) \<and>
     distinct (map wa_issue (filter is_active (db_attempts d))) \<and>
     list_all (\<lambda>a. attempt_row_ok a \<and> wa_issue a \<in> set (map IID (db_issues d)) \<and>
       refers (session_ids d) (wa_session a)) (db_attempts d)"

definition issue_row_ok :: "Issue \<Rightarrow> bool" where
  "issue_row_ok i \<longleftrightarrow> length (IID i) = 26 \<and> SequenceNo i > 0 \<and> Type_Valid (IType i) \<and>
     Title i \<noteq> [] \<and> Status_Valid (IStatus i) \<and> Priority_Valid (IPriority i) \<and> IVersion i \<ge> 1 \<and>
     (ParentID i \<noteq> Some (IID i)) \<and> (IType i = TypeEpic \<longrightarrow> ParentID i = None) \<and>
     (IStatus i = StatusBlocked \<longleftrightarrow> BlockedReason i \<noteq> None) \<and>
     (case BlockedReason i of None \<Rightarrow> True | Some r \<Rightarrow> list_ex (\<lambda>c. c \<noteq> CHR '' '') r)"

definition issues_ok :: "db \<Rightarrow> bool" where
  "issues_ok d \<longleftrightarrow> distinct (map IID (db_issues d)) \<and> distinct (map SequenceNo (db_issues d)) \<and>
     list_all issue_row_ok (db_issues d) \<and>
     list_all (\<lambda>i. refers (map IID (db_issues d)) (ParentID i)) (db_issues d)"

definition relations_ok :: "db \<Rightarrow> bool" where
  "relations_ok d \<longleftrightarrow> distinct (map rl_id (db_relations d)) \<and>
     distinct (map (\<lambda>r. (rl_source r, rl_target r, rl_type r)) (db_relations d)) \<and>
     list_all (\<lambda>r. length (rl_id r) = 26 \<and> RelationType_Valid (rl_type r) \<and> rl_source r \<noteq> rl_target r \<and>
       (rl_type r = RelationTypeRelatedTo \<longrightarrow> rl_source r < rl_target r) \<and>
       rl_source r \<in> set (map IID (db_issues d)) \<and> rl_target r \<in> set (map IID (db_issues d))) (db_relations d)"

definition reservation_row_ok :: "Reservation \<Rightarrow> bool" where
  "reservation_row_ok r \<longleftrightarrow> length (rs_id r) = 26 \<and> ResourceKind_Valid (rs_kind r) \<and>
     rs_display r \<noteq> [] \<and> rs_comparison r \<noteq> [] \<and> rs_version r \<ge> 1 \<and>
     (is_held r \<longleftrightarrow> rs_released r = None) \<and> (is_held r \<longleftrightarrow> rs_reason r = None)"

definition reservations_ok :: "db \<Rightarrow> bool" where
  "reservations_ok d \<longleftrightarrow> distinct (map rs_id (db_reservations d)) \<and>
     distinct (map (\<lambda>r. (rs_kind r, rs_comparison r))
       (filter (\<lambda>r. is_held r \<and> rs_kind r \<in> {ResourceKindFile, ResourceKindLogical}) (db_reservations d))) \<and>
     list_all (\<lambda>r. reservation_row_ok r \<and> rs_issue r \<in> set (map IID (db_issues d)) \<and>
       rs_attempt r \<in> set (map wa_id (db_attempts d))) (db_reservations d)"

definition request_row_ok :: "ReviewRequest \<Rightarrow> bool" where
  "request_row_ok r \<longleftrightarrow> length (rq_id r) = 26 \<and> rq_issue_version r \<ge> 1 \<and> rq_event r \<ge> 0 \<and>
     rq_version r \<ge> 1 \<and> (is_unresolved r \<longleftrightarrow> rq_resolved r = None) \<and>
     (rq_status r = ReviewRequestStatusClaimed \<longleftrightarrow> rq_attempt r \<noteq> None) \<and>
     rq_supersedes r \<noteq> Some (rq_id r) \<and> 1 \<le> length (rq_purposes r) \<and> length (rq_purposes r) \<le> 10"

definition requests_ok :: "db \<Rightarrow> bool" where
  "requests_ok d \<longleftrightarrow> distinct (map rq_id (db_requests d)) \<and>
     distinct (map rq_target (filter is_unresolved (db_requests d))) \<and>
     distinct (map rq_attempt (filter (\<lambda>r. rq_attempt r \<noteq> None) (db_requests d))) \<and>
     distinct (map (\<lambda>r. (rq_issue r, rq_issue_version r)) (filter is_unresolved (db_requests d))) \<and>
     list_all (\<lambda>r. request_row_ok r \<and> rq_issue r \<in> set (map IID (db_issues d)) \<and>
       rq_target r \<in> set (map rt_id (db_targets d)) \<and>
       refers (map wa_id (db_attempts d)) (rq_attempt r) \<and>
       refers (map rq_id (db_requests d)) (rq_supersedes r)) (db_requests d)"

definition reviews_ok :: "db \<Rightarrow> bool" where
  "reviews_ok d \<longleftrightarrow> distinct (map rt_id (db_targets d)) \<and>
     list_all (\<lambda>t. length (rt_id t) = 26 \<and> rt_issue_version t \<ge> 1 \<and> rt_event t \<ge> 0 \<and>
       rt_issue t \<in> set (map IID (db_issues d)) \<and> 1 \<le> length (rt_purposes t) \<and> length (rt_purposes t) \<le> 10)
       (db_targets d) \<and>
     distinct (map ro_id (db_outcomes d)) \<and> distinct (map ro_request (db_outcomes d)) \<and>
     list_all (\<lambda>r. length (ro_id r) = 26 \<and> ReviewOutcome_Valid (ro_outcome r) \<and>
       (ro_outcome r = ReviewOutcomeBlocked \<longleftrightarrow> ro_reason r \<noteq> None) \<and>
       (case ro_reason r of None \<Rightarrow> True | Some s \<Rightarrow> list_ex (\<lambda>c. c \<noteq> CHR '' '') s) \<and>
       ro_request r \<in> set (map rq_id (db_requests d)) \<and> ro_attempt r \<in> set (map wa_id (db_attempts d)))
       (db_outcomes d) \<and>
     distinct (map ra_id (db_approvals d)) \<and>
     distinct (map (\<lambda>a. (ra_request a, ra_purpose a)) (db_approvals d)) \<and>
     list_all (\<lambda>a. length (ra_id a) = 26 \<and> list_ex (\<lambda>c. c \<noteq> CHR '' '') (ra_purpose a) \<and>
       ra_issue_version a \<ge> 1 \<and> ra_event a \<ge> 0 \<and>
       ra_target a \<in> set (map rt_id (db_targets d)) \<and> ra_request a \<in> set (map rq_id (db_requests d)) \<and>
       ra_attempt a \<in> set (map wa_id (db_attempts d))) (db_approvals d)"

definition records_ok :: "db \<Rightarrow> bool" where
  "records_ok d \<longleftrightarrow> distinct (map (\<lambda>r. (ir_operation r, ir_key r)) (db_idempotency d)) \<and>
     list_all (\<lambda>r. ir_key r \<noteq> [] \<and> ir_operation r \<noteq> [] \<and> ir_hash r \<noteq> []) (db_idempotency d) \<and>
     distinct (map an_id (db_notes d)) \<and>
     list_all (\<lambda>n. length (an_id n) = 26 \<and> AttemptNoteKind_Valid (an_kind n) \<and> an_content n \<noteq> [] \<and>
       an_attempt n \<in> set (map wa_id (db_attempts d))) (db_notes d) \<and>
     distinct (map af_id (db_artifacts d)) \<and>
     list_all (\<lambda>a. length (af_id a) = 26 \<and> ArtifactType_Valid (art_type (af_input a)) \<and>
       art_uri (af_input a) \<noteq> [] \<and> af_issue a \<in> set (map IID (db_issues d)) \<and>
       refers (map wa_id (db_attempts d)) (af_attempt a)) (db_artifacts d)"

definition gates_ok :: "db \<Rightarrow> bool" where
  "gates_ok d \<longleftrightarrow> distinct (map wp_id (db_policies d)) \<and>
     list_all (\<lambda>p. length (wp_id p) = 26 \<and> PolicyStatus_Valid (wp_status p) \<and> wp_version p \<ge> 1) (db_policies d) \<and>
     list_all (\<lambda>e. we_policy e \<in> set (map wp_id (db_policies d)) \<and>
       we_type e \<in> {''policy_created'', ''policy_updated'', ''policy_archived''} \<and>
       refers (session_ids d) (we_session e) \<and>
       (case we_prior e of None \<Rightarrow> True | Some v \<Rightarrow> v \<ge> 1) \<and> we_new e \<ge> 1 \<and>
       (we_type e = ''policy_created'' \<longleftrightarrow> we_prior e = None)) (db_policy_events d) \<and>
     distinct (map fst (db_attempt_snapshots d)) \<and>
     list_all (\<lambda>s. fst s \<in> set (map wa_id (db_attempts d)) \<and> gs_issue_version (snd s) \<ge> 1) (db_attempt_snapshots d) \<and>
     distinct (map fst (db_target_snapshots d)) \<and>
     list_all (\<lambda>s. fst s \<in> set (map rt_id (db_targets d)) \<and> gs_issue_version (snd s) \<ge> 1) (db_target_snapshots d) \<and>
     distinct (map ae_id (db_evidence d)) \<and>
     distinct (map (\<lambda>e. (ae_attempt e, ae_key e)) (db_evidence d)) \<and>
     list_all (\<lambda>e. length (ae_id e) = 26 \<and> ae_key e \<noteq> [] \<and> ae_summary e \<noteq> [] \<and>
       ae_result e \<in> {EvidenceResultSatisfied, EvidenceResultNotApplicable} \<and> ae_version e \<ge> 1 \<and>
       ae_attempt e \<in> set (map wa_id (db_attempts d)) \<and> ae_issue e \<in> set (map IID (db_issues d))) (db_evidence d) \<and>
     list_all (\<lambda>e. ge_evidence e \<in> set (map ae_id (db_evidence d)) \<and> ge_attempt e \<in> set (map wa_id (db_attempts d)) \<and>
       ge_issue e \<in> set (map IID (db_issues d)) \<and> ge_key e \<noteq> [] \<and>
       ge_type e \<in> {''evidence_submitted'', ''evidence_replaced''} \<and> ge_version e \<ge> 1) (db_evidence_events d)"

definition event_refs_ok :: "db \<Rightarrow> string option \<Rightarrow> string option \<Rightarrow> string option \<Rightarrow> bool" where
  "event_refs_ok d issue session attempt \<longleftrightarrow>
     refers (map IID (db_issues d)) issue \<and> refers (session_ids d) session \<and>
     refers (map wa_id (db_attempts d)) attempt"

definition event_row_ok :: "db \<Rightarrow> Event \<Rightarrow> bool" where
  "event_row_ok d e \<longleftrightarrow> ev_type e \<noteq> [] \<and> event_refs_ok d (ev_issue e) (ev_session e) (ev_attempt e)"

definition events_ok :: "db \<Rightarrow> bool" where
  "events_ok d \<longleftrightarrow> list_all (event_row_ok d) (db_events d)"

definition sessions_ok :: "db \<Rightarrow> bool" where
  "sessions_ok d \<longleftrightarrow> distinct (map as_id (db_sessions d)) \<and>
     distinct (map as_handle (filter (\<lambda>s. as_handle s \<noteq> None) (db_sessions d))) \<and>
     list_all (\<lambda>s. length (as_id s) = 26 \<and> as_client s \<noteq> []) (db_sessions d)"

definition labels_ok :: "db \<Rightarrow> bool" where
  "labels_ok d \<longleftrightarrow> distinct (map lb_id (db_labels d)) \<and> distinct (map (\<lambda>l. asciiLower (lb_name l)) (db_labels d)) \<and>
     list_all (\<lambda>l. length (lb_id l) = 26 \<and> list_ex (\<lambda>c. c \<noteq> CHR '' '') (lb_name l)) (db_labels d) \<and>
     list_all (\<lambda>i. distinct (Labels i) \<and> list_all (\<lambda>n. n \<in> set (map lb_name (db_labels d))) (Labels i)) (db_issues d)"

definition project_ok :: "db \<Rightarrow> bool" where
  "project_ok d \<longleftrightarrow> (case db_project d of None \<Rightarrow> True | Some p \<Rightarrow> length (pj_id p) = 26 \<and> pj_next p \<ge> 1)"

definition comments_ok :: "db \<Rightarrow> bool" where
  "comments_ok d \<longleftrightarrow> distinct (map cm_id (db_comments d)) \<and>
     list_all (\<lambda>c. length (cm_id c) = 26 \<and> cm_content c \<noteq> [] \<and> cm_issue c \<in> set (map IID (db_issues d)) \<and>
       refers (session_ids d) (cm_session c)) (db_comments d)"

definition decisions_ok :: "db \<Rightarrow> bool" where
  "decisions_ok d \<longleftrightarrow> distinct (map dc_id (db_decisions d)) \<and>
     distinct (map dc_supersedes (filter (\<lambda>x. dc_supersedes x \<noteq> None) (db_decisions d))) \<and>
     list_all (\<lambda>x. length (dc_id x) = 26 \<and> dc_title x \<noteq> [] \<and> dc_summary x \<noteq> [] \<and> DecisionStatus_Valid (dc_status x) \<and>
       dc_supersedes x \<noteq> Some (dc_id x) \<and> refers (map IID (db_issues d)) (dc_issue x) \<and>
       refers (map dc_id (db_decisions d)) (dc_supersedes x) \<and> refers (session_ids d) (dc_session x)) (db_decisions d)"

definition schema_ok :: "db \<Rightarrow> bool" where
  "schema_ok d \<longleftrightarrow> issues_ok d \<and> relations_ok d \<and> attempts_ok d \<and> reservations_ok d \<and>
     requests_ok d \<and> reviews_ok d \<and> records_ok d \<and> gates_ok d \<and> events_ok d \<and>
     sessions_ok d \<and> labels_ok d \<and> project_ok d \<and> comments_ok d \<and> decisions_ok d"

section \<open>Transactions\<close>

text \<open>
  A transaction body reads and writes the store and may fail. \<open>tx_then\<close> sequences two of them the
  way the Go code continues after \<^verbatim>\<open>if err != nil { return err }\<close>. A statement is executed by
  \<open>exec\<close>: SQLite refuses it when the result violates a constraint.
\<close>

type_synonym 'a tx = "db \<Rightarrow> (db \<times> 'a) res"

definition tx_return :: "'a \<Rightarrow> 'a tx" where
  "tx_return x d = Inr (d, x)"

definition tx_fail :: "Error \<Rightarrow> 'a tx" where
  "tx_fail e d = Inl e"

definition tx_then :: "'a tx \<Rightarrow> ('a \<Rightarrow> 'b tx) \<Rightarrow> 'b tx" where
  "tx_then t f d = (case t d of Inl e \<Rightarrow> Inl e | Inr (d', x) \<Rightarrow> f x d')"

definition tx_read :: "(db \<Rightarrow> 'a) \<Rightarrow> 'a tx" where
  "tx_read f d = Inr (d, f d)"

definition tx_lift :: "'a res \<Rightarrow> 'a tx" where
  "tx_lift r d = (case r of Inl e \<Rightarrow> Inl e | Inr x \<Rightarrow> Inr (d, x))"

definition tx_require :: "bool \<Rightarrow> Error \<Rightarrow> unit tx" where
  "tx_require b e = (if b then tx_return () else tx_fail e)"

fun tx_each :: "('a \<Rightarrow> unit tx) \<Rightarrow> 'a list \<Rightarrow> unit tx" where
  "tx_each f [] = tx_return ()"
| "tx_each f (x # xs) = tx_then (f x) (\<lambda>_. tx_each f xs)"

fun tx_map :: "('a \<Rightarrow> 'b tx) \<Rightarrow> 'a list \<Rightarrow> 'b list tx" where
  "tx_map f [] = tx_return []"
| "tx_map f (x # xs) = tx_then (f x) (\<lambda>y. tx_then (tx_map f xs) (\<lambda>ys. tx_return (y # ys)))"

definition storageConstraintError :: Error where
  "storageConstraintError = NewError CodeStorageConstraint False [detail ''storage'' ''SQLITE_CONSTRAINT'']"

definition exec :: "(db \<Rightarrow> db) \<Rightarrow> unit tx" where
  "exec f d = (let d' = f d in if schema_ok d' then Inr (d', ()) else Inl storageConstraintError)"

text \<open>
  \<^verbatim>\<open>DB.Write\<close>: \<^verbatim>\<open>BEGIN IMMEDIATE\<close>, the callback, then \<^verbatim>\<open>COMMIT\<close>, or \<^verbatim>\<open>ROLLBACK\<close> when it returns an error.
  The value of the callback is itself a result: some operations commit their changes and then
  report an error.
\<close>

definition Write :: "'a res tx \<Rightarrow> db \<Rightarrow> db \<times> 'a res" where
  "Write t d = (case t d of Inl e \<Rightarrow> (d, Inl e) | Inr (d', r) \<Rightarrow> (d', r))"

text \<open>Conditional updates, returning RowsAffected.\<close>

definition update_attempts :: "(WorkAttempt \<Rightarrow> bool) \<Rightarrow> (WorkAttempt \<Rightarrow> WorkAttempt) \<Rightarrow> nat tx" where
  "update_attempts p f =
     tx_then (tx_read (\<lambda>d. affected p (db_attempts d))) (\<lambda>n.
     tx_then (exec (\<lambda>d. d\<lparr>db_attempts := update_where p f (db_attempts d)\<rparr>)) (\<lambda>_. tx_return n))"

definition update_issues :: "(Issue \<Rightarrow> bool) \<Rightarrow> (Issue \<Rightarrow> Issue) \<Rightarrow> nat tx" where
  "update_issues p f =
     tx_then (tx_read (\<lambda>d. affected p (db_issues d))) (\<lambda>n.
     tx_then (exec (\<lambda>d. d\<lparr>db_issues := update_where p f (db_issues d)\<rparr>)) (\<lambda>_. tx_return n))"

definition update_reservations :: "(Reservation \<Rightarrow> bool) \<Rightarrow> (Reservation \<Rightarrow> Reservation) \<Rightarrow> nat tx" where
  "update_reservations p f =
     tx_then (tx_read (\<lambda>d. affected p (db_reservations d))) (\<lambda>n.
     tx_then (exec (\<lambda>d. d\<lparr>db_reservations := update_where p f (db_reservations d)\<rparr>)) (\<lambda>_. tx_return n))"

definition update_requests :: "(ReviewRequest \<Rightarrow> bool) \<Rightarrow> (ReviewRequest \<Rightarrow> ReviewRequest) \<Rightarrow> nat tx" where
  "update_requests p f =
     tx_then (tx_read (\<lambda>d. affected p (db_requests d))) (\<lambda>n.
     tx_then (exec (\<lambda>d. d\<lparr>db_requests := update_where p f (db_requests d)\<rparr>)) (\<lambda>_. tx_return n))"

definition update_evidence :: "(AttemptEvidence \<Rightarrow> bool) \<Rightarrow> (AttemptEvidence \<Rightarrow> AttemptEvidence) \<Rightarrow> nat tx" where
  "update_evidence p f =
     tx_then (tx_read (\<lambda>d. affected p (db_evidence d))) (\<lambda>n.
     tx_then (exec (\<lambda>d. d\<lparr>db_evidence := update_where p f (db_evidence d)\<rparr>)) (\<lambda>_. tx_return n))"

definition update_policies :: "(WorkflowPolicy \<Rightarrow> bool) \<Rightarrow> (WorkflowPolicy \<Rightarrow> WorkflowPolicy) \<Rightarrow> nat tx" where
  "update_policies p f =
     tx_then (tx_read (\<lambda>d. affected p (db_policies d))) (\<lambda>n.
     tx_then (exec (\<lambda>d. d\<lparr>db_policies := update_where p f (db_policies d)\<rparr>)) (\<lambda>_. tx_return n))"

section \<open>The event log\<close>

text \<open>\<^verbatim>\<open>SELECT COALESCE(MAX(id), 0) FROM issue_events\<close>; AUTOINCREMENT ids continue from there.\<close>

definition latest_event :: "db \<Rightarrow> int" where
  "latest_event d = (if db_events d = [] then 0 else Max (set (map ev_id (db_events d))))"

definition append_event ::
  "string option \<Rightarrow> string \<Rightarrow> string option \<Rightarrow> string option \<Rightarrow> Payload \<Rightarrow> time \<Rightarrow> EventSource \<Rightarrow> unit tx" where
  "append_event issue ty session attempt payload now source =
     exec (\<lambda>d. d\<lparr>db_events := db_events d @
       [\<lparr>ev_id = latest_event d + 1, ev_issue = issue, ev_type = ty, ev_session = session,
         ev_attempt = attempt, ev_payload = payload, ev_created = now, ev_source = source\<rparr>]\<rparr>)"

definition appendReviewEvent :: "string \<Rightarrow> string \<Rightarrow> string option \<Rightarrow> Payload \<Rightarrow> time \<Rightarrow> unit tx" where
  "appendReviewEvent issueID eventType attemptID payload createdAt =
     append_event (Some issueID) eventType None attemptID payload createdAt SourceReview"

section \<open>Loading rows\<close>

definition loadIssueForMutation :: "IssueIdentifier \<Rightarrow> Issue tx" where
  "loadIssueForMutation identifier d =
     (case (case id_kind identifier of
              IssueIdentifierInternalID \<Rightarrow> find (\<lambda>i. IID i = id_value identifier) (db_issues d)
            | IssueIdentifierDisplayID \<Rightarrow> find (\<lambda>i. SequenceNo i = id_sequence identifier) (db_issues d)) of
        None \<Rightarrow> Inl (NewError CodeIssueNotFound False [])
      | Some issue \<Rightarrow> Inr (d, issue))"

definition internal_id :: "string \<Rightarrow> IssueIdentifier" where
  "internal_id i = \<lparr>id_kind = IssueIdentifierInternalID, id_value = i, id_sequence = 0\<rparr>"

definition classifyConditionalUpdateFailure :: "string \<Rightarrow> 'a tx" where
  "classifyConditionalUpdateFailure i d =
     (case find (\<lambda>x. IID x = i) (db_issues d) of
        None \<Rightarrow> Inl (NewError CodeIssueNotFound False [])
      | Some x \<Rightarrow>
          if ArchivedAt x \<noteq> None then Inl (NewError CodeIssueArchived False [])
          else Inl (NewError CodeVersionConflict True []))"

text \<open>\<^verbatim>\<open>issueUnresolvedBlockerCountSQL\<close>: the join of the relations with their source issues.\<close>

definition unresolved_blocker_count :: "db \<Rightarrow> string \<Rightarrow> int" where
  "unresolved_blocker_count d issue =
     int (length [(r, s). r \<leftarrow> db_relations d, s \<leftarrow> db_issues d,
       IID s = rl_source r \<and> rl_type r = RelationTypeBlocks \<and> rl_target r = issue \<and>
       ArchivedAt s = None \<and> IStatus s \<notin> {StatusDone, StatusCancelled}])"

definition active_attempt_id :: "db \<Rightarrow> time \<Rightarrow> string \<Rightarrow> string option" where
  "active_attempt_id d now issue =
     map_option wa_id (find (\<lambda>a. wa_issue a = issue \<and> is_active a \<and> wa_lease a > now) (db_attempts d))"

definition issue_projection :: "db \<Rightarrow> time \<Rightarrow> Issue \<Rightarrow> IssueProjection" where
  "issue_projection d now i =
     (let blockers = unresolved_blocker_count d (IID i); active = active_attempt_id d now (IID i) in
      \<lparr>ip_issue = i,
       ip_effective = (if active \<noteq> None then EffectiveStatusInProgress else EffectiveStatus_of (Status_string (IStatus i))),
       ip_blockers = blockers,
       ip_blocked = (IStatus i = StatusBlocked \<or> blockers > 0),
       ip_claimable = (ArchivedAt i = None \<and> IType i \<in> {TypeTask, TypeBug} \<and>
         IStatus i \<in> {StatusReady, StatusReview} \<and> blockers = 0 \<and> active = None),
       ip_active = active\<rparr>)"

definition queryIssueProjectionByID :: "string \<Rightarrow> time \<Rightarrow> IssueProjection tx" where
  "queryIssueProjectionByID issue now d =
     (case find (\<lambda>i. IID i = issue) (db_issues d) of
        None \<Rightarrow> Inl (NewError CodeIssueNotFound False [])
      | Some i \<Rightarrow> Inr (d, issue_projection d now i))"

section \<open>Idempotency records\<close>

definition idempotencyConflict :: Error where
  "idempotencyConflict = NewError CodeIdempotencyConflict False [detail ''idempotency_key'' CodeIdempotencyConflict]"

definition find_idempotency :: "db \<Rightarrow> string \<Rightarrow> string \<Rightarrow> IdempotencyRecord option" where
  "find_idempotency d operation key =
     find (\<lambda>r. ir_operation r = operation \<and> ir_key r = key) (db_idempotency d)"

text \<open>
  The replay lookup every idempotent mutation starts with: no key, or no record of it, continues; a
  record of a different request is a conflict.
\<close>

definition lookup_idempotency :: "string \<Rightarrow> string \<Rightarrow> string \<Rightarrow> Response option tx" where
  "lookup_idempotency operation key requestHash d =
     (if key = '''' then Inr (d, None)
      else (case find_idempotency d operation key of
          None \<Rightarrow> Inr (d, None)
        | Some r \<Rightarrow> if ir_hash r \<noteq> requestHash then Inl idempotencyConflict else Inr (d, Some (ir_response r))))"

definition store_idempotency :: "string \<Rightarrow> string \<Rightarrow> string \<Rightarrow> Response \<Rightarrow> unit tx" where
  "store_idempotency operation key requestHash response =
     (if key = '''' then tx_return ()
      else exec (\<lambda>d. d\<lparr>db_idempotency := db_idempotency d @
        [\<lparr>ir_operation = operation, ir_key = key, ir_hash = requestHash, ir_response = response\<rparr>]\<rparr>))"

definition storedResponseInvalid :: Error where
  "storedResponseInvalid = NewError CodeStorageCorrupt False []"

section \<open>Gates on stored policies and snapshots\<close>

definition loadActiveWorkflowPolicies :: "db \<Rightarrow> WorkflowPolicy list" where
  "loadActiveWorkflowPolicies d = filter (\<lambda>p. wp_status p = PolicyStatusActive) (db_policies d)"

definition evaluateGateAgainstLivePolicies ::
  "EnforcementPoint \<Rightarrow> Type \<Rightarrow> string list \<Rightarrow> GateEvidence \<Rightarrow> (PolicyRequirement list \<times> SourcePolicyRef list) tx" where
  "evaluateGateAgainstLivePolicies point issueType issueLabels evidence =
     tx_then (tx_read loadActiveWorkflowPolicies) (\<lambda>policies.
     let requirements = MatchWorkflowPolicies policies issueType issueLabels;
         sourcePolicies = matchingSourcePolicies policies issueType issueLabels in
     tx_then (tx_lift (evaluateGate point requirements evidence)) (\<lambda>_.
     tx_return (requirements, sourcePolicies)))"

definition evaluateGateAgainstAttemptSnapshot :: "EnforcementPoint \<Rightarrow> string \<Rightarrow> GateEvidence \<Rightarrow> unit tx" where
  "evaluateGateAgainstAttemptSnapshot point attemptID evidence d =
     (case map_of (db_attempt_snapshots d) attemptID of
        None \<Rightarrow> Inr (d, ())
      | Some snapshot \<Rightarrow> tx_lift (evaluateGate point (gs_requirements snapshot) evidence) d)"

definition evaluateGateAgainstReviewTargetSnapshot :: "string \<Rightarrow> GateEvidence \<Rightarrow> unit tx" where
  "evaluateGateAgainstReviewTargetSnapshot targetID evidence d =
     (case map_of (db_target_snapshots d) targetID of
        None \<Rightarrow> tx_lift (evaluateGate EnforcementPointApproveReview [] evidence) d
      | Some snapshot \<Rightarrow> tx_lift (evaluateGate EnforcementPointApproveReview (gs_requirements snapshot) evidence) d)"

definition insertAttemptGateSnapshot :: "string \<Rightarrow> GateSnapshot \<Rightarrow> unit tx" where
  "insertAttemptGateSnapshot attemptID snapshot =
     exec (\<lambda>d. d\<lparr>db_attempt_snapshots := db_attempt_snapshots d @ [(attemptID, snapshot)]\<rparr>)"

definition insertReviewTargetGateSnapshot :: "string \<Rightarrow> GateSnapshot \<Rightarrow> unit tx" where
  "insertReviewTargetGateSnapshot targetID snapshot =
     exec (\<lambda>d. d\<lparr>db_target_snapshots := db_target_snapshots d @ [(targetID, snapshot)]\<rparr>)"

definition loadAttemptEvidenceKeys :: "db \<Rightarrow> string \<Rightarrow> string list" where
  "loadAttemptEvidenceKeys d attemptID = map ae_key (filter (\<lambda>e. ae_attempt e = attemptID) (db_evidence d))"

definition labelNames :: "Issue \<Rightarrow> string list" where
  "labelNames i = Labels i"

end
