(* ===== verification/TxLogic.thy ===== *)
theory TxLogic
  imports Store
begin

text \<open>
  Reasoning about transaction bodies: inversion of the combinators, preservation of a predicate by
  a body (\<open>keeps\<close>), partial-correctness triples (\<open>tx_ok\<close>), and the frame facts of the statements.
\<close>

named_theorems keeps_intro
named_theorems tx_simps

section \<open>Inversion\<close>

lemma tx_then_Inr [tx_simps]:
  "tx_then t f d = Inr r \<longleftrightarrow> (\<exists>d' x. t d = Inr (d', x) \<and> f x d' = Inr r)"
  by (auto simp: tx_then_def split: sum.splits prod.splits)

lemma tx_then_Inl [tx_simps]:
  "tx_then t f d = Inl e \<longleftrightarrow> t d = Inl e \<or> (\<exists>d' x. t d = Inr (d', x) \<and> f x d' = Inl e)"
  by (auto simp: tx_then_def split: sum.splits prod.splits)

lemma tx_return_Inr [tx_simps]: "tx_return x d = Inr r \<longleftrightarrow> r = (d, x)"
  by (auto simp: tx_return_def)

lemma tx_return_Inl [tx_simps]: "tx_return x d = Inl e \<longleftrightarrow> False"
  by (simp add: tx_return_def)

lemma tx_fail_Inr [tx_simps]: "tx_fail e d = Inr r \<longleftrightarrow> False"
  by (simp add: tx_fail_def)

lemma tx_fail_Inl [tx_simps]: "tx_fail e d = Inl e' \<longleftrightarrow> e' = e"
  by (auto simp: tx_fail_def)

lemma tx_read_Inr [tx_simps]: "tx_read f d = Inr r \<longleftrightarrow> r = (d, f d)"
  by (auto simp: tx_read_def)

lemma tx_read_Inl [tx_simps]: "tx_read f d = Inl e \<longleftrightarrow> False"
  by (simp add: tx_read_def)

lemma tx_lift_Inr [tx_simps]: "tx_lift v d = Inr r \<longleftrightarrow> (\<exists>x. v = Inr x \<and> r = (d, x))"
  by (cases v) (auto simp: tx_lift_def)

lemma tx_lift_Inl [tx_simps]: "tx_lift v d = Inl e \<longleftrightarrow> v = Inl e"
  by (cases v) (auto simp: tx_lift_def)

lemma tx_require_Inr [tx_simps]: "tx_require b e d = Inr r \<longleftrightarrow> b \<and> r = (d, ())"
  by (auto simp: tx_require_def tx_return_def tx_fail_def)

lemma tx_require_Inl [tx_simps]: "tx_require b e d = Inl e' \<longleftrightarrow> \<not> b \<and> e' = e"
  by (auto simp: tx_require_def tx_return_def tx_fail_def)

lemma exec_Inr [tx_simps]: "exec f d = Inr r \<longleftrightarrow> schema_ok (f d) \<and> r = (f d, ())"
  by (auto simp: exec_def Let_def)

lemma exec_Inl [tx_simps]: "exec f d = Inl e \<longleftrightarrow> \<not> schema_ok (f d) \<and> e = storageConstraintError"
  by (auto simp: exec_def Let_def)

lemma loadIssue_Inr [tx_simps]:
  "loadIssueForMutation ident d = Inr r \<longleftrightarrow>
     (\<exists>i. r = (d, i) \<and> (case id_kind ident of
        IssueIdentifierInternalID \<Rightarrow> find (\<lambda>i. IID i = id_value ident) (db_issues d)
      | IssueIdentifierDisplayID \<Rightarrow> find (\<lambda>i. SequenceNo i = id_sequence ident) (db_issues d)) = Some i)"
  by (auto simp: loadIssueForMutation_def split: option.splits)

lemma loadIssue_mem: "loadIssueForMutation ident d = Inr (d', i) \<Longrightarrow> d' = d \<and> i \<in> set (db_issues d)"
  by (auto simp: loadIssue_Inr split: IssueIdentifierKind.splits dest: find_Some_mem)

lemma loadIssue_internal:
  "loadIssueForMutation (internal_id x) d = Inr (d', i) \<longleftrightarrow>
     d' = d \<and> find (\<lambda>i. IID i = x) (db_issues d) = Some i"
  by (auto simp: loadIssue_Inr internal_id_def)

lemma lookup_idempotency_Inr:
  "lookup_idempotency operation key h d = Inr (d', r) \<longleftrightarrow> d' = d \<and>
     (case (if key = '''' then None else find_idempotency d operation key) of
        None \<Rightarrow> r = None
      | Some x \<Rightarrow> ir_hash x = h \<and> r = Some (ir_response x))"
  by (auto simp: lookup_idempotency_def split: option.splits)

section \<open>Preservation\<close>

definition keeps :: "(db \<Rightarrow> bool) \<Rightarrow> 'a tx \<Rightarrow> bool" where
  "keeps P t \<longleftrightarrow> (\<forall>d d' x. P d \<longrightarrow> t d = Inr (d', x) \<longrightarrow> P d')"

lemma keepsD: "keeps P t \<Longrightarrow> t d = Inr (d', x) \<Longrightarrow> P d \<Longrightarrow> P d'"
  by (auto simp: keeps_def)

lemma keepsI: "(\<And>d d' x. P d \<Longrightarrow> t d = Inr (d', x) \<Longrightarrow> P d') \<Longrightarrow> keeps P t"
  by (simp add: keeps_def)

lemma keeps_then [keeps_intro]:
  assumes "keeps P t" and "\<And>x. keeps P (f x)" shows "keeps P (tx_then t f)"
proof (rule keepsI)
  fix d d' y
  assume "P d" "tx_then t f d = Inr (d', y)"
  then obtain d1 x where "t d = Inr (d1, x)" "f x d1 = Inr (d', y)" by (auto simp: tx_then_Inr)
  with \<open>P d\<close> show "P d'" using keepsD [OF assms(1)] keepsD [OF assms(2)] by blast
qed

lemma keeps_return [keeps_intro]: "keeps P (tx_return x)"
  by (auto simp: keeps_def tx_return_def)

lemma keeps_fail [keeps_intro]: "keeps P (tx_fail e)"
  by (auto simp: keeps_def tx_fail_def)

lemma keeps_read [keeps_intro]: "keeps P (tx_read f)"
  by (auto simp: keeps_def tx_read_def)

lemma keeps_lift [keeps_intro]: "keeps P (tx_lift r)"
  by (auto simp: keeps_def tx_lift_Inr)

lemma keeps_require [keeps_intro]: "keeps P (tx_require b e)"
  by (auto simp: keeps_def tx_require_Inr)

lemma keeps_exec: "(\<And>d. P d \<Longrightarrow> schema_ok (f d) \<Longrightarrow> P (f d)) \<Longrightarrow> keeps P (exec f)"
  by (auto simp: keeps_def exec_Inr)

lemma keeps_if [keeps_intro]: "(b \<Longrightarrow> keeps P t) \<Longrightarrow> (\<not> b \<Longrightarrow> keeps P u) \<Longrightarrow> keeps P (if b then t else u)"
  by simp

lemma keeps_option [keeps_intro]:
  "(x = None \<Longrightarrow> keeps P t) \<Longrightarrow> (\<And>y. x = Some y \<Longrightarrow> keeps P (f y)) \<Longrightarrow>
     keeps P (case x of None \<Rightarrow> t | Some y \<Rightarrow> f y)"
  by (cases x) auto

lemma keeps_prod [keeps_intro]: "(\<And>a b. x = (a, b) \<Longrightarrow> keeps P (f a b)) \<Longrightarrow> keeps P (case x of (a, b) \<Rightarrow> f a b)"
  by (cases x) auto

lemma keeps_sum [keeps_intro]:
  "(\<And>e. x = Inl e \<Longrightarrow> keeps P (f e)) \<Longrightarrow> (\<And>y. x = Inr y \<Longrightarrow> keeps P (g y)) \<Longrightarrow>
     keeps P (case x of Inl e \<Rightarrow> f e | Inr y \<Rightarrow> g y)"
  by (cases x) auto

lemma keeps_each [keeps_intro]: "(\<And>x. keeps P (f x)) \<Longrightarrow> keeps P (tx_each f xs)"
  by (induction xs) (auto intro: keeps_intro)

lemma keeps_map [keeps_intro]: "(\<And>x. keeps P (f x)) \<Longrightarrow> keeps P (tx_map f xs)"
  by (induction xs) (auto intro!: keeps_intro)

lemma keeps_const: "(\<And>d d' x. t d = Inr (d', x) \<Longrightarrow> d' = d) \<Longrightarrow> keeps P t"
  unfolding keeps_def by metis

lemma keeps_loadIssue [keeps_intro]: "keeps P (loadIssueForMutation ident)"
  by (rule keeps_const) (auto simp: loadIssue_Inr)

lemma keeps_classify [keeps_intro]: "keeps P (classifyConditionalUpdateFailure i)"
  by (rule keeps_const) (auto simp: classifyConditionalUpdateFailure_def split: option.splits if_splits)

lemma keeps_projection [keeps_intro]: "keeps P (queryIssueProjectionByID i now)"
  by (rule keeps_const) (auto simp: queryIssueProjectionByID_def split: option.splits)

lemma keeps_lookup [keeps_intro]: "keeps P (lookup_idempotency operation key h)"
  by (rule keeps_const) (auto simp: lookup_idempotency_def split: option.splits if_splits)

lemma keeps_live_gate [keeps_intro]: "keeps P (evaluateGateAgainstLivePolicies point t ls ev)"
  by (rule keeps_const) (auto simp: evaluateGateAgainstLivePolicies_def tx_simps Let_def)

lemma keeps_attempt_gate [keeps_intro]: "keeps P (evaluateGateAgainstAttemptSnapshot point a ev)"
  by (rule keeps_const) (auto simp: evaluateGateAgainstAttemptSnapshot_def tx_simps split: option.splits)

lemma keeps_target_gate [keeps_intro]: "keeps P (evaluateGateAgainstReviewTargetSnapshot tg ev)"
  by (rule keeps_const) (auto simp: evaluateGateAgainstReviewTargetSnapshot_def tx_simps split: option.splits)

lemma Write_keeps: "keeps P t \<Longrightarrow> P d \<Longrightarrow> P (fst (Write t d))"
  by (cases "t d") (auto simp: Write_def keeps_def split: prod.splits)

section \<open>Triples\<close>

definition tx_ok :: "(db \<Rightarrow> bool) \<Rightarrow> 'a tx \<Rightarrow> ('a \<Rightarrow> db \<Rightarrow> bool) \<Rightarrow> bool" where
  "tx_ok P t Q \<longleftrightarrow> (\<forall>d d' x. P d \<longrightarrow> t d = Inr (d', x) \<longrightarrow> Q x d')"

lemma tx_okD: "tx_ok P t Q \<Longrightarrow> P d \<Longrightarrow> t d = Inr (d', x) \<Longrightarrow> Q x d'"
  by (auto simp: tx_ok_def)

lemma tx_ok_then: "tx_ok P t R \<Longrightarrow> (\<And>x. tx_ok (R x) (f x) Q) \<Longrightarrow> tx_ok P (tx_then t f) Q"
proof -
  assume t: "tx_ok P t R" and f: "\<And>x. tx_ok (R x) (f x) Q"
  show "tx_ok P (tx_then t f) Q"
    unfolding tx_ok_def
  proof (intro allI impI)
    fix d d' y
    assume "P d" "tx_then t f d = Inr (d', y)"
    then obtain d1 x where "t d = Inr (d1, x)" "f x d1 = Inr (d', y)" by (auto simp: tx_then_Inr)
    with \<open>P d\<close> show "Q y d'" using tx_okD [OF t] tx_okD [OF f] by blast
  qed
qed

lemma tx_ok_keeps: "keeps P t \<longleftrightarrow> tx_ok P t (\<lambda>_. P)"
  by (auto simp: keeps_def tx_ok_def)

lemma tx_ok_weaken: "tx_ok P t Q \<Longrightarrow> (\<And>d. P' d \<Longrightarrow> P d) \<Longrightarrow> (\<And>x d. Q x d \<Longrightarrow> Q' x d) \<Longrightarrow> tx_ok P' t Q'"
  unfolding tx_ok_def by blast

lemma tx_ok_if: "(b \<Longrightarrow> tx_ok P t Q) \<Longrightarrow> (\<not> b \<Longrightarrow> tx_ok P u Q) \<Longrightarrow> tx_ok P (if b then t else u) Q"
  by simp

text \<open>Bodies that only read.\<close>

definition pure_tx :: "'a tx \<Rightarrow> bool" where
  "pure_tx t \<longleftrightarrow> (\<forall>d d' x. t d = Inr (d', x) \<longrightarrow> d' = d)"

lemma pure_txD: "pure_tx t \<Longrightarrow> t d = Inr (d', x) \<Longrightarrow> d' = d"
  by (simp add: pure_tx_def)

lemma pure_basic [keeps_intro]:
  "pure_tx (tx_return y)" "pure_tx (tx_fail e)" "pure_tx (tx_read f)" "pure_tx (tx_lift v)" "pure_tx (tx_require b e)"
  "pure_tx (loadIssueForMutation ident)"
  by (simp_all add: pure_tx_def tx_simps)

lemma pure_then [keeps_intro]: "pure_tx t \<Longrightarrow> (\<And>x. pure_tx (f x)) \<Longrightarrow> pure_tx (tx_then t f)"
  unfolding pure_tx_def tx_then_Inr by metis

lemma pure_if [keeps_intro]: "(b \<Longrightarrow> pure_tx t) \<Longrightarrow> (\<not> b \<Longrightarrow> pure_tx u) \<Longrightarrow> pure_tx (if b then t else u)"
  by simp

lemma pure_option [keeps_intro]:
  "pure_tx t \<Longrightarrow> (\<And>y. pure_tx (f y)) \<Longrightarrow> pure_tx (case x of None \<Rightarrow> t | Some y \<Rightarrow> f y)"
  by (cases x) simp_all

lemma pure_attempt_gate [keeps_intro]: "pure_tx (evaluateGateAgainstAttemptSnapshot point a ev)"
  by (auto simp: pure_tx_def evaluateGateAgainstAttemptSnapshot_def tx_simps split: option.splits)

lemma pure_target_gate [keeps_intro]: "pure_tx (evaluateGateAgainstReviewTargetSnapshot tg ev)"
  by (auto simp: pure_tx_def evaluateGateAgainstReviewTargetSnapshot_def tx_simps split: option.splits)

lemma tx_ok_pure_then: "pure_tx t \<Longrightarrow> (\<And>x. tx_ok P (f x) Q) \<Longrightarrow> tx_ok P (tx_then t f) Q"
proof -
  assume p: "pure_tx t" and f: "\<And>x. tx_ok P (f x) Q"
  have "Q y d'" if run: "P d" "tx_then t f d = Inr (d', y)" for d d' y
  proof -
    obtain d1 x where "t d = Inr (d1, x)" "f x d1 = Inr (d', y)" using run(2) by (auto simp: tx_then_Inr)
    then show ?thesis using pure_txD [OF p] tx_okD [OF f run(1)] by metis
  qed
  then show ?thesis by (simp add: tx_ok_def)
qed

lemma keeps_guard: "(b \<Longrightarrow> keeps P t) \<Longrightarrow> keeps P (tx_then (tx_require b e) (\<lambda>_. t))"
  by (auto simp: keeps_def tx_then_Inr tx_require_Inr)

lemma tx_ok_return: "(\<And>d. P d \<Longrightarrow> Q x d) \<Longrightarrow> tx_ok P (tx_return x) Q"
  by (simp add: tx_ok_def tx_return_Inr)

lemma tx_ok_lift_then: "(\<And>x. v = Inr x \<Longrightarrow> tx_ok P (f x) Q) \<Longrightarrow> tx_ok P (tx_then (tx_lift v) f) Q"
  by (auto simp: tx_ok_def tx_then_Inr tx_lift_Inr)

lemma tx_ok_prod: "(\<And>a b. x = (a, b) \<Longrightarrow> tx_ok P (f a b) Q) \<Longrightarrow> tx_ok P (case x of (a, b) \<Rightarrow> f a b) Q"
  by (cases x) simp

lemma tx_ok_read_then: "(\<And>d0. tx_ok (\<lambda>d. P d \<and> d = d0) (f (g d0)) Q) \<Longrightarrow> tx_ok P (tx_then (tx_read g) f) Q"
  by (auto simp: tx_ok_def tx_then_Inr tx_read_Inr)

lemma tx_ok_exact_then:
  "(\<And>d1 x. t d0 = Inr (d1, x) \<Longrightarrow> tx_ok (\<lambda>d. d = d1) (f x) Q) \<Longrightarrow> tx_ok (\<lambda>d. d = d0) (tx_then t f) Q"
  by (auto simp: tx_ok_def tx_then_Inr)

lemma tx_ok_require_then: "(b \<Longrightarrow> tx_ok P (f ()) Q) \<Longrightarrow> tx_ok P (tx_then (tx_require b e) f) Q"
  by (auto simp: tx_ok_def tx_then_Inr tx_require_Inr)

lemma tx_ok_read: "(\<And>d. P d \<Longrightarrow> Q (g d) d) \<Longrightarrow> tx_ok P (tx_read g) Q"
  by (auto simp: tx_ok_def tx_read_Inr)

lemma tx_ok_fail: "tx_ok P (tx_fail e) Q"
  by (simp add: tx_ok_def tx_fail_Inr)

lemma tx_ok_option:
  "(x = None \<Longrightarrow> tx_ok P t Q) \<Longrightarrow> (\<And>y. x = Some y \<Longrightarrow> tx_ok P (f y) Q) \<Longrightarrow>
     tx_ok P (case x of None \<Rightarrow> t | Some y \<Rightarrow> f y) Q"
  by (cases x) auto

lemma tx_ok_drop: "keeps P t \<Longrightarrow> (\<And>d. R d \<Longrightarrow> P d) \<Longrightarrow> (\<And>x d. P d \<Longrightarrow> Q x d) \<Longrightarrow> tx_ok R t Q"
  unfolding tx_ok_def using keepsD [of P t] by metis

lemma keeps_conj: "keeps P t \<Longrightarrow> keeps Q t \<Longrightarrow> keeps (\<lambda>d. P d \<and> Q d) t"
  unfolding keeps_def by blast

lemma keeps_pure: "pure_tx t \<Longrightarrow> keeps P t"
  by (auto simp: keeps_def dest: pure_txD)

lemma tx_then_return: "tx_then (tx_return x) f = f x"
  by (simp add: fun_eq_iff tx_then_def tx_return_def)

lemma tx_ok_of_keeps: "keeps P t \<Longrightarrow> (\<And>d. R d \<Longrightarrow> P d) \<Longrightarrow> tx_ok R t (\<lambda>_. P)"
  by (auto simp: keeps_def tx_ok_def)

lemma tx_each_ok:
  assumes "\<And>x d d'. x \<in> set xs \<Longrightarrow> P d \<Longrightarrow> f x d = Inr (d', ()) \<Longrightarrow> P d'"
    and "tx_each f xs d = Inr (d', u)" and "P d"
  shows "P d'"
  using assms
proof (induction xs arbitrary: d)
  case (Cons x xs)
  then obtain d1 where "f x d = Inr (d1, ())" "tx_each f xs d1 = Inr (d', u)" by (auto simp: tx_simps)
  moreover from this have "P d1" using Cons.prems(1,3) by (metis list.set_intros(1))
  ultimately show ?case using Cons.IH Cons.prems(1) by (metis list.set_intros(2))
qed (simp add: tx_simps)

section \<open>Statements\<close>

lemma update_attempts_Inr [tx_simps]:
  "update_attempts p f d = Inr r \<longleftrightarrow>
     (let d' = d\<lparr>db_attempts := update_where p f (db_attempts d)\<rparr> in
      schema_ok d' \<and> r = (d', affected p (db_attempts d)))"
  by (auto simp: update_attempts_def tx_simps Let_def)

lemma update_issues_Inr [tx_simps]:
  "update_issues p f d = Inr r \<longleftrightarrow>
     (let d' = d\<lparr>db_issues := update_where p f (db_issues d)\<rparr> in
      schema_ok d' \<and> r = (d', affected p (db_issues d)))"
  by (auto simp: update_issues_def tx_simps Let_def)

lemma update_reservations_Inr [tx_simps]:
  "update_reservations p f d = Inr r \<longleftrightarrow>
     (let d' = d\<lparr>db_reservations := update_where p f (db_reservations d)\<rparr> in
      schema_ok d' \<and> r = (d', affected p (db_reservations d)))"
  by (auto simp: update_reservations_def tx_simps Let_def)

lemma update_requests_Inr [tx_simps]:
  "update_requests p f d = Inr r \<longleftrightarrow>
     (let d' = d\<lparr>db_requests := update_where p f (db_requests d)\<rparr> in
      schema_ok d' \<and> r = (d', affected p (db_requests d)))"
  by (auto simp: update_requests_def tx_simps Let_def)

lemma update_evidence_Inr [tx_simps]:
  "update_evidence p f d = Inr r \<longleftrightarrow>
     (let d' = d\<lparr>db_evidence := update_where p f (db_evidence d)\<rparr> in
      schema_ok d' \<and> r = (d', affected p (db_evidence d)))"
  by (auto simp: update_evidence_def tx_simps Let_def)

lemma update_policies_Inr [tx_simps]:
  "update_policies p f d = Inr r \<longleftrightarrow>
     (let d' = d\<lparr>db_policies := update_where p f (db_policies d)\<rparr> in
      schema_ok d' \<and> r = (d', affected p (db_policies d)))"
  by (auto simp: update_policies_def tx_simps Let_def)

definition new_event ::
  "db \<Rightarrow> string option \<Rightarrow> string \<Rightarrow> string option \<Rightarrow> string option \<Rightarrow> Payload \<Rightarrow> time \<Rightarrow> EventSource \<Rightarrow> Event" where
  "new_event d issue ty session attempt payload now source =
     \<lparr>ev_id = latest_event d + 1, ev_issue = issue, ev_type = ty, ev_session = session,
      ev_attempt = attempt, ev_payload = payload, ev_created = now, ev_source = source\<rparr>"

lemma append_event_Inr [tx_simps]:
  "append_event issue ty session attempt payload now source d = Inr r \<longleftrightarrow>
     (let d' = d\<lparr>db_events := db_events d @ [new_event d issue ty session attempt payload now source]\<rparr> in
      schema_ok d' \<and> r = (d', ()))"
  by (auto simp: append_event_def new_event_def tx_simps Let_def)

lemma event_row_ok_events [simp]: "event_row_ok (d\<lparr>db_events := es\<rparr>) = event_row_ok d"
  by (simp add: fun_eq_iff event_row_ok_def event_refs_ok_def)

lemma schema_ok_event [simp]:
  "schema_ok (d\<lparr>db_events := db_events d @ [e]\<rparr>) \<longleftrightarrow> schema_ok d \<and> event_row_ok d e"
  by (simp add: schema_ok_def issues_ok_def relations_ok_def attempts_ok_def reservations_ok_def
      requests_ok_def reviews_ok_def records_ok_def gates_ok_def events_ok_def sessions_ok_def labels_ok_def
      project_ok_def comments_ok_def decisions_ok_def conj_ac)

lemma event_row_ok_new:
  "event_row_ok d (new_event d' issue ty session attempt payload now source) \<longleftrightarrow>
     ty \<noteq> [] \<and> event_refs_ok d issue session attempt"
  by (simp add: event_row_ok_def new_event_def)

lemma append_event_total:
  assumes "schema_ok d" and "ty \<noteq> []" and "event_refs_ok d issue session attempt"
  shows "append_event issue ty session attempt payload now source d =
     Inr (d\<lparr>db_events := db_events d @ [new_event d issue ty session attempt payload now source]\<rparr>, ())"
  using assms by (simp add: append_event_Inr Let_def event_row_ok_new)

lemma exec_schema: "exec f d = Inr (d', u) \<Longrightarrow> schema_ok d'"
  by (auto simp: exec_Inr)

lemma append_event_schema:
  "append_event issue ty session attempt payload now source d = Inr (d', u) \<Longrightarrow> schema_ok d'"
  unfolding append_event_def by (rule exec_schema)

lemma keeps_schema_exec [keeps_intro]: "keeps schema_ok (exec f)"
  by (rule keepsI) (rule exec_schema)

text \<open>A predicate that looks only at some tables is kept by statements on other tables.\<close>

definition frame :: "(db \<Rightarrow> bool) \<Rightarrow> (db \<Rightarrow> db) \<Rightarrow> bool" where
  "frame P f \<longleftrightarrow> (\<forall>d. P d \<longrightarrow> schema_ok (f d) \<longrightarrow> P (f d))"

lemma keeps_exec_frame: "frame P f \<Longrightarrow> keeps P (exec f)"
  by (auto simp: frame_def intro: keeps_exec)

section \<open>The log only grows\<close>

definition log_extends :: "Event list \<Rightarrow> db \<Rightarrow> bool" where
  "log_extends es d \<longleftrightarrow> (\<exists>new. db_events d = es @ new)"

definition log_ok :: "db \<Rightarrow> bool" where
  "log_ok d \<longleftrightarrow> sorted_wrt (<) (map ev_id (db_events d))"

lemma latest_event_ge: "e \<in> set (db_events d) \<Longrightarrow> ev_id e \<le> latest_event d"
  by (auto simp: latest_event_def)

lemma latest_event_append [simp]:
  "latest_event (d\<lparr>db_events := db_events d @ [e]\<rparr>) =
     (if db_events d = [] then ev_id e else max (latest_event d) (ev_id e))"
  by (simp add: latest_event_def max.commute)

lemma log_ok_append: "log_ok d \<Longrightarrow> log_ok (d\<lparr>db_events := db_events d @ [new_event d i t s a p n src]\<rparr>)"
  using latest_event_ge [of _ d] by (fastforce simp: log_ok_def sorted_wrt_append new_event_def)

section \<open>Schema frames\<close>

text \<open>
  A statement that rewrites one table without changing the keys other tables refer to has to
  re-establish only that table's own constraints.
\<close>

lemmas schema_parts = schema_ok_def issues_ok_def relations_ok_def attempts_ok_def reservations_ok_def
  requests_ok_def reviews_ok_def records_ok_def gates_ok_def events_ok_def event_row_ok_def [abs_def] event_refs_ok_def
  sessions_ok_def labels_ok_def project_ok_def comments_ok_def decisions_ok_def

lemma schema_frame_reservations:
  "schema_ok d \<Longrightarrow> schema_ok (d\<lparr>db_reservations := rs\<rparr>) = reservations_ok (d\<lparr>db_reservations := rs\<rparr>)"
  by (simp add: schema_parts)

lemma schema_frame_attempts:
  assumes "schema_ok d" and "map wa_id as = map wa_id (db_attempts d)"
  shows "schema_ok (d\<lparr>db_attempts := as\<rparr>) = attempts_ok (d\<lparr>db_attempts := as\<rparr>)"
  using assms by (simp add: schema_parts del: set_map)

lemma schema_frame_requests:
  assumes "schema_ok d" and "map rq_id rs = map rq_id (db_requests d)"
  shows "schema_ok (d\<lparr>db_requests := rs\<rparr>) = requests_ok (d\<lparr>db_requests := rs\<rparr>)"
  using assms by (simp add: schema_parts del: set_map)

lemma schema_frame_issues:
  assumes "schema_ok d" and "map IID is = map IID (db_issues d)"
  shows "schema_ok (d\<lparr>db_issues := is\<rparr>) = (issues_ok (d\<lparr>db_issues := is\<rparr>) \<and> labels_ok (d\<lparr>db_issues := is\<rparr>))"
  using assms by (simp add: schema_parts del: set_map)

lemma reservations_ok_events [simp]: "reservations_ok (d\<lparr>db_events := es\<rparr>) = reservations_ok d"
  by (simp add: reservations_ok_def)

end
