(* ===== verification/Reservations.thy ===== *)
theory Reservations
  imports TxLogic
begin

text \<open>
  \<^verbatim>\<open>internal/adapters/sqlite/reservations.go\<close>: acquiring a prepared set of resources against the
  active reservations, releasing them, and the row scanner that re-normalizes what is stored.
\<close>

section \<open>Scanning rows\<close>

definition ReservationReleaseReason_Valid :: "ReservationReleaseReason \<Rightarrow> bool" where
  "ReservationReleaseReason_Valid r = (case r of ReservationReleaseReason_other s \<Rightarrow> False | _ \<Rightarrow> True)"

definition corruptReservationField :: "string \<Rightarrow> string \<Rightarrow> Error" where
  "corruptReservationField field code = NewError CodeStorageCorrupt False [detail field code]"

definition scanReservationRow :: "env \<Rightarrow> Reservation \<Rightarrow> (Reservation \<times> NormalizedResource) res" where
  "scanReservationRow env r =
     and_then (require (ids_ParseStrict env (rs_id r)) (corruptReservationField ''id'' ''INVALID_ULID'')) (\<lambda>_.
     and_then (require (ids_ParseStrict env (rs_issue r)) (corruptReservationField ''issue_id'' ''INVALID_ULID'')) (\<lambda>_.
     and_then (require (ids_ParseStrict env (rs_attempt r)) (corruptReservationField ''attempt_id'' ''INVALID_ULID'')) (\<lambda>_.
     and_then (require (ResourceKind_Valid (rs_kind r)) (corruptReservationField ''kind'' ''INVALID_ENUM'')) (\<lambda>_.
     and_then (require (case rs_reason r of None \<Rightarrow> True | Some x \<Rightarrow> ReservationReleaseReason_Valid x)
                (corruptReservationField ''release_reason'' ''INVALID_ENUM'')) (\<lambda>_.
     and_then (require ((rs_status r = ReservationStatusActive) = (rs_released r = None))
                (corruptReservationField ''released_at'' ''STATUS_MISMATCH'')) (\<lambda>_.
     and_then (require ((rs_status r = ReservationStatusActive) = (rs_reason r = None))
                (corruptReservationField ''release_reason'' ''STATUS_MISMATCH'')) (\<lambda>_.
     case Normalize ((rs_identity r)\<lparr>RKind := rs_kind r\<rparr>) of
       Inl e \<Rightarrow> Inl (corruptReservationField ''normalized_json'' ''INVALID_NORMALIZED_RESOURCE'')
     | Inr normalized \<Rightarrow>
         if Key normalized \<noteq> rs_comparison r then Inl (corruptReservationField ''comparison_value'' ''MISMATCH'')
         else Inr (r, normalized))))))))"

definition reservationNotFound :: Error where
  "reservationNotFound = NewError CodeReservationNotFound False []"

definition loadReservationByID :: "env \<Rightarrow> string \<Rightarrow> Reservation tx" where
  "loadReservationByID env i d =
     (case find (\<lambda>r. rs_id r = i) (db_reservations d) of
        None \<Rightarrow> Inl reservationNotFound
      | Some r \<Rightarrow> tx_lift (and_then (scanReservationRow env r) (\<lambda>p. Inr (fst p))) d)"

section \<open>Candidate selection\<close>

text \<open>\<open>comparison_value\<close> is \<^verbatim>\<open>kind:folded/path\<close>: the SQL text up to the first slash after the colon.\<close>

fun after_char :: "char \<Rightarrow> string \<Rightarrow> string" where
  "after_char c [] = []"
| "after_char c (x # xs) = (if x = c then xs else after_char c xs)"

definition sql_first_segment :: "string \<Rightarrow> string" where
  "sql_first_segment comparison =
     takeWhile (\<lambda>c. c \<noteq> CHR ''/'')
       ((if CHR '':'' \<in> set comparison then after_char CHR '':'' comparison else comparison) @ ''/'')"

definition candidate_selected :: "PreparedResource list \<Rightarrow> Reservation \<Rightarrow> bool" where
  "candidate_selected prepared row =
     (let logical = map (\<lambda>p. Key (PResource p)) (filter (\<lambda>p. nkind (PResource p) = ResourceKindLogical) prepared);
          paths = filter (\<lambda>p. nkind (PResource p) \<noteq> ResourceKindLogical) prepared;
          firsts = map (\<lambda>p. FirstLiteralSegment (PrepareOverlap (PResource p))) paths;
          allPaths = None \<in> set firsts;
          anchors = map the (filter (\<lambda>f. f \<noteq> None) firsts);
          first = sql_first_segment (rs_comparison row) in
      is_held row \<and>
      (rs_kind row = ResourceKindLogical \<and> rs_comparison row \<in> set logical \<or>
       rs_kind row \<in> {ResourceKindFile, ResourceKindDirectory, ResourceKindGlob} \<and> paths \<noteq> [] \<and>
         (allPaths \<or> first \<in> set anchors \<or> rs_kind row = ResourceKindGlob \<and> first \<in> {''*'', ''**''})))"

definition scan_rows :: "env \<Rightarrow> (Reservation \<Rightarrow> bool) \<Rightarrow> (Reservation \<times> NormalizedResource) list tx" where
  "scan_rows env p =
     tx_then (tx_read (\<lambda>d. sort_key rs_id (select_where p (db_reservations d)))) (\<lambda>rows.
     tx_lift (map_result (scanReservationRow env) rows))"

definition loadCandidateReservations ::
  "env \<Rightarrow> PreparedResource list \<Rightarrow> (Reservation \<times> NormalizedResource) list tx" where
  "loadCandidateReservations env prepared = scan_rows env (candidate_selected prepared)"

definition loadActiveReservations :: "env \<Rightarrow> (Reservation \<times> NormalizedResource) list tx" where
  "loadActiveReservations env = scan_rows env is_held"

section \<open>Acquisition\<close>

definition conflictDetail :: "PreparedResource \<Rightarrow> Detail" where
  "conflictDetail candidate =
     \<lparr>EntityIndex = Some (int (Index candidate)), Field = ''resources.'' @ Itoa (Index candidate),
      DCode = CodeResourceReservationConflict\<rparr>"

definition find_conflicts ::
  "PreparedResource list \<Rightarrow> (Reservation \<times> NormalizedResource) list \<Rightarrow> Detail list" where
  "find_conflicts prepared active =
     map conflictDetail (filter (\<lambda>p. list_ex (\<lambda>row.
       PreparedOverlaps (PrepareOverlap (PResource p)) (PrepareOverlap (snd row))) active) prepared)"

definition reservation_of :: "string \<Rightarrow> string \<Rightarrow> string \<Rightarrow> NormalizedResource \<Rightarrow> time \<Rightarrow> Reservation" where
  "reservation_of i issueID attemptID r now =
     \<lparr>rs_id = i, rs_issue = issueID, rs_attempt = attemptID, rs_kind = nkind r, rs_display = display r,
      rs_comparison = Key r, rs_identity = identityResource r, rs_status = ReservationStatusActive,
      rs_version = 1, rs_created = now, rs_released = None, rs_reason = None\<rparr>"

definition insert_reservation ::
  "(string \<times> Resource) list \<Rightarrow> string \<Rightarrow> string \<Rightarrow> string option \<Rightarrow> time \<Rightarrow> PreparedResource \<Rightarrow> Reservation tx" where
  "insert_reservation resources issueID attemptID sessionID now candidate =
     (let row = reservation_of (fst (resources ! Index candidate)) issueID attemptID (PResource candidate) now in
      tx_then (exec (\<lambda>d. d\<lparr>db_reservations := db_reservations d @ [row]\<rparr>)) (\<lambda>_.
      tx_then (append_event (Some issueID) ''reservation_reserved'' sessionID (Some attemptID)
        (PayloadReserved (rs_id row) (rs_kind row) (rs_display row) (rs_comparison row)) now SourceIssue) (\<lambda>_.
      tx_return row)))"

definition reservationConflict :: "Detail list \<Rightarrow> Error" where
  "reservationConflict conflicts = NewError CodeResourceReservationConflict False conflicts"

definition acquireReservationsForAttempt ::
  "env \<Rightarrow> PreparedResource list \<Rightarrow> (string \<times> Resource) list \<Rightarrow> string \<Rightarrow> string \<Rightarrow> string option \<Rightarrow> time
     \<Rightarrow> Reservation list tx" where
  "acquireReservationsForAttempt env prepared resources issueID attemptID sessionID now =
     tx_then (loadCandidateReservations env prepared) (\<lambda>active.
     let conflicts = find_conflicts prepared active in
     if length conflicts > 0 then tx_fail (reservationConflict conflicts)
     else tx_map (insert_reservation resources issueID attemptID sessionID now) prepared)"

section \<open>Release\<close>

definition release_row :: "ReservationReleaseReason \<Rightarrow> time \<Rightarrow> Reservation \<Rightarrow> Reservation" where
  "release_row reason now r =
     r\<lparr>rs_status := ReservationStatusReleased, rs_released := Some now, rs_reason := Some reason,
       rs_version := rs_version r + 1\<rparr>"

definition at_version :: "string \<Rightarrow> int \<Rightarrow> Reservation \<Rightarrow> bool" where
  "at_version i v r \<longleftrightarrow> rs_id r = i \<and> rs_version r = v"

definition storageCorrupt :: Error where
  "storageCorrupt = NewError CodeStorageCorrupt False []"

definition release_one ::
  "string \<Rightarrow> string option \<Rightarrow> ReservationReleaseReason \<Rightarrow> time \<Rightarrow> Reservation \<Rightarrow> Reservation tx" where
  "release_one attemptID sessionID reason now row =
     tx_then (update_reservations (at_version (rs_id row) (rs_version row)) (release_row reason now)) (\<lambda>affected.
     tx_then (tx_require (affected = 1) storageCorrupt) (\<lambda>_.
     tx_then (append_event (Some (rs_issue row)) ''reservation_released'' sessionID (Some attemptID)
       (PayloadReleased (rs_id row) reason) now SourceIssue) (\<lambda>_.
     tx_return (release_row reason now row))))"

definition owned_active :: "string \<Rightarrow> Reservation \<Rightarrow> bool" where
  "owned_active attemptID r \<longleftrightarrow> rs_attempt r = attemptID \<and> is_held r"

definition releaseReservationsForAttempt :: "string \<Rightarrow> ReservationReleaseReason \<Rightarrow> time \<Rightarrow> unit tx" where
  "releaseReservationsForAttempt attemptID reason now =
     tx_then (tx_read (\<lambda>d. sort_key rs_id (select_where (owned_active attemptID) (db_reservations d)))) (\<lambda>active.
     tx_each (\<lambda>row. tx_then (release_one attemptID None reason now row) (\<lambda>_. tx_return ())) active)"

definition load_named :: "env \<Rightarrow> string \<Rightarrow> string \<Rightarrow> Reservation tx" where
  "load_named env attemptID i =
     tx_then (loadReservationByID env i) (\<lambda>row.
     if rs_attempt row \<noteq> attemptID
     then tx_fail (NewError CodeReservationNotFound False [detail ''reservation_ids'' ''NOT_OWNED''])
     else if rs_status row \<noteq> ReservationStatusActive
     then tx_fail (NewError CodeReservationNotActive False [detail ''reservation_ids'' ''NOT_ACTIVE''])
     else tx_return row)"

definition releaseResourcesForAttempt ::
  "env \<Rightarrow> string \<Rightarrow> string list \<Rightarrow> string option \<Rightarrow> ReservationReleaseReason \<Rightarrow> time \<Rightarrow> Reservation list tx" where
  "releaseResourcesForAttempt env attemptID reservationIDs sessionID reason now =
     tx_then (if length reservationIDs = 0
              then tx_then (scan_rows env (owned_active attemptID)) (\<lambda>rows. tx_return (map fst rows))
              else tx_map (load_named env attemptID) reservationIDs) (\<lambda>rows.
     tx_map (release_one attemptID sessionID reason now) rows)"

section \<open>The repository operations\<close>

record ReleaseReservationCommand =
  rrc_id :: string
  rrc_version :: int
  rrc_reason :: ReservationReleaseReason
  rrc_now :: time

definition IsZero :: "time \<Rightarrow> bool" where
  "IsZero t \<longleftrightarrow> t = 0"

definition invalidCommand :: Error where
  "invalidCommand = NewError CodeInvalidArgument False []"

definition ReleaseReservation :: "env \<Rightarrow> ReleaseReservationCommand \<Rightarrow> db \<Rightarrow> db \<times> Reservation res" where
  "ReleaseReservation env c d =
     (if \<not> ids_ParseStrict env (rrc_id c) then (d, Inl invalidCommand)
      else if \<not> ReservationReleaseReason_Valid (rrc_reason c) then (d, Inl invalidCommand)
      else if IsZero (rrc_now c) \<or> rrc_version c < 1 then (d, Inl invalidCommand)
      else Write (
        tx_then (loadReservationByID env (rrc_id c)) (\<lambda>row.
        tx_then (tx_require (rs_status row = ReservationStatusActive) (NewError CodeReservationNotActive False [])) (\<lambda>_.
        tx_then (tx_require (rs_version row = rrc_version c) (NewError CodeVersionConflict False [])) (\<lambda>_.
        tx_then (update_reservations (at_version (rrc_id c) (rrc_version c)) (release_row (rrc_reason c) (rrc_now c))) (\<lambda>affected.
        tx_then (tx_require (affected = 1) (NewError CodeVersionConflict False [])) (\<lambda>_.
        tx_then (append_event (Some (rs_issue row)) ''reservation_released'' None (Some (rs_attempt row))
          (PayloadReleased (rrc_id c) (rrc_reason c)) (rrc_now c) SourceIssue) (\<lambda>_.
        tx_then (loadReservationByID env (rrc_id c)) (\<lambda>updated.
        tx_return (Inr updated))))))))) d)"

record AcquireReservationsCommand =
  arc_issue :: string
  arc_attempt :: string
  arc_session :: "string option"
  arc_resources :: "(string \<times> Resource) list"
  arc_now :: time
  arc_key :: string
  arc_hash :: string

definition prepare_resources :: "env \<Rightarrow> (string \<times> Resource) list \<Rightarrow> PreparedResource list res" where
  "prepare_resources env resources =
     (if \<not> list_all (\<lambda>r. ids_ParseStrict env (fst r)) resources then Inl (NewError CodeIDGeneration False [])
      else PrepareReservationRequest (map snd resources))"

definition response_reservations :: "Response \<Rightarrow> Reservation list res" where
  "response_reservations r = (case r of ResponseReservations rs \<Rightarrow> Inr rs | _ \<Rightarrow> Inl storedResponseInvalid)"

definition AcquireReservations :: "env \<Rightarrow> AcquireReservationsCommand \<Rightarrow> db \<Rightarrow> db \<times> Reservation list res" where
  "AcquireReservations env c d =
     (if \<not> ids_ParseStrict env (arc_issue c) \<or> \<not> ids_ParseStrict env (arc_attempt c) then (d, Inl invalidCommand)
      else if IsZero (arc_now c) \<or> length (arc_resources c) = 0 then (d, Inl invalidCommand)
      else (case prepare_resources env (arc_resources c) of
        Inl e \<Rightarrow> (d, Inl e)
      | Inr prepared \<Rightarrow> Write (
          tx_then (lookup_idempotency ''acquire_reservations'' (arc_key c) (arc_hash c)) (\<lambda>saved.
          case saved of
            Some response \<Rightarrow> tx_then (tx_lift (response_reservations response)) (\<lambda>rs. tx_return (Inr rs))
          | None \<Rightarrow>
              tx_then (acquireReservationsForAttempt env prepared (arc_resources c) (arc_issue c)
                (arc_attempt c) (arc_session c) (arc_now c)) (\<lambda>rs.
              tx_then (store_idempotency ''acquire_reservations'' (arc_key c) (arc_hash c) (ResponseReservations rs)) (\<lambda>_.
              tx_return (Inr rs))))) d))"

section \<open>The selection misses nothing\<close>

lemma after_char_prefix: "c \<notin> set xs \<Longrightarrow> after_char c (xs @ c # ys) = ys"
  by (induction xs) auto

lemma takeWhile_slash: "CHR ''/'' \<notin> set h \<Longrightarrow> takeWhile (\<lambda>c. c \<noteq> CHR ''/'') (h @ CHR ''/'' # t) = h"
  by (subst takeWhile_append2) auto

lemma Join_first:
  assumes "xs \<noteq> []" and "CHR ''/'' \<notin> set (hd xs)"
  shows "takeWhile (\<lambda>c. c \<noteq> CHR ''/'') (Join xs ''/'' @ ''/'') = hd xs"
proof (cases xs)
  case (Cons x rest)
  with assms(2) have x: "CHR ''/'' \<notin> set x" by simp
  show ?thesis
  proof (cases rest)
    case Nil
    then show ?thesis using Cons takeWhile_slash [OF x, of "[]"] by simp
  next
    case (Cons y ys)
    then show ?thesis
      using \<open>xs = x # rest\<close> takeWhile_slash [OF x, of "Join (y # ys) ''/'' @ ''/''"] by simp
  qed
qed (use assms in simp)

lemma path_kind_string: "path_kind r \<Longrightarrow> wf_resource r \<Longrightarrow> CHR '':'' \<notin> set (ResourceKind_string (nkind r))"
  by (auto simp: path_kind_def wf_resource_def)

lemma sql_first_segment_Key:
  assumes "wf_resource r" and "path_kind r"
  shows "sql_first_segment (Key r) = foldedText (hd (segments r))"
proof -
  have ne: "segments r \<noteq> []" using assms by (simp add: wf_resource_def path_kind_def)
  then have h: "hd (foldedSegments (segments r)) = foldedText (hd (segments r))"
      "foldedSegments (segments r) \<noteq> []"
    by (simp_all add: foldedSegments_def hd_map)
  then have "CHR ''/'' \<notin> set (hd (foldedSegments (segments r)))"
    using foldedSegments_no_slash [OF assms] hd_in_set by blast
  then have "takeWhile (\<lambda>c. c \<noteq> CHR ''/'') (Join (foldedSegments (segments r)) ''/'' @ ''/'') =
      hd (foldedSegments (segments r))"
    by (rule Join_first [OF h(2)])
  moreover have "after_char CHR '':'' (Key r) = Join (foldedSegments (segments r)) ''/''"
    using path_kind_string [OF assms(2,1)] after_char_prefix by (simp add: Key_path [OF assms(2)])
  ultimately show ?thesis
    using h(1) by (simp add: sql_first_segment_def Key_path [OF assms(2)])
qed

lemma FirstLiteralSegment_hd:
  assumes "wf_resource r" and "path_kind r"
  shows "FirstLiteralSegment (PrepareOverlap r) =
    (if seg_kind (hd (segments r)) = globSegmentLiteral then Some (foldedText (hd (segments r))) else None)"
  using assms by (cases "segments r")
    (auto simp: FirstLiteralSegment_def folded_PrepareOverlap foldedSegments_def path_kind_def wf_resource_def)

text \<open>What a row stores of a resource.\<close>

definition stores :: "Reservation \<Rightarrow> NormalizedResource \<Rightarrow> bool" where
  "stores row n \<longleftrightarrow> (\<exists>input. Normalize input = Inr n) \<and> rs_kind row = nkind n \<and>
     rs_comparison row = Key n \<and> rs_identity row = identityResource n"

lemma overlaps_first:
  assumes "wf_resource a" "wf_resource b" "path_kind a" "path_kind b" and "Overlaps a b"
    and "FirstLiteralSegment (PrepareOverlap a) = Some x"
  shows "FirstLiteralSegment (PrepareOverlap b) = None \<or> FirstLiteralSegment (PrepareOverlap b) = Some x"
  using assms first_literals_disjoint [OF assms(1,3,2,4)] overlaps_pmeet [OF assms(1,2,3,4)]
  by (cases "FirstLiteralSegment (PrepareOverlap b)") auto

lemma candidate_complete:
  assumes row: "is_held row" "stores row n" and p: "p \<in> set prepared" "wf_resource (PResource p)"
    and ov: "Overlaps (PResource p) n"
  shows "candidate_selected prepared row"
proof -
  have wn: "wf_resource n" and kind: "rs_kind row = nkind n" "rs_comparison row = Key n"
    using row(2) normalize_wf by (auto simp: stores_def)
  show ?thesis
  proof (cases "path_kind (PResource p) \<and> path_kind n")
    case False
    then have "\<not> path_kind (PResource p) \<or> \<not> path_kind n" by simp
    then have eq: "nkind (PResource p) = nkind n" "namespace (PResource p) = namespace n" "name (PResource p) = name n"
      using ov overlaps_logical [of "PResource p" n] by simp_all
    then have "nkind n = ResourceKindLogical" "nkind (PResource p) = ResourceKindLogical" "Key (PResource p) = Key n"
      using False by (auto simp: path_kind_def Key_def)
    moreover from this have "Key n \<in> set (map (\<lambda>p. Key (PResource p))
        (filter (\<lambda>p. nkind (PResource p) = ResourceKindLogical) prepared))"
      using p(1) by force
    ultimately show ?thesis using row(1) kind unfolding candidate_selected_def Let_def by metis
  next
    case True
    then have pk: "path_kind (PResource p)" "path_kind n" by simp_all
    have rk: "rs_kind row \<in> {ResourceKindFile, ResourceKindDirectory, ResourceKindGlob}"
      using pk(2) wn kind by (simp add: path_kind_def wf_resource_def)
    have pp: "p \<in> set (filter (\<lambda>p. nkind (PResource p) \<noteq> ResourceKindLogical) prepared)"
      using p(1) pk(1) by (simp add: path_kind_def)
    have sel: "FirstLiteralSegment (PrepareOverlap (PResource p)) = None \<or>
        FirstLiteralSegment (PrepareOverlap (PResource p)) = Some (sql_first_segment (rs_comparison row)) \<or>
        rs_kind row = ResourceKindGlob \<and> sql_first_segment (rs_comparison row) \<in> {''*'', ''**''}"
    proof (cases "FirstLiteralSegment (PrepareOverlap (PResource p))")
      case (Some x)
      note f = overlaps_first [OF p(2) wn pk ov Some]
      have s: "sql_first_segment (rs_comparison row) = foldedText (hd (segments n))"
        using sql_first_segment_Key [OF wn pk(2)] kind by simp
      show ?thesis
      proof (cases "seg_kind (hd (segments n)) = globSegmentLiteral")
        case True
        then show ?thesis using f s Some by (simp add: FirstLiteralSegment_hd [OF wn pk(2)])
      next
        case False
        have ne: "hd (segments n) \<in> set (segments n)" using wn pk(2) by (simp add: wf_resource_def path_kind_def)
        then have "foldedText (hd (segments n)) \<in> {''*'', ''**''}"
          using False wn pk(2) by (cases "seg_kind (hd (segments n))") (auto simp: wf_resource_def path_kind_def foldedText_def)
        moreover have "nkind n = ResourceKindGlob"
          using False ne wn pk(2) by (auto simp: wf_resource_def path_kind_def)
        ultimately show ?thesis using s kind by simp
      qed
    qed simp
    let ?paths = "filter (\<lambda>p. nkind (PResource p) \<noteq> ResourceKindLogical) prepared"
    have in_firsts: "FirstLiteralSegment (PrepareOverlap (PResource p)) \<in>
        set (map (\<lambda>p. FirstLiteralSegment (PrepareOverlap (PResource p))) ?paths)"
      using pp by force
    have ne: "?paths \<noteq> []" using pp by (auto simp: filter_empty_conv)
    have "None \<in> set firsts \<or> f \<in> set (map the (filter (\<lambda>f. f \<noteq> None) firsts))"
      if "c \<in> set firsts" "c = None \<or> c = Some f" for firsts :: "string option list" and c f
      using that by (auto simp: image_iff)
    note anchored = this [OF in_firsts]
    show ?thesis
      unfolding candidate_selected_def Let_def
      using row(1) rk sel ne anchored by meson
  qed
qed

end
