(* ===== verification/ReservationSafety.thy ===== *)
theory ReservationSafety
  imports Reservations
begin

text \<open>
  What the reservations table promises: active reservations never overlap, acquisition looks only at
  an indexed selection of the rows yet decides as a scan of all of them would, and the row-by-row
  release loops amount to one bulk update. Exclusion is stated once for any symmetric conflict
  relation and interpreted on the overlap of stored rows.
\<close>

section \<open>Exclusion\<close>

definition exclusive :: "('r \<Rightarrow> 'r \<Rightarrow> bool) \<Rightarrow> 'r list \<Rightarrow> bool" where
  "exclusive conflict xs \<longleftrightarrow> sorted_wrt (\<lambda>a b. \<not> conflict a b) xs"

lemma exclusive_filter: "exclusive c xs \<Longrightarrow> exclusive c (filter p xs)"
  by (induction xs) (auto simp: exclusive_def)

lemma exclusive_map:
  "exclusive c xs \<Longrightarrow> (\<And>a b. a \<in> set xs \<Longrightarrow> b \<in> set xs \<Longrightarrow> c (f a) (f b) \<Longrightarrow> c a b) \<Longrightarrow> exclusive c (map f xs)"
  by (induction xs) (auto simp: exclusive_def)

locale exclusion =
  fixes conflict :: "'r \<Rightarrow> 'r \<Rightarrow> bool" and sound :: "'r \<Rightarrow> bool"
  assumes conflict_sym: "sound a \<Longrightarrow> sound b \<Longrightarrow> conflict a b \<longleftrightarrow> conflict b a"
begin

lemma members_apart:
  assumes "exclusive conflict xs" and "\<forall>x \<in> set xs. sound x" and "a \<in> set xs" and "b \<in> set xs" and "a \<noteq> b"
  shows "\<not> conflict a b"
  using assms
proof (induction xs)
  case (Cons x xs)
  then have tail: "exclusive conflict xs" "\<forall>y \<in> set xs. \<not> conflict x y" by (simp_all add: exclusive_def)
  have "\<not> conflict y x" if "y \<in> set xs" for y
    using tail(2) that conflict_sym [of y x] Cons.prems(2) by simp
  then show ?case using Cons.IH [OF tail(1)] tail(2) Cons.prems(2-5) by auto
qed simp

lemma admit:
  assumes "exclusive conflict xs" and "exclusive conflict ys" and "\<forall>x \<in> set xs. sound x" and "\<forall>y \<in> set ys. sound y"
    and "\<And>x y. x \<in> set xs \<Longrightarrow> y \<in> set ys \<Longrightarrow> \<not> conflict y x"
  shows "exclusive conflict (xs @ ys)"
proof -
  have "\<not> conflict x y" if "x \<in> set xs" "y \<in> set ys" for x y
    using assms(5) [OF that] conflict_sym [of x y] assms(3,4) that by simp
  then show ?thesis using assms(1,2) by (auto simp: exclusive_def sorted_wrt_append)
qed

lemma reverse:
  "sorted_wrt (\<lambda>a b. \<not> conflict b a) xs \<Longrightarrow> \<forall>x \<in> set xs. sound x \<Longrightarrow> exclusive conflict xs"
  by (induction xs) (auto simp: exclusive_def conflict_sym)

end

section \<open>Conflicting rows\<close>

definition sound_row :: "Reservation \<Rightarrow> bool" where
  "sound_row r \<longleftrightarrow> (\<exists>n. stores r n)"

definition row_conflict :: "Reservation \<Rightarrow> Reservation \<Rightarrow> bool" where
  "row_conflict r s \<longleftrightarrow> (\<exists>n m. stores r n \<and> stores s m \<and> Overlaps n m)"

definition reservations_sound :: "db \<Rightarrow> bool" where
  "reservations_sound d \<longleftrightarrow> (\<forall>r \<in> set (db_reservations d). sound_row r) \<and>
     exclusive row_conflict (filter is_held (db_reservations d))"

lemma stores_wf: "stores r n \<Longrightarrow> wf_resource n"
  using normalize_wf by (auto simp: stores_def)

lemma stores_identity: "stores r n \<Longrightarrow> stores r m \<Longrightarrow> identity n = identity m"
  by (simp add: stores_def identity_def)

lemma overlaps_cong:
  assumes wf: "wf_resource a" "wf_resource b" "wf_resource c" and i: "identity a = identity b" and ov: "Overlaps a c"
  shows "Overlaps b c"
proof (cases "path_kind a \<and> path_kind c")
  case True
  then have pk: "path_kind a" "path_kind c" by simp_all
  then have "path_kind b" using i by (simp add: identity_def path_kind_def)
  then show ?thesis
    using ov overlaps_languages [OF wf(1,3) pk] overlaps_languages [OF wf(2,3) _ pk(2)]
      identity_language [OF wf(1,2) pk(1) i] by simp
next
  case False
  have k: "nkind a = nkind b" using i by (simp add: identity_def)
  have l: "nkind a = nkind c" "namespace a = namespace c" "name a = name c"
    using ov False overlaps_logical [of a c] by auto
  have "\<not> path_kind b" using False l(1) k by (auto simp: path_kind_def)
  then have "namespace b = namespace a \<and> name b = name a"
    using identity_overlaps [OF wf(1,2) i] overlaps_logical [of a b] by simp
  then show ?thesis using overlaps_logical [of b c] \<open>\<not> path_kind b\<close> k l by simp
qed

lemma row_conflict_stores:
  assumes "stores r n" and "stores s m" shows "row_conflict r s \<longleftrightarrow> Overlaps n m"
proof
  assume "row_conflict r s"
  then obtain n' m' where x: "stores r n'" "stores s m'" "Overlaps n' m'" by (auto simp: row_conflict_def)
  note wf = stores_wf [OF x(1)] stores_wf [OF assms(1)] stores_wf [OF x(2)] stores_wf [OF assms(2)]
  have "Overlaps n m'" using overlaps_cong [OF wf(1-3) stores_identity [OF x(1) assms(1)] x(3)] .
  then have "Overlaps m' n" using overlaps_sym wf by blast
  then have "Overlaps m n" using overlaps_cong [OF wf(3,4,2) stores_identity [OF x(2) assms(2)]] by simp
  then show "Overlaps n m" using overlaps_sym wf by blast
qed (use assms in \<open>auto simp: row_conflict_def\<close>)

interpretation rows: exclusion row_conflict sound_row
proof
  fix a b assume "sound_row a" "sound_row b"
  then obtain n m where s: "stores a n" "stores b m" by (auto simp: sound_row_def)
  show "row_conflict a b \<longleftrightarrow> row_conflict b a"
    using row_conflict_stores [OF s] row_conflict_stores [OF s(2,1)] overlaps_sym stores_wf s by blast
qed

lemma scan_row_Inr:
  "scanReservationRow env r = Inr (r', n) \<Longrightarrow> r' = r \<and> wf_resource n \<and> nkind n = rs_kind r \<and> Key n = rs_comparison r"
  by (auto simp: scanReservationRow_def result_simps split: sum.splits if_splits
      dest: normalize_wf normalize_kind)

lemma scan_identity: "scanReservationRow env r = Inr (r', n) \<Longrightarrow> stores r m \<Longrightarrow> identity n = identity m"
  using scan_row_Inr [of env r r' n] by (simp add: stores_def identity_def)

lemma scan_overlaps:
  assumes "scanReservationRow env r = Inr (r', n)" and "stores r m" and "wf_resource p"
  shows "Overlaps p n \<longleftrightarrow> Overlaps p m"
proof -
  have wf: "wf_resource n" "wf_resource m" using assms scan_row_Inr stores_wf by auto
  note i = scan_identity [OF assms(1,2)]
  show ?thesis
    using overlaps_cong [OF wf assms(3) i] overlaps_cong [OF wf(2,1) assms(3) i [symmetric]]
      overlaps_sym [OF assms(3) wf(1)] overlaps_sym [OF assms(3) wf(2)] by blast
qed

section \<open>The indexed selection decides as a full scan\<close>

lemma scan_all_fst: "map_result (scanReservationRow env) xs = Inr ys \<Longrightarrow> map fst ys = xs"
  by (induction xs arbitrary: ys) (auto simp: result_simps dest: scan_row_Inr)

lemma scan_filter:
  "map_result (scanReservationRow env) xs = Inr ys \<Longrightarrow>
     map_result (scanReservationRow env) (filter p xs) = Inr (filter (\<lambda>y. p (fst y)) ys)"
proof (induction xs arbitrary: ys)
  case (Cons x xs)
  then obtain y zs where "ys = y # zs" "scanReservationRow env x = Inr y" "map_result (scanReservationRow env) xs = Inr zs"
    by (auto simp: result_simps)
  moreover from this have "fst y = x" using scan_row_Inr by (metis prod.collapse)
  ultimately show ?case using Cons.IH by simp
qed simp

lemma scan_member:
  "map_result (scanReservationRow env) xs = Inr ys \<Longrightarrow> y \<in> set ys \<Longrightarrow>
     fst y \<in> set xs \<and> scanReservationRow env (fst y) = Inr y"
proof (induction xs arbitrary: ys)
  case (Cons x xs)
  then obtain z zs where z: "ys = z # zs" "scanReservationRow env x = Inr z" "map_result (scanReservationRow env) xs = Inr zs"
    by (auto simp: result_simps)
  moreover from z(2) have "fst z = x" using scan_row_Inr by (metis prod.collapse)
  ultimately show ?case using Cons.IH [OF z(3)] Cons.prems(2) by auto
qed simp

lemma scan_rows_Inr:
  "scan_rows env p d = Inr (d', ys) \<longleftrightarrow> d' = d \<and>
     map_result (scanReservationRow env) (sort_key rs_id (filter p (db_reservations d))) = Inr ys"
  by (auto simp: scan_rows_def tx_simps select_where_def)

lemma candidate_held: "candidate_selected prepared r \<Longrightarrow> is_held r"
  by (simp add: candidate_selected_def Let_def)

lemma candidates_of_active:
  assumes "loadActiveReservations env d = Inr (d', active)"
  shows "loadCandidateReservations env prepared d =
    Inr (d, filter (\<lambda>y. candidate_selected prepared (fst y)) active)"
proof -
  have f: "filter (candidate_selected prepared) (db_reservations d) =
      filter (candidate_selected prepared) (filter is_held (db_reservations d))"
    using candidate_held by (auto intro: filter_cong)
  have "map_result (scanReservationRow env) (sort_key rs_id (filter is_held (db_reservations d))) = Inr active"
    using assms by (simp add: loadActiveReservations_def scan_rows_Inr)
  from scan_filter [OF this, of "candidate_selected prepared"] show ?thesis
    unfolding loadCandidateReservations_def scan_rows_Inr f by (simp add: filter_sort)
qed

lemma find_conflicts_candidates:
  assumes active: "loadActiveReservations env d = Inr (d', active)" and sound: "\<forall>r \<in> set (db_reservations d). sound_row r"
    and wf: "\<forall>p \<in> set prepared. wf_resource (PResource p)"
  shows "find_conflicts prepared (filter (\<lambda>y. candidate_selected prepared (fst y)) active) = find_conflicts prepared active"
proof -
  have s: "map_result (scanReservationRow env) (sort_key rs_id (filter is_held (db_reservations d))) = Inr active"
    using active by (simp add: loadActiveReservations_def scan_rows_Inr)
  have sel: "candidate_selected prepared (fst y)"
    if y: "y \<in> set active" and p: "p \<in> set prepared" and ov: "Overlaps (PResource p) (snd y)" for y p
  proof -
    note m = scan_member [OF s y]
    then have row: "is_held (fst y)" "fst y \<in> set (db_reservations d)" by auto
    then obtain n where n: "stores (fst y) n" using sound by (auto simp: sound_row_def)
    have "Overlaps (PResource p) n"
      using scan_overlaps [of env "fst y" "fst y" "snd y" n "PResource p"] m n wf p ov by simp
    then show ?thesis using candidate_complete [OF row(1) n p] wf p by simp
  qed
  then show ?thesis
    unfolding find_conflicts_def Overlaps_def [symmetric] list_ex_iff set_filter
    by (intro arg_cong [of _ _ "map conflictDetail"] filter_cong refl) (use sel in blast)
qed

lemma prepared_wf: "PrepareReservationRequest resources = Inr prepared \<Longrightarrow> p \<in> set prepared \<Longrightarrow> wf_resource (PResource p)"
  using prepare_request_ok(1) normalize_wf by (fastforce simp: prepared_ok_def)

section \<open>Acquisition\<close>

definition new_row :: "(string \<times> Resource) list \<Rightarrow> string \<Rightarrow> string \<Rightarrow> time \<Rightarrow> PreparedResource \<Rightarrow> Reservation" where
  "new_row resources issueID attemptID now p =
     reservation_of (fst (resources ! Index p)) issueID attemptID (PResource p) now"

lemma insert_reservation_Inr:
  assumes "insert_reservation resources issueID attemptID sessionID now p d = Inr (d', r)"
  shows "r = new_row resources issueID attemptID now p \<and>
    (\<exists>e. d' = d\<lparr>db_reservations := db_reservations d @ [r], db_events := db_events d @ [e]\<rparr>)"
  using assms by (auto simp: tx_simps insert_reservation_def Let_def new_row_def)

lemma insert_reservations_effect:
  assumes "tx_map (insert_reservation resources issueID attemptID sessionID now) ps d = Inr (d', rows)"
  shows "rows = map (new_row resources issueID attemptID now) ps \<and>
    (\<exists>es. length es = length ps \<and>
       d' = d\<lparr>db_reservations := db_reservations d @ rows, db_events := db_events d @ es\<rparr>)"
  using assms
proof (induction ps arbitrary: d rows)
  case (Cons p ps)
  let ?row = "new_row resources issueID attemptID now p"
  obtain d1 r rest where p: "insert_reservation resources issueID attemptID sessionID now p d = Inr (d1, r)"
      and d1: "tx_map (insert_reservation resources issueID attemptID sessionID now) ps d1 = Inr (d', rest)"
      "rows = r # rest"
    using Cons.prems by (auto simp: tx_simps)
  obtain e where e: "r = ?row" "d1 = d\<lparr>db_reservations := db_reservations d @ [r], db_events := db_events d @ [e]\<rparr>"
    using insert_reservation_Inr [OF p] by blast
  obtain es where "rest = map (new_row resources issueID attemptID now) ps" "length es = length ps"
      "d' = d1\<lparr>db_reservations := db_reservations d1 @ rest, db_events := db_events d1 @ es\<rparr>"
    using Cons.IH [OF d1(1)] by blast
  then show ?case using d1(2) by (intro conjI exI [of _ "e # es"]) (auto simp: e)
qed (auto simp: tx_simps intro: exI [of _ "[]"])

lemma acquire_effect:
  assumes "acquireReservationsForAttempt env prepared resources issueID attemptID sessionID now d = Inr (d', rows)"
  shows "rows = map (new_row resources issueID attemptID now) prepared"
    and "\<exists>es. length es = length prepared \<and> d' = d\<lparr>db_reservations := db_reservations d @ rows, db_events := db_events d @ es\<rparr>"
    and "\<exists>cs. loadCandidateReservations env prepared d = Inr (d, cs) \<and> find_conflicts prepared cs = []"
proof -
  obtain cs where cs: "loadCandidateReservations env prepared d = Inr (d, cs)" "find_conflicts prepared cs = []"
      "tx_map (insert_reservation resources issueID attemptID sessionID now) prepared d = Inr (d', rows)"
    using assms by (auto simp: acquireReservationsForAttempt_def tx_simps Let_def loadCandidateReservations_def
        scan_rows_Inr split: if_splits)
  then show "\<exists>cs. loadCandidateReservations env prepared d = Inr (d, cs) \<and> find_conflicts prepared cs = []" by blast
  show "rows = map (new_row resources issueID attemptID now) prepared"
    "\<exists>es. length es = length prepared \<and> d' = d\<lparr>db_reservations := db_reservations d @ rows, db_events := db_events d @ es\<rparr>"
    using insert_reservations_effect [OF cs(3)] by blast+
qed

lemma new_row_stores:
  assumes "Normalize input = Inr (PResource p)"
  shows "stores (new_row resources issueID attemptID now p) (PResource p)"
  using assms by (auto simp: stores_def new_row_def reservation_of_def)

lemma new_row_held [simp]: "is_held (new_row resources issueID attemptID now p)"
  by (simp add: new_row_def reservation_of_def is_held_def)

lemma acquire_keeps_sound:
  assumes prep: "PrepareReservationRequest (map snd resources) = Inr prepared" and sound: "reservations_sound d"
    and acq: "acquireReservationsForAttempt env prepared resources issueID attemptID sessionID now d = Inr (d', rows)"
  shows "reservations_sound d'"
proof -
  let ?new = "map (new_row resources issueID attemptID now) prepared"
  note effect = acquire_effect [OF acq]
  have pok: "\<forall>p \<in> set prepared. \<exists>input. Normalize input = Inr (PResource p)"
      "sorted_wrt (\<lambda>p q. \<not> Overlaps (PResource q) (PResource p)) prepared"
    using prepare_request_ok(1) [OF prep] by (auto simp: prepared_ok_def elim: sorted_wrt_mono_rel [rotated])
  then have st: "stores (new_row resources issueID attemptID now p) (PResource p)" if "p \<in> set prepared" for p
    using new_row_stores that by blast
  have rows: "db_reservations d' = db_reservations d @ ?new" using effect(1,2) by auto
  obtain cs where cs: "map_result (scanReservationRow env)
      (sort_key rs_id (filter (candidate_selected prepared) (db_reservations d))) = Inr cs" "find_conflicts prepared cs = []"
    using effect(3) by (auto simp: loadCandidateReservations_def scan_rows_Inr)
  have apart: "\<not> row_conflict y x" if x: "x \<in> set (filter is_held (db_reservations d))" and y: "y \<in> set ?new" for x y
  proof
    assume conflict: "row_conflict y x"
    obtain p where p: "p \<in> set prepared" "y = new_row resources issueID attemptID now p" using y by auto
    obtain m where m: "stores x m" using x sound by (auto simp: reservations_sound_def sound_row_def)
    note wp = stores_wf [OF st [OF p(1)]]
    have ov: "Overlaps (PResource p) m" using conflict row_conflict_stores [OF st [OF p(1)] m] p(2) by simp
    have held: "is_held x" using x by simp
    have "candidate_selected prepared x" using candidate_complete [OF held m p(1) wp ov] .
    then have "x \<in> set (map fst cs)" using x scan_all_fst [OF cs(1)] by simp
    then obtain n where n: "(x, n) \<in> set cs" by auto
    then have "scanReservationRow env x = Inr (x, n)" using scan_member [OF cs(1) n] by simp
    then have "Overlaps (PResource p) n" using scan_overlaps m wp ov by blast
    then have "list_ex (\<lambda>row. PreparedOverlaps (PrepareOverlap (PResource p)) (PrepareOverlap (snd row))) cs"
      using n unfolding list_ex_iff Overlaps_def by (metis snd_conv)
    then show False using cs(2) p(1) by (simp add: find_conflicts_def filter_empty_conv)
  qed
  have "exclusive row_conflict ?new"
  proof (rule rows.reverse)
    have "\<not> row_conflict (new_row resources issueID attemptID now q) (new_row resources issueID attemptID now p)"
      if "p \<in> set prepared" "q \<in> set prepared" "\<not> Overlaps (PResource q) (PResource p)" for p q
      using row_conflict_stores [OF st [OF that(2)] st [OF that(1)]] that(3) by simp
    then show "sorted_wrt (\<lambda>a b. \<not> row_conflict b a) ?new"
      unfolding sorted_wrt_map using pok(2) by (elim sorted_wrt_mono_rel [rotated]) blast
    show "\<forall>x \<in> set ?new. sound_row x" using st by (auto simp: sound_row_def)
  qed
  then have "exclusive row_conflict (filter is_held (db_reservations d) @ ?new)"
    using sound st by (intro rows.admit apart) (auto simp: reservations_sound_def sound_row_def)
  moreover have "filter is_held ?new = ?new" by (simp add: filter_map comp_def)
  ultimately show ?thesis
    using rows sound st by (auto simp: reservations_sound_def sound_row_def)
qed

section \<open>Release\<close>

lemma filter_update_where:
  "(\<And>x. p x \<Longrightarrow> \<not> q (f x)) \<Longrightarrow> filter q (update_where p f xs) = filter (\<lambda>x. q x \<and> \<not> p x) xs"
  by (induction xs) (auto simp: update_where_def)

lemma distinct_map_filter: "distinct (map f (filter q xs)) \<Longrightarrow> distinct (map f (filter (\<lambda>x. q x \<and> p x) xs))"
proof (induction xs)
  case (Cons x xs)
  then show ?case by (cases "q x") auto
qed simp

lemma release_row_simps [simp]:
  "rs_id (release_row reason now r) = rs_id r" "rs_attempt (release_row reason now r) = rs_attempt r"
  "rs_issue (release_row reason now r) = rs_issue r" "\<not> is_held (release_row reason now r)"
  "stores (release_row reason now r) n = stores r n"
  by (simp_all add: release_row_def is_held_def stores_def)

lemma release_schema:
  assumes "schema_ok d"
  shows "schema_ok (d\<lparr>db_reservations := update_where p (release_row reason now) (db_reservations d)\<rparr>)"
proof -
  let ?rows = "update_where p (release_row reason now) (db_reservations d)"
  have ok: "reservations_ok d" using assms by (simp add: schema_ok_def)
  have ids: "map rs_id ?rows = map rs_id (db_reservations d)" by (rule map_update_where) simp
  have row: "reservation_row_ok r \<Longrightarrow> reservation_row_ok (release_row reason now r)" for r
    by (auto simp: reservation_row_ok_def release_row_def is_held_def)
  have "distinct (map (\<lambda>r. (rs_kind r, rs_comparison r))
      (filter (\<lambda>r. (is_held r \<and> rs_kind r \<in> {ResourceKindFile, ResourceKindLogical}) \<and> \<not> p r) (db_reservations d)))"
    by (rule distinct_map_filter) (use ok in \<open>simp add: reservations_ok_def\<close>)
  then have "reservations_ok (d\<lparr>db_reservations := ?rows\<rparr>)"
    using ok row unfolding reservations_ok_def
    by (simp add: ids filter_update_where) (auto simp: list_all_iff table_simps)
  then show ?thesis using assms schema_frame_reservations by blast
qed

definition released_event :: "string \<Rightarrow> ReservationReleaseReason \<Rightarrow> Reservation \<Rightarrow> string option \<times> string \<times> string option \<times> Payload" where
  "released_event attemptID reason r =
     (Some (rs_issue r), ''reservation_released'', Some attemptID, PayloadReleased (rs_id r) reason)"

definition event_summary :: "Event \<Rightarrow> string option \<times> string \<times> string option \<times> Payload" where
  "event_summary e = (ev_issue e, ev_type e, ev_attempt e, ev_payload e)"

lemma release_one_total:
  assumes "schema_ok d" and "row \<in> set (db_reservations d)"
    and refs: "refers (session_ids d) sessionID" "refers (map wa_id (db_attempts d)) (Some attemptID)"
  shows "\<exists>e. event_summary e = released_event attemptID reason row \<and>
    release_one attemptID sessionID reason now row d =
      Inr (d\<lparr>db_reservations := update_where (\<lambda>r. rs_id r = rs_id row) (release_row reason now) (db_reservations d),
             db_events := db_events d @ [e]\<rparr>, release_row reason now row)"
proof -
  have ids: "distinct (map rs_id (db_reservations d))" using assms(1) by (simp add: schema_ok_def reservations_ok_def)
  have only: "at_version (rs_id row) (rs_version row) r \<longleftrightarrow> rs_id r = rs_id row" if "r \<in> set (db_reservations d)" for r
    using distinct_key_eq [OF ids that assms(2)] by (auto simp: at_version_def)
  then have upd: "update_where (at_version (rs_id row) (rs_version row)) (release_row reason now) (db_reservations d) =
      update_where (\<lambda>r. rs_id r = rs_id row) (release_row reason now) (db_reservations d)"
    by (simp add: update_where_def)
  have one: "affected (at_version (rs_id row) (rs_version row)) (db_reservations d) = 1"
    using ids assms(2) by (rule affected_key_one [where k = "rs_id row"]) (simp_all add: at_version_def)
  let ?d1 = "d\<lparr>db_reservations := update_where (\<lambda>r. rs_id r = rs_id row) (release_row reason now) (db_reservations d)\<rparr>"
  let ?e = "new_event ?d1 (Some (rs_issue row)) ''reservation_released'' sessionID (Some attemptID)
    (PayloadReleased (rs_id row) reason) now SourceIssue"
  have ok: "schema_ok ?d1" using assms(1) by (rule release_schema)
  have "rs_issue row \<in> set (map IID (db_issues d))"
    using assms(1,2) by (simp add: schema_ok_def reservations_ok_def list_all_iff)
  then have new: "event_row_ok ?d1 ?e" using refs by (simp add: event_row_ok_new event_refs_ok_def)
  have "release_one attemptID sessionID reason now row d =
      Inr (?d1\<lparr>db_events := db_events ?d1 @ [?e]\<rparr>, release_row reason now row)"
    using ok one new by (simp add: release_one_def tx_simps upd Let_def)
  moreover have "event_summary ?e = released_event attemptID reason row"
    by (simp add: event_summary_def released_event_def new_event_def)
  ultimately show ?thesis by (intro exI [of _ ?e]) simp
qed

lemma release_one_schema: "release_one attemptID sessionID reason now row d = Inr (d', x) \<Longrightarrow> schema_ok d'"
  by (auto simp: release_one_def tx_then_Inr tx_require_Inr tx_return_Inr dest: append_event_schema)

lemma update_where_twice:
  assumes "\<And>r. p r \<Longrightarrow> \<not> q (f r)" and "\<And>r. \<not> p r \<Longrightarrow> q r \<longleftrightarrow> q' r"
  shows "update_where q f (update_where p f xs) = update_where (\<lambda>r. p r \<or> q' r) f xs"
  using assms by (induction xs) (auto simp: update_where_def)

text \<open>The loop over a list of rows is one update of all of them.\<close>

definition released_db :: "(Reservation \<Rightarrow> bool) \<Rightarrow> ReservationReleaseReason \<Rightarrow> time \<Rightarrow> Event list \<Rightarrow> db \<Rightarrow> db" where
  "released_db p reason now es d =
     d\<lparr>db_reservations := update_where p (release_row reason now) (db_reservations d), db_events := db_events d @ es\<rparr>"

lemma release_rows_total:
  assumes "schema_ok d" and "set rows \<subseteq> set (db_reservations d)" and "distinct (map rs_id rows)"
    and "refers (session_ids d) sessionID" and "refers (map wa_id (db_attempts d)) (Some attemptID)"
  shows "\<exists>es. map event_summary es = map (released_event attemptID reason) rows \<and>
    tx_map (release_one attemptID sessionID reason now) rows d =
      Inr (released_db (\<lambda>r. rs_id r \<in> rs_id ` set rows) reason now es d, map (release_row reason now) rows)"
  using assms
proof (induction rows arbitrary: d)
  case Nil
  then show ?case by (auto simp: tx_return_def released_db_def update_where_def intro: exI [of _ "[]"])
next
  case (Cons row rows)
  obtain e where e: "event_summary e = released_event attemptID reason row"
      "release_one attemptID sessionID reason now row d =
         Inr (d\<lparr>db_reservations := update_where (\<lambda>r. rs_id r = rs_id row) (release_row reason now) (db_reservations d),
                db_events := db_events d @ [e]\<rparr>, release_row reason now row)" (is "_ = Inr (?d1, _)")
    using release_one_total [OF Cons.prems(1) _ Cons.prems(4,5), of row reason now] Cons.prems(2) by auto
  have ok: "schema_ok ?d1" using release_one_schema [OF e(2)] .
  have sub: "set rows \<subseteq> set (db_reservations ?d1)"
  proof
    fix r assume "r \<in> set rows"
    moreover from this have "rs_id r \<noteq> rs_id row" using Cons.prems(3) by (auto simp: image_iff)
    ultimately have "r \<in> set (db_reservations d)" "rs_id r \<noteq> rs_id row" using Cons.prems(2) by auto
    then show "r \<in> set (db_reservations ?d1)" by (auto simp: table_simps)
  qed
  obtain es where es: "map event_summary es = map (released_event attemptID reason) rows"
      "tx_map (release_one attemptID sessionID reason now) rows ?d1 =
        Inr (released_db (\<lambda>r. rs_id r \<in> rs_id ` set rows) reason now es ?d1, map (release_row reason now) rows)"
    using Cons.IH [OF ok sub] Cons.prems(3-5) by auto
  have "released_db (\<lambda>r. rs_id r \<in> rs_id ` set rows) reason now es ?d1 =
      released_db (\<lambda>r. rs_id r \<in> rs_id ` set (row # rows)) reason now (e # es) d"
  proof -
    have "update_where (\<lambda>r. rs_id r \<in> rs_id ` set rows) (release_row reason now)
        (update_where (\<lambda>r. rs_id r = rs_id row) (release_row reason now) (db_reservations d)) =
      update_where (\<lambda>r. rs_id r = rs_id row \<or> rs_id r \<in> rs_id ` set rows) (release_row reason now) (db_reservations d)"
      using Cons.prems(3) by (intro update_where_twice) auto
    then show ?thesis by (simp add: released_db_def insert_iff)
  qed
  then show ?case using e es by (intro exI [of _ "e # es"]) (simp add: tx_then_def tx_return_def)
qed

lemma tx_each_map: "tx_each (\<lambda>x. tx_then (f x) (\<lambda>_. tx_return ())) xs d = tx_then (tx_map f xs) (\<lambda>_. tx_return ()) d"
proof (induction xs arbitrary: d)
  case (Cons x xs)
  show ?case
  proof (cases "f x d")
    case (Inr r)
    obtain d1 y where "r = (d1, y)" by (cases r)
    then show ?thesis using Inr Cons.IH [of d1] by (auto simp: tx_then_def tx_return_def split: sum.splits)
  qed (simp add: tx_then_def)
qed (simp add: tx_then_def tx_return_def)

lemma owned_rows:
  fixes a d defines "rows \<equiv> sort_key rs_id (filter (owned_active a) (db_reservations d))"
  assumes "schema_ok d"
  shows "set rows \<subseteq> set (db_reservations d)" and "distinct (map rs_id rows)"
    and "r \<in> set (db_reservations d) \<Longrightarrow> rs_id r \<in> rs_id ` set rows \<longleftrightarrow> owned_active a r"
proof -
  have ids: "distinct (map rs_id (db_reservations d))" using assms by (simp add: schema_ok_def reservations_ok_def)
  have "mset (map rs_id rows) = mset (map rs_id (filter (owned_active a) (db_reservations d)))" by (simp add: rows_def)
  then have "distinct (map rs_id rows) = distinct (map rs_id (filter (owned_active a) (db_reservations d)))"
    by (rule mset_eq_imp_distinct_iff)
  then show "distinct (map rs_id rows)" using ids by (simp add: distinct_map_filter [of _ "\<lambda>_. True", simplified])
  show "set rows \<subseteq> set (db_reservations d)" by (auto simp: rows_def)
  show "rs_id r \<in> rs_id ` set rows \<longleftrightarrow> owned_active a r" if "r \<in> set (db_reservations d)"
    using that distinct_key_eq [OF ids] by (auto simp: rows_def)
qed

lemma update_where_cong: "(\<And>r. r \<in> set xs \<Longrightarrow> p r \<longleftrightarrow> q r) \<Longrightarrow> update_where p f xs = update_where q f xs"
  by (simp add: update_where_def)

lemma release_owned_total:
  fixes a d defines "rows \<equiv> sort_key rs_id (filter (owned_active a) (db_reservations d))"
  assumes ok: "schema_ok d"
  shows "\<exists>es. map event_summary es = map (released_event a reason) rows \<and>
    tx_map (release_one a None reason now) rows d =
      Inr (released_db (\<lambda>r. rs_id r \<in> rs_id ` set rows) reason now es d, map (release_row reason now) rows)"
proof (cases rows)
  case Nil
  then show ?thesis by (auto simp: tx_return_def released_db_def update_where_def intro: exI [of _ "[]"])
next
  case (Cons r rs)
  note owned = owned_rows [where a = a and d = d, OF ok, folded rows_def]
  have "r \<in> set rows" using Cons by simp
  then have "r \<in> set (db_reservations d)" "rs_attempt r = a" by (auto simp: rows_def owned_active_def)
  then have "a \<in> set (map wa_id (db_attempts d))"
    using ok by (auto simp: schema_ok_def reservations_ok_def list_all_iff)
  then show ?thesis by (intro release_rows_total ok owned(1,2)) simp_all
qed

lemma release_attempt_total:
  assumes ok: "schema_ok d"
  shows "\<exists>es. map event_summary es =
      map (released_event a reason) (sort_key rs_id (filter (owned_active a) (db_reservations d))) \<and>
    releaseReservationsForAttempt a reason now d = Inr (released_db (owned_active a) reason now es d, ())"
proof -
  let ?rows = "sort_key rs_id (filter (owned_active a) (db_reservations d))"
  note rows = owned_rows [where a = a and d = d, OF ok]
  obtain es where es: "map event_summary es = map (released_event a reason) ?rows"
      "tx_map (release_one a None reason now) ?rows d =
        Inr (released_db (\<lambda>r. rs_id r \<in> rs_id ` set ?rows) reason now es d, map (release_row reason now) ?rows)"
    using release_owned_total [OF ok] by blast
  have "released_db (\<lambda>r. rs_id r \<in> rs_id ` set ?rows) reason now es d = released_db (owned_active a) reason now es d"
    unfolding released_db_def
    by (subst update_where_cong [of "db_reservations d" "\<lambda>r. rs_id r \<in> rs_id ` set ?rows" "owned_active a"])
      (use rows(3) in blast)+
  then show ?thesis
    using es by (intro exI [of _ es])
      (simp add: releaseReservationsForAttempt_def tx_each_map tx_then_def tx_return_def tx_read_def select_where_def)
qed

lemma released_keeps_sound: "reservations_sound d \<Longrightarrow> reservations_sound (released_db p reason now es d)"
proof -
  assume s: "reservations_sound d"
  have "sound_row (release_row reason now r) = sound_row r" for r by (simp add: sound_row_def)
  moreover have "exclusive row_conflict (filter (\<lambda>r. is_held r \<and> \<not> p r) (db_reservations d))"
    using s exclusive_filter [of row_conflict "filter is_held (db_reservations d)" "\<lambda>r. \<not> p r"]
    by (simp add: reservations_sound_def conj_commute)
  ultimately show ?thesis
    using s by (auto simp: reservations_sound_def released_db_def filter_update_where table_simps)
qed

section \<open>A concrete store\<close>

definition empty_db :: db where
  "empty_db = \<lparr>db_issues = [], db_sessions = [], db_relations = [], db_attempts = [], db_notes = [],
     db_artifacts = [], db_events = [], db_idempotency = [], db_policies = [], db_attempt_snapshots = [],
     db_target_snapshots = [], db_evidence = [], db_reservations = [], db_targets = [], db_requests = [],
     db_outcomes = [], db_approvals = [], db_evidence_events = [], db_policy_events = [],
     db_project = None, db_labels = [], db_comments = [], db_decisions = []\<rparr>"

definition sample_attempt :: "char \<Rightarrow> string \<Rightarrow> AttemptKind \<Rightarrow> time \<Rightarrow> WorkAttempt" where
  "sample_attempt c issue kind lease =
     \<lparr>wa_id = sample_ulid c, wa_issue = issue, wa_session = None, wa_label = None, wa_kind = kind,
      wa_status = AttemptStatusActive, wa_version_at_start = 1, wa_event_at_start = 0, wa_lease = lease,
      wa_started = 1, wa_heartbeat = 1, wa_finished = None, wa_summary = None, wa_next_steps = [],
      wa_verification = [], wa_failure = None, wa_interruption = None, wa_details = None, wa_token_hash = ''h''\<rparr>"

definition sample_held :: Reservation where
  "sample_held = reservation_of (sample_ulid CHR ''R'') (sample_ulid CHR ''I'') (sample_ulid CHR ''A'')
     (normalized_of (glob_at ''src/*'')) 1"

definition sample_db :: db where
  "sample_db = empty_db\<lparr>db_issues := [sample_issue],
     db_attempts := [sample_attempt CHR ''A'' (sample_ulid CHR ''I'') AttemptKindWork 100],
     db_reservations := [sample_held]\<rparr>"

definition sample_resources :: "string \<Rightarrow> (string \<times> Resource) list" where
  "sample_resources path = [(sample_ulid CHR ''S'', file_at ''docs/x''), (sample_ulid CHR ''T'', file_at path)]"

definition prepared_of :: "(string \<times> Resource) list \<Rightarrow> PreparedResource list" where
  "prepared_of rs = (case PrepareReservationRequest (map snd rs) of Inr p \<Rightarrow> p | Inl _ \<Rightarrow> [])"

lemma sample_db_ok: "schema_ok sample_db"
  by code_simp

lemma sample_db_sound: "reservations_sound sample_db"
proof -
  have "Normalize (glob_at ''src/*'') = Inr (normalized_of (glob_at ''src/*''))" by code_simp
  then have "stores sample_held (normalized_of (glob_at ''src/*''))"
    by (auto simp: stores_def sample_held_def reservation_of_def)
  moreover have "db_reservations sample_db = [sample_held]" by (simp add: sample_db_def)
  ultimately show ?thesis by (auto simp: reservations_sound_def sound_row_def exclusive_def)
qed

section \<open>Properties\<close>

definition blocked_by_held :: "db \<Rightarrow> PreparedResource \<Rightarrow> bool" where
  "blocked_by_held d p \<longleftrightarrow> (\<exists>r \<in> set (db_reservations d). is_held r \<and> (\<exists>n. stores r n \<and> Overlaps (PResource p) n))"

text \<open>
  C5. On a readable table, acquisition over the indexed candidate rows decides as a comparison
  with every active reservation would: if any requested resource overlaps an active reservation it
  fails with exactly the overlapping requests as details, and otherwise all of them are inserted.
\<close>

theorem acquisition_decides_exactly:
  assumes sound: "reservations_sound d" and prep: "PrepareReservationRequest (map snd resources) = Inr prepared"
    and active: "loadActiveReservations env d = Inr (d, active)"
  shows "acquireReservationsForAttempt env prepared resources issueID attemptID sessionID now d =
    (let hit = filter (blocked_by_held d) prepared in
     if hit \<noteq> [] then Inl (reservationConflict (map conflictDetail hit))
     else tx_map (insert_reservation resources issueID attemptID sessionID now) prepared d)"
proof -
  have s: "map_result (scanReservationRow env) (sort_key rs_id (filter is_held (db_reservations d))) = Inr active"
    using active by (simp add: loadActiveReservations_def scan_rows_Inr)
  have "(\<exists>y \<in> set active. Overlaps (PResource p) (snd y)) \<longleftrightarrow> blocked_by_held d p" if "p \<in> set prepared" for p
  proof
    note wp = prepared_wf [OF prep that]
    assume "\<exists>y \<in> set active. Overlaps (PResource p) (snd y)"
    then obtain y where y: "y \<in> set active" "Overlaps (PResource p) (snd y)" by blast
    note m = scan_member [OF s y(1)]
    then obtain n where n: "stores (fst y) n" using sound by (auto simp: reservations_sound_def sound_row_def)
    have "Overlaps (PResource p) n" using scan_overlaps [of env "fst y" "fst y" "snd y" n, OF _ n wp] m y(2) by simp
    then show "blocked_by_held d p" using m n by (auto simp: blocked_by_held_def)
  next
    note wp = prepared_wf [OF prep that]
    assume "blocked_by_held d p"
    then obtain r n where r: "r \<in> set (db_reservations d)" "is_held r" "stores r n" "Overlaps (PResource p) n"
      by (auto simp: blocked_by_held_def)
    then have "r \<in> set (map fst active)" using scan_all_fst [OF s] by simp
    then obtain m where m: "(r, m) \<in> set active" by auto
    then have "scanReservationRow env r = Inr (r, m)" using scan_member [OF s m] by simp
    then show "\<exists>y \<in> set active. Overlaps (PResource p) (snd y)" using scan_overlaps [OF _ r(3) wp] r(4) m by (metis snd_conv)
  qed
  then have "find_conflicts prepared active = map conflictDetail (filter (blocked_by_held d) prepared)"
    unfolding find_conflicts_def Overlaps_def [symmetric] list_ex_iff
    by (intro arg_cong [of _ _ "map conflictDetail"] filter_cong) auto
  moreover have "find_conflicts prepared (filter (\<lambda>y. candidate_selected prepared (fst y)) active) = find_conflicts prepared active"
    using find_conflicts_candidates [OF active] sound prepared_wf [OF prep] by (auto simp: reservations_sound_def)
  ultimately show ?thesis
    by (simp add: acquireReservationsForAttempt_def candidates_of_active [OF active] tx_then_def Let_def tx_fail_def)
qed

theorem acquisition_decides_exactly_witness:
  "acquireReservationsForAttempt sample_env (prepared_of (sample_resources ''SRC/a'')) (sample_resources ''SRC/a'')
     (sample_ulid CHR ''I'') (sample_ulid CHR ''A'') None 5 sample_db =
   Inl (reservationConflict [\<lparr>EntityIndex = Some 1, Field = ''resources.1'', DCode = CodeResourceReservationConflict\<rparr>])"
proof -
  let ?p = "prepared_of (sample_resources ''SRC/a'')"
  have prep: "PrepareReservationRequest (map snd (sample_resources ''SRC/a'')) = Inr ?p" by code_simp
  have active: "loadActiveReservations sample_env sample_db =
      Inr (sample_db, [(sample_held, normalized_of (glob_at ''src/*''))])" by code_simp
  have "acquireReservationsForAttempt sample_env ?p (sample_resources ''SRC/a'')
     (sample_ulid CHR ''I'') (sample_ulid CHR ''A'') None 5 sample_db =
     Inl (reservationConflict [\<lparr>EntityIndex = Some 1, Field = ''resources.1'', DCode = CodeResourceReservationConflict\<rparr>])"
    by code_simp
  then show ?thesis
    using acquisition_decides_exactly [OF sample_db_sound prep active, of "sample_ulid CHR ''I''" "sample_ulid CHR ''A''" None 5]
    by (simp only:)
qed


definition sample_acquired :: "db \<times> Reservation list" where
  "sample_acquired = (case acquireReservationsForAttempt sample_env (prepared_of (sample_resources ''src/a/b''))
     (sample_resources ''src/a/b'') (sample_ulid CHR ''I'') (sample_ulid CHR ''A'') None 5 sample_db of
       Inr x \<Rightarrow> x | Inl _ \<Rightarrow> (sample_db, []))"


text \<open>
  C20. Ending an attempt releases its reservations in one stroke: the loop of conditional updates
  never fails on a store that satisfies its constraints, and amounts to a single update of exactly
  the active rows the attempt owns, with one event per released row in id order.
\<close>

theorem release_is_one_update:
  assumes "schema_ok d"
  shows "\<exists>es. map event_summary es =
      map (released_event a reason) (sort_key rs_id (filter (owned_active a) (db_reservations d))) \<and>
    releaseReservationsForAttempt a reason now d = Inr (released_db (owned_active a) reason now es d, ())"
  using assms by (rule release_attempt_total)

theorem release_is_one_update_witness:
  "\<exists>es. map event_summary es = [released_event (sample_ulid CHR ''A'') ReservationReleaseReasonExpired sample_held] \<and>
    releaseReservationsForAttempt (sample_ulid CHR ''A'') ReservationReleaseReasonExpired 7 sample_db =
      Inr (released_db (owned_active (sample_ulid CHR ''A'')) ReservationReleaseReasonExpired 7 es sample_db, ())"
proof -
  have "sort_key rs_id (filter (owned_active (sample_ulid CHR ''A'')) (db_reservations sample_db)) = [sample_held]"
    by code_simp
  then show ?thesis
    using release_is_one_update [OF sample_db_ok, of "sample_ulid CHR ''A''" ReservationReleaseReasonExpired 7]
    by (simp only: list.map)
qed

end
