(* ===== verification/Staleness.thy ===== *)
theory Staleness
  imports ReservationSafety
begin

text \<open>
  When a review stops being about the work it was asked for: \<^verbatim>\<open>reviewedWorkChangedSince\<close>,
  \<^verbatim>\<open>priorityOnlyIssueUpdatesSince\<close> (\<^verbatim>\<open>attempts.go\<close>), \<^verbatim>\<open>reviewTargetStale\<close>, its batch form and the
  freshness of approvals (\<^verbatim>\<open>reviews.go\<close>). Each is an SQL query over the event log.
\<close>

section \<open>The event sets\<close>

definition reviewedWorkEventScope :: "db \<Rightarrow> Event \<Rightarrow> bool" where
  "reviewedWorkEventScope d e \<longleftrightarrow>
     ev_source e \<noteq> SourceReview \<and>
     ev_type e \<notin> {''attempt_started'', ''reservation_reserved'', ''reservation_released''} \<and>
     \<not> list_ex (\<lambda>a. ev_attempt e = Some (wa_id a) \<and> wa_kind a = AttemptKindReview) (db_attempts d)"

definition priorityOnlyIssueUpdate :: "Event \<Rightarrow> bool" where
  "priorityOnlyIssueUpdate e \<longleftrightarrow>
     ev_type e = ''issue_updated'' \<and>
     (case changed_fields (ev_payload e) of
        None \<Rightarrow> False
      | Some changed \<Rightarrow> changed \<noteq> [] \<and> \<not> list_ex (\<lambda>f. f \<noteq> ''priority'') changed)"

definition event_since :: "string \<Rightarrow> int \<Rightarrow> Event \<Rightarrow> bool" where
  "event_since issueID afterEventID e \<longleftrightarrow> ev_issue e = Some issueID \<and> ev_id e > afterEventID"

definition reviewedWorkChangedSince :: "db \<Rightarrow> string \<Rightarrow> int \<Rightarrow> bool" where
  "reviewedWorkChangedSince d issueID afterEventID =
     list_ex (\<lambda>e. event_since issueID afterEventID e \<and> reviewedWorkEventScope d e \<and> \<not> priorityOnlyIssueUpdate e)
       (db_events d)"

definition priorityOnlyIssueUpdatesSince :: "db \<Rightarrow> string \<Rightarrow> int \<Rightarrow> int" where
  "priorityOnlyIssueUpdatesSince d issueID afterEventID =
     int (length (filter (\<lambda>e. event_since issueID afterEventID e \<and> reviewedWorkEventScope d e \<and> priorityOnlyIssueUpdate e)
       (db_events d)))"

section \<open>Stale targets\<close>

definition issueNotFound :: Error where
  "issueNotFound = NewError CodeIssueNotFound False []"

definition reviewTargetStale :: "string \<Rightarrow> int \<Rightarrow> int \<Rightarrow> bool tx" where
  "reviewTargetStale issueID targetIssueVersion targetEventID d =
     (case find (\<lambda>i. IID i = issueID) (db_issues d) of
        None \<Rightarrow> Inl issueNotFound
      | Some issue \<Rightarrow>
          if reviewedWorkChangedSince d issueID targetEventID then Inr (d, True)
          else if IVersion issue = targetIssueVersion then Inr (d, False)
          else Inr (d, IVersion issue \<noteq> targetIssueVersion + priorityOnlyIssueUpdatesSince d issueID targetEventID))"

definition staleReviewTargetError :: Error where
  "staleReviewTargetError = NewError CodeReviewTargetStale False []"

definition reviewTargetFuture :: "int \<Rightarrow> bool tx" where
  "reviewTargetFuture targetEventID = tx_read (\<lambda>d. targetEventID > latest_event d)"

text \<open>
  The batch query joins a page of requests with the issues. Each row is the request, whether its
  issue is missing, and the stale flag, which is NULL (absent) for a missing issue unless an event
  decides it first.
\<close>

definition batch_row :: "db \<Rightarrow> ReviewRequest \<Rightarrow> string \<times> bool \<times> bool" where
  "batch_row d request =
     (let issue = find (\<lambda>i. IID i = rq_issue request) (db_issues d);
          changed = list_ex (\<lambda>e. event_since (rq_issue request) (rq_event request) e \<and> reviewedWorkEventScope d e \<and>
            \<not> priorityOnlyIssueUpdate e) (db_events d);
          updates = int (length (filter (\<lambda>e. event_since (rq_issue request) (rq_event request) e \<and>
            reviewedWorkEventScope d e \<and> priorityOnlyIssueUpdate e) (db_events d)))
      in (rq_id request, issue = None,
          if changed then True
          else case issue of None \<Rightarrow> False
          | Some i \<Rightarrow> if IVersion i = rq_issue_version request then False
                      else IVersion i \<noteq> rq_issue_version request + updates))"

fun scan_batch :: "(string \<times> bool \<times> bool) list \<Rightarrow> string list \<Rightarrow> string list res" where
  "scan_batch [] staleTargets = Inr staleTargets"
| "scan_batch ((i, missing, stale) # rows) staleTargets =
     (if missing then Inl issueNotFound
      else if stale then scan_batch rows (i # staleTargets)
      else scan_batch rows staleTargets)"

definition batchReviewTargetStaleness :: "ReviewRequest list \<Rightarrow> string list tx" where
  "batchReviewTargetStaleness items d =
     (if length items = 0 then Inr (d, [])
      else tx_lift (scan_batch (map (batch_row d) items) []) d)"

section \<open>Approvals that still count\<close>

definition approval_positions :: "ReviewApproval list \<Rightarrow> int list" where
  "approval_positions rows = rev (remdups (rev (map ra_event rows)))"

fun fresh_purposes :: "db \<Rightarrow> string \<Rightarrow> (int \<Rightarrow> string list) \<Rightarrow> bool \<Rightarrow> int list \<Rightarrow> string list" where
  "fresh_purposes d issueID purposesAt fresh [] = []"
| "fresh_purposes d issueID purposesAt fresh (position # positions) =
     (if \<not> fresh \<and> reviewedWorkChangedSince d issueID position
      then fresh_purposes d issueID purposesAt fresh positions
      else purposesAt position @ fresh_purposes d issueID purposesAt True positions)"

definition loadIssueReviewApprovalPurposes :: "db \<Rightarrow> string \<Rightarrow> string list" where
  "loadIssueReviewApprovalPurposes d issueID =
     (let rows = sort_key ra_event (filter (\<lambda>a. ra_issue a = issueID) (db_approvals d));
          purposesAt = (\<lambda>position. map ra_purpose (filter (\<lambda>a. ra_event a = position) rows))
      in fresh_purposes d issueID purposesAt False (approval_positions rows))"

section \<open>Facts\<close>

lemma changed_since_mono:
  "reviewedWorkChangedSince d issue b \<Longrightarrow> a \<le> b \<Longrightarrow> reviewedWorkChangedSince d issue a"
  by (fastforce simp: reviewedWorkChangedSince_def list_ex_iff event_since_def)

lemma stale_Inr [tx_simps]:
  "reviewTargetStale issue v e d = Inr (d', b) \<longleftrightarrow> d' = d \<and>
     (\<exists>i. find (\<lambda>i. IID i = issue) (db_issues d) = Some i \<and>
        b = (reviewedWorkChangedSince d issue e \<or>
             IVersion i \<noteq> v \<and> IVersion i \<noteq> v + priorityOnlyIssueUpdatesSince d issue e))"
  by (auto simp: reviewTargetStale_def split: option.splits if_splits)

lemma keeps_stale [keeps_intro]: "keeps P (reviewTargetStale issue v e)"
  by (rule keeps_const) (auto simp: stale_Inr)

lemma keeps_future [keeps_intro]: "keeps P (reviewTargetFuture e)"
  by (simp add: reviewTargetFuture_def keeps_read)

text \<open>No event after the target means no gap can be explained away.\<close>

lemma updates_nonneg: "priorityOnlyIssueUpdatesSince d issue e \<ge> 0"
  by (simp add: priorityOnlyIssueUpdatesSince_def)

lemma fresh_purposes_fresh:
  "set (fresh_purposes d issue at True ps) = (\<Union>p \<in> set ps. set (at p))"
  by (induction ps) auto

lemma fresh_purposes_set:
  "sorted ps \<Longrightarrow> set (fresh_purposes d issue at False ps) =
     (\<Union>p \<in> {p \<in> set ps. \<not> reviewedWorkChangedSince d issue p}. set (at p))"
proof (induction ps)
  case (Cons p ps)
  show ?case
  proof (cases "reviewedWorkChangedSince d issue p")
    case False
    then have "\<not> reviewedWorkChangedSince d issue q" if "q \<in> set ps" for q
      using Cons.prems that changed_since_mono by (metis list.set_intros(2) sorted_simps(2))
    then show ?thesis using False by (auto simp: fresh_purposes_fresh)
  qed (use Cons in auto)
qed simp

lemma approval_positions_set: "set (approval_positions rows) = ra_event ` set rows"
  by (simp add: approval_positions_def)

lemma sorted_wrt_remdups: "sorted_wrt P xs \<Longrightarrow> sorted_wrt P (remdups xs)"
  by (induction xs) auto

lemma sorted_positions: "sorted (map ra_event rows) \<Longrightarrow> sorted (approval_positions rows)"
proof -
  assume s: "sorted (map ra_event rows)"
  have "sorted_wrt (\<ge>) (rev (map ra_event rows))" using s by (simp add: sorted_wrt_rev)
  then have "sorted_wrt (\<ge>) (remdups (rev (map ra_event rows)))" by (rule sorted_wrt_remdups)
  then show ?thesis by (simp add: approval_positions_def sorted_wrt_rev)
qed
section \<open>Properties\<close>

text \<open>
  C38. The purposes that count as approved are exactly those of the issue's approvals with no
  disqualifying event after the position they were granted at: the loop over positions, which stops
  probing at the first fresh one, loses and adds nothing.
\<close>

theorem approvals_counted_exactly:
  "set (loadIssueReviewApprovalPurposes d issue) =
     {ra_purpose a | a. a \<in> set (db_approvals d) \<and> ra_issue a = issue \<and> \<not> reviewedWorkChangedSince d issue (ra_event a)}"
proof -
  let ?rows = "sort_key ra_event (filter (\<lambda>a. ra_issue a = issue) (db_approvals d))"
  have s: "sorted (approval_positions ?rows)" by (intro sorted_positions sorted_sort_key)
  show ?thesis
    unfolding loadIssueReviewApprovalPurposes_def Let_def fresh_purposes_set [OF s] approval_positions_set
    by auto
qed

lemma scan_batch_result:
  "scan_batch rows acc = (if \<exists>r \<in> set rows. fst (snd r) then Inl issueNotFound
     else Inr (rev (map fst (filter (\<lambda>r. snd (snd r)) rows)) @ acc))"
  by (induction rows acc rule: scan_batch.induct) auto

definition stale_request :: "db \<Rightarrow> ReviewRequest \<Rightarrow> (db \<times> bool) res" where
  "stale_request d r = reviewTargetStale (rq_issue r) (rq_issue_version r) (rq_event r) d"

lemma batch_row_missing: "fst (snd (batch_row d r)) \<longleftrightarrow> stale_request d r = Inl issueNotFound"
  by (auto simp: batch_row_def Let_def stale_request_def reviewTargetStale_def split: option.splits)

lemma batch_row_stale:
  "\<not> fst (snd (batch_row d r)) \<Longrightarrow> snd (snd (batch_row d r)) \<longleftrightarrow> stale_request d r = Inr (d, True)"
  by (auto simp: batch_row_def Let_def stale_request_def reviewTargetStale_def reviewedWorkChangedSince_def
      priorityOnlyIssueUpdatesSince_def split: option.splits)


text \<open>
  A target that names the version the issue had at its event position: later priority updates moved
  the version, nothing before the position is counted twice.
\<close>

definition target_consistent :: "db \<Rightarrow> string \<Rightarrow> int \<Rightarrow> int \<Rightarrow> bool" where
  "target_consistent d issue v e =
     (case find (\<lambda>i. IID i = issue) (db_issues d) of
        None \<Rightarrow> False
      | Some i \<Rightarrow> v \<le> IVersion i \<and> (IVersion i = v \<longrightarrow> priorityOnlyIssueUpdatesSince d issue e = 0))"

definition reprioritize :: "string \<Rightarrow> Priority \<Rightarrow> time \<Rightarrow> Issue \<Rightarrow> Issue" where
  "reprioritize issue p now i =
     (if IID i = issue then i\<lparr>IPriority := p, IVersion := IVersion i + 1, UpdatedAt := now\<rparr> else i)"

definition priority_payload :: "Priority \<Rightarrow> issueUpdatedPayload" where
  "priority_payload p = \<lparr>iu_changed = [''priority''], iu_title = None, iu_type = None, iu_priority = Some p, iu_status = None,
     iu_parent = None, iu_description_set = None, iu_acceptance_set = None, iu_blocked_set = None, iu_labels = None\<rparr>"

definition priority_updated :: "string \<Rightarrow> Priority \<Rightarrow> string option \<Rightarrow> time \<Rightarrow> db \<Rightarrow> db" where
  "priority_updated issue p session now d =
     d\<lparr>db_issues := map (reprioritize issue p now) (db_issues d),
       db_events := db_events d @ [new_event d (Some issue) ''issue_updated'' session None
         (PayloadIssueUpdated (priority_payload p)) now SourceIssue]\<rparr>"

lemma reprioritize_id [simp]: "IID (reprioritize issue p now i) = IID i"
  by (simp add: reprioritize_def)

lemma find_map_id:
  "(\<And>i. IID (f i) = IID i) \<Longrightarrow>
     find (\<lambda>i. IID i = x) (map f is) = map_option f (find (\<lambda>i. IID i = x) is)"
  by (induction "is") auto

lemma priority_updated_scope [simp]:
  "reviewedWorkEventScope (priority_updated issue p s now d) = reviewedWorkEventScope d"
  by (rule ext) (simp add: reviewedWorkEventScope_def priority_updated_def)

lemma priority_updated_changed:
  "reviewedWorkChangedSince (priority_updated issue p s now d) issue e = reviewedWorkChangedSince d issue e"
  unfolding reviewedWorkChangedSince_def priority_updated_scope
  by (simp add: priority_updated_def new_event_def priorityOnlyIssueUpdate_def priority_payload_def)

lemma priority_updated_count:
  "e \<le> latest_event d \<Longrightarrow>
     priorityOnlyIssueUpdatesSince (priority_updated issue p s now d) issue e = priorityOnlyIssueUpdatesSince d issue e + 1"
  unfolding priorityOnlyIssueUpdatesSince_def priority_updated_scope
  by (simp add: priority_updated_def new_event_def priorityOnlyIssueUpdate_def priority_payload_def event_since_def reviewedWorkEventScope_def
      list_ex_iff)


definition sample_review_db :: db where
  "sample_review_db = sample_db\<lparr>db_issues := [sample_issue\<lparr>IStatus := StatusReview, IVersion := 3\<rparr>],
     db_events := [new_event empty_db (Some (sample_ulid CHR ''I'')) ''attempt_completed'' None
       (Some (sample_ulid CHR ''A'')) (PayloadAttempt (sample_ulid CHR ''A'')) 1 SourceIssue]\<rparr>"



end
