(* ===== verification/AttemptCore.thy ===== *)
theory AttemptCore
  imports Staleness
begin

text \<open>
  The transaction steps the attempt and review operations are built from
  (\<^verbatim>\<open>attempts.go\<close>, \<^verbatim>\<open>reviews.go\<close>): lease authentication, ending and expiring an attempt, and binding,
  returning, superseding and resolving the review request an attempt holds.
\<close>

section \<open>Review requests of an attempt\<close>

definition reviewRequestStatusForOutcome :: "ReviewOutcome \<Rightarrow> ReviewRequestStatus" where
  "reviewRequestStatusForOutcome outcome =
     (case outcome of
        ReviewOutcomeApproved \<Rightarrow> ReviewRequestStatusApproved
      | ReviewOutcomeChangesRequested \<Rightarrow> ReviewRequestStatusChangesRequested
      | ReviewOutcomeBlocked \<Rightarrow> ReviewRequestStatusBlocked
      | ReviewOutcome_other s \<Rightarrow> ReviewRequestStatusCancelled)"

definition reviewEventTypeForOutcome :: "ReviewOutcome \<Rightarrow> string" where
  "reviewEventTypeForOutcome outcome =
     (case outcome of
        ReviewOutcomeApproved \<Rightarrow> ''review_approved''
      | ReviewOutcomeChangesRequested \<Rightarrow> ''review_changes_requested''
      | ReviewOutcomeBlocked \<Rightarrow> ''review_blocked''
      | ReviewOutcome_other s \<Rightarrow> ''review_cancelled'')"

definition payloadForReviewEvent ::
  "ReviewRequest \<Rightarrow> string option \<Rightarrow> ReviewOutcome option \<Rightarrow> string option \<Rightarrow> Payload" where
  "payloadForReviewEvent request attemptID outcome reason =
     PayloadReview (rq_id request) (rq_target request) attemptID outcome reason"

text \<open>\<^verbatim>\<open>SET status = ?, active_attempt_id = ?, resolved_at = ?, version = version + 1\<close>\<close>

definition set_request :: "ReviewRequestStatus \<Rightarrow> string option \<Rightarrow> time option \<Rightarrow> ReviewRequest \<Rightarrow> ReviewRequest" where
  "set_request status attempt resolved r =
     r\<lparr>rq_status := status, rq_attempt := attempt, rq_resolved := resolved, rq_version := rq_version r + 1\<rparr>"

definition request_at :: "string \<Rightarrow> int \<Rightarrow> ReviewRequest \<Rightarrow> bool" where
  "request_at i v r \<longleftrightarrow> rq_id r = i \<and> rq_version r = v"

definition claimed_by :: "string \<Rightarrow> string \<Rightarrow> ReviewRequest \<Rightarrow> bool" where
  "claimed_by i attemptID r \<longleftrightarrow> rq_id r = i \<and> rq_status r = ReviewRequestStatusClaimed \<and> rq_attempt r = Some attemptID"

definition loadActiveReviewRequestForAttempt :: "db \<Rightarrow> string \<Rightarrow> ReviewRequest option" where
  "loadActiveReviewRequestForAttempt d attemptID =
     find (\<lambda>r. rq_attempt r = Some attemptID \<and> rq_status r = ReviewRequestStatusClaimed) (db_requests d)"

definition releaseClaimedReviewRequest :: "string \<Rightarrow> time \<Rightarrow> unit tx" where
  "releaseClaimedReviewRequest attemptID now =
     tx_then (tx_read (\<lambda>d. loadActiveReviewRequestForAttempt d attemptID)) (\<lambda>request.
     case request of
       None \<Rightarrow> tx_return ()
     | Some r \<Rightarrow>
         tx_then (reviewTargetStale (rq_issue r) (rq_issue_version r) (rq_event r)) (\<lambda>stale.
         let status = (if stale then ReviewRequestStatusSuperseded else ReviewRequestStatusOpen);
             eventType = (if stale then ''review_superseded'' else ''review_requested'');
             resolvedAt = (if stale then Some now else None) in
         tx_then (update_requests (claimed_by (rq_id r) attemptID) (set_request status None resolvedAt)) (\<lambda>affected.
         if affected \<noteq> 1 then tx_return ()
         else appendReviewEvent (rq_issue r) eventType (Some attemptID)
           (payloadForReviewEvent r (Some attemptID) None None) now)))"

definition supersedeOpenReviewRequest :: "ReviewRequest \<Rightarrow> time \<Rightarrow> unit tx" where
  "supersedeOpenReviewRequest request now =
     tx_then (update_requests (\<lambda>r. rq_id r = rq_id request \<and> rq_status r = ReviewRequestStatusOpen)
       (set_request ReviewRequestStatusSuperseded None (Some now))) (\<lambda>affected.
     if affected = 0 then tx_return ()
     else appendReviewEvent (rq_issue request) ''review_superseded'' None
       (payloadForReviewEvent request None None None) now)"

definition supersedeReviewRequestForAttempt :: "ReviewRequest \<Rightarrow> string \<Rightarrow> time \<Rightarrow> unit tx" where
  "supersedeReviewRequestForAttempt request attemptID now =
     tx_then (update_requests (claimed_by (rq_id request) attemptID)
       (set_request ReviewRequestStatusSuperseded None (Some now))) (\<lambda>affected.
     if affected = 0 then tx_return ()
     else appendReviewEvent (rq_issue request) ''review_superseded'' (Some attemptID)
       (payloadForReviewEvent request (Some attemptID) None None) now)"

text \<open>
  An approval gets a freshly generated ULID per purpose; the generator, which may fail, is the
  parameter \<open>fresh\<close>, called with the position of the purpose.
\<close>

definition approval_of :: "string \<Rightarrow> ReviewRequest \<Rightarrow> string \<Rightarrow> string \<Rightarrow> time \<Rightarrow> ReviewApproval" where
  "approval_of i request attemptID purpose now =
     \<lparr>ra_id = i, ra_issue = rq_issue request, ra_target = rq_target request, ra_request = rq_id request,
      ra_attempt = attemptID, ra_purpose = purpose, ra_issue_version = rq_issue_version request,
      ra_event = rq_event request, ra_version = 1, ra_created = now\<rparr>"

definition insertReviewApprovals :: "(nat \<Rightarrow> string res) \<Rightarrow> ReviewRequest \<Rightarrow> string \<Rightarrow> time \<Rightarrow> unit tx" where
  "insertReviewApprovals fresh request attemptID now =
     tx_each (\<lambda>(index, purpose).
       tx_then (tx_lift (fresh index)) (\<lambda>i.
       exec (\<lambda>d. d\<lparr>db_approvals := db_approvals d @ [approval_of i request attemptID purpose now]\<rparr>)))
       (enumerate 0 (rq_purposes request))"

definition resolveReviewRequestForAttempt ::
  "(nat \<Rightarrow> string res) \<Rightarrow> ReviewRequest \<Rightarrow> string \<Rightarrow> time \<Rightarrow> ReviewOutcome \<Rightarrow> string option \<Rightarrow> unit tx" where
  "resolveReviewRequestForAttempt fresh request attemptID now outcome reason =
     tx_then (update_requests (claimed_by (rq_id request) attemptID)
       (set_request (reviewRequestStatusForOutcome outcome) None (Some now))) (\<lambda>affected.
     tx_then (tx_require (affected = 1) invalidCommand) (\<lambda>_.
     tx_then (exec (\<lambda>d. d\<lparr>db_outcomes := db_outcomes d @
       [\<lparr>ro_id = attemptID, ro_request = rq_id request, ro_attempt = attemptID, ro_outcome = outcome,
         ro_reason = reason, ro_version = 1, ro_created = now\<rparr>]\<rparr>)) (\<lambda>_.
     tx_then (appendReviewEvent (rq_issue request) (reviewEventTypeForOutcome outcome) (Some attemptID)
       (payloadForReviewEvent request (Some attemptID) (Some outcome) reason) now) (\<lambda>_.
     if outcome = ReviewOutcomeApproved then insertReviewApprovals fresh request attemptID now
     else tx_return ()))))"

text \<open>\<^verbatim>\<open>ORDER BY created_at DESC, id DESC LIMIT 1\<close> among the open requests of the issue.\<close>

definition newest_open_request :: "db \<Rightarrow> string \<Rightarrow> ReviewRequest option" where
  "newest_open_request d issueID =
     (let open_rows = filter (\<lambda>r. rq_issue r = issueID \<and> rq_status r = ReviewRequestStatusOpen) (db_requests d) in
      if open_rows = [] then None
      else Some (last (sort_key (\<lambda>r. (rq_created r, rq_id r)) open_rows)))"

definition storageCorruptError :: Error where
  "storageCorruptError = NewError CodeStorageCorrupt False []"

definition bindOpenReviewRequestForAttempt :: "string \<Rightarrow> string \<Rightarrow> time \<Rightarrow> unit tx" where
  "bindOpenReviewRequestForAttempt issueID attemptID now =
     tx_then (tx_read (\<lambda>d. newest_open_request d issueID)) (\<lambda>request.
     case request of
       None \<Rightarrow> tx_return ()
     | Some r \<Rightarrow>
         tx_then (reviewTargetStale issueID (rq_issue_version r) (rq_event r)) (\<lambda>stale.
         if stale then tx_return ()
         else
           tx_then (update_requests (\<lambda>x. request_at (rq_id r) (rq_version r) x \<and> rq_status x = ReviewRequestStatusOpen)
             (set_request ReviewRequestStatusClaimed (Some attemptID) None)) (\<lambda>affected.
           tx_then (tx_require (affected = 1) storageCorruptError) (\<lambda>_.
           appendReviewEvent issueID ''review_claimed'' (Some attemptID)
             (payloadForReviewEvent r (Some attemptID) None None) now))))"

section \<open>Ending an attempt\<close>

record terminateAttemptReason =
  tr_failure :: "FailureReasonCode option"
  tr_interruption :: "InterruptionReasonCode option"
  tr_release :: ReservationReleaseReason

definition terminalStatusAbandonsReviewClaim :: "AttemptStatus \<Rightarrow> bool" where
  "terminalStatusAbandonsReviewClaim status \<longleftrightarrow>
     status \<in> {AttemptStatusFailed, AttemptStatusInterrupted, AttemptStatusExpired}"

definition reservationReleaseReasonForOutcome :: "AttemptOutcome \<Rightarrow> ReservationReleaseReason" where
  "reservationReleaseReasonForOutcome outcome =
     (if outcome = AttemptOutcomeFailed then ReservationReleaseReasonFailed
      else if outcome = AttemptOutcomeInterrupted then ReservationReleaseReasonInterrupted
      else ReservationReleaseReasonCompleted)"

definition end_attempt ::
  "AttemptStatus \<Rightarrow> FailureReasonCode option \<Rightarrow> InterruptionReasonCode option \<Rightarrow> time \<Rightarrow> WorkAttempt \<Rightarrow> WorkAttempt" where
  "end_attempt status failure interruption now a =
     a\<lparr>wa_status := status, wa_finished := Some now, wa_failure := failure, wa_interruption := interruption\<rparr>"

definition active_named :: "string \<Rightarrow> WorkAttempt \<Rightarrow> bool" where
  "active_named attemptID a \<longleftrightarrow> wa_id a = attemptID \<and> is_active a"

definition terminateAttempt :: "string \<Rightarrow> AttemptStatus \<Rightarrow> terminateAttemptReason \<Rightarrow> time \<Rightarrow> bool tx" where
  "terminateAttempt attemptID finalStatus reason now =
     tx_then (update_attempts (active_named attemptID)
       (end_attempt finalStatus (tr_failure reason) (tr_interruption reason) now)) (\<lambda>affected.
     if affected = 0 then tx_return False
     else
       tx_then (releaseReservationsForAttempt attemptID (tr_release reason) now) (\<lambda>_.
       if \<not> terminalStatusAbandonsReviewClaim finalStatus then tx_return True
       else tx_then (releaseClaimedReviewRequest attemptID now) (\<lambda>_. tx_return True)))"

definition lapsed :: "time \<Rightarrow> WorkAttempt \<Rightarrow> bool" where
  "lapsed now a \<longleftrightarrow> is_active a \<and> wa_lease a \<le> now"

definition expire_row :: "time \<Rightarrow> WorkAttempt \<Rightarrow> WorkAttempt" where
  "expire_row now a = a\<lparr>wa_status := AttemptStatusExpired, wa_finished := Some now\<rparr>"

definition attemptNotFound :: Error where
  "attemptNotFound = NewError CodeAttemptNotFound False []"

definition attemptNotActive :: Error where
  "attemptNotActive = NewError CodeAttemptNotActive False []"

definition leaseExpiredError :: Error where
  "leaseExpiredError = NewError CodeLeaseExpired False []"

definition expireAttempt :: "string \<Rightarrow> time \<Rightarrow> bool tx" where
  "expireAttempt attemptID now =
     tx_then (update_attempts (\<lambda>a. wa_id a = attemptID \<and> lapsed now a) (expire_row now)) (\<lambda>affected.
     if affected = 0 then tx_return False
     else
       tx_then (tx_read (\<lambda>d. find (\<lambda>a. wa_id a = attemptID) (db_attempts d))) (\<lambda>row.
       tx_then (tx_lift (from_option storageCorruptError row)) (\<lambda>a.
       tx_then (releaseReservationsForAttempt attemptID ReservationReleaseReasonExpired now) (\<lambda>_.
       tx_then (releaseClaimedReviewRequest attemptID now) (\<lambda>_.
       tx_then (append_event (Some (wa_issue a)) ''attempt_expired'' None (Some attemptID)
         (PayloadAttempt attemptID) now SourceIssue) (\<lambda>_.
       tx_return True))))))"

definition expireAttemptsForIssue :: "string \<Rightarrow> time \<Rightarrow> unit tx" where
  "expireAttemptsForIssue issueID now =
     tx_then (tx_read (\<lambda>d. map wa_id (filter (\<lambda>a. wa_issue a = issueID \<and> lapsed now a) (db_attempts d)))) (\<lambda>attemptIDs.
     tx_each (\<lambda>i. tx_then (expireAttempt i now) (\<lambda>expired. tx_require expired storageCorruptError)) attemptIDs)"

text \<open>The result is absent when the lease had passed and the attempt has just been expired.\<close>

definition authenticateActiveAttempt ::
  "string \<Rightarrow> string \<Rightarrow> time \<Rightarrow> AttemptKind option \<Rightarrow> (string \<times> AttemptKind) option tx" where
  "authenticateActiveAttempt attemptID tokenHash now requireKind =
     tx_then (tx_read (\<lambda>d. find (\<lambda>a. wa_id a = attemptID) (db_attempts d))) (\<lambda>row.
     case row of
       None \<Rightarrow> tx_fail attemptNotFound
     | Some a \<Rightarrow>
         if \<not> is_active a then tx_fail attemptNotActive
         else if \<not> wa_lease a > now then
           tx_then (expireAttempt attemptID now) (\<lambda>wasExpired.
           if \<not> wasExpired then tx_fail storageCorruptError else tx_return None)
         else if wa_token_hash a \<noteq> tokenHash then tx_fail (NewError CodeInvalidLeaseToken False [])
         else (case requireKind of
             Some k \<Rightarrow> if wa_kind a \<noteq> k
               then tx_fail (NewError CodeInvalidArgument False [detail ''attempt_id'' ''WRONG_KIND''])
               else tx_return (Some (wa_issue a, wa_kind a))
           | None \<Rightarrow> tx_return (Some (wa_issue a, wa_kind a))))"

definition appendAttemptCancelledEvent :: "string \<Rightarrow> string \<Rightarrow> time \<Rightarrow> unit tx" where
  "appendAttemptCancelledEvent issueID attemptID now =
     append_event (Some issueID) ''attempt_cancelled'' None (Some attemptID)
       (PayloadAttemptCancelled attemptID ''review_request_cancelled'') now SourceIssue"

section \<open>Changes during an attempt\<close>

definition issueArchived :: Error where
  "issueArchived = NewError CodeIssueArchived False []"

fun collect_changes :: "string list \<Rightarrow> Event list \<Rightarrow> string list res" where
  "collect_changes allChangedFields [] = Inr allChangedFields"
| "collect_changes allChangedFields (e # es) =
     (if ev_type e = ''issue_archived'' then Inl issueArchived
      else if ev_type e \<notin> {''issue_updated'', ''status_changed'', ''labels_changed''}
      then collect_changes allChangedFields es
      else (case changed_fields (ev_payload e) of
          None \<Rightarrow> Inl storageCorruptError
        | Some changed \<Rightarrow> collect_changes (allChangedFields @ changed) es))"

definition completionIssueChanges :: "db \<Rightarrow> string \<Rightarrow> int \<Rightarrow> (string list \<times> string list) res" where
  "completionIssueChanges d issueID startID =
     and_then (collect_changes [] (sort_key ev_id (filter (event_since issueID startID) (db_events d)))) (\<lambda>changed.
     Inr (ClassifyIssueChanges changed))"

end
