(* ===== verification/Attempts.thy ===== *)
theory Attempts
  imports AttemptCore
begin

text \<open>
  The attempt repository (\<^verbatim>\<open>internal/adapters/sqlite/attempts.go\<close>) with its commands and results
  (\<^verbatim>\<open>internal/ports/attempts.go\<close>): claiming an issue, renewing and expiring leases, notes, resource
  reservations under a lease, and forced release. Finishing an attempt is in \<open>FinishAttempts\<close>. The
  Go time \<^verbatim>\<open>now.Add(d)\<close> is integer addition. Attempts in results carry no token hash, which the Go
  struct does not have either.
\<close>

section \<open>Shared steps\<close>

definition validAttemptSessionID :: "env \<Rightarrow> string option \<Rightarrow> bool" where
  "validAttemptSessionID env v =
     (case v of None \<Rightarrow> True | Some s \<Rightarrow> ids_ParseStrict env s \<and> length s = 26)"

text \<open>The idempotent replay in front of a mutation: a saved response is decoded and returned.\<close>

definition with_replay ::
  "string \<Rightarrow> string \<Rightarrow> string \<Rightarrow> (Response \<Rightarrow> 'a res) \<Rightarrow> 'a res tx \<Rightarrow> 'a res tx" where
  "with_replay operation key requestHash decode body =
     tx_then (lookup_idempotency operation key requestHash) (\<lambda>saved.
     case saved of
       Some response \<Rightarrow> tx_then (tx_lift (decode response)) (\<lambda>x. tx_return (Inr x))
     | None \<Rightarrow> body)"

text \<open>The read-only lookups that serve a replay before identifiers are allocated.\<close>

definition lookup_saved :: "string \<Rightarrow> (Response \<Rightarrow> 'a res) \<Rightarrow> string \<Rightarrow> string \<Rightarrow> db \<Rightarrow> 'a option res" where
  "lookup_saved operation decode key requestHash d =
     (case find_idempotency d operation key of
        None \<Rightarrow> Inr None
      | Some r \<Rightarrow>
          if ir_hash r \<noteq> requestHash then Inl idempotencyConflict
          else and_then (decode (ir_response r)) (\<lambda>x. Inr (Some x)))"

definition response_claim :: "Response \<Rightarrow> ClaimIssueResult res" where
  "response_claim r = (case r of ResponseClaim x \<Rightarrow> Inr x | _ \<Rightarrow> Inl storedResponseInvalid)"

definition response_note :: "Response \<Rightarrow> SaveAttemptNoteResult res" where
  "response_note r = (case r of ResponseNote x \<Rightarrow> Inr x | _ \<Rightarrow> Inl storedResponseInvalid)"

text \<open>
  A step under a lease: when the lease had passed, the attempt is expired, the transaction commits
  and the operation reports \<^verbatim>\<open>LEASE_EXPIRED\<close>.
\<close>

definition under_lease ::
  "string \<Rightarrow> string \<Rightarrow> time \<Rightarrow> AttemptKind option \<Rightarrow> (string \<Rightarrow> AttemptKind \<Rightarrow> 'a res tx) \<Rightarrow> 'a res tx" where
  "under_lease attemptID tokenHash now requireKind body =
     tx_then (authenticateActiveAttempt attemptID tokenHash now requireKind) (\<lambda>authenticated.
     case authenticated of
       None \<Rightarrow> tx_return (Inl leaseExpiredError)
     | Some owner \<Rightarrow> body (fst owner) (snd owner))"

section \<open>Claiming an issue\<close>

record ClaimIssueCommand =
  cc_identifier :: IssueIdentifier
  cc_attempt :: string
  cc_session :: "string option"
  cc_token_hash :: string
  cc_token :: string
  cc_duration :: int
  cc_now :: time
  cc_resources :: "(string \<times> Resource) list"
  cc_key :: string
  cc_hash :: string

definition claimReplayNotActive :: Error where
  "claimReplayNotActive = NewError CodeAttemptNotActive False [detail ''attempt_id'' ''NOT_ACTIVE'']"

definition rotate_lease :: "string \<Rightarrow> time \<Rightarrow> WorkAttempt \<Rightarrow> WorkAttempt" where
  "rotate_lease tokenHash expires a = a\<lparr>wa_token_hash := tokenHash, wa_lease := expires\<rparr>"

definition replay_claim :: "ClaimIssueCommand \<Rightarrow> ClaimIssueResult \<Rightarrow> ClaimIssueResult res tx" where
  "replay_claim c result =
     (let i = wa_id (cir_attempt result); expires = cc_now c + cc_duration c in
      tx_then (tx_read (\<lambda>d. find (\<lambda>a. wa_id a = i) (db_attempts d))) (\<lambda>row.
      case row of
        None \<Rightarrow> tx_fail storageCorruptError
      | Some a \<Rightarrow>
          if \<not> is_active a then tx_return (Inl claimReplayNotActive)
          else
            tx_then (if \<not> wa_lease a > cc_now c then expireAttempt i (cc_now c) else tx_return False) (\<lambda>expired.
            if expired then tx_return (Inl claimReplayNotActive)
            else
              tx_then (update_attempts (active_named i) (rotate_lease (cc_token_hash c) expires)) (\<lambda>affected.
              if affected \<noteq> 1 then tx_return (Inl claimReplayNotActive)
              else tx_return (Inr (result\<lparr>cir_attempt := (cir_attempt result)\<lparr>wa_lease := expires\<rparr>,
                                         cir_token := cc_token c\<rparr>))))))"

definition has_active_attempt :: "db \<Rightarrow> string \<Rightarrow> bool" where
  "has_active_attempt d issueID \<longleftrightarrow> list_ex (\<lambda>a. wa_issue a = issueID \<and> is_active a) (db_attempts d)"

definition started_attempt :: "ClaimIssueCommand \<Rightarrow> Issue \<Rightarrow> AttemptKind \<Rightarrow> int \<Rightarrow> WorkAttempt" where
  "started_attempt c issue kind latestEventID =
     \<lparr>wa_id = cc_attempt c, wa_issue = IID issue, wa_session = cc_session c, wa_label = None, wa_kind = kind,
      wa_status = AttemptStatusActive, wa_version_at_start = IVersion issue, wa_event_at_start = latestEventID,
      wa_lease = cc_now c + cc_duration c, wa_started = cc_now c, wa_heartbeat = cc_now c, wa_finished = None,
      wa_summary = None, wa_next_steps = [], wa_verification = [], wa_failure = None, wa_interruption = None,
      wa_details = None, wa_token_hash = cc_token_hash c\<rparr>"

definition without_token :: "WorkAttempt \<Rightarrow> WorkAttempt" where
  "without_token a = a\<lparr>wa_token_hash := ''''\<rparr>"

text \<open>\<^verbatim>\<open>isActiveAttemptConstraint\<close>: whatever constraint the insert violates is read as an active attempt.\<close>

definition insert_attempt :: "WorkAttempt \<Rightarrow> unit tx" where
  "insert_attempt a d =
     (let d' = d\<lparr>db_attempts := db_attempts d @ [a]\<rparr> in
      if schema_ok d' then Inr (d', ()) else Inl (NewError CodeActiveAttemptExists False []))"

text \<open>What the new attempt takes along: a review attempt binds the open request, a work attempt its resources.\<close>

definition claim_extras ::
  "env \<Rightarrow> ClaimIssueCommand \<Rightarrow> PreparedResource list \<Rightarrow> string \<Rightarrow> AttemptKind \<Rightarrow> Reservation list tx" where
  "claim_extras env c prepared issueID kind =
     (if kind = AttemptKindReview then
        (if length (cc_resources c) > 0
         then tx_fail (NewError CodeInvalidArgument False [detail ''resources'' ''REVIEW_ATTEMPT_NOT_ELIGIBLE''])
         else tx_then (bindOpenReviewRequestForAttempt issueID (cc_attempt c) (cc_now c)) (\<lambda>_. tx_return []))
      else if length (cc_resources c) > 0
      then acquireReservationsForAttempt env prepared (cc_resources c) issueID (cc_attempt c) (cc_session c) (cc_now c)
      else tx_return [])"

definition start_claim ::
  "env \<Rightarrow> ClaimIssueCommand \<Rightarrow> PreparedResource list \<Rightarrow> ClaimIssueResult res tx" where
  "start_claim env c prepared =
     tx_then (loadIssueForMutation (cc_identifier c)) (\<lambda>issue.
     tx_then (expireAttemptsForIssue (IID issue) (cc_now c)) (\<lambda>_.
     tx_then (tx_read (\<lambda>d. (unresolved_blocker_count d (IID issue), has_active_attempt d (IID issue)))) (\<lambda>(blockerCount, active).
     tx_then (tx_lift (EvaluateClaim issue blockerCount active)) (\<lambda>kind.
     tx_then (evaluateGateAgainstLivePolicies EnforcementPointClaimWork (IType issue) (labelNames issue)
       \<lparr>AcceptanceCriteriaBlank = acceptanceCriteriaBlank (AcceptanceCriteria issue),
        AttemptEvidenceKeys = [], ReviewApprovalPurposes = []\<rparr>) (\<lambda>(gateRequirements, gateSourcePolicies).
     tx_then (tx_read latest_event) (\<lambda>latestEventID.
     tx_then (insert_attempt (started_attempt c issue kind latestEventID)) (\<lambda>_.
     tx_then (insertAttemptGateSnapshot (cc_attempt c)
       (NewGateSnapshot gateRequirements gateSourcePolicies (IVersion issue) (cc_now c))) (\<lambda>_.
     tx_then (append_event (Some (IID issue)) ''attempt_started'' (cc_session c) (Some (cc_attempt c))
       (PayloadAttemptStarted (cc_attempt c) kind) (cc_now c) SourceIssue) (\<lambda>_.
     tx_then (claim_extras env c prepared (IID issue) kind) (\<lambda>reservations.
     tx_then (queryIssueProjectionByID (IID issue) (cc_now c)) (\<lambda>projection.
     let result = \<lparr>cir_issue = issue, cir_projection = projection,
                   cir_attempt = without_token (started_attempt c issue kind latestEventID),
                   cir_reservations = reservations, cir_token = cc_token c\<rparr> in
     tx_then (store_idempotency ''claim_issue'' (cc_key c) (cc_hash c) (ResponseClaim (result\<lparr>cir_token := ''''\<rparr>))) (\<lambda>_.
     tx_return (Inr result)))))))))))))"

definition ClaimIssue :: "env \<Rightarrow> ClaimIssueCommand \<Rightarrow> db \<Rightarrow> db \<times> ClaimIssueResult res" where
  "ClaimIssue env c d =
     (if \<not> validAttemptSessionID env (cc_session c) then (d, Inl invalidCommand)
      else if \<not> ids_ParseStrict env (cc_attempt c) \<or> length (cc_token_hash c) \<noteq> 32 \<or> cc_duration c \<le> 0
      then (d, Inl invalidCommand)
      else (case (if length (cc_resources c) > 0 then prepare_resources env (cc_resources c) else Inr []) of
        Inl e \<Rightarrow> (d, Inl e)
      | Inr prepared \<Rightarrow> Write (
          tx_then (lookup_idempotency ''claim_issue'' (cc_key c) (cc_hash c)) (\<lambda>saved.
          case saved of
            Some response \<Rightarrow> tx_then (tx_lift (response_claim response)) (\<lambda>result. replay_claim c result)
          | None \<Rightarrow> start_claim env c prepared)) d))"

section \<open>Leases\<close>

record RenewAttemptCommand =
  rc_attempt :: string
  rc_session :: "string option"
  rc_token_hash :: string
  rc_duration :: int
  rc_now :: time

record RenewAttemptResult =
  rar_expires :: time
  rar_server :: time

definition renew_lease :: "time \<Rightarrow> time \<Rightarrow> WorkAttempt \<Rightarrow> WorkAttempt" where
  "renew_lease expires now a = a\<lparr>wa_lease := expires, wa_heartbeat := now\<rparr>"

definition RenewAttempt :: "env \<Rightarrow> RenewAttemptCommand \<Rightarrow> db \<Rightarrow> db \<times> RenewAttemptResult res" where
  "RenewAttempt env c d =
     (if \<not> validAttemptSessionID env (rc_session c) then (d, Inl invalidCommand)
      else if \<not> ids_ParseStrict env (rc_attempt c) \<or> length (rc_token_hash c) \<noteq> 32 \<or> rc_duration c \<le> 0
      then (d, Inl invalidCommand)
      else Write (under_lease (rc_attempt c) (rc_token_hash c) (rc_now c) None (\<lambda>issueID kind.
        tx_then (update_attempts (active_named (rc_attempt c)) (renew_lease (rc_now c + rc_duration c) (rc_now c))) (\<lambda>affected.
        tx_then (tx_require (affected = 1) attemptNotActive) (\<lambda>_.
        tx_return (Inr \<lparr>rar_expires = rc_now c + rc_duration c, rar_server = rc_now c\<rparr>))))) d)"

definition expire_counting :: "time \<Rightarrow> string \<Rightarrow> nat tx" where
  "expire_counting now i = tx_then (expireAttempt i now) (\<lambda>expired. tx_return (if expired then 1 else 0))"

definition ExpireAttempts :: "time \<Rightarrow> db \<Rightarrow> db \<times> nat res" where
  "ExpireAttempts now d =
     (if IsZero now then (d, Inl invalidCommand)
      else Write (
        tx_then (tx_read (\<lambda>d. sort (map wa_id (filter (lapsed now) (db_attempts d))))) (\<lambda>attemptIDs.
        tx_then (tx_map (expire_counting now) attemptIDs) (\<lambda>counts.
        tx_return (Inr (sum_list counts))))) d)"

section \<open>Artifacts and notes\<close>

fun attempt_artifact_inputs :: "env \<Rightarrow> time \<Rightarrow> nat \<Rightarrow> Artifact list \<Rightarrow> ArtifactInput list res" where
  "attempt_artifact_inputs env now index [] = Inr []"
| "attempt_artifact_inputs env now index (a # rest) =
     (if \<not> ids_ParseStrict env (af_id a) \<or> af_issue a \<noteq> '''' \<or> af_attempt a \<noteq> None \<or> af_created a \<noteq> now
      then Inl (NewError CodeInvalidArgument False [detail (''artifacts['' @ Itoa index @ '']'') ''INVALID_VALUE''])
      else and_then (attempt_artifact_inputs env now (Suc index) rest) (\<lambda>rest'. Inr (af_input a # rest')))"

definition validateAttemptArtifacts :: "env \<Rightarrow> Artifact list \<Rightarrow> time \<Rightarrow> Artifact list res" where
  "validateAttemptArtifacts env values now =
     (if int (length values) > MaxArtifactsPerAttemptMutation
      then Inl (NewError CodeLimitExceeded False [detail ''artifacts'' ''MAX_ITEMS''])
      else
        and_then (attempt_artifact_inputs env now 0 values) (\<lambda>inputs.
        and_then (ValidateArtifactInputs env ''artifacts'' inputs) (\<lambda>normalized.
        Inr (map2 (\<lambda>a n. a\<lparr>af_input := n, af_created := now\<rparr>) values normalized))))"

definition insert_artifact :: "string \<Rightarrow> string \<Rightarrow> time \<Rightarrow> Artifact \<Rightarrow> Artifact tx" where
  "insert_artifact issueID attemptID now a =
     (let row = a\<lparr>af_issue := issueID, af_attempt := Some attemptID, af_created := now\<rparr> in
      tx_then (exec (\<lambda>d. d\<lparr>db_artifacts := db_artifacts d @ [row]\<rparr>)) (\<lambda>_. tx_return row))"

record SaveAttemptNoteCommand =
  nc_note :: string
  nc_attempt :: string
  nc_session :: "string option"
  nc_token_hash :: string
  nc_kind :: AttemptNoteKind
  nc_content :: string
  nc_next_steps :: "string list"
  nc_important :: bool
  nc_artifacts :: "Artifact list"
  nc_now :: time
  nc_key :: string
  nc_hash :: string

definition saved_note :: "SaveAttemptNoteCommand \<Rightarrow> AttemptNote" where
  "saved_note c = \<lparr>an_id = nc_note c, an_attempt = nc_attempt c, an_kind = nc_kind c, an_content = nc_content c,
     an_next_steps = nc_next_steps c, an_important = nc_important c, an_created = nc_now c\<rparr>"

definition SaveAttemptNote :: "env \<Rightarrow> SaveAttemptNoteCommand \<Rightarrow> db \<Rightarrow> db \<times> SaveAttemptNoteResult res" where
  "SaveAttemptNote env c d =
     (if \<not> validAttemptSessionID env (nc_session c) then (d, Inl invalidCommand)
      else if \<not> ids_ParseStrict env (nc_note c) then (d, Inl invalidCommand)
      else if \<not> ids_ParseStrict env (nc_attempt c) \<or> length (nc_token_hash c) \<noteq> 32 \<or> \<not> AttemptNoteKind_Valid (nc_kind c)
      then (d, Inl invalidCommand)
      else (case validateAttemptArtifacts env (nc_artifacts c) (nc_now c) of
        Inl e \<Rightarrow> (d, Inl e)
      | Inr artifacts \<Rightarrow> Write (
          with_replay ''save_attempt_note'' (nc_key c) (nc_hash c) response_note (
          under_lease (nc_attempt c) (nc_token_hash c) (nc_now c) None (\<lambda>issueID kind.
          tx_then (exec (\<lambda>d. d\<lparr>db_notes := db_notes d @ [saved_note c]\<rparr>)) (\<lambda>_.
          tx_then (tx_map (insert_artifact issueID (nc_attempt c) (nc_now c)) artifacts) (\<lambda>stored.
          tx_then (append_event (Some issueID)
            (if nc_kind c = AttemptNoteKindCheckpoint then ''checkpoint_saved'' else ''attempt_note_saved'')
            (nc_session c) (Some (nc_attempt c)) (PayloadNote (nc_note c) (nc_kind c)) (nc_now c) SourceIssue) (\<lambda>_.
          let result = \<lparr>snr_note = saved_note c, snr_artifacts = stored\<rparr> in
          tx_then (store_idempotency ''save_attempt_note'' (nc_key c) (nc_hash c) (ResponseNote result)) (\<lambda>_.
          tx_return (Inr result)))))))) d))"

definition LookupSaveAttemptNote :: "string \<Rightarrow> string \<Rightarrow> db \<Rightarrow> SaveAttemptNoteResult option res" where
  "LookupSaveAttemptNote = lookup_saved ''save_attempt_note'' response_note"

section \<open>Reservations under a lease\<close>

record ReserveResourcesCommand =
  vc_attempt :: string
  vc_session :: "string option"
  vc_token_hash :: string
  vc_resources :: "(string \<times> Resource) list"
  vc_now :: time
  vc_key :: string
  vc_hash :: string

definition ReserveResources :: "env \<Rightarrow> ReserveResourcesCommand \<Rightarrow> db \<Rightarrow> db \<times> Reservation list res" where
  "ReserveResources env c d =
     (if \<not> validAttemptSessionID env (vc_session c) then (d, Inl invalidCommand)
      else if \<not> ids_ParseStrict env (vc_attempt c) \<or> length (vc_token_hash c) \<noteq> 32 then (d, Inl invalidCommand)
      else (case prepare_resources env (vc_resources c) of
        Inl e \<Rightarrow> (d, Inl e)
      | Inr prepared \<Rightarrow> Write (
          with_replay ''reserve_resources'' (vc_key c) (vc_hash c) response_reservations (
          under_lease (vc_attempt c) (vc_token_hash c) (vc_now c) (Some AttemptKindWork) (\<lambda>issueID kind.
          tx_then (acquireReservationsForAttempt env prepared (vc_resources c) issueID (vc_attempt c)
            (vc_session c) (vc_now c)) (\<lambda>reservations.
          tx_then (store_idempotency ''reserve_resources'' (vc_key c) (vc_hash c) (ResponseReservations reservations)) (\<lambda>_.
          tx_return (Inr reservations)))))) d))"

definition LookupReserveResources :: "string \<Rightarrow> string \<Rightarrow> db \<Rightarrow> Reservation list option res" where
  "LookupReserveResources = lookup_saved ''reserve_resources'' response_reservations"

record ReleaseResourcesCommand =
  lc_attempt :: string
  lc_session :: "string option"
  lc_token_hash :: string
  lc_ids :: "string list"
  lc_now :: time
  lc_key :: string
  lc_hash :: string

definition ReleaseResources :: "env \<Rightarrow> ReleaseResourcesCommand \<Rightarrow> db \<Rightarrow> db \<times> Reservation list res" where
  "ReleaseResources env c d =
     (if \<not> validAttemptSessionID env (lc_session c) then (d, Inl invalidCommand)
      else if \<not> ids_ParseStrict env (lc_attempt c) \<or> length (lc_token_hash c) \<noteq> 32 then (d, Inl invalidCommand)
      else Write (
        with_replay ''release_resources'' (lc_key c) (lc_hash c) response_reservations (
        under_lease (lc_attempt c) (lc_token_hash c) (lc_now c) (Some AttemptKindWork) (\<lambda>issueID kind.
        tx_then (releaseResourcesForAttempt env (lc_attempt c) (lc_ids c) (lc_session c)
          ReservationReleaseReasonExplicit (lc_now c)) (\<lambda>released.
        tx_then (store_idempotency ''release_resources'' (lc_key c) (lc_hash c) (ResponseReservations released)) (\<lambda>_.
        tx_return (Inr released)))))) d)"

definition LookupReleaseResources :: "string \<Rightarrow> string \<Rightarrow> db \<Rightarrow> Reservation list option res" where
  "LookupReleaseResources = lookup_saved ''release_resources'' response_reservations"

end
