(* ===== verification/FinishAttempts.thy ===== *)
theory FinishAttempts
  imports Attempts
begin

text \<open>
  Finishing an attempt, releasing it by force, and gate evidence (\<^verbatim>\<open>attempts.go\<close>, \<^verbatim>\<open>gate_evidence.go\<close>,
  \<^verbatim>\<open>internal/domain/gate_evidence.go\<close>, the row scanner of \<^verbatim>\<open>activity.go\<close>).
\<close>

section \<open>Stored finish responses\<close>

record FinishAttemptCommand =
  fc_attempt :: string
  fc_session :: "string option"
  fc_token_hash :: string
  fc_input :: FinishAttemptInput
  fc_artifacts :: "Artifact list"
  fc_key :: string
  fc_hash :: string
  fc_now :: time

definition validateFinishIdempotency :: "string \<Rightarrow> string \<Rightarrow> unit res" where
  "validateFinishIdempotency key hash =
     and_then (ValidateText ''idempotency_key'' key MaxIdempotencyKeyRunes) (\<lambda>_.
     require (\<not> (TrimSpace key = '''' \<or> length hash \<noteq> 32))
       (NewError CodeInvalidArgument False [detail ''idempotency_key'' ''REQUIRED'']))"

definition stored_artifact_ok :: "env \<Rightarrow> string \<Rightarrow> string \<Rightarrow> Artifact \<Rightarrow> bool" where
  "stored_artifact_ok env issueID attemptID a \<longleftrightarrow>
     ids_ParseStrict env (af_id a) \<and> af_issue a = issueID \<and> af_attempt a = Some attemptID \<and> \<not> IsZero (af_created a) \<and>
     (case ValidateArtifactInputs env ''artifacts'' [af_input a] of
        Inr [n] \<Rightarrow> art_metadata n = art_metadata (af_input a)
      | _ \<Rightarrow> False)"

definition validateStoredFinishResult :: "env \<Rightarrow> FinishAttemptResult \<Rightarrow> unit res" where
  "validateStoredFinishResult env r =
     (let a = far_attempt r; i = far_issue r in
      require
        (ids_ParseStrict env (wa_id a) \<and> wa_issue a \<noteq> '''' \<and> ids_ParseStrict env (wa_issue a) \<and>
         ids_ParseStrict env (IID i) \<and> wa_issue a = IID i \<and> AttemptKind_Valid (wa_kind a) \<and> far_latest r \<ge> 0 \<and>
         (case wa_finished a of None \<Rightarrow> False | Some t \<Rightarrow> \<not> IsZero t) \<and>
         \<not> IsZero (wa_lease a) \<and> \<not> IsZero (wa_started a) \<and> \<not> IsZero (wa_heartbeat a) \<and>
         \<not> IsZero (CreatedAt i) \<and> \<not> IsZero (UpdatedAt i) \<and>
         Type_Valid (IType i) \<and> Status_Valid (IStatus i) \<and> Priority_Valid (IPriority i) \<and>
         ClosedAt i \<noteq> Some 0 \<and> ArchivedAt i \<noteq> Some 0 \<and>
         list_all (stored_artifact_ok env (IID i) (wa_id a)) (far_artifacts r))
        storedResponseInvalid)"

definition response_finish :: "env \<Rightarrow> Response \<Rightarrow> FinishAttemptResult res" where
  "response_finish env r =
     (case r of
        ResponseFinish x \<Rightarrow> and_then (validateStoredFinishResult env x) (\<lambda>_. Inr x)
      | _ \<Rightarrow> Inl storedResponseInvalid)"

definition LookupFinishedAttempt :: "env \<Rightarrow> string \<Rightarrow> string \<Rightarrow> db \<Rightarrow> FinishAttemptResult option res" where
  "LookupFinishedAttempt env key hash d =
     and_then (validateFinishIdempotency key hash) (\<lambda>_.
     lookup_saved ''finish_attempt'' (response_finish env) key hash d)"

section \<open>Finishing\<close>

text \<open>\<^verbatim>\<open>domain.AttemptStatus(input.Outcome)\<close>: an unknown outcome is refused by validation.\<close>

fun outcome_status :: "AttemptOutcome \<Rightarrow> AttemptStatus" where
  "outcome_status AttemptOutcomeCompleted = AttemptStatusCompleted"
| "outcome_status AttemptOutcomeFailed = AttemptStatusFailed"
| "outcome_status AttemptOutcomeInterrupted = AttemptStatusInterrupted"
| "outcome_status (AttemptOutcome_other s) = AttemptStatusActive"

definition reviewPurposeSet :: "string list \<Rightarrow> string list" where
  "reviewPurposeSet purposes = purposes"

definition claimed_for :: "string \<Rightarrow> ReviewRequest option \<Rightarrow> ReviewRequest option" where
  "claimed_for attemptID request =
     (case request of
        None \<Rightarrow> None
      | Some r \<Rightarrow> if rq_status r = ReviewRequestStatusClaimed \<and> rq_attempt r = Some attemptID then Some r else None)"

definition has_unresolved_request :: "db \<Rightarrow> string \<Rightarrow> bool" where
  "has_unresolved_request d issueID \<longleftrightarrow> list_ex (\<lambda>r. rq_issue r = issueID \<and> is_unresolved r) (db_requests d)"

definition reviewRequestRequired :: Error where
  "reviewRequestRequired = NewError CodeReviewRequestRequired False [detail ''review_request_id'' CodeReviewRequestRequired]"

text \<open>
  The review part of a completed review attempt. The result says whether the bound target was found
  stale, in which case the request is superseded, the attempt cancelled, and the operation ends there.
\<close>

definition supersede_stale_review :: "ReviewRequest \<Rightarrow> string \<Rightarrow> string \<Rightarrow> time \<Rightarrow> unit tx" where
  "supersede_stale_review request issueID attemptID now =
     tx_then (supersedeReviewRequestForAttempt request attemptID now) (\<lambda>_.
     tx_then (terminateAttempt attemptID AttemptStatusCancelled
       \<lparr>tr_failure = None, tr_interruption = None, tr_release = ReservationReleaseReasonForceReleased\<rparr> now) (\<lambda>terminated.
     if terminated then appendAttemptCancelledEvent issueID attemptID now else tx_return ()))"

definition finish_review_request :: "string \<Rightarrow> FinishAttemptInput \<Rightarrow> string \<Rightarrow> time \<Rightarrow> (bool \<times> ReviewRequest option) tx" where
  "finish_review_request attemptID input issueID now =
     tx_then (tx_read (\<lambda>d. loadActiveReviewRequestForAttempt d attemptID)) (\<lambda>reviewRequest.
     tx_then (case claimed_for attemptID reviewRequest of
         None \<Rightarrow> tx_return False
       | Some r \<Rightarrow> reviewTargetStale issueID (rq_issue_version r) (rq_event r)) (\<lambda>stale.
     if stale then
       tx_then (supersede_stale_review (the reviewRequest) issueID attemptID now) (\<lambda>_. tx_return (True, reviewRequest))
     else
       tx_then (tx_read (\<lambda>d. has_unresolved_request d issueID)) (\<lambda>unresolved.
       tx_then (tx_require (\<not> (reviewRequest = None \<and> fin_review input = Some ReviewOutcomeApproved \<and> unresolved))
         reviewRequestRequired) (\<lambda>_.
       tx_return (False, reviewRequest)))))"

definition acknowledged :: "FinishAttemptInput \<Rightarrow> Issue \<Rightarrow> int \<Rightarrow> bool" where
  "acknowledged input issue latestEventID \<longleftrightarrow>
     (case fin_ack input of
        None \<Rightarrow> False
      | Some ack \<Rightarrow> ack_version ack = IVersion issue \<and> ack_event ack = latestEventID)"

definition issueChangedDuringAttempt :: "Detail list \<Rightarrow> Error" where
  "issueChangedDuringAttempt details = NewError CodeIssueChangedDuringAttempt True details"

definition finish_gate ::
  "AttemptKind \<Rightarrow> FinishAttemptInput \<Rightarrow> Status \<Rightarrow> Issue \<Rightarrow> string \<Rightarrow> ReviewRequest option \<Rightarrow> unit tx" where
  "finish_gate kind input target issue attemptID reviewRequest =
     (case enforcementPointForFinish kind target (fin_review input) of
        None \<Rightarrow> tx_return ()
      | Some point \<Rightarrow>
          tx_then (tx_read (\<lambda>d.
            \<lparr>AcceptanceCriteriaBlank = acceptanceCriteriaBlank (AcceptanceCriteria issue),
             AttemptEvidenceKeys =
               (if point \<in> {EnforcementPointCompleteWorkToReview, EnforcementPointCompleteWorkToDone}
                then loadAttemptEvidenceKeys d attemptID else []),
             ReviewApprovalPurposes =
               (if point = EnforcementPointCompleteWorkToDone
                then loadIssueReviewApprovalPurposes d (IID issue) else [])\<rparr>)) (\<lambda>finishEvidence.
          if point = EnforcementPointApproveReview \<and> reviewRequest \<noteq> None then
            evaluateGateAgainstReviewTargetSnapshot (rq_target (the reviewRequest))
              (finishEvidence\<lparr>ReviewApprovalPurposes := reviewPurposeSet (rq_purposes (the reviewRequest))\<rparr>)
          else evaluateGateAgainstAttemptSnapshot point attemptID finishEvidence))"

definition finished_issue :: "Status \<Rightarrow> string \<Rightarrow> time \<Rightarrow> time option \<Rightarrow> Issue \<Rightarrow> Issue" where
  "finished_issue target blockedReason now closedAt i =
     i\<lparr>IStatus := target, BlockedReason := (if blockedReason = '''' then None else Some blockedReason),
       IVersion := IVersion i + 1, UpdatedAt := now, ClosedAt := closedAt\<rparr>"

definition unarchived_at :: "string \<Rightarrow> int \<Rightarrow> Issue \<Rightarrow> bool" where
  "unarchived_at i v x \<longleftrightarrow> IID x = i \<and> IVersion x = v \<and> ArchivedAt x = None"

definition complete_issue ::
  "(nat \<Rightarrow> string res) \<Rightarrow> AttemptKind \<Rightarrow> FinishAttemptInput \<Rightarrow> Status \<Rightarrow> Issue \<Rightarrow> string \<Rightarrow> ReviewRequest option \<Rightarrow> time \<Rightarrow> Issue tx" where
  "complete_issue fresh kind input target issue attemptID reviewRequest now =
     (if fin_outcome input \<noteq> AttemptOutcomeCompleted then tx_return issue
      else
        tx_then (tx_lift (ApplyFinishTransition (IStatus issue) target
          (case fin_blocked_reason input of None \<Rightarrow> '''' | Some s \<Rightarrow> s))) (\<lambda>blockedReason.
        tx_then (finish_gate kind input target issue attemptID reviewRequest) (\<lambda>_.
        let closedAt = NextClosedAt (IStatus issue) target now (ClosedAt issue) in
        tx_then (update_issues (unarchived_at (IID issue) (IVersion issue)) (finished_issue target blockedReason now closedAt)) (\<lambda>affected.
        if affected \<noteq> 1 then classifyConditionalUpdateFailure (IID issue)
        else
          tx_then (case claimed_for attemptID reviewRequest of
              None \<Rightarrow> tx_return ()
            | Some r \<Rightarrow> resolveReviewRequestForAttempt fresh r attemptID now (the (fin_review input)) (fin_blocked_reason input)) (\<lambda>_.
          tx_return (finished_issue target blockedReason now closedAt issue))))))"

definition record_outcome :: "FinishAttemptInput \<Rightarrow> WorkAttempt \<Rightarrow> WorkAttempt" where
  "record_outcome input a =
     a\<lparr>wa_summary := Some (fin_summary input), wa_next_steps := fin_next_steps input,
       wa_verification := fin_verification input, wa_details := fin_details input\<rparr>"

definition finish_event_type :: "AttemptOutcome \<Rightarrow> string" where
  "finish_event_type outcome =
     (if outcome = AttemptOutcomeFailed then ''attempt_failed''
      else if outcome = AttemptOutcomeInterrupted then ''attempt_interrupted''
      else ''attempt_completed'')"

text \<open>The attempt the response shows: the row as loaded, overwritten by what the input provides.\<close>

definition or_stored :: "'a option \<Rightarrow> 'a option \<Rightarrow> 'a option" where
  "or_stored new old = (case new of None \<Rightarrow> old | Some x \<Rightarrow> Some x)"

definition finished_attempt :: "FinishAttemptInput \<Rightarrow> time \<Rightarrow> WorkAttempt \<Rightarrow> WorkAttempt" where
  "finished_attempt input now a =
     without_token (a\<lparr>wa_status := outcome_status (fin_outcome input), wa_finished := Some now,
       wa_summary := (if fin_summary input \<noteq> '''' then Some (fin_summary input) else wa_summary a),
       wa_next_steps := fin_next_steps input, wa_verification := fin_verification input,
       wa_failure := or_stored (fin_failure input) (wa_failure a),
       wa_interruption := or_stored (fin_interruption input) (wa_interruption a),
       wa_details := or_stored (fin_details input) (wa_details a)\<rparr>)"

definition close_attempt ::
  "FinishAttemptCommand \<Rightarrow> FinishAttemptInput \<Rightarrow> Artifact list \<Rightarrow> Status \<Rightarrow> WorkAttempt \<Rightarrow> Issue \<Rightarrow> string list \<Rightarrow>
     FinishAttemptResult res tx" where
  "close_attempt c input artifacts target row issue warnings =
     tx_then (terminateAttempt (fc_attempt c) (outcome_status (fin_outcome input))
       \<lparr>tr_failure = fin_failure input, tr_interruption = fin_interruption input,
        tr_release = reservationReleaseReasonForOutcome (fin_outcome input)\<rparr> (fc_now c)) (\<lambda>terminated.
     tx_then (tx_require terminated attemptNotActive) (\<lambda>_.
     tx_then (update_attempts (\<lambda>a. wa_id a = fc_attempt c) (record_outcome input)) (\<lambda>_.
     tx_then (tx_map (insert_artifact (IID issue) (fc_attempt c) (fc_now c)) artifacts) (\<lambda>stored.
     tx_then (append_event (Some (IID issue)) (finish_event_type (fin_outcome input)) (fc_session c) (Some (fc_attempt c))
       (PayloadAttemptFinished (fc_attempt c) (fin_outcome input)
         (if fin_outcome input = AttemptOutcomeCompleted then Some target else None)
         (fin_failure input) (fin_interruption input)) (fc_now c) SourceIssue) (\<lambda>_.
     tx_then (tx_read latest_event) (\<lambda>latestEventID.
     let result = \<lparr>far_attempt = finished_attempt input (fc_now c) row, far_issue = issue, far_warnings = warnings,
                   far_latest = latestEventID, far_artifacts = stored\<rparr> in
     tx_then (store_idempotency ''finish_attempt'' (fc_key c) (fc_hash c) (ResponseFinish result)) (\<lambda>_.
     tx_return (Inr result))))))))"

text \<open>What follows once the bound review request, if any, is known to be fresh.\<close>

definition finish_decided ::
  "(nat \<Rightarrow> string res) \<Rightarrow> FinishAttemptCommand \<Rightarrow> FinishAttemptInput \<Rightarrow> Artifact list \<Rightarrow> WorkAttempt \<Rightarrow> Issue \<Rightarrow> int \<Rightarrow>
     ReviewRequest option \<Rightarrow> FinishAttemptResult res tx" where
  "finish_decided fresh c input artifacts row issue latestEventID reviewRequest =
     tx_then (tx_read (\<lambda>d. completionIssueChanges d (IID issue) (wa_event_at_start row))) (\<lambda>changes.
     tx_then (tx_lift changes) (\<lambda>(warnings, required).
     tx_then (tx_require (length required = 0 \<or> acknowledged input issue latestEventID)
       (issueChangedDuringAttempt (map (\<lambda>field. detail field ''ACKNOWLEDGEMENT_REQUIRED'') required))) (\<lambda>_.
     tx_then (tx_lift (FinishTargetStatus (wa_kind row) input (IStatus issue))) (\<lambda>target.
     tx_then (complete_issue fresh (wa_kind row) input target issue (fc_attempt c) reviewRequest (fc_now c)) (\<lambda>issue'.
     close_attempt c input artifacts target row issue' warnings)))))"

definition finish_checked ::
  "(nat \<Rightarrow> string res) \<Rightarrow> FinishAttemptCommand \<Rightarrow> FinishAttemptInput \<Rightarrow> Artifact list \<Rightarrow> WorkAttempt \<Rightarrow> Issue \<Rightarrow>
     FinishAttemptResult res tx" where
  "finish_checked fresh c input artifacts row issue =
     tx_then (tx_require (ArchivedAt issue = None) issueArchived) (\<lambda>_.
     tx_then (tx_require (IStatus issue \<noteq> StatusCancelled)
       (issueChangedDuringAttempt [detail ''status'' ''CANCELLED''])) (\<lambda>_.
     tx_then (tx_read (\<lambda>d. unresolved_blocker_count d (IID issue))) (\<lambda>blockers.
     tx_then (tx_require (\<not> blockers > 0)
       (NewError CodeUnresolvedBlockersAdded True [detail ''issue_id'' ''BLOCKED''])) (\<lambda>_.
     tx_then (tx_read latest_event) (\<lambda>latestEventID.
     tx_then (if wa_kind row = AttemptKindReview \<and> fin_outcome input = AttemptOutcomeCompleted
       then finish_review_request (fc_attempt c) input (IID issue) (fc_now c)
       else tx_return (False, None)) (\<lambda>(stale, reviewRequest).
     if stale then tx_return (Inl staleReviewTargetError)
     else finish_decided fresh c input artifacts row issue latestEventID reviewRequest))))))"

definition finish_active ::
  "env \<Rightarrow> (nat \<Rightarrow> string res) \<Rightarrow> FinishAttemptCommand \<Rightarrow> FinishAttemptInput \<Rightarrow> Artifact list \<Rightarrow> FinishAttemptResult res tx" where
  "finish_active env fresh c input artifacts =
     tx_then (tx_read (\<lambda>d. find (\<lambda>a. wa_id a = fc_attempt c) (db_attempts d))) (\<lambda>found.
     tx_then (tx_lift (from_option storageCorruptError found)) (\<lambda>row.
     tx_then (tx_lift (ValidateFinishAttemptForKind env input (wa_kind row))) (\<lambda>_.
     tx_then (loadIssueForMutation (internal_id (wa_issue row))) (\<lambda>issue.
     finish_checked fresh c input artifacts row issue))))"

definition FinishAttempt ::
  "env \<Rightarrow> (nat \<Rightarrow> string res) \<Rightarrow> FinishAttemptCommand \<Rightarrow> db \<Rightarrow> db \<times> FinishAttemptResult res" where
  "FinishAttempt env fresh c d =
     (if \<not> validAttemptSessionID env (fc_session c) then (d, Inl invalidCommand)
      else if \<not> ids_ParseStrict env (fc_attempt c) \<or> length (fc_token_hash c) \<noteq> 32 then (d, Inl invalidCommand)
      else (case (if fc_key c \<noteq> '''' then validateFinishIdempotency (fc_key c) (fc_hash c)
                  else require (length (fc_hash c) = 0) invalidCommand) of
        Inl e \<Rightarrow> (d, Inl e)
      | Inr _ \<Rightarrow> (case FinishAttemptInput_Validate env (fc_input c) of
        Inl e \<Rightarrow> (d, Inl e)
      | Inr input \<Rightarrow> (case validateAttemptArtifacts env (fc_artifacts c) (fc_now c) of
        Inl e \<Rightarrow> (d, Inl e)
      | Inr artifacts \<Rightarrow> Write (
          with_replay ''finish_attempt'' (fc_key c) (fc_hash c) (response_finish env) (
          under_lease (fc_attempt c) (fc_token_hash c) (fc_now c) None (\<lambda>_ _.
          finish_active env fresh c input artifacts))) d))))"

section \<open>Forced release\<close>

record ForceReleaseAttemptResult =
  frr_attempt :: WorkAttempt
  frr_latest :: int

definition activityCorruptField :: "string \<Rightarrow> string \<Rightarrow> Error" where
  "activityCorruptField field code = NewError CodeStorageCorrupt False [detail field code]"

definition activityCorrupt :: Error where
  "activityCorrupt = NewError CodeStorageCorrupt False []"

text \<open>An error of a text check is reported as corruption.\<close>

definition stored_text :: "string \<Rightarrow> string \<Rightarrow> int \<Rightarrow> unit res" where
  "stored_text field v bound = (case ValidateText field v bound of Inl _ \<Rightarrow> Inl activityCorrupt | Inr _ \<Rightarrow> Inr ())"

fun parseActivityStringArray :: "string \<Rightarrow> nat \<Rightarrow> string list \<Rightarrow> unit res" where
  "parseActivityStringArray field index [] = Inr ()"
| "parseActivityStringArray field index (v # vs) =
     and_then (stored_text (field @ ''['' @ Itoa index @ '']'') v MaxAttemptNoteRunes) (\<lambda>_.
     parseActivityStringArray field (Suc index) vs)"

definition scanActivityAttempt :: "env \<Rightarrow> WorkAttempt \<Rightarrow> WorkAttempt res" where
  "scanActivityAttempt env a =
     and_then (require (ids_ParseStrict env (wa_id a)) (activityCorruptField ''id'' ''INVALID_ULID'')) (\<lambda>_.
     and_then (require (ids_ParseStrict env (wa_issue a)) (activityCorruptField ''issue_id'' ''INVALID_ULID'')) (\<lambda>_.
     and_then (require (AttemptKind_Valid (wa_kind a)) (activityCorruptField ''kind'' ''INVALID_VALUE'')) (\<lambda>_.
     and_then (require (\<not> wa_version_at_start a < 1) (activityCorruptField ''issue_version_at_start'' ''INVALID_VALUE'')) (\<lambda>_.
     and_then (require (\<not> wa_event_at_start a < 0) (activityCorruptField ''context_event_id_at_start'' ''INVALID_VALUE'')) (\<lambda>_.
     and_then (if is_active a then require (wa_finished a = None) (activityCorruptField ''finished_at'' ''INVALID_VALUE'')
               else require (wa_finished a \<noteq> None) (activityCorruptField ''finished_at'' ''REQUIRED'')) (\<lambda>_.
     and_then (case wa_failure a of
         Some code \<Rightarrow>
           and_then (require (FailureReasonCode_Valid code) (activityCorruptField ''failure_reason_code'' ''INVALID_VALUE'')) (\<lambda>_.
           require (wa_status a = AttemptStatusFailed) (activityCorruptField ''failure_reason_code'' ''INVALID_VALUE''))
       | None \<Rightarrow> require (wa_status a \<noteq> AttemptStatusFailed) (activityCorruptField ''failure_reason_code'' ''REQUIRED'')) (\<lambda>_.
     and_then (case wa_interruption a of
         Some code \<Rightarrow>
           and_then (require (InterruptionReasonCode_Valid code) (activityCorruptField ''interruption_reason_code'' ''INVALID_VALUE'')) (\<lambda>_.
           require (wa_status a = AttemptStatusInterrupted) (activityCorruptField ''interruption_reason_code'' ''INVALID_VALUE''))
       | None \<Rightarrow> require (wa_status a \<noteq> AttemptStatusInterrupted) (activityCorruptField ''interruption_reason_code'' ''REQUIRED'')) (\<lambda>_.
     and_then (case wa_session a of None \<Rightarrow> Inr ()
       | Some s \<Rightarrow> require (ids_ParseStrict env s) (activityCorruptField ''session_id'' ''INVALID_ULID'')) (\<lambda>_.
     and_then (check_optional (\<lambda>v. stored_text ''agent_label'' v (- 1)) (wa_label a)) (\<lambda>_.
     and_then (check_optional (\<lambda>v. stored_text ''result_summary'' v MaxAttemptNoteRunes) (wa_summary a)) (\<lambda>_.
     and_then (check_optional (\<lambda>v. stored_text ''reason_details'' v MaxAttemptNoteRunes) (wa_details a)) (\<lambda>_.
     and_then (parseActivityStringArray ''next_steps_json'' 0 (wa_next_steps a)) (\<lambda>_.
     and_then (parseActivityStringArray ''verification_json'' 0 (wa_verification a)) (\<lambda>_.
     Inr (without_token a)))))))))))))))"

definition force_release :: "env \<Rightarrow> string \<Rightarrow> time \<Rightarrow> ForceReleaseAttemptResult res tx" where
  "force_release env attemptID now =
     tx_then (tx_read (\<lambda>d. find (\<lambda>a. wa_id a = attemptID) (db_attempts d))) (\<lambda>row.
     tx_then (tx_lift (from_option attemptNotFound row)) (\<lambda>a.
     tx_then (tx_require (is_active a) attemptNotActive) (\<lambda>_.
     tx_then (terminateAttempt attemptID AttemptStatusInterrupted
       \<lparr>tr_failure = None, tr_interruption = Some InterruptionReasonUserRequest,
        tr_release = ReservationReleaseReasonForceReleased\<rparr> now) (\<lambda>terminated.
     tx_then (tx_require terminated attemptNotActive) (\<lambda>_.
     tx_then (append_event (Some (wa_issue a)) ''attempt_interrupted'' None (Some attemptID)
       (PayloadAttemptFinished attemptID AttemptOutcomeInterrupted None None (Some InterruptionReasonUserRequest)) now SourceIssue) (\<lambda>_.
     tx_then (tx_read latest_event) (\<lambda>latestEventID.
     tx_then (tx_read (\<lambda>d. find (\<lambda>a. wa_id a = attemptID) (db_attempts d))) (\<lambda>updated.
     tx_then (tx_lift (from_option storageCorruptError updated)) (\<lambda>b.
     tx_then (tx_lift (scanActivityAttempt env b)) (\<lambda>attempt.
     tx_return (Inr \<lparr>frr_attempt = attempt, frr_latest = latestEventID\<rparr>)))))))))))"

definition ForceReleaseAttempt :: "env \<Rightarrow> string \<Rightarrow> time \<Rightarrow> db \<Rightarrow> db \<times> ForceReleaseAttemptResult res" where
  "ForceReleaseAttempt env attemptID now d =
     (if \<not> ids_ParseStrict env attemptID \<or> IsZero now then (d, Inl invalidCommand)
      else Write (force_release env attemptID now) d)"

end
