(* ===== verification/Evidence.thy ===== *)
theory Evidence
  imports FinishAttempts
begin

text \<open>
  Gate evidence: its input validation (\<^verbatim>\<open>internal/domain/gate_evidence.go\<close>) and the lease-authenticated,
  versioned upsert of one record per attempt and key (\<^verbatim>\<open>internal/adapters/sqlite/gate_evidence.go\<close>).
\<close>

section \<open>Input\<close>

definition MaxGateEvidenceArtifactIDs :: int where "MaxGateEvidenceArtifactIDs = 20"
definition MaxGateEvidenceKeyRunes :: int where "MaxGateEvidenceKeyRunes = MaxPolicyKeyRunes"
definition MaxGateEvidenceSummaryRunes :: int where "MaxGateEvidenceSummaryRunes = 2000"
definition MaxGateEvidenceDetailsRunes :: int where "MaxGateEvidenceDetailsRunes = 50000"

fun EvidenceResult_Valid :: "EvidenceResult \<Rightarrow> bool" where
  "EvidenceResult_Valid (EvidenceResult_other s) = False"
| "EvidenceResult_Valid _ = True"

record SubmitGateEvidenceInput =
  sge_attempt :: string
  sge_token :: string
  sge_key :: string
  sge_result :: EvidenceResult
  sge_summary :: string
  sge_details :: string
  sge_artifacts :: "string list"
  sge_idempotency :: "string option"

fun check_artifact_ids :: "env \<Rightarrow> nat \<Rightarrow> string list \<Rightarrow> string list \<Rightarrow> unit res" where
  "check_artifact_ids env index seen [] = Inr ()"
| "check_artifact_ids env index seen (i # rest) =
     (if \<not> ids_ParseStrict env i
      then Inl (NewError CodeInvalidArgument False
             [\<lparr>EntityIndex = Some (int index), Field = ''artifact_ids'', DCode = ''INVALID_ULID''\<rparr>])
      else if i \<in> set seen
      then Inl (NewError CodeInvalidArgument False
             [\<lparr>EntityIndex = Some (int index), Field = ''artifact_ids'', DCode = ''DUPLICATE''\<rparr>])
      else check_artifact_ids env (Suc index) (i # seen) rest)"

definition required_text :: "string \<Rightarrow> string \<Rightarrow> int \<Rightarrow> string res" where
  "required_text field v bound =
     and_then (ValidateText field v bound) (\<lambda>_.
     if TrimSpace v = '''' then Inl (validationError field ''REQUIRED'') else Inr (TrimSpace v))"

definition SubmitGateEvidenceInput_Validate :: "env \<Rightarrow> SubmitGateEvidenceInput \<Rightarrow> SubmitGateEvidenceInput res" where
  "SubmitGateEvidenceInput_Validate env i =
     and_then (require (ids_ParseStrict env (sge_attempt i)) (validationError ''attempt_id'' ''INVALID_ULID'')) (\<lambda>_.
     and_then (required_text ''lease_token'' (sge_token i) MaxLeaseTokenRunes) (\<lambda>_.
     and_then (required_text ''key'' (sge_key i) MaxGateEvidenceKeyRunes) (\<lambda>key.
     and_then (require (EvidenceResult_Valid (sge_result i)) (invalidEnum ''result'')) (\<lambda>_.
     and_then (required_text ''summary'' (sge_summary i) MaxGateEvidenceSummaryRunes) (\<lambda>summary.
     and_then (ValidateText ''details'' (sge_details i) MaxGateEvidenceDetailsRunes) (\<lambda>_.
     and_then (CopyBounded ''artifact_ids'' (sge_artifacts i) MaxGateEvidenceArtifactIDs) (\<lambda>artifactIDs.
     and_then (check_artifact_ids env 0 [] artifactIDs) (\<lambda>_.
     and_then (normalize_idempotency_key (sge_idempotency i)) (\<lambda>idempotencyKey.
     Inr (i\<lparr>sge_key := key, sge_summary := summary, sge_artifacts := artifactIDs,
            sge_idempotency := idempotencyKey\<rparr>))))))))))"

section \<open>Submission\<close>

record SubmitGateEvidenceCommand =
  ec_evidence :: string
  ec_attempt :: string
  ec_token_hash :: string
  ec_key :: string
  ec_result :: EvidenceResult
  ec_summary :: string
  ec_details :: string
  ec_artifacts :: "string list"
  ec_now :: time
  ec_idempotency :: string
  ec_hash :: string

definition unknownEvidenceKey :: Error where
  "unknownEvidenceKey = NewError CodeInvalidArgument False [detail ''key'' ''UNKNOWN_KEY'']"

text \<open>A missing snapshot is an empty set of requirements.\<close>

definition matching_requirements :: "db \<Rightarrow> string \<Rightarrow> string \<Rightarrow> PolicyRequirement list" where
  "matching_requirements d attemptID key =
     (case map_of (db_attempt_snapshots d) attemptID of
        None \<Rightarrow> []
      | Some snapshot \<Rightarrow>
          filter (\<lambda>r. \<not> (pr_kind r \<noteq> RequirementKindAttemptEvidence \<or> pr_evidence r \<noteq> key)) (gs_requirements snapshot))"

definition validateGateEvidenceKey :: "db \<Rightarrow> string \<Rightarrow> string \<Rightarrow> EvidenceResult \<Rightarrow> unit res" where
  "validateGateEvidenceKey d attemptID key result =
     (let matched = matching_requirements d attemptID key in
      if matched = [] then Inl unknownEvidenceKey
      else if result = EvidenceResultNotApplicable \<and> \<not> list_all pr_allow_na matched
      then Inl (NewError CodeInvalidArgument False [detail ''result'' ''NOT_APPLICABLE_FORBIDDEN''])
      else Inr ())"

fun validateGateEvidenceArtifacts :: "db \<Rightarrow> string \<Rightarrow> string \<Rightarrow> nat \<Rightarrow> string list \<Rightarrow> unit res" where
  "validateGateEvidenceArtifacts d issueID attemptID index [] = Inr ()"
| "validateGateEvidenceArtifacts d issueID attemptID index (i # rest) =
     (if list_ex (\<lambda>a. af_id a = i \<and> af_issue a = issueID \<and> af_attempt a = Some attemptID) (db_artifacts d)
      then validateGateEvidenceArtifacts d issueID attemptID (Suc index) rest
      else Inl (NewError CodeInvalidArgument False
             [\<lparr>EntityIndex = Some (int index), Field = ''artifact_ids'', DCode = ''NOT_FOUND''\<rparr>]))"

definition gateEvidenceCorruptField :: "string \<Rightarrow> string \<Rightarrow> Error" where
  "gateEvidenceCorruptField field code = NewError CodeStorageCorrupt False [detail field code]"

definition scanAttemptEvidence :: "env \<Rightarrow> AttemptEvidence \<Rightarrow> AttemptEvidence res" where
  "scanAttemptEvidence env e =
     and_then (require (ids_ParseStrict env (ae_id e)) (gateEvidenceCorruptField ''id'' ''INVALID_ULID'')) (\<lambda>_.
     and_then (require (EvidenceResult_Valid (ae_result e)) (gateEvidenceCorruptField ''result'' ''INVALID_ENUM'')) (\<lambda>_.
     and_then (require (\<not> ae_version e < 1) (gateEvidenceCorruptField ''version'' ''INVALID_VALUE'')) (\<lambda>_.
     Inr e)))"

definition loadAttemptEvidenceByID :: "env \<Rightarrow> string \<Rightarrow> AttemptEvidence tx" where
  "loadAttemptEvidenceByID env i =
     tx_then (tx_read (\<lambda>d. find (\<lambda>e. ae_id e = i) (db_evidence d))) (\<lambda>row.
     tx_then (tx_lift (from_option storageCorruptError row)) (\<lambda>e. tx_lift (scanAttemptEvidence env e)))"

definition appendGateEvidenceEvent :: "AttemptEvidence \<Rightarrow> string \<Rightarrow> time \<Rightarrow> unit tx" where
  "appendGateEvidenceEvent e eventType now =
     exec (\<lambda>d. d\<lparr>db_evidence_events := db_evidence_events d @
       [\<lparr>ge_evidence = ae_id e, ge_attempt = ae_attempt e, ge_issue = ae_issue e, ge_key = ae_key e, ge_type = eventType,
         ge_version = ae_version e, ge_result = ae_result e, ge_artifacts = ae_artifacts e, ge_created = now\<rparr>]\<rparr>)"

definition new_evidence :: "SubmitGateEvidenceCommand \<Rightarrow> string \<Rightarrow> AttemptEvidence" where
  "new_evidence c issueID =
     \<lparr>ae_id = ec_evidence c, ae_attempt = ec_attempt c, ae_issue = issueID, ae_key = ec_key c, ae_result = ec_result c,
      ae_summary = ec_summary c, ae_details = ec_details c, ae_artifacts = ec_artifacts c, ae_version = 1,
      ae_created = ec_now c, ae_updated = ec_now c\<rparr>"

definition replace_evidence :: "SubmitGateEvidenceCommand \<Rightarrow> int \<Rightarrow> AttemptEvidence \<Rightarrow> AttemptEvidence" where
  "replace_evidence c version e =
     e\<lparr>ae_result := ec_result c, ae_summary := ec_summary c, ae_details := ec_details c,
       ae_artifacts := ec_artifacts c, ae_version := version, ae_updated := ec_now c\<rparr>"

text \<open>\<^verbatim>\<open>requireSingleRowAffected\<close> of \<^verbatim>\<open>workflow_policy.go\<close>.\<close>

definition requireSingleRowAffected :: "nat \<Rightarrow> unit tx" where
  "requireSingleRowAffected n = tx_require (n = 1) (NewError CodeVersionConflict True [])"

definition upsert_evidence :: "SubmitGateEvidenceCommand \<Rightarrow> string \<Rightarrow> (string \<times> string) tx" where
  "upsert_evidence c issueID =
     tx_then (tx_read (\<lambda>d. find (\<lambda>e. ae_attempt e = ec_attempt c \<and> ae_key e = ec_key c) (db_evidence d))) (\<lambda>existing.
     case existing of
       None \<Rightarrow>
         tx_then (exec (\<lambda>d. d\<lparr>db_evidence := db_evidence d @ [new_evidence c issueID]\<rparr>)) (\<lambda>_.
         tx_return (ec_evidence c, ''evidence_submitted''))
     | Some e \<Rightarrow>
         tx_then (update_evidence (\<lambda>x. ae_id x = ae_id e \<and> ae_version x = ae_version e)
           (replace_evidence c (ae_version e + 1))) (\<lambda>affected.
         tx_then (requireSingleRowAffected affected) (\<lambda>_.
         tx_return (ae_id e, ''evidence_replaced''))))"

definition response_evidence :: "Response \<Rightarrow> AttemptEvidence res" where
  "response_evidence r = (case r of ResponseEvidence x \<Rightarrow> Inr x | _ \<Rightarrow> Inl storedResponseInvalid)"

definition SubmitGateEvidence :: "env \<Rightarrow> SubmitGateEvidenceCommand \<Rightarrow> db \<Rightarrow> db \<times> AttemptEvidence res" where
  "SubmitGateEvidence env c d =
     (if \<not> ids_ParseStrict env (ec_evidence c) then (d, Inl (NewError CodeIDGeneration False []))
      else if \<not> ids_ParseStrict env (ec_attempt c) \<or> length (ec_token_hash c) \<noteq> 32 then (d, Inl invalidCommand)
      else Write (
        with_replay ''submit_gate_evidence'' (ec_idempotency c) (ec_hash c) response_evidence (
        under_lease (ec_attempt c) (ec_token_hash c) (ec_now c) (Some AttemptKindWork) (\<lambda>issueID kind.
        tx_then (tx_read (\<lambda>d. validateGateEvidenceKey d (ec_attempt c) (ec_key c) (ec_result c))) (\<lambda>keyOk.
        tx_then (tx_lift keyOk) (\<lambda>_.
        tx_then (tx_read (\<lambda>d. validateGateEvidenceArtifacts d issueID (ec_attempt c) 0 (ec_artifacts c))) (\<lambda>artifactsOk.
        tx_then (tx_lift artifactsOk) (\<lambda>_.
        tx_then (upsert_evidence c issueID) (\<lambda>(evidenceID, eventType).
        tx_then (loadAttemptEvidenceByID env evidenceID) (\<lambda>evidence.
        tx_then (appendGateEvidenceEvent evidence eventType (ec_now c)) (\<lambda>_.
        tx_then (store_idempotency ''submit_gate_evidence'' (ec_idempotency c) (ec_hash c) (ResponseEvidence evidence)) (\<lambda>_.
        tx_return (Inr evidence)))))))))))) d)"

definition LookupSubmitGateEvidence :: "string \<Rightarrow> string \<Rightarrow> db \<Rightarrow> AttemptEvidence option res" where
  "LookupSubmitGateEvidence = lookup_saved ''submit_gate_evidence'' response_evidence"

definition ListAttemptEvidence :: "env \<Rightarrow> string \<Rightarrow> db \<Rightarrow> AttemptEvidence list res" where
  "ListAttemptEvidence env attemptID d =
     map_result (scanAttemptEvidence env) (sort_key ae_key (filter (\<lambda>e. ae_attempt e = attemptID) (db_evidence d)))"

end
