(* ===== verification/Policies.thy ===== *)
theory Policies
  imports Evidence
begin

text \<open>
  The workflow policy repository (\<^verbatim>\<open>internal/adapters/sqlite/workflow_policy.go\<close>): create, optimistic
  update and irreversible archive, each audited with a copy of the policy, and the snapshot readers.
  A requirement does not store its owner; it is reattached when the policy is loaded.
\<close>

section \<open>Reading\<close>

definition workflowPolicyCorruptField :: "string \<Rightarrow> string \<Rightarrow> Error" where
  "workflowPolicyCorruptField field code = NewError CodeStorageCorrupt False [detail field code]"

definition scanWorkflowPolicy :: "env \<Rightarrow> WorkflowPolicy \<Rightarrow> WorkflowPolicy res" where
  "scanWorkflowPolicy env p =
     and_then (require (ids_ParseStrict env (wp_id p)) (workflowPolicyCorruptField ''id'' ''INVALID_ULID'')) (\<lambda>_.
     and_then (require (PolicyStatus_Valid (wp_status p)) (workflowPolicyCorruptField ''status'' ''INVALID_ENUM'')) (\<lambda>_.
     and_then (require (\<not> wp_version p < 1) (workflowPolicyCorruptField ''version'' ''INVALID_VALUE'')) (\<lambda>_.
     Inr p)))"

definition loadWorkflowPolicy :: "env \<Rightarrow> string \<Rightarrow> WorkflowPolicy tx" where
  "loadWorkflowPolicy env policyID =
     tx_then (tx_read (\<lambda>d. find (\<lambda>p. wp_id p = policyID) (db_policies d))) (\<lambda>row.
     tx_then (tx_lift (from_option (NewError CodePolicyNotFound False []) row)) (\<lambda>p.
     tx_lift (scanWorkflowPolicy env p)))"

definition GetPolicy :: "env \<Rightarrow> string \<Rightarrow> db \<Rightarrow> WorkflowPolicy res" where
  "GetPolicy env policyID d = (case loadWorkflowPolicy env policyID d of Inl e \<Rightarrow> Inl e | Inr (d', p) \<Rightarrow> Inr p)"

definition loadGateSnapshot :: "(string \<times> GateSnapshot) list \<Rightarrow> string \<Rightarrow> GateSnapshot res" where
  "loadGateSnapshot rows keyValue =
     (case map_of rows keyValue of
        None \<Rightarrow> Inl (NewError CodeGateSnapshotNotFound False [])
      | Some s \<Rightarrow>
          if gs_issue_version s < 1 then Inl (workflowPolicyCorruptField ''issue_version'' ''INVALID_VALUE'') else Inr s)"

definition GetAttemptGateSnapshot :: "string \<Rightarrow> db \<Rightarrow> GateSnapshot res" where
  "GetAttemptGateSnapshot attemptID d = loadGateSnapshot (db_attempt_snapshots d) attemptID"

definition GetReviewTargetGateSnapshot :: "string \<Rightarrow> db \<Rightarrow> GateSnapshot res" where
  "GetReviewTargetGateSnapshot targetID d = loadGateSnapshot (db_target_snapshots d) targetID"

section \<open>Writing\<close>

definition owned_requirements :: "string \<Rightarrow> PolicyRequirement list \<Rightarrow> PolicyRequirement list" where
  "owned_requirements policyID requirements = map (\<lambda>r. r\<lparr>pr_policy := policyID\<rparr>) requirements"

definition appendWorkflowPolicyEvent :: "WorkflowPolicy \<Rightarrow> string \<Rightarrow> int option \<Rightarrow> string option \<Rightarrow> time \<Rightarrow> unit tx" where
  "appendWorkflowPolicyEvent p eventType priorVersion sessionID now =
     exec (\<lambda>d. d\<lparr>db_policy_events := db_policy_events d @
       [\<lparr>we_policy = wp_id p, we_type = eventType, we_session = sessionID, we_prior = priorVersion,
         we_new = wp_version p, we_payload = p, we_created = now\<rparr>]\<rparr>)"

definition response_policy :: "Response \<Rightarrow> WorkflowPolicy res" where
  "response_policy r = (case r of ResponsePolicy x \<Rightarrow> Inr x | _ \<Rightarrow> Inl storedResponseInvalid)"

record CreateWorkflowPolicyCommand =
  pc_id :: string
  pc_input :: "PolicySelector \<times> PolicyRequirement list"
  pc_session :: "string option"
  pc_now :: time
  pc_key :: string
  pc_hash :: string

definition created_policy :: "CreateWorkflowPolicyCommand \<Rightarrow> PolicySelector \<times> PolicyRequirement list \<Rightarrow> WorkflowPolicy" where
  "created_policy c validated =
     \<lparr>wp_id = pc_id c, wp_selector = fst validated, wp_status = PolicyStatusActive, wp_version = 1,
      wp_requirements = owned_requirements (pc_id c) (snd validated), wp_created = pc_now c, wp_updated = pc_now c\<rparr>"

definition CreatePolicy :: "env \<Rightarrow> CreateWorkflowPolicyCommand \<Rightarrow> db \<Rightarrow> db \<times> WorkflowPolicy res" where
  "CreatePolicy env c d =
     (case WorkflowPolicyInput_Validate (pc_input c) of
        Inl e \<Rightarrow> (d, Inl e)
      | Inr validated \<Rightarrow>
          if \<not> ids_ParseStrict env (pc_id c) then (d, Inl (NewError CodeIDGeneration False []))
          else Write (
            with_replay ''create_workflow_policy'' (pc_key c) (pc_hash c) response_policy (
            tx_then (exec (\<lambda>d. d\<lparr>db_policies := db_policies d @ [created_policy c validated]\<rparr>)) (\<lambda>_.
            tx_then (loadWorkflowPolicy env (pc_id c)) (\<lambda>p.
            tx_then (appendWorkflowPolicyEvent p ''policy_created'' None (pc_session c) (pc_now c)) (\<lambda>_.
            tx_then (store_idempotency ''create_workflow_policy'' (pc_key c) (pc_hash c) (ResponsePolicy p)) (\<lambda>_.
            tx_return (Inr p))))))) d)"

record PolicyMutation =
  pm_policy :: string
  pm_expected :: int
  pm_session :: "string option"
  pm_now :: time
  pm_key :: string
  pm_hash :: string

text \<open>
  \<^verbatim>\<open>UpdatePolicy\<close> and \<^verbatim>\<open>ArchivePolicy\<close> share their transaction; only the assigned columns, the operation and
  the event type differ.
\<close>

definition mutate_policy ::
  "env \<Rightarrow> PolicyMutation \<Rightarrow> string \<Rightarrow> string \<Rightarrow> (WorkflowPolicy \<Rightarrow> WorkflowPolicy) \<Rightarrow> WorkflowPolicy res tx" where
  "mutate_policy env c operation eventType assign =
     with_replay operation (pm_key c) (pm_hash c) response_policy (
     tx_then (loadWorkflowPolicy env (pm_policy c)) (\<lambda>current.
     tx_then (tx_require (wp_status current \<noteq> PolicyStatusArchived) (NewError CodePolicyArchived False [])) (\<lambda>_.
     tx_then (tx_require (wp_version current = pm_expected c) (NewError CodeVersionConflict True [])) (\<lambda>_.
     tx_then (update_policies (\<lambda>p. wp_id p = pm_policy c \<and> wp_version p = pm_expected c)
       (\<lambda>p. assign (p\<lparr>wp_version := wp_version p + 1, wp_updated := pm_now c\<rparr>))) (\<lambda>affected.
     tx_then (requireSingleRowAffected affected) (\<lambda>_.
     tx_then (loadWorkflowPolicy env (pm_policy c)) (\<lambda>p.
     tx_then (appendWorkflowPolicyEvent p eventType (Some (wp_version current)) (pm_session c) (pm_now c)) (\<lambda>_.
     tx_then (store_idempotency operation (pm_key c) (pm_hash c) (ResponsePolicy p)) (\<lambda>_.
     tx_return (Inr p))))))))))"

definition assign_policy :: "string \<Rightarrow> PolicySelector \<times> PolicyRequirement list \<Rightarrow> WorkflowPolicy \<Rightarrow> WorkflowPolicy" where
  "assign_policy policyID validated p =
     p\<lparr>wp_selector := fst validated, wp_requirements := owned_requirements policyID (snd validated)\<rparr>"

definition UpdatePolicy ::
  "env \<Rightarrow> PolicyMutation \<Rightarrow> PolicySelector \<times> PolicyRequirement list \<Rightarrow> db \<Rightarrow> db \<times> WorkflowPolicy res" where
  "UpdatePolicy env c input d =
     (case WorkflowPolicyInput_Validate input of
        Inl e \<Rightarrow> (d, Inl e)
      | Inr validated \<Rightarrow>
          Write (mutate_policy env c ''update_workflow_policy'' ''policy_updated'' (assign_policy (pm_policy c) validated)) d)"

definition archive_policy_row :: "WorkflowPolicy \<Rightarrow> WorkflowPolicy" where
  "archive_policy_row p = p\<lparr>wp_status := PolicyStatusArchived\<rparr>"

definition ArchivePolicy :: "env \<Rightarrow> PolicyMutation \<Rightarrow> db \<Rightarrow> db \<times> WorkflowPolicy res" where
  "ArchivePolicy env c d =
     Write (mutate_policy env c ''archive_workflow_policy'' ''policy_archived'' archive_policy_row) d"

end
