(* ===== verification/Relations.thy ===== *)
theory Relations
  imports Attempts BlocksGraph
begin

text \<open>
  The relation repository (\<^verbatim>\<open>internal/adapters/sqlite/relations.go\<close>): adding and removing a relation
  between two issues, with the cycle check on \<^verbatim>\<open>blocks\<close> edges inside the writing transaction.
\<close>

record ManageIssueRelationCommand =
  mc_action :: RelationAction
  mc_source :: IssueIdentifier
  mc_target :: IssueIdentifier
  mc_type :: RelationType
  mc_relation :: string
  mc_now :: time
  mc_key :: string
  mc_hash :: string

definition response_relation :: "Response \<Rightarrow> ManageIssueRelationResult res" where
  "response_relation r = (case r of ResponseRelation x \<Rightarrow> Inr x | _ \<Rightarrow> Inl storedResponseInvalid)"

definition loadRelation :: "db \<Rightarrow> string \<Rightarrow> string \<Rightarrow> RelationType \<Rightarrow> IssueRelation option" where
  "loadRelation d sourceID targetID relationType =
     find (\<lambda>r. rl_source r = sourceID \<and> rl_target r = targetID \<and> rl_type r = relationType) (db_relations d)"

definition appendRelationEvents :: "string \<Rightarrow> IssueRelation \<Rightarrow> time \<Rightarrow> unit tx" where
  "appendRelationEvents eventType r now =
     tx_each (\<lambda>issueID. append_event (Some issueID) eventType None None
       (PayloadRelation (rl_id r) (rl_source r) (rl_target r) (rl_type r)) now SourceIssue) [rl_source r, rl_target r]"

definition loadRelationAffectedIssues :: "string \<Rightarrow> string \<Rightarrow> time \<Rightarrow> IssueProjection list tx" where
  "loadRelationAffectedIssues sourceID targetID now =
     tx_map (\<lambda>i. tx_then (tx_read (\<lambda>d. (d, find (\<lambda>x. IID x = i) (db_issues d)))) (\<lambda>(d, row).
       case row of
         None \<Rightarrow> tx_fail storageCorruptError
       | Some issue \<Rightarrow> tx_return (issue_projection d now issue))) [sourceID, targetID]"

definition blocksCycle :: Error where
  "blocksCycle = NewError CodeBlocksCycle False [detail ''relation_type'' CodeBlocksCycle]"

definition add_relation :: "IssueRelation \<Rightarrow> time \<Rightarrow> (IssueRelation \<times> bool) tx" where
  "add_relation r now =
     tx_then (tx_read (\<lambda>d. loadRelation d (rl_source r) (rl_target r) (rl_type r))) (\<lambda>existing.
     case existing of
       Some x \<Rightarrow> tx_return (x, False)
     | None \<Rightarrow>
         tx_then (tx_read (\<lambda>d. rl_type r = RelationTypeBlocks \<and> blocksPathExists (db_relations d) (rl_target r) (rl_source r))) (\<lambda>cycle.
         tx_then (tx_require (\<not> cycle) blocksCycle) (\<lambda>_.
         tx_then (exec (\<lambda>d. d\<lparr>db_relations := db_relations d @ [r]\<rparr>)) (\<lambda>_.
         tx_then (appendRelationEvents ''relation_added'' r now) (\<lambda>_.
         tx_return (r, True))))))"

definition remove_relation :: "IssueRelation \<Rightarrow> time \<Rightarrow> (IssueRelation \<times> bool) tx" where
  "remove_relation r now =
     tx_then (tx_read (\<lambda>d. loadRelation d (rl_source r) (rl_target r) (rl_type r))) (\<lambda>existing.
     case existing of
       None \<Rightarrow> tx_return (r, False)
     | Some x \<Rightarrow>
         tx_then (exec (\<lambda>d. d\<lparr>db_relations := filter (\<lambda>y. rl_id y \<noteq> rl_id x) (db_relations d)\<rparr>)) (\<lambda>_.
         tx_then (appendRelationEvents ''relation_removed'' x now) (\<lambda>_.
         tx_return (x, True))))"

definition change_relation :: "ManageIssueRelationCommand \<Rightarrow> ManageIssueRelationResult res tx" where
  "change_relation c =
     tx_then (loadIssueForMutation (mc_source c)) (\<lambda>source.
     tx_then (loadIssueForMutation (mc_target c)) (\<lambda>target.
     tx_then (tx_require (\<not> (ArchivedAt source \<noteq> None \<or> ArchivedAt target \<noteq> None)) issueArchived) (\<lambda>_.
     tx_then (tx_require (IID source \<noteq> IID target) selfRelationError) (\<lambda>_.
     let ends = CanonicalRelationEndpoints (mc_type c) (IID source) (IID target);
         r = \<lparr>rl_id = mc_relation c, rl_source = fst ends, rl_target = snd ends, rl_type = mc_type c, rl_created = mc_now c\<rparr> in
     tx_then (if mc_action c = RelationActionAdd then add_relation r (mc_now c) else remove_relation r (mc_now c)) (\<lambda>(relation, changed).
     tx_then (loadRelationAffectedIssues (rl_source relation) (rl_target relation) (mc_now c)) (\<lambda>affectedIssues.
     let result = \<lparr>mir_relation = relation, mir_changed = changed, mir_affected = affectedIssues\<rparr> in
     tx_then (store_idempotency ''manage_issue_relation'' (mc_key c) (mc_hash c) (ResponseRelation result)) (\<lambda>_.
     tx_return (Inr result))))))))"

definition ManageIssueRelation :: "env \<Rightarrow> ManageIssueRelationCommand \<Rightarrow> db \<Rightarrow> db \<times> ManageIssueRelationResult res" where
  "ManageIssueRelation env c d =
     (if \<not> RelationAction_Valid (mc_action c) \<or> \<not> RelationType_Valid (mc_type c) then (d, Inl invalidCommand)
      else if mc_action c = RelationActionAdd \<and> \<not> ids_ParseStrict env (mc_relation c)
      then (d, Inl (NewError CodeIDGeneration False []))
      else if mc_action c \<noteq> RelationActionAdd \<and> mc_relation c \<noteq> '''' then (d, Inl invalidCommand)
      else Write (with_replay ''manage_issue_relation'' (mc_key c) (mc_hash c) response_relation (change_relation c)) d)"

definition LookupManageIssueRelation :: "string \<Rightarrow> string \<Rightarrow> db \<Rightarrow> ManageIssueRelationResult option res" where
  "LookupManageIssueRelation = lookup_saved ''manage_issue_relation'' response_relation"

end
