(* ===== verification/Reviews.thy ===== *)
theory Reviews
  imports FinishAttempts
begin

text \<open>
  The review repository (\<^verbatim>\<open>internal/adapters/sqlite/reviews.go\<close>) and the review inputs
  (\<^verbatim>\<open>internal/domain/review.go\<close>): creating a request with a frozen target and its gate snapshot,
  cancelling, replacing, claiming and resolving it, and the pages of requests with their staleness.
\<close>

section \<open>Inputs\<close>

definition MaxReviewArtifactIDs :: int where "MaxReviewArtifactIDs = 20"
definition MaxReviewPurposes :: int where "MaxReviewPurposes = 10"
definition DefaultReviewPurposes :: "string list" where "DefaultReviewPurposes = [''implementation'']"

fun normalize_purposes :: "string list \<Rightarrow> string list \<Rightarrow> string list res" where
  "normalize_purposes seen [] = Inr []"
| "normalize_purposes seen (p # ps) =
     and_then (ValidateText ''purposes'' p MaxPolicyKeyRunes) (\<lambda>_.
     let trimmed = TrimSpace p in
     if trimmed = '''' then Inl (validationError ''purposes'' ''REQUIRED'')
     else if trimmed \<in> set seen then Inl (NewError CodeInvalidArgument False [detail ''purposes'' ''DUPLICATE''])
     else and_then (normalize_purposes (trimmed # seen) ps) (\<lambda>rest. Inr (trimmed # rest)))"

definition ValidateReviewPurposes :: "string list \<Rightarrow> string list res" where
  "ValidateReviewPurposes purposes =
     (if length purposes = 0 then Inl (validationError ''purposes'' ''REQUIRED'')
      else if int (length purposes) > MaxReviewPurposes
      then Inl (NewError CodeLimitExceeded False [detail ''purposes'' ''MAX_ITEMS''])
      else and_then (normalize_purposes [] purposes) (\<lambda>normalized. Inr (sort normalized)))"

record ReplaceReviewRequestInput =
  rri_predecessor :: string
  rri_expected :: int
  rri_issue_version :: int
  rri_event :: int
  rri_artifacts :: "string list"
  rri_purposes :: "string list"
  rri_key :: string

definition ReplaceReviewRequestInput_Validate :: "ReplaceReviewRequestInput \<Rightarrow> ReplaceReviewRequestInput res" where
  "ReplaceReviewRequestInput_Validate i =
     (let requestID = TrimSpace (rri_predecessor i); key = TrimSpace (rri_key i) in
      and_then (require (requestID \<noteq> '''') (validationError ''predecessor_request_id'' ''REQUIRED'')) (\<lambda>_.
      and_then (require (\<not> rri_expected i < 1) (validationError ''predecessor_expected_version'' ''INVALID'')) (\<lambda>_.
      and_then (require (\<not> rri_issue_version i < 1) (validationError ''target_issue_version'' ''INVALID'')) (\<lambda>_.
      and_then (require (\<not> rri_event i < 0) (validationError ''target_event_id'' ''INVALID'')) (\<lambda>_.
      and_then (CopyBounded ''artifact_ids'' (rri_artifacts i) MaxReviewArtifactIDs) (\<lambda>artifactIDs.
      and_then (if length (rri_purposes i) > 0 then ValidateReviewPurposes (rri_purposes i) else Inr []) (\<lambda>purposes.
      and_then (require (key \<noteq> '''') (validationError ''idempotency_key'' ''REQUIRED'')) (\<lambda>_.
      and_then (ValidateText ''idempotency_key'' key MaxIdempotencyKeyRunes) (\<lambda>_.
      Inr (i\<lparr>rri_predecessor := requestID, rri_artifacts := artifactIDs, rri_purposes := purposes,
             rri_key := key\<rparr>))))))))))"

section \<open>Targets\<close>

definition freezeReviewTargetGateSnapshot :: "string \<Rightarrow> string \<Rightarrow> int \<Rightarrow> time \<Rightarrow> unit tx" where
  "freezeReviewTargetGateSnapshot targetID issueID issueVersion now =
     tx_then (loadIssueForMutation (internal_id issueID)) (\<lambda>issue.
     tx_then (tx_read loadActiveWorkflowPolicies) (\<lambda>policies.
     let matched = MatchWorkflowPolicies policies (IType issue) (labelNames issue);
         sourcePolicies = matchingSourcePolicies policies (IType issue) (labelNames issue);
         requirements = filter (\<lambda>r. pr_kind r = RequirementKindReviewApproval) matched in
     insertReviewTargetGateSnapshot targetID (NewGateSnapshot requirements sourcePolicies issueVersion now)))"

definition ensureTarget :: "string \<Rightarrow> string \<Rightarrow> int \<Rightarrow> int \<Rightarrow> string list \<Rightarrow> string list \<Rightarrow> time \<Rightarrow> ReviewTarget tx" where
  "ensureTarget targetID issueID issueVersion eventID artifactIDs purposes now =
     (let target = \<lparr>rt_id = targetID, rt_issue = issueID, rt_issue_version = issueVersion, rt_event = eventID,
                    rt_artifacts = artifactIDs, rt_purposes = purposes, rt_version = 1, rt_created = now\<rparr> in
      tx_then (exec (\<lambda>d. d\<lparr>db_targets := db_targets d @ [target]\<rparr>)) (\<lambda>_.
      tx_then (freezeReviewTargetGateSnapshot targetID issueID issueVersion now) (\<lambda>_.
      tx_return target)))"

definition reviewApprovalPurposesRequired :: "PolicyRequirement list \<Rightarrow> string list" where
  "reviewApprovalPurposesRequired requirements = sort (remdups (map pr_purpose requirements))"

definition missingReviewPurposes :: "string list \<Rightarrow> string list \<Rightarrow> string list" where
  "missingReviewPurposes required covered = sort (filter (\<lambda>p. p \<notin> set covered) required)"

definition reviewPurposeRequired :: "string list \<Rightarrow> Error" where
  "reviewPurposeRequired missing =
     NewError CodeReviewPurposeRequired False (map (\<lambda>p. detail ''purposes'' CodeReviewPurposeRequired) missing)"

definition requireReviewPurposeCoverage :: "string \<Rightarrow> string list \<Rightarrow> unit tx" where
  "requireReviewPurposeCoverage targetID purposes =
     tx_then (tx_read (\<lambda>d. map_of (db_target_snapshots d) targetID)) (\<lambda>snapshot.
     case snapshot of
       None \<Rightarrow> tx_return ()
     | Some s \<Rightarrow>
         let missing = missingReviewPurposes (reviewApprovalPurposesRequired (gs_requirements s)) purposes in
         tx_require (length missing = 0) (reviewPurposeRequired missing))"

section \<open>Loading requests\<close>

definition loadActiveRequestForIssueVersion :: "db \<Rightarrow> string \<Rightarrow> int \<Rightarrow> ReviewRequest option" where
  "loadActiveRequestForIssueVersion d issueID issueVersion =
     find (\<lambda>r. rq_issue r = issueID \<and> rq_issue_version r = issueVersion \<and> is_unresolved r) (db_requests d)"

definition reviewRequestNotFound :: Error where
  "reviewRequestNotFound = NewError CodeIssueNotFound False []"

definition loadRequestForMutation :: "string \<Rightarrow> (ReviewRequest \<times> ReviewTarget) tx" where
  "loadRequestForMutation requestID =
     tx_then (tx_read (\<lambda>d. find (\<lambda>r. rq_id r = requestID) (db_requests d))) (\<lambda>row.
     tx_then (tx_lift (from_option reviewRequestNotFound row)) (\<lambda>request.
     tx_then (tx_read (\<lambda>d. find (\<lambda>t. rt_id t = rq_target request) (db_targets d))) (\<lambda>joined.
     tx_then (tx_lift (from_option storageCorruptError joined)) (\<lambda>target.
     tx_return (request, target)))))"

section \<open>Creating a request\<close>

record CreateReviewRequestCommand =
  crc_request :: string
  crc_target :: string
  crc_issue :: string
  crc_issue_version :: int
  crc_event :: int
  crc_artifacts :: "string list"
  crc_purposes :: "string list"
  crc_supersedes :: "string option"
  crc_now :: time

definition same_request :: "CreateReviewRequestCommand \<Rightarrow> string list \<Rightarrow> ReviewRequest \<Rightarrow> bool" where
  "same_request c purposes r \<longleftrightarrow>
     rq_artifacts r = crc_artifacts c \<and> rq_supersedes r = crc_supersedes c \<and>
     rq_issue_version r = crc_issue_version c \<and> rq_event r = crc_event c \<and> rq_issue r = crc_issue c \<and>
     rq_purposes r = purposes"

definition open_request :: "string \<Rightarrow> ReviewTarget \<Rightarrow> string option \<Rightarrow> time \<Rightarrow> ReviewRequest" where
  "open_request requestID target supersedes now =
     \<lparr>rq_id = requestID, rq_issue = rt_issue target, rq_target = rt_id target, rq_issue_version = rt_issue_version target,
      rq_event = rt_event target, rq_artifacts = rt_artifacts target, rq_purposes = rt_purposes target,
      rq_status = ReviewRequestStatusOpen, rq_supersedes = supersedes, rq_attempt = None, rq_version = 1,
      rq_created = now, rq_resolved = None\<rparr>"

definition reviewAlreadyExists :: Error where
  "reviewAlreadyExists = NewError CodeReviewAlreadyExists False []"

definition create_request ::
  "CreateReviewRequestCommand \<Rightarrow> string list \<Rightarrow> (ReviewRequest \<times> ReviewTarget) res tx" where
  "create_request c purposes =
     tx_then (ensureTarget (crc_target c) (crc_issue c) (crc_issue_version c) (crc_event c) (crc_artifacts c) purposes (crc_now c)) (\<lambda>target.
     tx_then (reviewTargetFuture (crc_event c)) (\<lambda>future.
     tx_then (tx_require (\<not> future) staleReviewTargetError) (\<lambda>_.
     tx_then (reviewTargetStale (crc_issue c) (crc_issue_version c) (crc_event c)) (\<lambda>stale.
     tx_then (tx_require (\<not> stale) staleReviewTargetError) (\<lambda>_.
     tx_then (requireReviewPurposeCoverage (rt_id target) purposes) (\<lambda>_.
     let request = open_request (crc_request c) target (crc_supersedes c) (crc_now c) in
     tx_then (exec (\<lambda>d. d\<lparr>db_requests := db_requests d @ [request]\<rparr>)) (\<lambda>_.
     tx_then (appendReviewEvent (crc_issue c) ''review_requested'' None (payloadForReviewEvent request None None None) (crc_now c)) (\<lambda>_.
     tx_return (Inr (request, target))))))))))"

definition CreateReviewRequest ::
  "env \<Rightarrow> CreateReviewRequestCommand \<Rightarrow> db \<Rightarrow> db \<times> (ReviewRequest \<times> ReviewTarget) res" where
  "CreateReviewRequest env c d =
     (if TrimSpace (crc_request c) = '''' \<or> \<not> ids_ParseStrict env (crc_request c) \<or>
         TrimSpace (crc_target c) = '''' \<or> \<not> ids_ParseStrict env (crc_target c) \<or>
         TrimSpace (crc_issue c) = '''' \<or> crc_issue_version c < 1 \<or> crc_event c < 0
      then (d, Inl invalidCommand)
      else (case ValidateReviewPurposes (crc_purposes c) of
        Inl e \<Rightarrow> (d, Inl e)
      | Inr purposes \<Rightarrow> Write (
          tx_then (tx_read (\<lambda>d. loadActiveRequestForIssueVersion d (crc_issue c) (crc_issue_version c))) (\<lambda>activeRequest.
          case activeRequest of
            Some r \<Rightarrow>
              if same_request c purposes r
              then tx_then (loadRequestForMutation (rq_id r)) (\<lambda>(_, target). tx_return (Inr (r, target)))
              else tx_fail reviewAlreadyExists
          | None \<Rightarrow> create_request c purposes)) d))"

section \<open>Mutations of a request\<close>

record ReviewMutationCommand =
  rvm_request :: string
  rvm_expected :: int
  rvm_now :: time
  rvm_attempt :: "string option"

definition versionConflict :: Error where
  "versionConflict = NewError CodeVersionConflict True []"

definition CancelReviewRequest :: "ReviewMutationCommand \<Rightarrow> db \<Rightarrow> db \<times> (ReviewRequest \<times> ReviewTarget) res" where
  "CancelReviewRequest c d = Write (
     tx_then (loadRequestForMutation (rvm_request c)) (\<lambda>(request, target).
     tx_then (tx_require (rq_version request = rvm_expected c) versionConflict) (\<lambda>_.
     tx_then (tx_require (is_unresolved request) invalidCommand) (\<lambda>_.
     tx_then (update_requests (request_at (rq_id request) (rq_version request))
       (set_request ReviewRequestStatusCancelled None (Some (rvm_now c)))) (\<lambda>_.
     tx_then (case rq_attempt request of
         None \<Rightarrow> tx_return None
       | Some a \<Rightarrow>
           tx_then (terminateAttempt a AttemptStatusCancelled
             \<lparr>tr_failure = None, tr_interruption = None, tr_release = ReservationReleaseReasonForceReleased\<rparr> (rvm_now c)) (\<lambda>terminated.
           tx_return (if terminated then Some a else None))) (\<lambda>terminatedAttemptID.
     tx_then (appendReviewEvent (rq_issue request) ''review_cancelled'' terminatedAttemptID
       (payloadForReviewEvent request terminatedAttemptID None None) (rvm_now c)) (\<lambda>_.
     tx_then (case terminatedAttemptID of
         None \<Rightarrow> tx_return ()
       | Some a \<Rightarrow> appendAttemptCancelledEvent (rq_issue request) a (rvm_now c)) (\<lambda>_.
     tx_return (Inr (set_request ReviewRequestStatusCancelled None (Some (rvm_now c)) request, target)))))))))) d"

definition ClaimReviewRequest :: "ReviewMutationCommand \<Rightarrow> db \<Rightarrow> db \<times> (ReviewRequest \<times> ReviewTarget) res" where
  "ClaimReviewRequest c d =
     (case rvm_attempt c of
        None \<Rightarrow> (d, Inl invalidCommand)
      | Some attemptID \<Rightarrow>
          if TrimSpace attemptID = '''' then (d, Inl invalidCommand)
          else Write (
            tx_then (loadRequestForMutation (rvm_request c)) (\<lambda>(request, target).
            tx_then (tx_require (rq_version request = rvm_expected c) versionConflict) (\<lambda>_.
            tx_then (tx_require (rq_status request = ReviewRequestStatusOpen) invalidCommand) (\<lambda>_.
            tx_then (reviewTargetStale (rq_issue request) (rq_issue_version request) (rq_event request)) (\<lambda>stale.
            if stale then
              tx_then (supersedeOpenReviewRequest request (rvm_now c)) (\<lambda>_. tx_return (Inl staleReviewTargetError))
            else
              tx_then (tx_read (\<lambda>d. find (\<lambda>a. wa_id a = attemptID) (db_attempts d))) (\<lambda>row.
              tx_then (tx_lift (from_option attemptNotFound row)) (\<lambda>a.
              tx_then (tx_require (is_active a) attemptNotActive) (\<lambda>_.
              tx_then (tx_require (wa_kind a = AttemptKindReview) invalidCommand) (\<lambda>_.
              tx_then (tx_require (wa_issue a = rq_issue request) invalidCommand) (\<lambda>_.
              tx_then (tx_require (wa_lease a > rvm_now c) leaseExpiredError) (\<lambda>_.
              tx_then (tx_read (\<lambda>d. list_ex (\<lambda>r. rq_attempt r = Some attemptID \<and> rq_id r \<noteq> rq_id request \<and> is_unresolved r) (db_requests d))) (\<lambda>assigned.
              tx_then (tx_require (\<not> assigned) (NewError CodeActiveAttemptExists False [])) (\<lambda>_.
              tx_then (update_requests (request_at (rq_id request) (rq_version request))
                (set_request ReviewRequestStatusClaimed (Some attemptID) None)) (\<lambda>_.
              tx_then (appendReviewEvent (rq_issue request) ''review_claimed'' (Some attemptID)
                (payloadForReviewEvent request (Some attemptID) None None) (rvm_now c)) (\<lambda>_.
              tx_return (Inr (set_request ReviewRequestStatusClaimed (Some attemptID) None request, target))))))))))))))))) d)"

record ResolveReviewRequestCommand =
  rvr_request :: string
  rvr_expected :: int
  rvr_outcome_id :: string
  rvr_now :: time
  rvr_attempt :: string
  rvr_outcome :: ReviewOutcome
  rvr_reason :: "string option"

definition outcome_row :: "ResolveReviewRequestCommand \<Rightarrow> ReviewRequest \<Rightarrow> ReviewOutcomeRecord" where
  "outcome_row c request =
     \<lparr>ro_id = rvr_outcome_id c, ro_request = rq_id request, ro_attempt = rvr_attempt c, ro_outcome = rvr_outcome c,
      ro_reason = rvr_reason c, ro_version = 1, ro_created = rvr_now c\<rparr>"

definition ResolveReviewRequest ::
  "env \<Rightarrow> ResolveReviewRequestCommand \<Rightarrow> db \<Rightarrow> db \<times> (ReviewRequest \<times> ReviewTarget \<times> ReviewOutcomeRecord) res" where
  "ResolveReviewRequest env c d =
     (if TrimSpace (rvr_outcome_id c) = '''' \<or> \<not> ids_ParseStrict env (rvr_outcome_id c) \<or>
         rvr_attempt c = '''' \<or> \<not> ReviewOutcome_Valid (rvr_outcome c)
      then (d, Inl invalidCommand)
      else Write (
        tx_then (loadRequestForMutation (rvr_request c)) (\<lambda>(request, target).
        tx_then (tx_require (rq_version request = rvr_expected c) versionConflict) (\<lambda>_.
        tx_then (tx_require (rq_status request = ReviewRequestStatusClaimed) invalidCommand) (\<lambda>_.
        tx_then (tx_require (rq_attempt request = Some (rvr_attempt c)) invalidCommand) (\<lambda>_.
        let nextStatus = reviewRequestStatusForOutcome (rvr_outcome c) in
        tx_then (update_requests (request_at (rq_id request) (rq_version request))
          (set_request nextStatus None (Some (rvr_now c)))) (\<lambda>_.
        tx_then (exec (\<lambda>d. d\<lparr>db_outcomes := db_outcomes d @ [outcome_row c request]\<rparr>)) (\<lambda>_.
        tx_then (appendReviewEvent (rq_issue request) (reviewEventTypeForOutcome (rvr_outcome c)) (Some (rvr_attempt c))
          (payloadForReviewEvent request (Some (rvr_attempt c)) (Some (rvr_outcome c)) (rvr_reason c)) (rvr_now c)) (\<lambda>_.
        tx_return (Inr (set_request nextStatus None (Some (rvr_now c)) request, target, outcome_row c request)))))))))) d)"

section \<open>Replacing a request\<close>

record ReplaceReviewRequestCommand =
  rpc_predecessor :: string
  rpc_expected :: int
  rpc_successor :: string
  rpc_successor_target :: string
  rpc_issue_version :: int
  rpc_event :: int
  rpc_artifacts :: "string list"
  rpc_purposes :: "string list"
  rpc_now :: time
  rpc_key :: string
  rpc_hash :: string

definition response_replace :: "Response \<Rightarrow> ReplaceReviewRequestResult res" where
  "response_replace r = (case r of ResponseReplace x \<Rightarrow> Inr x | _ \<Rightarrow> Inl storedResponseInvalid)"

definition replaceable :: "ReviewRequestStatus \<Rightarrow> unit res" where
  "replaceable status =
     (if status = ReviewRequestStatusOpen then Inr ()
      else if status = ReviewRequestStatusClaimed then Inl (NewError CodeReviewRequestClaimed False [])
      else Inl (NewError CodeReviewRequestNotReplaceable False []))"

definition payloadForReplaceReviewEvent :: "string \<Rightarrow> string \<Rightarrow> string \<Rightarrow> string \<Rightarrow> Payload" where
  "payloadForReplaceReviewEvent requestID targetID successorID predecessorID =
     PayloadReplace requestID targetID (if successorID \<noteq> '''' then Some successorID else None)
       (if predecessorID \<noteq> '''' then Some predecessorID else None)"

definition replace_request :: "ReplaceReviewRequestCommand \<Rightarrow> ReplaceReviewRequestResult res tx" where
  "replace_request c =
     tx_then (loadRequestForMutation (rpc_predecessor c)) (\<lambda>(predecessor, _).
     tx_then (tx_require (rq_version predecessor = rpc_expected c) versionConflict) (\<lambda>_.
     tx_then (tx_lift (replaceable (rq_status predecessor))) (\<lambda>_.
     tx_then (reviewTargetFuture (rpc_event c)) (\<lambda>future.
     tx_then (tx_require (\<not> future) staleReviewTargetError) (\<lambda>_.
     tx_then (reviewTargetStale (rq_issue predecessor) (rpc_issue_version c) (rpc_event c)) (\<lambda>stale.
     tx_then (tx_require (\<not> stale) staleReviewTargetError) (\<lambda>_.
     let purposes = (if length (rpc_purposes c) = 0 then rq_purposes predecessor else rpc_purposes c) in
     tx_then (tx_read (\<lambda>d. loadActiveRequestForIssueVersion d (rq_issue predecessor) (rpc_issue_version c))) (\<lambda>activeForVersion.
     tx_then (tx_require (case activeForVersion of None \<Rightarrow> True | Some r \<Rightarrow> rq_id r = rq_id predecessor) reviewAlreadyExists) (\<lambda>_.
     tx_then (ensureTarget (rpc_successor_target c) (rq_issue predecessor) (rpc_issue_version c) (rpc_event c)
       (rpc_artifacts c) purposes (rpc_now c)) (\<lambda>target.
     tx_then (requireReviewPurposeCoverage (rt_id target) purposes) (\<lambda>_.
     tx_then (update_requests (request_at (rq_id predecessor) (rq_version predecessor))
       (set_request ReviewRequestStatusSuperseded None (Some (rpc_now c)))) (\<lambda>_.
     let successor = open_request (rpc_successor c) target (Some (rq_id predecessor)) (rpc_now c) in
     tx_then (exec (\<lambda>d. d\<lparr>db_requests := db_requests d @ [successor]\<rparr>)) (\<lambda>_.
     tx_then (appendReviewEvent (rq_issue predecessor) ''review_superseded'' None
       (payloadForReplaceReviewEvent (rq_id predecessor) (rq_target predecessor) (rpc_successor c) '''') (rpc_now c)) (\<lambda>_.
     tx_then (appendReviewEvent (rq_issue predecessor) ''review_requested'' None
       (payloadForReplaceReviewEvent (rpc_successor c) (rt_id target) '''' (rq_id predecessor)) (rpc_now c)) (\<lambda>_.
     tx_then (tx_read latest_event) (\<lambda>latestEventID.
     let result = \<lparr>rrr_predecessor = set_request ReviewRequestStatusSuperseded None (Some (rpc_now c)) predecessor,
                   rrr_successor = successor, rrr_target = target, rrr_latest = latestEventID\<rparr> in
     tx_then (store_idempotency ''replace_review_request'' (rpc_key c) (rpc_hash c) (ResponseReplace result)) (\<lambda>_.
     tx_return (Inr result))))))))))))))))))"

definition ReplaceReviewRequest ::
  "env \<Rightarrow> ReplaceReviewRequestCommand \<Rightarrow> db \<Rightarrow> db \<times> ReplaceReviewRequestResult res" where
  "ReplaceReviewRequest env c d =
     (if TrimSpace (rpc_successor c) = '''' \<or> \<not> ids_ParseStrict env (rpc_successor c) \<or>
         TrimSpace (rpc_successor_target c) = '''' \<or> \<not> ids_ParseStrict env (rpc_successor_target c)
      then (d, Inl invalidCommand)
      else Write (with_replay ''replace_review_request'' (rpc_key c) (rpc_hash c) response_replace (replace_request c)) d)"

definition LookupReplaceReviewRequest :: "string \<Rightarrow> string \<Rightarrow> db \<Rightarrow> ReplaceReviewRequestResult option res" where
  "LookupReplaceReviewRequest = lookup_saved ''replace_review_request'' response_replace"

section \<open>Reading requests\<close>

definition GetReviewRequest :: "string \<Rightarrow> db \<Rightarrow> (ReviewRequest \<times> ReviewTarget \<times> bool) res" where
  "GetReviewRequest requestID d =
     (case tx_then (loadRequestForMutation requestID) (\<lambda>(request, target).
           tx_then (reviewTargetStale (rq_issue request) (rq_issue_version request) (rq_event request)) (\<lambda>stale.
           tx_return (request, target, stale))) d of
        Inl e \<Rightarrow> Inl e
      | Inr (d', r) \<Rightarrow> Inr r)"

record ListReviewRequestsQuery =
  lrq_status :: "ReviewRequestStatus option"
  lrq_limit :: nat
  lrq_offset :: int
  lrq_after :: "(time \<times> string) option"

record ListReviewRequestsResult =
  lrr_items :: "ReviewRequest list"
  lrr_more :: bool
  lrr_next :: int
  lrr_stale :: "string list"

text \<open>\<^verbatim>\<open>ORDER BY created_at DESC, id DESC\<close> after the filters, then \<^verbatim>\<open>LIMIT ? OFFSET ?\<close>.\<close>

definition listed_requests :: "db \<Rightarrow> ListReviewRequestsQuery \<Rightarrow> ReviewRequest list" where
  "listed_requests d q =
     rev (sort_key (\<lambda>r. (rq_created r, rq_id r)) (filter (\<lambda>r.
       (case lrq_status q of None \<Rightarrow> True | Some s \<Rightarrow> rq_status r = s) \<and>
       (case lrq_after q of None \<Rightarrow> True | Some p \<Rightarrow> (rq_created r, rq_id r) < p)) (db_requests d)))"

definition ListReviewRequests :: "ListReviewRequestsQuery \<Rightarrow> db \<Rightarrow> ListReviewRequestsResult res" where
  "ListReviewRequests q d =
     (let start = max 0 (lrq_offset q);
          offset = (if lrq_after q = None then nat start else 0);
          fetched = take (Suc (lrq_limit q)) (drop offset (listed_requests d q));
          page = take (lrq_limit q) fetched in
      case batchReviewTargetStaleness page d of
        Inl e \<Rightarrow> Inl e
      | Inr (d', stale) \<Rightarrow>
          Inr \<lparr>lrr_items = page, lrr_more = (length fetched > lrq_limit q),
               lrr_next = start + int (length page), lrr_stale = stale\<rparr>)"

end
