(* ===== verification/IssueInput.thy ===== *)
theory IssueInput
  imports AttemptPolicy Gates
begin

text \<open>
  Issue mutation requests: \<^verbatim>\<open>internal/domain/issue_create.go\<close>, \<^verbatim>\<open>issue_patch.go\<close> and \<^verbatim>\<open>issue_archive.go\<close>.
  \<open>OptionalValue[T]\<close> is an option, and the nullable \<open>OptionalString\<close> an option of an option: absent,
  set to null, or set to a value. The canonical JSON encoders used for request hashes are not
  modelled: a request hash is an argument of the store operations.
\<close>

section \<open>Creation\<close>

definition MaxDescriptionRunes :: int where "MaxDescriptionRunes = 100000"
definition MaxAcceptanceCriteriaRunes :: int where "MaxAcceptanceCriteriaRunes = 50000"

record CreateIssueInput =
  ci_type :: Type
  ci_title :: string
  ci_description :: "string option"
  ci_acceptance :: "string option"
  ci_status :: Status
  ci_priority :: Priority
  ci_parent :: "string option"
  ci_blocked :: "string option"
  ci_labels :: "string list"
  ci_create_missing :: bool
  ci_key :: "string option"

definition validateOptionalText :: "string \<Rightarrow> string option \<Rightarrow> int \<Rightarrow> unit res" where
  "validateOptionalText field value maximum = check_optional (\<lambda>v. ValidateText field v maximum) value"

definition check_title :: "string \<Rightarrow> unit res" where
  "check_title title =
     and_then (ValidateText ''title'' title MaxTitleRunes) (\<lambda>_.
     require (TrimSpace title \<noteq> '''') (validationError ''title'' ''REQUIRED''))"

definition parent_reference :: "env \<Rightarrow> string option \<Rightarrow> string option res" where
  "parent_reference env parent =
     (case parent of
        None \<Rightarrow> Inr None
      | Some p \<Rightarrow>
          and_then (ValidateText ''parent_id'' p (-1)) (\<lambda>_.
          case ParseIssueIdentifier env p of
            Inl _ \<Rightarrow> Inl (validationError ''parent_id'' ''INVALID_IDENTIFIER'')
          | Inr identifier \<Rightarrow> Inr (Some (id_value identifier))))"

definition epicHasNoParent :: Error where
  "epicHasNoParent = NewError CodeInvalidEpicParent False [detail ''parent_id'' CodeInvalidEpicParent]"

definition blockedReasonRequired :: Error where
  "blockedReasonRequired = NewError CodeInvalidArgument False [detail ''blocked_reason'' ''REQUIRED'']"

definition blockedReasonForbidden :: Error where
  "blockedReasonForbidden = NewError CodeInvalidArgument False [detail ''blocked_reason'' ''FORBIDDEN'']"

definition create_blocked_reason :: "Status \<Rightarrow> string option \<Rightarrow> unit res" where
  "create_blocked_reason status reason =
     (if status = StatusBlocked then
        (case reason of
           None \<Rightarrow> Inl blockedReasonRequired
         | Some r \<Rightarrow> if TrimSpace r = '''' then Inl blockedReasonRequired else ValidateText ''blocked_reason'' r (-1))
      else require (reason = None) blockedReasonForbidden)"

definition CreateIssueInput_Validate :: "env \<Rightarrow> CreateIssueInput \<Rightarrow> CreateIssueInput res" where
  "CreateIssueInput_Validate env i =
     and_then (require (Type_Valid (ci_type i)) (invalidEnum ''type'')) (\<lambda>_.
     and_then (check_title (ci_title i)) (\<lambda>_.
     and_then (validateOptionalText ''description'' (ci_description i) MaxDescriptionRunes) (\<lambda>_.
     and_then (validateOptionalText ''acceptance_criteria'' (ci_acceptance i) MaxAcceptanceCriteriaRunes) (\<lambda>_.
     let status = (if ci_status i = Status_other '''' then StatusOpen else ci_status i) in
     and_then (require (Status_Valid status) (invalidEnum ''status'')) (\<lambda>_.
     let priority = (if ci_priority i = Priority_other '''' then PriorityMedium else ci_priority i) in
     and_then (require (Priority_Valid priority) (invalidEnum ''priority'')) (\<lambda>_.
     and_then (parent_reference env (ci_parent i)) (\<lambda>parent.
     and_then (require (\<not> (ci_type i = TypeEpic \<and> parent \<noteq> None)) epicHasNoParent) (\<lambda>_.
     and_then (create_blocked_reason status (ci_blocked i)) (\<lambda>_.
     and_then (NormalizeLabelNames (ci_labels i)) (\<lambda>labels.
     and_then (normalize_idempotency_key (ci_key i)) (\<lambda>key.
     Inr (i\<lparr>ci_status := status, ci_priority := priority, ci_parent := parent, ci_labels := labels, ci_key := key\<rparr>))))))))))))"

section \<open>Patches\<close>

record IssuePatch =
  pt_title :: "string option"
  pt_description :: "string option option"
  pt_acceptance :: "string option option"
  pt_type :: "Type option"
  pt_priority :: "Priority option"
  pt_status :: "Status option"
  pt_parent :: "string option option"
  pt_blocked :: "string option option"
  pt_labels :: "string list option option"

record UpdateIssueInput =
  ui_issue :: string
  ui_expected :: int
  ui_changes :: IssuePatch
  ui_create_missing :: bool
  ui_key :: "string option"

definition anySet :: "IssuePatch \<Rightarrow> bool" where
  "anySet p \<longleftrightarrow> pt_title p \<noteq> None \<or> pt_description p \<noteq> None \<or> pt_acceptance p \<noteq> None \<or>
     pt_type p \<noteq> None \<or> pt_priority p \<noteq> None \<or> pt_status p \<noteq> None \<or>
     pt_parent p \<noteq> None \<or> pt_blocked p \<noteq> None \<or> pt_labels p \<noteq> None"

text \<open>The deferred error translation of the \<^verbatim>\<open>Validate\<close> methods of this section.\<close>

definition normalizeUpdateValidationError :: "'a res \<Rightarrow> 'a res" where
  "normalizeUpdateValidationError r =
     (case r of
        Inr x \<Rightarrow> Inr x
      | Inl e \<Rightarrow> if Code e \<noteq> CodeInvalidArgument then Inl e else Inl (NewError CodeValidationError False (Details e)))"

definition check_set :: "('a \<Rightarrow> unit res) \<Rightarrow> 'a option \<Rightarrow> unit res" where
  "check_set f v = (case v of None \<Rightarrow> Inr () | Some x \<Rightarrow> f x)"

definition map_set :: "('a \<Rightarrow> 'b res) \<Rightarrow> 'a option \<Rightarrow> 'b option res" where
  "map_set f v = (case v of None \<Rightarrow> Inr None | Some x \<Rightarrow> and_then (f x) (\<lambda>y. Inr (Some y)))"

definition patch_labels :: "string list option \<Rightarrow> string list option res" where
  "patch_labels v =
     (case v of
        None \<Rightarrow> Inl (validationError ''labels'' ''NULL_NOT_ALLOWED'')
      | Some names \<Rightarrow> and_then (NormalizeLabelNames names) (\<lambda>labels. Inr (Some labels)))"

definition validate_patch :: "env \<Rightarrow> IssuePatch \<Rightarrow> IssuePatch res" where
  "validate_patch env p =
     and_then (require (anySet p) (validationError ''changes'' ''REQUIRED'')) (\<lambda>_.
     and_then (check_set check_title (pt_title p)) (\<lambda>_.
     and_then (check_set (\<lambda>v. validateOptionalText ''description'' v MaxDescriptionRunes) (pt_description p)) (\<lambda>_.
     and_then (check_set (\<lambda>v. validateOptionalText ''acceptance_criteria'' v MaxAcceptanceCriteriaRunes) (pt_acceptance p)) (\<lambda>_.
     and_then (check_set (\<lambda>t. require (Type_Valid t) (invalidEnum ''type'')) (pt_type p)) (\<lambda>_.
     and_then (check_set (\<lambda>t. require (Priority_Valid t) (invalidEnum ''priority'')) (pt_priority p)) (\<lambda>_.
     and_then (check_set (\<lambda>t. require (Status_Valid t) (invalidEnum ''status'')) (pt_status p)) (\<lambda>_.
     and_then (map_set (parent_reference env) (pt_parent p)) (\<lambda>parent.
     and_then (check_set (check_optional (\<lambda>r. ValidateText ''blocked_reason'' r (-1))) (pt_blocked p)) (\<lambda>_.
     and_then (map_set patch_labels (pt_labels p)) (\<lambda>labels.
     Inr (p\<lparr>pt_parent := parent, pt_labels := labels\<rparr>)))))))))))"

definition UpdateIssueInput_Validate :: "env \<Rightarrow> UpdateIssueInput \<Rightarrow> UpdateIssueInput res" where
  "UpdateIssueInput_Validate env i = normalizeUpdateValidationError (
     and_then (require (ui_expected i \<ge> 1) (validationError ''expected_version'' ''REQUIRED'')) (\<lambda>_.
     and_then (ParseIssueIdentifier env (ui_issue i)) (\<lambda>identifier.
     and_then (validate_patch env (ui_changes i)) (\<lambda>patch.
     and_then (normalize_idempotency_key (ui_key i)) (\<lambda>key.
     Inr (i\<lparr>ui_issue := id_value identifier, ui_changes := patch, ui_key := key\<rparr>))))))"

definition directTransitionToGatedStatusForbidden :: Error where
  "directTransitionToGatedStatusForbidden =
     NewError CodeInvalidTransition False [detail ''changes.status'' ''UNSUPPORTED_DIRECT_TRANSITION'']"

text \<open>The part of \<^verbatim>\<open>ApplyIssuePatch\<close> that copies set fields, and the part that decides status and reason.\<close>

definition patched :: "'a option \<Rightarrow> 'a \<Rightarrow> 'a" where
  "patched new old = (case new of None \<Rightarrow> old | Some x \<Rightarrow> x)"

definition patch_fields :: "IssuePatch \<Rightarrow> Issue \<Rightarrow> Issue" where
  "patch_fields p i =
     i\<lparr>Title := patched (pt_title p) (Title i), Description := patched (pt_description p) (Description i),
       AcceptanceCriteria := patched (pt_acceptance p) (AcceptanceCriteria i),
       IType := patched (pt_type p) (IType i), IPriority := patched (pt_priority p) (IPriority i),
       ParentID := patched (pt_parent p) (ParentID i),
       Labels := (case pt_labels p of None \<Rightarrow> Labels i | Some ls \<Rightarrow> patched ls [])\<rparr>"

definition set_fields :: "IssuePatch \<Rightarrow> string list" where
  "set_fields p =
     (if pt_title p \<noteq> None then [''title''] else []) @ (if pt_description p \<noteq> None then [''description''] else []) @
     (if pt_acceptance p \<noteq> None then [''acceptance_criteria''] else []) @ (if pt_type p \<noteq> None then [''type''] else []) @
     (if pt_priority p \<noteq> None then [''priority''] else []) @ (if pt_parent p \<noteq> None then [''parent_id''] else []) @
     (if pt_labels p \<noteq> None then [''labels''] else [])"

definition patch_status :: "Issue \<Rightarrow> IssuePatch \<Rightarrow> Issue \<Rightarrow> (Issue \<times> string list) res" where
  "patch_status current p result =
     (case pt_status p of
        Some target \<Rightarrow>
          if target = StatusReview \<or> target = StatusDone \<and> (Executable (IType current) \<or> Executable (IType result))
          then Inl directTransitionToGatedStatusForbidden
          else if target = StatusBlocked then
            (case pt_blocked p of
               Some (Some reason) \<Rightarrow>
                 and_then (ApplyStatusTransition (IStatus current) target reason) (\<lambda>reason.
                 Inr (result\<lparr>BlockedReason := Some reason, IStatus := target\<rparr>, [''blocked_reason'', ''status'']))
             | _ \<Rightarrow> Inl blockedReasonRequired)
          else if pt_blocked p \<noteq> None \<and> pt_blocked p \<noteq> Some None then Inl blockedReasonForbidden
          else
            and_then (ApplyPatchStatusTransition (IType result) (IStatus current) target '''') (\<lambda>_.
            Inr (result\<lparr>BlockedReason := None, IStatus := target\<rparr>,
              (if BlockedReason current \<noteq> None \<or> pt_blocked p \<noteq> None then [''blocked_reason''] else []) @ [''status'']))
      | None \<Rightarrow>
          (case pt_blocked p of
             None \<Rightarrow> Inr (result, [])
           | Some v \<Rightarrow>
               if IStatus current \<noteq> StatusBlocked \<or> v = None \<or> TrimSpace (the v) = '''' then Inl blockedReasonRequired
               else Inr (result\<lparr>BlockedReason := v\<rparr>, [''blocked_reason''])))"

definition orderedChangedFields :: "string list \<Rightarrow> string list" where
  "orderedChangedFields fs = sort (remdups fs)"

definition ApplyIssuePatch :: "Issue \<Rightarrow> IssuePatch \<Rightarrow> (Issue \<times> string list) res" where
  "ApplyIssuePatch current p =
     and_then (patch_status current p (patch_fields p current)) (\<lambda>(result, changed).
     and_then (require (\<not> (IType result = TypeEpic \<and> ParentID result \<noteq> None)) epicHasNoParent) (\<lambda>_.
     Inr (result, orderedChangedFields (set_fields p @ changed))))"

section \<open>Archiving\<close>

record ArchiveIssueInput =
  hi_issue :: string
  hi_expected :: int
  hi_key :: "string option"

definition ArchiveIssueInput_Validate :: "env \<Rightarrow> ArchiveIssueInput \<Rightarrow> ArchiveIssueInput res" where
  "ArchiveIssueInput_Validate env i = normalizeUpdateValidationError (
     and_then (require (hi_expected i \<ge> 1) (validationError ''expected_version'' ''REQUIRED'')) (\<lambda>_.
     and_then (ParseIssueIdentifier env (hi_issue i)) (\<lambda>identifier.
     and_then (normalize_idempotency_key (hi_key i)) (\<lambda>key.
     Inr (i\<lparr>hi_issue := id_value identifier, hi_key := key\<rparr>)))))"

record UnarchiveIssueInput =
  wi_issue :: string
  wi_expected :: int
  wi_session :: "string option"
  wi_key :: "string option"

definition UnarchiveIssueInput_Validate :: "env \<Rightarrow> UnarchiveIssueInput \<Rightarrow> UnarchiveIssueInput res" where
  "UnarchiveIssueInput_Validate env i = normalizeUpdateValidationError (
     and_then (require (wi_expected i \<ge> 1) (validationError ''expected_version'' ''REQUIRED'')) (\<lambda>_.
     and_then (ParseIssueIdentifier env (wi_issue i)) (\<lambda>identifier.
     and_then (copyOptionalSessionID env (wi_session i)) (\<lambda>session.
     and_then (normalize_idempotency_key (wi_key i)) (\<lambda>key.
     Inr (i\<lparr>wi_issue := id_value identifier, wi_session := session, wi_key := key\<rparr>))))))"

end
