(* ===== verification/Issues.thy ===== *)
theory Issues
  imports Reviews IssueInput
begin

text \<open>
  The issue repository (\<^verbatim>\<open>internal/adapters/sqlite/issues.go\<close>) and the labels it assigns
  (\<^verbatim>\<open>labels.go\<close>): creating, updating, archiving and restoring an issue, with the commands of
  \<^verbatim>\<open>internal/ports/issues.go\<close>. The join \<^verbatim>\<open>issue_labels\<close> is kept by name in the issue row, in the order
  \<^verbatim>\<open>loadIssueLabels\<close> reads it.
\<close>

section \<open>Labels\<close>

definition storedLabelInvalid :: Error where
  "storedLabelInvalid = NewError CodeStorageCorrupt False []"

definition scanLabel :: "Label \<Rightarrow> Label res" where
  "scanLabel row =
     (case NormalizeLabelName (lb_name row) of
        Inl _ \<Rightarrow> Inl storedLabelInvalid
      | Inr (displayName, _) \<Rightarrow> Inr (row\<lparr>lb_name := displayName\<rparr>))"

definition same_label_name :: "string \<Rightarrow> Label \<Rightarrow> bool" where
  "same_label_name nm l \<longleftrightarrow> asciiLower (lb_name l) = asciiLower nm"

definition loadLabelByName :: "db \<Rightarrow> string \<Rightarrow> Label res option" where
  "loadLabelByName d nm = map_option scanLabel (find (same_label_name nm) (db_labels d))"

definition validateLabelIDs :: "env \<Rightarrow> string list \<Rightarrow> bool \<Rightarrow> string list \<Rightarrow> unit res" where
  "validateLabelIDs env names createMissing labelIDs =
     (if \<not> createMissing then require (length labelIDs = 0) (NewError CodeInvalidArgument False [])
      else if length labelIDs \<noteq> length names then Inl (NewError CodeIDGeneration False [])
      else require (list_all (ids_ParseStrict env) labelIDs) (NewError CodeIDGeneration False []))"

text \<open>\<^verbatim>\<open>INSERT ... ON CONFLICT DO NOTHING\<close>: a row that would break a uniqueness constraint is skipped.\<close>

definition insert_label :: "string \<Rightarrow> string \<Rightarrow> time \<Rightarrow> unit tx" where
  "insert_label labelID nm now =
     tx_then (tx_read (\<lambda>d. list_ex (\<lambda>l. lb_id l = labelID \<or> same_label_name nm l) (db_labels d))) (\<lambda>taken.
     if taken then tx_return ()
     else exec (\<lambda>d. d\<lparr>db_labels := db_labels d @ [\<lparr>lb_id = labelID, lb_name = nm, lb_description = None, lb_created = now\<rparr>]\<rparr>))"

definition labelNotFound :: Error where
  "labelNotFound = NewError CodeLabelNotFound False [detail ''labels'' CodeLabelNotFound]"

definition resolve_label :: "bool \<Rightarrow> string list \<Rightarrow> time \<Rightarrow> nat \<times> string \<Rightarrow> Label tx" where
  "resolve_label createMissing labelIDs now = (\<lambda>(index, nm).
     tx_then (tx_read (\<lambda>d. loadLabelByName d nm)) (\<lambda>found.
     case found of
       Some label \<Rightarrow> tx_lift label
     | None \<Rightarrow>
         if \<not> createMissing then tx_fail labelNotFound
         else
           tx_then (insert_label (labelIDs ! index) nm now) (\<lambda>_.
           tx_then (tx_read (\<lambda>d. loadLabelByName d nm)) (\<lambda>found.
           case found of
             None \<Rightarrow> tx_fail (NewError CodeStorageConstraint False [])
           | Some label \<Rightarrow> tx_lift label))))"

definition resolveIssueLabels :: "env \<Rightarrow> string list \<Rightarrow> bool \<Rightarrow> string list \<Rightarrow> time \<Rightarrow> Label list tx" where
  "resolveIssueLabels env names createMissing labelIDs now =
     tx_then (tx_lift (validateLabelIDs env names createMissing labelIDs)) (\<lambda>_.
     tx_map (resolve_label createMissing labelIDs now) (enumerate 0 names))"

text \<open>The assignments are by label id; what a later read joins to them are the names of these rows.\<close>

definition joined_names :: "db \<Rightarrow> string list \<Rightarrow> string list" where
  "joined_names d ids = sort_key asciiLower (map lb_name (filter (\<lambda>l. lb_id l \<in> set ids) (db_labels d)))"

definition replaceIssueLabels :: "string \<Rightarrow> Label list \<Rightarrow> unit tx" where
  "replaceIssueLabels issueID labels =
     exec (\<lambda>d. d\<lparr>db_issues := update_where (\<lambda>i. IID i = issueID)
       (\<lambda>i. i\<lparr>Labels := joined_names d (map lb_id labels)\<rparr>) (db_issues d)\<rparr>)"

section \<open>Parents\<close>

definition invalidParentError :: Error where
  "invalidParentError = NewError CodeInvalidEpicParent False [detail ''parent_id'' CodeInvalidEpicParent]"

definition archivedParentError :: Error where
  "archivedParentError = NewError CodeInvalidEpicParent False [detail ''parent_id'' ''PARENT_ARCHIVED'']"

definition epicHasChildrenError :: "string \<Rightarrow> Error" where
  "epicHasChildrenError field = NewError CodeInvalidEpicParent False [detail field ''HAS_CHILDREN'']"

definition find_issue :: "db \<Rightarrow> IssueIdentifier \<Rightarrow> Issue option" where
  "find_issue d identifier =
     (case id_kind identifier of
        IssueIdentifierInternalID \<Rightarrow> find (\<lambda>i. IID i = id_value identifier) (db_issues d)
      | IssueIdentifierDisplayID \<Rightarrow> find (\<lambda>i. SequenceNo i = id_sequence identifier) (db_issues d))"

definition validateParent :: "env \<Rightarrow> string option \<Rightarrow> string option tx" where
  "validateParent env parentID =
     (case parentID of
        None \<Rightarrow> tx_return None
      | Some p \<Rightarrow>
          tx_then (tx_lift (ParseIssueIdentifier env p)) (\<lambda>identifier.
          tx_then (tx_read (\<lambda>d. find_issue d identifier)) (\<lambda>row.
          case row of
            None \<Rightarrow> tx_fail invalidParentError
          | Some parent \<Rightarrow>
              if IType parent \<noteq> TypeEpic then tx_fail invalidParentError
              else if ArchivedAt parent \<noteq> None then tx_fail archivedParentError
              else tx_return (Some (IID parent)))))"

definition epicHasLiveChildren :: "db \<Rightarrow> string \<Rightarrow> bool" where
  "epicHasLiveChildren d epicID \<longleftrightarrow> list_ex (\<lambda>i. ParentID i = Some epicID \<and> ArchivedAt i = None) (db_issues d)"

section \<open>Creating an issue\<close>

record CreateIssueCommand =
  xc_id :: string
  xc_input :: CreateIssueInput
  xc_label_ids :: "string list"
  xc_now :: time
  xc_key :: string
  xc_hash :: string

definition response_issue :: "Response \<Rightarrow> Issue res" where
  "response_issue r = (case r of ResponseIssue x \<Rightarrow> Inr x | _ \<Rightarrow> Inl storedResponseInvalid)"

definition create_gate :: "CreateIssueInput \<Rightarrow> unit tx" where
  "create_gate input =
     (case enforcementPointForCreateStatus (ci_status input) of
        None \<Rightarrow> tx_return ()
      | Some point \<Rightarrow>
          tx_then (evaluateGateAgainstLivePolicies point (ci_type input) (ci_labels input)
            \<lparr>AcceptanceCriteriaBlank = acceptanceCriteriaBlank (ci_acceptance input),
             AttemptEvidenceKeys = [], ReviewApprovalPurposes = []\<rparr>) (\<lambda>_. tx_return ()))"

definition projectNotInitialized :: Error where
  "projectNotInitialized = NewError CodeProjectNotInitialized False []"

definition allocate_number :: "time \<Rightarrow> int tx" where
  "allocate_number now =
     tx_then (tx_read db_project) (\<lambda>project.
     case project of
       None \<Rightarrow> tx_fail projectNotInitialized
     | Some p \<Rightarrow>
         tx_then (exec (\<lambda>d. d\<lparr>db_project := Some (p\<lparr>pj_next := pj_next p + 1, pj_updated := now\<rparr>)\<rparr>)) (\<lambda>_.
         tx_return (pj_next p)))"

definition created_issue :: "string \<Rightarrow> CreateIssueInput \<Rightarrow> int \<Rightarrow> string option \<Rightarrow> time \<Rightarrow> Issue" where
  "created_issue i input sequenceNo parent now =
     \<lparr>IID = i, SequenceNo = sequenceNo, IType = ci_type input, Title = ci_title input,
      Description = ci_description input, AcceptanceCriteria = ci_acceptance input, IStatus = ci_status input,
      IPriority = ci_priority input, ParentID = parent, BlockedReason = ci_blocked input, IVersion = 1,
      CreatedAt = now, UpdatedAt = now, ClosedAt = None, ArchivedAt = None, Labels = []\<rparr>"

definition create_issue :: "env \<Rightarrow> CreateIssueCommand \<Rightarrow> CreateIssueInput \<Rightarrow> Issue res tx" where
  "create_issue env c input =
     tx_then (create_gate input) (\<lambda>_.
     tx_then (allocate_number (xc_now c)) (\<lambda>sequenceNo.
     tx_then (validateParent env (ci_parent input)) (\<lambda>parent.
     let row = created_issue (xc_id c) input sequenceNo parent (xc_now c) in
     tx_then (exec (\<lambda>d. d\<lparr>db_issues := db_issues d @ [row]\<rparr>)) (\<lambda>_.
     tx_then (resolveIssueLabels env (ci_labels input) (ci_create_missing input) (xc_label_ids c) (xc_now c)) (\<lambda>labels.
     tx_then (replaceIssueLabels (xc_id c) labels) (\<lambda>_.
     tx_then (append_event (Some (xc_id c)) ''issue_created'' None None
       (PayloadIssueCreated sequenceNo (ci_type input) (ci_status input) (ci_priority input) parent (map lb_name labels))
       (xc_now c) SourceIssue) (\<lambda>_.
     let issue = row\<lparr>Labels := map lb_name labels\<rparr> in
     tx_then (store_idempotency ''create_issue'' (xc_key c) (xc_hash c) (ResponseIssue issue)) (\<lambda>_.
     tx_return (Inr issue)))))))))"

definition CreateIssue :: "env \<Rightarrow> CreateIssueCommand \<Rightarrow> db \<Rightarrow> db \<times> Issue res" where
  "CreateIssue env c d =
     (case CreateIssueInput_Validate env (xc_input c) of
        Inl e \<Rightarrow> (d, Inl e)
      | Inr input \<Rightarrow>
          if \<not> ids_ParseStrict env (xc_id c) then (d, Inl (NewError CodeIDGeneration False []))
          else Write (with_replay ''create_issue'' (xc_key c) (xc_hash c) response_issue (create_issue env c input)) d)"

definition LookupCreateIssue :: "string \<Rightarrow> string \<Rightarrow> db \<Rightarrow> Issue option res" where
  "LookupCreateIssue = lookup_saved ''create_issue'' response_issue"

definition GetIssue :: "IssueIdentifier \<Rightarrow> db \<Rightarrow> Issue res" where
  "GetIssue identifier d = map_sum id snd (loadIssueForMutation identifier d)"

section \<open>Updating an issue\<close>

record UpdateIssueCommand =
  uc_identifier :: IssueIdentifier
  uc_expected :: int
  uc_changes :: IssuePatch
  uc_label_ids :: "string list"
  uc_create_missing :: bool
  uc_now :: time
  uc_key :: string
  uc_hash :: string

definition response_update :: "Response \<Rightarrow> (Issue \<times> string list) res" where
  "response_update r = (case r of ResponseUpdate i fs \<Rightarrow> Inr (i, fs) | _ \<Rightarrow> Inl storedResponseInvalid)"

definition LookupUpdateIssue :: "string \<Rightarrow> string \<Rightarrow> db \<Rightarrow> (Issue \<times> string list) option res" where
  "LookupUpdateIssue = lookup_saved ''update_issue'' response_update"

definition activeAttemptExists :: Error where
  "activeAttemptExists = NewError CodeActiveAttemptExists False []"

text \<open>Lapsed attempts are swept before the guard looks for an active one.\<close>

definition require_no_attempt :: "string \<Rightarrow> time \<Rightarrow> unit tx" where
  "require_no_attempt issueID now =
     tx_then (expireAttemptsForIssue issueID now) (\<lambda>_.
     tx_then (tx_read (\<lambda>d. has_active_attempt d issueID)) (\<lambda>active.
     tx_require (\<not> active) activeAttemptExists))"

definition require_no_children :: "string \<Rightarrow> string \<Rightarrow> unit tx" where
  "require_no_children epicID field =
     tx_then (tx_read (\<lambda>d. epicHasLiveChildren d epicID)) (\<lambda>hasChildren.
     tx_require (\<not> hasChildren) (epicHasChildrenError field))"

definition update_parent :: "env \<Rightarrow> IssuePatch \<Rightarrow> Issue \<Rightarrow> Issue \<Rightarrow> string option tx" where
  "update_parent env p current next_issue =
     (if pt_parent p \<noteq> None \<and> ParentID next_issue \<noteq> None then
        tx_then (validateParent env (ParentID next_issue)) (\<lambda>resolved.
        if resolved = Some (IID current) then tx_fail invalidParentError else tx_return resolved)
      else tx_return (ParentID next_issue))"

definition update_labels :: "env \<Rightarrow> UpdateIssueCommand \<Rightarrow> string \<Rightarrow> Issue \<Rightarrow> string list tx" where
  "update_labels env c issueID next_issue =
     (case pt_labels (uc_changes c) of
        None \<Rightarrow> tx_return (Labels next_issue)
      | Some names \<Rightarrow>
          tx_then (resolveIssueLabels env (patched names []) (uc_create_missing c) (uc_label_ids c) (uc_now c)) (\<lambda>labels.
          tx_then (replaceIssueLabels issueID labels) (\<lambda>_.
          tx_return (map lb_name labels))))"

definition updated_closed_at :: "IssuePatch \<Rightarrow> Issue \<Rightarrow> Issue \<Rightarrow> time \<Rightarrow> time option" where
  "updated_closed_at p current next_issue now =
     (if pt_status p = None then ClosedAt next_issue
      else if Terminal (IStatus next_issue) \<and> \<not> Terminal (IStatus current) then Some now
      else if \<not> Terminal (IStatus next_issue) \<and> Terminal (IStatus current) then None
      else ClosedAt next_issue)"

text \<open>The columns of \<^verbatim>\<open>UPDATE issues SET\<close>; labels have their own statement.\<close>

definition assign_issue :: "Issue \<Rightarrow> Issue \<Rightarrow> Issue" where
  "assign_issue n i =
     i\<lparr>IType := IType n, Title := Title n, Description := Description n, AcceptanceCriteria := AcceptanceCriteria n,
       IStatus := IStatus n, IPriority := IPriority n, ParentID := ParentID n, BlockedReason := BlockedReason n,
       IVersion := IVersion n, UpdatedAt := UpdatedAt n, ClosedAt := ClosedAt n\<rparr>"

definition newIssueUpdatedPayload :: "Issue \<Rightarrow> string list \<Rightarrow> issueUpdatedPayload" where
  "newIssueUpdatedPayload n changedFields =
     (let has = (\<lambda>field. field \<in> set changedFields) in
      \<lparr>iu_changed = changedFields,
       iu_title = (if has ''title'' then Some (Title n) else None),
       iu_type = (if has ''type'' then Some (IType n) else None),
       iu_priority = (if has ''priority'' then Some (IPriority n) else None),
       iu_status = (if has ''status'' then Some (IStatus n) else None),
       iu_parent = (if has ''parent_id'' then ParentID n else None),
       iu_description_set = (if has ''description'' then Some (Description n \<noteq> None) else None),
       iu_acceptance_set = (if has ''acceptance_criteria'' then Some (AcceptanceCriteria n \<noteq> None) else None),
       iu_blocked_set = (if has ''blocked_reason'' then Some (BlockedReason n \<noteq> None) else None),
       iu_labels = (if has ''labels'' then Some (Labels n) else None)\<rparr>)"

definition update_event_type :: "IssuePatch \<Rightarrow> string" where
  "update_event_type p =
     (if pt_status p \<noteq> None then ''status_changed'' else if pt_labels p \<noteq> None then ''labels_changed'' else ''issue_updated'')"

text \<open>The guards of an update that depend on other rows.\<close>

definition update_guards :: "IssuePatch \<Rightarrow> Issue \<Rightarrow> Issue \<Rightarrow> time \<Rightarrow> unit tx" where
  "update_guards p current next_issue now =
     tx_then (if pt_status p \<noteq> None \<and> IStatus next_issue = StatusCancelled \<and> IStatus current \<noteq> StatusCancelled
              then require_no_attempt (IID current) now else tx_return ()) (\<lambda>_.
     if IType current = TypeEpic \<and> IType next_issue \<noteq> TypeEpic then require_no_children (IID current) ''type''
     else tx_return ())"

definition update_issue :: "env \<Rightarrow> UpdateIssueCommand \<Rightarrow> (Issue \<times> string list) res tx" where
  "update_issue env c =
     tx_then (loadIssueForMutation (uc_identifier c)) (\<lambda>current.
     tx_then (tx_require (ArchivedAt current = None) issueArchived) (\<lambda>_.
     tx_then (tx_require (IVersion current = uc_expected c) versionConflict) (\<lambda>_.
     tx_then (tx_lift (ApplyIssuePatch current (uc_changes c))) (\<lambda>(applied, changedFields).
     tx_then (update_guards (uc_changes c) current applied (uc_now c)) (\<lambda>_.
     tx_then (update_parent env (uc_changes c) current applied) (\<lambda>parent.
     tx_then (tx_require (\<not> (IType applied = TypeEpic \<and> parent \<noteq> None)) invalidParentError) (\<lambda>_.
     tx_then (update_labels env c (IID current) applied) (\<lambda>labels.
     let next_issue = applied\<lparr>ParentID := parent, Labels := labels, UpdatedAt := uc_now c, IVersion := IVersion current + 1,
           ClosedAt := updated_closed_at (uc_changes c) current applied (uc_now c)\<rparr> in
     tx_then (update_issues (unarchived_at (IID current) (uc_expected c)) (assign_issue next_issue)) (\<lambda>affected.
     if affected \<noteq> 1 then classifyConditionalUpdateFailure (IID current)
     else
       tx_then (append_event (Some (IID current)) (update_event_type (uc_changes c)) None None
         (PayloadIssueUpdated (newIssueUpdatedPayload next_issue changedFields)) (uc_now c) SourceIssue) (\<lambda>_.
       tx_then (store_idempotency ''update_issue'' (uc_key c) (uc_hash c) (ResponseUpdate next_issue changedFields)) (\<lambda>_.
       tx_return (Inr (next_issue, changedFields)))))))))))))"

definition UpdateIssue :: "env \<Rightarrow> UpdateIssueCommand \<Rightarrow> db \<Rightarrow> db \<times> (Issue \<times> string list) res" where
  "UpdateIssue env c d = Write (with_replay ''update_issue'' (uc_key c) (uc_hash c) response_update (update_issue env c)) d"

section \<open>Archiving and restoring\<close>

record ArchiveIssueCommand =
  hc_identifier :: IssueIdentifier
  hc_expected :: int
  hc_now :: time
  hc_key :: string
  hc_hash :: string

definition LookupArchiveIssue :: "string \<Rightarrow> string \<Rightarrow> db \<Rightarrow> Issue option res" where
  "LookupArchiveIssue = lookup_saved ''archive_issue'' response_issue"

definition archive_row :: "time \<Rightarrow> Issue \<Rightarrow> Issue" where
  "archive_row now i = i\<lparr>ArchivedAt := Some now, IVersion := IVersion i + 1, UpdatedAt := now\<rparr>"

definition archive_issue :: "ArchiveIssueCommand \<Rightarrow> Issue res tx" where
  "archive_issue c =
     tx_then (loadIssueForMutation (hc_identifier c)) (\<lambda>current.
     tx_then (tx_require (ArchivedAt current = None) issueArchived) (\<lambda>_.
     tx_then (tx_require (IVersion current = hc_expected c) versionConflict) (\<lambda>_.
     tx_then (if IType current = TypeEpic then require_no_children (IID current) ''id'' else tx_return ()) (\<lambda>_.
     tx_then (require_no_attempt (IID current) (hc_now c)) (\<lambda>_.
     tx_then (update_issues (unarchived_at (IID current) (hc_expected c)) (archive_row (hc_now c))) (\<lambda>affected.
     if affected \<noteq> 1 then classifyConditionalUpdateFailure (IID current)
     else
       tx_then (append_event (Some (IID current)) ''issue_archived'' None None
         (PayloadIssueArchived (hc_expected c + 1) (hc_now c)) (hc_now c) SourceIssue) (\<lambda>_.
       tx_then (loadIssueForMutation (internal_id (IID current))) (\<lambda>issue.
       tx_then (store_idempotency ''archive_issue'' (hc_key c) (hc_hash c) (ResponseIssue issue)) (\<lambda>_.
       tx_return (Inr issue))))))))))"

definition ArchiveIssue :: "ArchiveIssueCommand \<Rightarrow> db \<Rightarrow> db \<times> Issue res" where
  "ArchiveIssue c d = Write (with_replay ''archive_issue'' (hc_key c) (hc_hash c) response_issue (archive_issue c)) d"

record UnarchiveIssueCommand =
  wc_identifier :: IssueIdentifier
  wc_expected :: int
  wc_session :: "string option"
  wc_now :: time
  wc_key :: string
  wc_hash :: string

definition LookupUnarchiveIssue :: "string \<Rightarrow> string \<Rightarrow> db \<Rightarrow> Issue option res" where
  "LookupUnarchiveIssue = lookup_saved ''unarchive_issue'' response_issue"

definition archived_version :: "string \<Rightarrow> int \<Rightarrow> Issue \<Rightarrow> bool" where
  "archived_version i v x \<longleftrightarrow> IID x = i \<and> IVersion x = v \<and> ArchivedAt x \<noteq> None"

definition restore_row :: "time \<Rightarrow> Issue \<Rightarrow> Issue" where
  "restore_row now i = i\<lparr>ArchivedAt := None, IVersion := IVersion i + 1, UpdatedAt := now\<rparr>"

definition unarchive_issue :: "env \<Rightarrow> UnarchiveIssueCommand \<Rightarrow> Issue res tx" where
  "unarchive_issue env c =
     tx_then (loadIssueForMutation (wc_identifier c)) (\<lambda>current.
     tx_then (tx_require (ArchivedAt current \<noteq> None) (NewError CodeIssueNotArchived False [])) (\<lambda>_.
     tx_then (tx_require (IVersion current = wc_expected c) versionConflict) (\<lambda>_.
     tx_then (if IType current \<noteq> TypeEpic \<and> ParentID current \<noteq> None then validateParent env (ParentID current)
              else tx_return None) (\<lambda>_.
     tx_then (require_no_attempt (IID current) (wc_now c)) (\<lambda>_.
     tx_then (update_issues (archived_version (IID current) (wc_expected c)) (restore_row (wc_now c))) (\<lambda>affected.
     if affected \<noteq> 1 then classifyConditionalUpdateFailure (IID current)
     else
       tx_then (append_event (Some (IID current)) ''issue_unarchived'' (wc_session c) None
         (PayloadIssueUnarchived (wc_expected c + 1) (wc_now c)) (wc_now c) SourceIssue) (\<lambda>_.
       tx_then (loadIssueForMutation (internal_id (IID current))) (\<lambda>issue.
       tx_then (store_idempotency ''unarchive_issue'' (wc_key c) (wc_hash c) (ResponseIssue issue)) (\<lambda>_.
       tx_return (Inr issue))))))))))"

definition UnarchiveIssue :: "env \<Rightarrow> UnarchiveIssueCommand \<Rightarrow> db \<Rightarrow> db \<times> Issue res" where
  "UnarchiveIssue env c d = Write (with_replay ''unarchive_issue'' (wc_key c) (wc_hash c) response_issue (unarchive_issue env c)) d"

end
