(* ===== verification/StoreInvariant.thy ===== *)
theory StoreInvariant
  imports Evidence Policies Relations Issues
begin

text \<open>
  What it takes for a predicate on the store to survive every operation. The laws of the locale
  \<open>system_invariant\<close> speak of single statements and of ending an attempt, which several statements
  make up; its lemmas carry them through the repository operations. A predicate whose laws hold
  statement by statement is a \<open>store_invariant\<close>, a sublocale. Each invariant of the system is an
  interpretation of one of the two.
\<close>

section \<open>The statements that matter\<close>

definition same_core :: "db \<Rightarrow> db \<Rightarrow> bool" where
  "same_core d' d \<longleftrightarrow> db_issues d' = db_issues d \<and> db_relations d' = db_relations d \<and> db_attempts d' = db_attempts d \<and>
     db_events d' = db_events d \<and> db_reservations d' = db_reservations d \<and> db_requests d' = db_requests d \<and>
     db_project d' = db_project d"

text \<open>An update of attempt rows that keeps their identity, and one that revives none.\<close>

definition attempt_touch :: "(WorkAttempt \<Rightarrow> bool) \<Rightarrow> (WorkAttempt \<Rightarrow> WorkAttempt) \<Rightarrow> bool" where
  "attempt_touch p f \<longleftrightarrow> (\<forall>a. p a \<longrightarrow> wa_id (f a) = wa_id a \<and> wa_issue (f a) = wa_issue a \<and>
     wa_kind (f a) = wa_kind a \<and> is_active (f a) = is_active a)"

definition attempt_change :: "(WorkAttempt \<Rightarrow> bool) \<Rightarrow> (WorkAttempt \<Rightarrow> WorkAttempt) \<Rightarrow> bool" where
  "attempt_change p f \<longleftrightarrow> (\<forall>a. p a \<longrightarrow> wa_id (f a) = wa_id a \<and> wa_issue (f a) = wa_issue a \<and>
     wa_kind (f a) = wa_kind a \<and> (is_active (f a) \<longrightarrow> is_active a))"

lemma touch_change: "attempt_touch p f \<Longrightarrow> attempt_change p f"
  by (simp add: attempt_touch_def attempt_change_def)

text \<open>The active attempt of a given issue and kind, and an attempt no claimed request depends on.\<close>

definition holder :: "db \<Rightarrow> string \<Rightarrow> string \<Rightarrow> AttemptKind \<Rightarrow> bool" where
  "holder d a issue kind \<longleftrightarrow>
     (\<exists>x \<in> set (db_attempts d). wa_id x = a \<and> is_active x \<and> wa_issue x = issue \<and> wa_kind x = kind)"

definition unclaimed :: "string \<Rightarrow> db \<Rightarrow> bool" where
  "unclaimed a d \<longleftrightarrow> (\<forall>r \<in> set (db_requests d). rq_attempt r \<noteq> Some a)"

definition settled :: "string \<Rightarrow> db \<Rightarrow> bool" where
  "settled a d \<longleftrightarrow> unclaimed a d \<or> (\<forall>x \<in> set (db_attempts d). wa_id x = a \<longrightarrow> wa_kind x \<noteq> AttemptKindReview)"

definition only_unresolved :: "(ReviewRequest \<Rightarrow> bool) \<Rightarrow> db \<Rightarrow> bool" where
  "only_unresolved q d \<longleftrightarrow> (\<forall>x \<in> set (db_requests d). q x \<longrightarrow> is_unresolved x)"

lemma only_unresolved_guards [simp]:
  "only_unresolved (claimed_by i a) d" "only_unresolved (\<lambda>r. q r \<and> rq_status r = ReviewRequestStatusOpen) d"
  by (auto simp: only_unresolved_def claimed_by_def is_unresolved_def)

lemma request_unique:
  assumes "schema_ok d" and "r \<in> set (db_requests d)" and "x \<in> set (db_requests d)" and "rq_id x = rq_id r"
  shows "x = r"
  using assms by (auto simp: schema_ok_def requests_ok_def distinct_map inj_on_def)

lemma only_unresolved_at:
  "schema_ok d \<Longrightarrow> r \<in> set (db_requests d) \<Longrightarrow> is_unresolved r \<Longrightarrow> only_unresolved (request_at (rq_id r) v) d"
  using request_unique [of d r] by (auto simp: only_unresolved_def request_at_def)

lemma attempt_unique:
  assumes "schema_ok d" and "a \<in> set (db_attempts d)" and "x \<in> set (db_attempts d)" and "wa_id x = wa_id a"
  shows "x = a"
  using assms by (auto simp: schema_ok_def attempts_ok_def distinct_map inj_on_def)

lemma claim_unique:
  assumes ok: "schema_ok d" and r: "r \<in> set (db_requests d)" "rq_attempt r = Some a"
    and x: "x \<in> set (db_requests d)" "rq_attempt x = Some a"
  shows "x = r"
proof -
  have "inj_on rq_attempt (set (filter (\<lambda>r. rq_attempt r \<noteq> None) (db_requests d)))"
    using ok by (simp add: schema_ok_def requests_ok_def distinct_map)
  then show ?thesis using r x by (simp add: inj_on_def)
qed

lemma claim_status:
  assumes "schema_ok d" and "r \<in> set (db_requests d)"
  shows "rq_status r = ReviewRequestStatusClaimed \<longleftrightarrow> rq_attempt r \<noteq> None"
  using assms by (auto simp: schema_ok_def requests_ok_def request_row_ok_def list_all_iff)

lemma cleared_unclaimed:
  assumes "schema_ok d" and "r \<in> set (db_requests d)" "rq_attempt r = Some a" and "p r"
  shows "unclaimed a (d\<lparr>db_requests := update_where p (set_request status None resolved) (db_requests d)\<rparr>)"
  using claim_unique [OF assms(1-3)] assms(4)
  by (auto simp: unclaimed_def update_where_def set_request_def)

lemma loaded_unclaimed: "schema_ok d \<Longrightarrow> loadActiveReviewRequestForAttempt d a = None \<Longrightarrow> unclaimed a d"
  using claim_status [of d] by (fastforce simp: unclaimed_def loadActiveReviewRequestForAttempt_def find_None_iff)

lemma loaded_claim:
  "loadActiveReviewRequestForAttempt d a = Some r \<Longrightarrow>
     r \<in> set (db_requests d) \<and> rq_attempt r = Some a \<and> rq_status r = ReviewRequestStatusClaimed"
  unfolding loadActiveReviewRequestForAttempt_def by (auto dest: find_Some_mem)

lemma unclaimed_events [simp]: "unclaimed a (d\<lparr>db_events := es\<rparr>) = unclaimed a d"
  by (simp add: unclaimed_def)

lemma settled_events [simp]: "settled a (d\<lparr>db_events := es\<rparr>) = settled a d"
  by (simp add: settled_def)

lemma holder_events [simp]: "holder (d\<lparr>db_events := es\<rparr>) = holder d"
  by (simp add: fun_eq_iff holder_def)

section \<open>What may happen to an issue\<close>

text \<open>
  An issue that is archived or cancelled is parked: no attempt may be active on it. A live child needs
  a live epic. \<open>issue_step\<close> is what one row may become in one statement, given the rest of the store.
\<close>

definition parked :: "Issue \<Rightarrow> bool" where
  "parked i \<longleftrightarrow> ArchivedAt i \<noteq> None \<or> IStatus i = StatusCancelled"

definition live_epic :: "db \<Rightarrow> string \<Rightarrow> bool" where
  "live_epic d q \<longleftrightarrow> (\<exists>e \<in> set (db_issues d). IID e = q \<and> IType e = TypeEpic \<and> ArchivedAt e = None)"

definition startable :: "db \<Rightarrow> string \<Rightarrow> bool" where
  "startable d issue \<longleftrightarrow> (\<forall>i \<in> set (db_issues d). IID i = issue \<longrightarrow> \<not> parked i)"

definition closing_step :: "Issue \<Rightarrow> Issue \<Rightarrow> bool" where
  "closing_step i j \<longleftrightarrow> (\<exists>now. ClosedAt j = NextClosedAt (IStatus i) (IStatus j) now (ClosedAt i))"

definition parent_step :: "db \<Rightarrow> Issue \<Rightarrow> Issue \<Rightarrow> bool" where
  "parent_step d i j \<longleftrightarrow> (ArchivedAt j = None \<longrightarrow>
     (\<forall>q. ParentID j = Some q \<longrightarrow> (ArchivedAt i = None \<and> ParentID i = Some q) \<or> live_epic d q))"

definition epic_step :: "db \<Rightarrow> Issue \<Rightarrow> Issue \<Rightarrow> bool" where
  "epic_step d i j \<longleftrightarrow> (IType i = TypeEpic \<and> ArchivedAt i = None \<longrightarrow>
     (IType j = TypeEpic \<and> ArchivedAt j = None) \<or> \<not> epicHasLiveChildren d (IID i))"

definition park_step :: "db \<Rightarrow> Issue \<Rightarrow> Issue \<Rightarrow> bool" where
  "park_step d i j \<longleftrightarrow> (parked j \<longrightarrow> parked i \<or> \<not> has_active_attempt d (IID i))"

definition issue_step :: "db \<Rightarrow> Issue \<Rightarrow> Issue \<Rightarrow> bool" where
  "issue_step d i j \<longleftrightarrow> IID j = IID i \<and> SequenceNo j = SequenceNo i \<and> closing_step i j \<and> parent_step d i j \<and>
     epic_step d i j \<and> park_step d i j"

definition issue_edit :: "db \<Rightarrow> (Issue \<Rightarrow> bool) \<Rightarrow> (Issue \<Rightarrow> Issue) \<Rightarrow> bool" where
  "issue_edit d p f \<longleftrightarrow> (\<exists>k. \<forall>i. p i \<longrightarrow> IID i = k) \<and> (\<forall>i \<in> set (db_issues d). p i \<longrightarrow> issue_step d i (f i))"

definition new_issue_ok :: "db \<Rightarrow> Project \<Rightarrow> Issue \<Rightarrow> bool" where
  "new_issue_ok d p i \<longleftrightarrow> ClosedAt i = None \<and> ArchivedAt i = None \<and> (\<forall>q. ParentID i = Some q \<longrightarrow> live_epic d q) \<and>
     db_project d = Some p \<and> SequenceNo i = pj_next p"

definition numbered_db :: "Project \<Rightarrow> time \<Rightarrow> db \<Rightarrow> db" where
  "numbered_db p now d = d\<lparr>db_project := Some (p\<lparr>pj_next := pj_next p + 1, pj_updated := now\<rparr>)\<rparr>"

lemma closing_same: "IStatus j = IStatus i \<Longrightarrow> ClosedAt j = ClosedAt i \<Longrightarrow> closing_step i j"
  by (simp add: closing_step_def NextClosedAt_def)

lemma issue_step_same:
  assumes "IID j = IID i" "SequenceNo j = SequenceNo i" "IStatus j = IStatus i" "ClosedAt j = ClosedAt i"
    "ParentID j = ParentID i" "IType j = IType i" "ArchivedAt j = ArchivedAt i"
  shows "issue_step d i j"
  using assms closing_same [of j i] by (simp add: issue_step_def parent_step_def epic_step_def park_step_def parked_def)

lemma issue_unique:
  assumes "schema_ok d" and "i \<in> set (db_issues d)" and "x \<in> set (db_issues d)" and "IID x = IID i"
  shows "x = i"
  using assms by (auto simp: schema_ok_def issues_ok_def distinct_map inj_on_def)

lemma issue_edit_at:
  assumes "schema_ok d" and "i \<in> set (db_issues d)" and "\<And>x. p x \<Longrightarrow> IID x = IID i" and "p i \<Longrightarrow> issue_step d i (f i)"
  shows "issue_edit d p f"
  using assms(3,4) issue_unique [OF assms(1,2)] unfolding issue_edit_def by metis

lemma evaluated_unparked: "EvaluateClaim i n b = Inr k \<Longrightarrow> \<not> parked i"
  by (auto simp: EvaluateClaim_def parked_def split: if_splits)

lemma pure_live_gate: "pure_tx (evaluateGateAgainstLivePolicies point ty ls ev)"
  unfolding evaluateGateAgainstLivePolicies_def Let_def by (intro keeps_intro)

text \<open>Steps that leave the issues alone.\<close>

definition issues_are :: "Issue list \<Rightarrow> db \<Rightarrow> bool" where
  "issues_are is d \<longleftrightarrow> db_issues d = is"

lemma issues_are_exec: "(\<And>d. db_issues (f d) = db_issues d) \<Longrightarrow> keeps (issues_are is) (exec f)"
  by (rule keeps_exec) (simp add: issues_are_def)

lemma issues_are_expire: "keeps (issues_are is) (expireAttemptsForIssue issue now)"
  unfolding expireAttemptsForIssue_def expireAttempt_def releaseReservationsForAttempt_def release_one_def
    releaseClaimedReviewRequest_def appendReviewEvent_def append_event_def update_attempts_def update_reservations_def
    update_requests_def Let_def
  by (intro keeps_intro issues_are_exec) simp_all

lemma issue_row_expire: "keeps (\<lambda>d. Q (db_issues d)) (expireAttemptsForIssue issue now)"
proof (rule keepsI)
  fix d d' u assume "Q (db_issues d)" "expireAttemptsForIssue issue now d = Inr (d', u)"
  then show "Q (db_issues d')" using keepsD [OF issues_are_expire, of issue now d d' u "db_issues d"] by (simp add: issues_are_def)
qed

section \<open>Laws\<close>

locale system_invariant =
  fixes P :: "db \<Rightarrow> bool"
  assumes schema: "P d \<Longrightarrow> schema_ok d"
    and other_tables: "P d \<Longrightarrow> same_core d' d \<Longrightarrow> schema_ok d' \<Longrightarrow> P d'"
    and event: "P d \<Longrightarrow> d' = d\<lparr>db_events := db_events d @ [new_event d issue ty session attempt payload now source]\<rparr> \<Longrightarrow>
      schema_ok d' \<Longrightarrow> P d'"
    and touch: "P d \<Longrightarrow> attempt_touch p f \<Longrightarrow> d' = d\<lparr>db_attempts := update_where p f (db_attempts d)\<rparr> \<Longrightarrow>
      schema_ok d' \<Longrightarrow> P d'"
    and start: "P d \<Longrightarrow> is_active row \<Longrightarrow> startable d (wa_issue row) \<Longrightarrow> d' = d\<lparr>db_attempts := db_attempts d @ [row]\<rparr> \<Longrightarrow>
      schema_ok d' \<Longrightarrow> P d'"
    and terminate: "P d \<Longrightarrow> terminalStatusAbandonsReviewClaim status \<or> settled a d \<Longrightarrow>
      terminateAttempt a status reason now d = Inr (d', done_now) \<Longrightarrow> P d'"
    and expire: "P d \<Longrightarrow> expireAttempt a now d = Inr (d', done_now) \<Longrightarrow> P d'"
    and release: "P d \<Longrightarrow> d' = d\<lparr>db_reservations := update_where q (release_row release_reason now) (db_reservations d)\<rparr> \<Longrightarrow>
      schema_ok d' \<Longrightarrow> P d'"
    and acquire: "P d \<Longrightarrow> holder d attemptID issueID AttemptKindWork \<Longrightarrow>
      PrepareReservationRequest (map snd resources) = Inr prepared \<Longrightarrow>
      acquireReservationsForAttempt env prepared resources issueID attemptID sessionID now d = Inr (d', rows) \<Longrightarrow> P d'"
    and resolve: "P d \<Longrightarrow> only_unresolved r d \<Longrightarrow>
      d' = d\<lparr>db_requests := update_where r (set_request status' None resolved) (db_requests d)\<rparr> \<Longrightarrow> schema_ok d' \<Longrightarrow> P d'"
    and claim: "P d \<Longrightarrow> only_unresolved r d \<Longrightarrow> holder d attemptID issueID AttemptKindReview \<Longrightarrow>
      \<forall>x \<in> set (db_requests d). r x \<longrightarrow> rq_issue x = issueID \<Longrightarrow>
      d' = d\<lparr>db_requests := update_where r (set_request status' (Some attemptID) resolved) (db_requests d)\<rparr> \<Longrightarrow>
      schema_ok d' \<Longrightarrow> P d'"
    and new_request: "P d \<Longrightarrow> rq_attempt request = None \<Longrightarrow> d' = d\<lparr>db_requests := db_requests d @ [request]\<rparr> \<Longrightarrow>
      schema_ok d' \<Longrightarrow> P d'"
    and edit_issue: "P d \<Longrightarrow> issue_edit d i_at f_issue \<Longrightarrow> d' = d\<lparr>db_issues := update_where i_at f_issue (db_issues d)\<rparr> \<Longrightarrow>
      schema_ok d' \<Longrightarrow> P d'"
    and new_issue: "P d \<Longrightarrow> new_issue_ok d project i \<Longrightarrow>
      d' = numbered_db project now d\<lparr>db_issues := db_issues d @ [i]\<rparr> \<Longrightarrow> schema_ok d' \<Longrightarrow> P d'"
    and add_edge: "P d \<Longrightarrow> rl_source e \<noteq> rl_target e \<Longrightarrow>
      (rl_type e = RelationTypeBlocks \<Longrightarrow> \<not> blocksPathExists (db_relations d) (rl_target e) (rl_source e)) \<Longrightarrow>
      d' = d\<lparr>db_relations := db_relations d @ [e]\<rparr> \<Longrightarrow> schema_ok d' \<Longrightarrow> P d'"
    and remove_edge: "P d \<Longrightarrow> d' = d\<lparr>db_relations := filter s (db_relations d)\<rparr> \<Longrightarrow> schema_ok d' \<Longrightarrow> P d'"
begin

lemma keeps_other: "(\<And>d. same_core (f d) d) \<Longrightarrow> keeps P (exec f)"
  using other_tables by (auto simp: keeps_def exec_Inr)

lemma keeps_event [keeps_intro]: "keeps P (append_event issue ty session attempt payload now source)"
  using event by (auto simp: keeps_def append_event_Inr Let_def)

lemma keeps_review_event [keeps_intro]: "keeps P (appendReviewEvent issue ty attempt payload now)"
  by (simp add: appendReviewEvent_def keeps_event)

lemma keeps_store [keeps_intro]: "keeps P (store_idempotency operation key h response)"
  unfolding store_idempotency_def by (intro keeps_intro keeps_other) (simp add: same_core_def)

lemma keeps_touch: "attempt_touch p f \<Longrightarrow> keeps P (update_attempts p f)"
  using touch by (auto simp: keeps_def update_attempts_Inr Let_def)

lemma resolve_ok:
  "tx_ok (\<lambda>d. P d \<and> only_unresolved r d) (update_requests r (set_request status None resolved)) (\<lambda>_. P)"
  using resolve by (auto simp: tx_ok_def update_requests_Inr Let_def)

lemma keeps_resolve: "(\<And>d. only_unresolved r d) \<Longrightarrow> keeps P (update_requests r (set_request status None resolved))"
  using resolve by (auto simp: keeps_def update_requests_Inr Let_def)

lemma keeps_release_rows [keeps_intro]: "keeps P (update_reservations p (release_row reason now))"
  using release by (auto simp: keeps_def update_reservations_Inr Let_def)

lemma keeps_release_one [keeps_intro]: "keeps P (release_one a s reason now row)"
  unfolding release_one_def by (intro keeps_intro)

lemma acquire_ok:
  "PrepareReservationRequest (map snd resources) = Inr prepared \<Longrightarrow>
     tx_ok (\<lambda>d. P d \<and> holder d attemptID issueID AttemptKindWork)
       (acquireReservationsForAttempt env prepared resources issueID attemptID sessionID now) (\<lambda>_. P)"
  using acquire unfolding tx_ok_def by blast

lemma keeps_supersede_open [keeps_intro]: "keeps P (supersedeOpenReviewRequest request now)"
  unfolding supersedeOpenReviewRequest_def by (intro keeps_intro keeps_resolve only_unresolved_guards)

lemma keeps_supersede_attempt [keeps_intro]: "keeps P (supersedeReviewRequestForAttempt request a now)"
  unfolding supersedeReviewRequestForAttempt_def by (intro keeps_intro keeps_resolve only_unresolved_guards)

lemma keeps_approvals [keeps_intro]: "keeps P (insertReviewApprovals fresh request a now)"
  unfolding insertReviewApprovals_def by (intro keeps_intro keeps_other) (simp add: same_core_def)

lemma keeps_outcome [keeps_intro]: "keeps P (exec (\<lambda>d. d\<lparr>db_outcomes := db_outcomes d @ [x]\<rparr>))"
  by (rule keeps_other) (simp add: same_core_def)

lemma keeps_resolve_request [keeps_intro]: "keeps P (resolveReviewRequestForAttempt fresh request a now outcome reason)"
  unfolding resolveReviewRequestForAttempt_def by (intro keeps_intro keeps_resolve only_unresolved_guards)

lemma keeps_abandon: "terminalStatusAbandonsReviewClaim status \<Longrightarrow> keeps P (terminateAttempt a status reason now)"
  using terminate unfolding keeps_def by blast

lemma terminate_ok:
  "tx_ok (\<lambda>d. P d \<and> (terminalStatusAbandonsReviewClaim status \<or> settled a d)) (terminateAttempt a status reason now) (\<lambda>_. P)"
  using terminate unfolding tx_ok_def by blast

lemma keeps_expire [keeps_intro]: "keeps P (expireAttempt a now)"
  using expire unfolding keeps_def by blast

lemma keeps_expire_issue [keeps_intro]: "keeps P (expireAttemptsForIssue issue now)"
  unfolding expireAttemptsForIssue_def by (intro keeps_intro)

lemma keeps_authenticate [keeps_intro]: "keeps P (authenticateActiveAttempt a h now k)"
  unfolding authenticateActiveAttempt_def by (intro keeps_intro)

lemma keeps_cancelled [keeps_intro]: "keeps P (appendAttemptCancelledEvent issue a now)"
  unfolding appendAttemptCancelledEvent_def by (intro keeps_intro)

lemma keeps_under_lease: "(\<And>i k. keeps P (body i k)) \<Longrightarrow> keeps P (under_lease a h now required body)"
  unfolding under_lease_def by (intro keeps_intro)

lemma keeps_with_replay: "keeps P body \<Longrightarrow> keeps P (with_replay operation key h decode body)"
  unfolding with_replay_def by (intro keeps_intro)

lemma keeps_artifact [keeps_intro]: "keeps P (insert_artifact issue a now x)"
  unfolding insert_artifact_def Let_def by (intro keeps_intro keeps_other) (simp add: same_core_def)

lemma write_keeps: "keeps P t \<Longrightarrow> P d \<Longrightarrow> P (fst (Write t d))"
  by (rule Write_keeps [of P])

end

section \<open>What a lease authenticates\<close>

lemma authenticated:
  assumes "authenticateActiveAttempt a h now required d = Inr (d', Some owner)"
  shows "d' = d \<and> (\<exists>row. find (\<lambda>x. wa_id x = a) (db_attempts d) = Some row \<and> is_active row \<and> wa_lease row > now \<and>
    wa_token_hash row = h \<and> owner = (wa_issue row, wa_kind row) \<and> (\<forall>k. required = Some k \<longrightarrow> wa_kind row = k))"
  using assms by (auto simp: authenticateActiveAttempt_def tx_simps split: option.splits if_splits)

lemma authenticated_holder:
  assumes "authenticateActiveAttempt a h now required d = Inr (d', Some owner)"
  shows "d' = d \<and> holder d a (fst owner) (snd owner) \<and> (\<forall>k. required = Some k \<longrightarrow> snd owner = k)"
proof -
  obtain row where d: "d' = d" and row: "find (\<lambda>x. wa_id x = a) (db_attempts d) = Some row" "is_active row"
      "owner = (wa_issue row, wa_kind row)" "\<forall>k. required = Some k \<longrightarrow> wa_kind row = k"
    using authenticated [OF assms] by blast
  have "holder d a (wa_issue row) (wa_kind row)" unfolding holder_def using find_Some_mem [OF row(1)] row(2) by blast
  then show ?thesis using d row(3,4) by simp
qed

lemma attempt_kinds:
  "schema_ok d \<Longrightarrow> x \<in> set (db_attempts d) \<Longrightarrow> wa_kind x = AttemptKindWork \<or> wa_kind x = AttemptKindReview"
  by (auto simp: schema_ok_def attempts_ok_def list_all_iff attempt_row_ok_def)

section \<open>The attempt operations\<close>

lemma prepare_resources_Inr:
  "prepare_resources env resources = Inr prepared \<Longrightarrow> PrepareReservationRequest (map snd resources) = Inr prepared"
  by (simp add: prepare_resources_def split: if_splits)

lemma holder_keeps: "(\<And>d. db_attempts (f d) = db_attempts d) \<Longrightarrow> keeps (\<lambda>d. holder d a issue kind) (exec f)"
  by (rule keeps_exec) (simp add: holder_def)

lemma holder_keeps_event [keeps_intro]: "keeps (\<lambda>d. holder d a issue kind) (append_event i ty session attempt payload now source)"
  by (rule keepsI) (simp add: append_event_Inr Let_def)

lemma newest_open_mem:
  assumes "newest_open_request d issue = Some r"
  shows "r \<in> set (db_requests d) \<and> rq_issue r = issue \<and> rq_status r = ReviewRequestStatusOpen"
proof -
  let ?rows = "filter (\<lambda>r. rq_issue r = issue \<and> rq_status r = ReviewRequestStatusOpen) (db_requests d)"
  let ?sorted = "sort_key (\<lambda>r. (rq_created r, rq_id r)) ?rows"
  have ne: "?rows \<noteq> []" and r: "r = last ?sorted"
    using assms by (auto simp: newest_open_request_def Let_def split: if_splits)
  have "length ?sorted \<noteq> 0" using ne by (simp only: length_sort length_0_conv simp_thms)
  then have "?sorted \<noteq> []" by (simp only: length_0_conv simp_thms)
  then have "last ?sorted \<in> set ?sorted" by (rule last_in_set)
  then show ?thesis using r by (simp only: set_sort) simp
qed

lemma pure_stale [keeps_intro]: "pure_tx (reviewTargetStale issue v e)"
  by (auto simp: pure_tx_def reviewTargetStale_def split: option.splits if_splits)

context system_invariant
begin

lemma under_lease_ok:
  assumes "\<And>issue kind. (\<And>k. required = Some k \<Longrightarrow> kind = k) \<Longrightarrow> tx_ok (\<lambda>d. P d \<and> holder d a issue kind) (body issue kind) (\<lambda>_. P)"
  shows "keeps P (under_lease a h now required body)"
proof -
  have "tx_ok (\<lambda>d. P d \<and> (\<forall>o'. x = Some o' \<longrightarrow> holder d a (fst o') (snd o') \<and> (\<forall>k. required = Some k \<longrightarrow> snd o' = k)))
      (case x of None \<Rightarrow> tx_return (Inl leaseExpiredError) | Some owner \<Rightarrow> body (fst owner) (snd owner)) (\<lambda>_. P)" for x
  proof (cases x)
    case (Some owner)
    then show ?thesis using assms [of "snd owner" "fst owner"] by (auto simp: tx_ok_def)
  qed (simp add: tx_ok_def tx_return_Inr)
  moreover have "tx_ok P (authenticateActiveAttempt a h now required)
      (\<lambda>x d. P d \<and> (\<forall>o'. x = Some o' \<longrightarrow> holder d a (fst o') (snd o') \<and> (\<forall>k. required = Some k \<longrightarrow> snd o' = k)))"
    unfolding tx_ok_def using keepsD [OF keeps_authenticate] authenticated_holder by blast
  ultimately show ?thesis unfolding under_lease_def tx_ok_keeps by (intro tx_ok_then)
qed

lemma bind_ok:
  "tx_ok (\<lambda>d. P d \<and> holder d a issue AttemptKindReview) (bindOpenReviewRequestForAttempt issue a now) (\<lambda>_. P)"
proof -
  have upd: "tx_ok (\<lambda>d. (P d \<and> holder d a issue AttemptKindReview) \<and> d = d0)
      (update_requests (\<lambda>x. request_at (rq_id r) (rq_version r) x \<and> rq_status x = ReviewRequestStatusOpen)
        (set_request ReviewRequestStatusClaimed (Some a) None)) (\<lambda>_. P)"
    if r: "newest_open_request d0 issue = Some r" for d0 r
  proof -
    have "P d'" if "P d0" "holder d0 a issue AttemptKindReview" "schema_ok d'"
        "d' = d0\<lparr>db_requests := update_where (\<lambda>x. request_at (rq_id r) (rq_version r) x \<and> rq_status x = ReviewRequestStatusOpen)
          (set_request ReviewRequestStatusClaimed (Some a) None) (db_requests d0)\<rparr>" for d'
    proof (rule claim [OF that(1) only_unresolved_guards(2) that(2) _ that(4,3)])
      show "\<forall>x \<in> set (db_requests d0). request_at (rq_id r) (rq_version r) x \<and> rq_status x = ReviewRequestStatusOpen \<longrightarrow> rq_issue x = issue"
        using request_unique [OF schema [OF that(1)]] newest_open_mem [OF r] by (auto simp: request_at_def)
    qed
    then show ?thesis by (auto simp: tx_ok_def update_requests_Inr Let_def)
  qed
  have "keeps P (tx_then (tx_require (n = 1) storageCorruptError) (\<lambda>_. appendReviewEvent issue ty x p now))" for n :: nat and ty x p
    by (intro keeps_intro)
  then show ?thesis
    unfolding bindOpenReviewRequestForAttempt_def
    by (intro tx_ok_read_then tx_ok_option tx_ok_return tx_ok_pure_then [OF pure_stale] tx_ok_if
        tx_ok_then [OF upd] tx_ok_keeps [THEN iffD1]) simp_all
qed

lemma claim_extras_ok:
  assumes "if cc_resources c = [] then prepared = [] else PrepareReservationRequest (map snd (cc_resources c)) = Inr prepared"
  shows "tx_ok (\<lambda>d. P d \<and> holder d (cc_attempt c) issue kind) (claim_extras env c prepared issue kind) (\<lambda>_. P)"
proof (cases "kind = AttemptKindReview")
  case True
  show ?thesis
    unfolding claim_extras_def True
    by (auto intro!: tx_ok_fail tx_ok_then [OF bind_ok] tx_ok_return)
next
  case False
  have work: "P d \<and> holder d (cc_attempt c) issue AttemptKindWork" if "P d \<and> holder d (cc_attempt c) issue kind" for d
    using False that attempt_kinds [OF schema] by (auto simp: holder_def)
  have "tx_ok (\<lambda>d. P d \<and> holder d (cc_attempt c) issue kind)
      (acquireReservationsForAttempt env prepared (cc_resources c) issue (cc_attempt c) (cc_session c) (cc_now c)) (\<lambda>_. P)"
    if "PrepareReservationRequest (map snd (cc_resources c)) = Inr prepared"
    by (rule tx_ok_weaken [OF acquire_ok [OF that]]) (use work in simp_all)
  then show ?thesis
    unfolding claim_extras_def using False assms by (auto intro!: tx_ok_if tx_ok_return split: if_splits)
qed

lemma insert_attempt_ok:
  "is_active row \<Longrightarrow> tx_ok (\<lambda>d. P d \<and> startable d (wa_issue row)) (insert_attempt row)
     (\<lambda>_ d. P d \<and> holder d (wa_id row) (wa_issue row) (wa_kind row))"
  using start [of _ row] by (auto simp: tx_ok_def insert_attempt_def Let_def holder_def split: if_splits)

lemma keeps_snapshot [keeps_intro]: "keeps P (insertAttemptGateSnapshot a s)"
  unfolding insertAttemptGateSnapshot_def by (intro keeps_other) (simp add: same_core_def)

lemma start_claim_keeps:
  assumes "if cc_resources c = [] then prepared = [] else PrepareReservationRequest (map snd (cc_resources c)) = Inr prepared"
  shows "keeps P (start_claim env c prepared)"
proof -
  let ?H = "\<lambda>issue kind d. P d \<and> holder d (cc_attempt c) (IID issue) kind"
  have snapshot: "tx_ok (?H issue kind) (insertAttemptGateSnapshot a s) (\<lambda>_. ?H issue kind)" for issue kind a s
    unfolding tx_ok_keeps [symmetric] insertAttemptGateSnapshot_def
    by (intro keeps_conj keeps_other holder_keeps) (simp_all add: same_core_def)
  have event: "tx_ok (?H issue kind) (append_event i ty session attempt payload now source) (\<lambda>_. ?H issue kind)"
    for issue kind i ty session attempt payload now source
    unfolding tx_ok_keeps [symmetric] by (intro keeps_conj keeps_event holder_keeps_event)
  let ?S = "\<lambda>issue d. P d \<and> issue \<in> set (db_issues d)"
  have insert: "tx_ok (?S issue) (insert_attempt (started_attempt c issue kind e)) (\<lambda>_. ?H issue kind)"
    if "EvaluateClaim issue n b = Inr k" for issue kind e n b k
  proof (rule tx_ok_weaken [OF insert_attempt_ok])
    show "P d \<and> startable d (wa_issue (started_attempt c issue kind e))" if "?S issue d" for d
      using that issue_unique [OF schema, of d issue] evaluated_unparked [OF \<open>EvaluateClaim issue n b = Inr k\<close>]
      by (auto simp: startable_def started_attempt_def)
  qed (simp_all add: started_attempt_def is_active_def)
  have begin_attempt: "tx_ok (?S issue) (tx_then (insert_attempt (started_attempt c issue kind e)) (\<lambda>_.
      tx_then (insertAttemptGateSnapshot a s) (\<lambda>_. tx_then (append_event i ty session attempt payload now source) (\<lambda>_.
      tx_then (claim_extras env c prepared (IID issue) kind) rest)))) (\<lambda>_. P)"
    if "EvaluateClaim issue n b = Inr k" "\<And>x. keeps P (rest x)"
    for issue kind e a s i ty session attempt payload now source rest n b k
    by (intro tx_ok_then [OF insert [OF that(1)]] tx_ok_then [OF snapshot] tx_ok_then [OF event]
        tx_ok_then [OF claim_extras_ok [OF assms]] tx_ok_keeps [THEN iffD1] that(2))
  have sweep: "tx_ok (?S issue) (expireAttemptsForIssue i now) (\<lambda>_. ?S issue)" for issue i now
    unfolding tx_ok_keeps [symmetric] by (intro keeps_conj keeps_expire_issue issue_row_expire)
  have load: "tx_ok P (loadIssueForMutation i) (\<lambda>issue. ?S issue)" for i
    using loadIssue_mem by (fastforce simp: tx_ok_def)
  show ?thesis unfolding start_claim_def Let_def tx_ok_keeps
    by (intro tx_ok_then [OF load] tx_ok_then [OF sweep] tx_ok_pure_then [OF pure_basic(3)] tx_ok_prod tx_ok_lift_then
        tx_ok_pure_then [OF pure_live_gate] begin_attempt keeps_intro) assumption
qed

lemma keeps_replay_claim: "keeps P (replay_claim c result)"
  unfolding replay_claim_def Let_def
  by (intro keeps_intro keeps_touch) (simp add: attempt_touch_def rotate_lease_def is_active_def)

lemma ClaimIssue_keeps: "P d \<Longrightarrow> P (fst (ClaimIssue env c d))"
proof -
  assume P: "P d"
  have "P (fst (Write (tx_then (lookup_idempotency ''claim_issue'' (cc_key c) (cc_hash c)) (\<lambda>saved. case saved of
      Some response \<Rightarrow> tx_then (tx_lift (response_claim response)) (\<lambda>result. replay_claim c result)
    | None \<Rightarrow> start_claim env c prepared)) d))"
    if "(if length (cc_resources c) > 0 then prepare_resources env (cc_resources c) else Inr []) = Inr prepared" for prepared
  proof (rule write_keeps [OF _ P], intro keeps_intro start_claim_keeps keeps_replay_claim)
    show "if cc_resources c = [] then prepared = [] else PrepareReservationRequest (map snd (cc_resources c)) = Inr prepared"
      using that prepare_resources_Inr by auto
  qed
  then show ?thesis using P by (auto simp: ClaimIssue_def split: sum.splits)
qed

lemma RenewAttempt_keeps: "P d \<Longrightarrow> P (fst (RenewAttempt env c d))"
proof -
  assume P: "P d"
  have "attempt_touch (active_named a) (renew_lease e n)" for a e n
    by (simp add: attempt_touch_def renew_lease_def is_active_def)
  then show ?thesis unfolding RenewAttempt_def
    using P by (auto intro!: write_keeps keeps_under_lease keeps_intro keeps_touch)
qed

lemma ExpireAttempts_keeps: "P d \<Longrightarrow> P (fst (ExpireAttempts now d))"
  unfolding ExpireAttempts_def expire_counting_def by (auto intro!: write_keeps keeps_intro)

lemma SaveAttemptNote_keeps: "P d \<Longrightarrow> P (fst (SaveAttemptNote env c d))"
proof -
  assume P: "P d"
  have "keeps P (exec (\<lambda>d. d\<lparr>db_notes := db_notes d @ [n]\<rparr>))" for n
    by (rule keeps_other) (simp add: same_core_def)
  then show ?thesis using P unfolding SaveAttemptNote_def Let_def
    by (auto intro!: write_keeps keeps_with_replay keeps_under_lease keeps_intro split: sum.splits)
qed

lemma ReserveResources_keeps: "P d \<Longrightarrow> P (fst (ReserveResources env c d))"
proof -
  assume P: "P d"
  have lease: "keeps P (under_lease (vc_attempt c) (vc_token_hash c) (vc_now c) (Some AttemptKindWork) (\<lambda>issueID kind.
      tx_then (acquireReservationsForAttempt env prepared (vc_resources c) issueID (vc_attempt c) (vc_session c) (vc_now c)) rest))"
    if "PrepareReservationRequest (map snd (vc_resources c)) = Inr prepared" "\<And>x. keeps P (rest x)" for prepared rest
  proof (rule under_lease_ok)
    fix issue kind assume "\<And>k. Some AttemptKindWork = Some k \<Longrightarrow> kind = k"
    then have "kind = AttemptKindWork" by simp
    then show "tx_ok (\<lambda>d. P d \<and> holder d (vc_attempt c) issue kind) (tx_then (acquireReservationsForAttempt env prepared
        (vc_resources c) issue (vc_attempt c) (vc_session c) (vc_now c)) rest) (\<lambda>_. P)"
      using that(2) by (auto intro!: tx_ok_then [OF acquire_ok [OF that(1)]] simp: tx_ok_keeps)
  qed
  then show ?thesis
    using P unfolding ReserveResources_def
    by (auto intro!: write_keeps keeps_with_replay lease keeps_intro dest: prepare_resources_Inr split: sum.splits)
qed

lemma ReleaseResources_keeps: "P d \<Longrightarrow> P (fst (ReleaseResources env c d))"
proof -
  assume P: "P d"
  have "keeps P (loadReservationByID env i)" for i
    by (rule keeps_const) (auto simp: loadReservationByID_def tx_simps split: option.splits)
  moreover have "keeps P (scan_rows env q)" for q by (rule keeps_const) (simp add: scan_rows_Inr)
  ultimately show ?thesis
    using P unfolding ReleaseResources_def releaseResourcesForAttempt_def load_named_def
    by (auto intro!: write_keeps keeps_with_replay keeps_under_lease keeps_intro)
qed

lemma ReleaseReservation_keeps: "P d \<Longrightarrow> P (fst (ReleaseReservation env c d))"
proof -
  assume P: "P d"
  have "keeps P (loadReservationByID env i)" for i
    by (rule keeps_const) (auto simp: loadReservationByID_def tx_simps split: option.splits)
  then show ?thesis using P unfolding ReleaseReservation_def by (auto intro!: write_keeps keeps_intro)
qed

end

section \<open>Ending a claim before its attempt\<close>

text \<open>What the finishing code knows of the request it loaded: it is bound to the attempt, or nothing is.\<close>

definition bound :: "string \<Rightarrow> ReviewRequest option \<Rightarrow> db \<Rightarrow> bool" where
  "bound a request d \<longleftrightarrow> (case request of
      None \<Rightarrow> settled a d
    | Some r \<Rightarrow> r \<in> set (db_requests d) \<and> rq_attempt r = Some a \<and> rq_status r = ReviewRequestStatusClaimed)"

lemma bound_loaded: "schema_ok d \<Longrightarrow> bound a (loadActiveReviewRequestForAttempt d a) d"
  using loaded_unclaimed loaded_claim by (auto simp: bound_def settled_def split: option.splits)

lemma bound_claimed_for: "bound a request d \<Longrightarrow> claimed_for a request = request"
  by (auto simp: bound_def claimed_for_def split: option.splits)

lemma bound_issues [simp]: "bound a request (d\<lparr>db_issues := is\<rparr>) = bound a request d"
  by (simp add: bound_def settled_def unclaimed_def split: option.splits)

lemma unclaimed_settled: "unclaimed a d \<Longrightarrow> settled a d"
  by (simp add: settled_def)

lemma keeps_unclaimed_event [keeps_intro]: "keeps (unclaimed a) (append_event i ty session attempt payload now source)"
  by (rule keepsI) (simp add: append_event_Inr Let_def)

lemma keeps_unclaimed_exec: "(\<And>d. db_requests (f d) = db_requests d) \<Longrightarrow> keeps (unclaimed a) (exec f)"
  by (rule keeps_exec) (simp add: unclaimed_def)

lemma keeps_unclaimed_review_event [keeps_intro]: "keeps (unclaimed a) (appendReviewEvent issue ty attempt payload now)"
  unfolding appendReviewEvent_def by (intro keeps_intro)

lemma keeps_unclaimed_approvals [keeps_intro]: "keeps (unclaimed a) (insertReviewApprovals fresh request x now)"
  unfolding insertReviewApprovals_def by (intro keeps_intro keeps_unclaimed_exec) simp

lemma only_row_ok: "schema_ok d \<Longrightarrow> r \<in> set (db_requests d) \<Longrightarrow> rq_attempt r = Some a \<Longrightarrow> is_unresolved r"
  using claim_status [of d r] by (simp add: is_unresolved_def)

section \<open>Finishing, evidence and forced release\<close>

lemma valid_outcome: "FinishAttemptInput_Validate env i = Inr input \<Longrightarrow> AttemptOutcome_Valid (fin_outcome input)"
  by (auto simp: FinishAttemptInput_Validate_def result_simps)

text \<open>A completed attempt never leaves its issue cancelled.\<close>

definition finishable :: "FinishAttemptInput \<Rightarrow> bool" where
  "finishable input \<longleftrightarrow> AttemptOutcome_Valid (fin_outcome input) \<and> fin_target input \<noteq> Some StatusCancelled"

lemma valid_finishable: "FinishAttemptInput_Validate env i = Inr input \<Longrightarrow> finishable input"
  by (auto simp: FinishAttemptInput_Validate_def finishable_def result_simps)

lemma finish_target: "finishable input \<Longrightarrow> fin_outcome input = AttemptOutcomeCompleted \<Longrightarrow>
    FinishTargetStatus kind input current = Inr target \<Longrightarrow> target \<noteq> StatusCancelled"
  by (auto simp: FinishTargetStatus_def finishable_def split: if_splits option.splits ReviewOutcome.splits)

lemma outcome_abandons:
  "AttemptOutcome_Valid outcome \<Longrightarrow> outcome \<noteq> AttemptOutcomeCompleted \<Longrightarrow> terminalStatusAbandonsReviewClaim (outcome_status outcome)"
  by (auto simp: AttemptOutcome_Valid_def terminalStatusAbandonsReviewClaim_def)

context system_invariant
begin

lemma resolve_claim_ok:
  assumes "q r"
  shows "tx_ok (\<lambda>d. P d \<and> r \<in> set (db_requests d) \<and> rq_attempt r = Some a \<and> only_unresolved q d)
    (update_requests q (set_request status None resolved)) (\<lambda>_ d. P d \<and> unclaimed a d)"
  using assms resolve cleared_unclaimed [OF schema] by (auto simp: tx_ok_def update_requests_Inr Let_def)

lemma resolve_claimed_ok:
  "tx_ok (\<lambda>d. P d \<and> bound a (Some r) d) (update_requests (claimed_by (rq_id r) a) (set_request status None resolved))
     (\<lambda>_ d. P d \<and> unclaimed a d)"
proof (cases "claimed_by (rq_id r) a r")
  case True
  then show ?thesis by (intro tx_ok_weaken [OF resolve_claim_ok]) (auto simp: bound_def)
next
  case False
  then have "\<not> bound a (Some r) d" for d by (auto simp: claimed_by_def bound_def)
  then show ?thesis by (simp add: tx_ok_def)
qed

lemma keeps_unclaimed: "keeps P t \<Longrightarrow> keeps (unclaimed a) t \<Longrightarrow> tx_ok (\<lambda>d. P d \<and> unclaimed a d) t (\<lambda>_ d. P d \<and> unclaimed a d)"
  using keeps_conj [of P t "unclaimed a"] by (simp add: tx_ok_keeps)

lemma supersede_stale_ok:
  "tx_ok (\<lambda>d. P d \<and> bound a (Some r) d) (supersede_stale_review r issue a now) (\<lambda>_. P)"
proof -
  have superseded: "tx_ok (\<lambda>d. P d \<and> bound a (Some r) d) (supersedeReviewRequestForAttempt r a now) (\<lambda>_ d. P d \<and> unclaimed a d)"
    unfolding supersedeReviewRequestForAttempt_def
    by (intro tx_ok_then [OF resolve_claimed_ok] keeps_unclaimed keeps_intro)
  have "tx_ok (\<lambda>d. P d \<and> unclaimed a d) (terminateAttempt a status reason now) (\<lambda>_. P)" for status reason
    by (rule tx_ok_weaken [OF terminate_ok]) (simp_all add: unclaimed_settled)
  then show ?thesis
    unfolding supersede_stale_review_def
    by (intro tx_ok_then [OF superseded] tx_ok_then [where R = "\<lambda>_. P"] tx_ok_keeps [THEN iffD1] keeps_intro)
qed

lemma resolve_request_ok:
  "tx_ok (\<lambda>d. P d \<and> bound a (Some r) d) (resolveReviewRequestForAttempt fresh r a now outcome reason)
     (\<lambda>_ d. P d \<and> unclaimed a d)"
  unfolding resolveReviewRequestForAttempt_def
  by (intro tx_ok_then [OF resolve_claimed_ok] keeps_unclaimed keeps_intro keeps_unclaimed_exec) simp

lemma keeps_close_rest: "keeps P (update_attempts (\<lambda>a. wa_id a = i) (record_outcome input))"
  by (rule keeps_touch) (simp add: attempt_touch_def record_outcome_def is_active_def)

lemma close_ok:
  assumes "AttemptOutcome_Valid (fin_outcome input)"
  shows "tx_ok (\<lambda>d. P d \<and> (fin_outcome input = AttemptOutcomeCompleted \<longrightarrow> settled (fc_attempt c) d))
    (close_attempt c input artifacts target row issue warnings) (\<lambda>_. P)"
proof -
  have "tx_ok (\<lambda>d. P d \<and> (fin_outcome input = AttemptOutcomeCompleted \<longrightarrow> settled (fc_attempt c) d))
      (terminateAttempt (fc_attempt c) (outcome_status (fin_outcome input)) reason now) (\<lambda>_. P)" for reason now
    by (rule tx_ok_weaken [OF terminate_ok]) (use outcome_abandons [OF assms] in auto)
  then show ?thesis
    unfolding close_attempt_def Let_def
    by (intro tx_ok_then [where R = "\<lambda>_. P"] tx_ok_keeps [THEN iffD1] keeps_intro keeps_close_rest)
qed

lemma finish:
  assumes P: "P d" and i: "i \<in> set (db_issues d)" and "target \<noteq> StatusCancelled"
    and d': "d' = d\<lparr>db_issues := update_where (unarchived_at (IID i) (IVersion i))
        (finished_issue target blocked now (NextClosedAt (IStatus i) target now (ClosedAt i))) (db_issues d)\<rparr>"
    and ok: "schema_ok d'"
  shows "P d'"
proof (rule edit_issue [OF P _ d' ok], rule issue_edit_at [OF schema [OF P] i])
  assume "unarchived_at (IID i) (IVersion i) i"
  then show "issue_step d i (finished_issue target blocked now (NextClosedAt (IStatus i) target now (ClosedAt i)) i)"
    using assms(3)
    by (auto simp: issue_step_def closing_step_def parent_step_def epic_step_def park_step_def parked_def finished_issue_def unarchived_at_def)
qed (simp add: unarchived_at_def)

lemma complete_issue_ok:
  assumes "fin_outcome input = AttemptOutcomeCompleted \<Longrightarrow> target \<noteq> StatusCancelled"
  shows "tx_ok (\<lambda>d. P d \<and> issue \<in> set (db_issues d) \<and> (fin_outcome input = AttemptOutcomeCompleted \<longrightarrow> bound a request d))
     (complete_issue fresh kind input target issue a request now)
     (\<lambda>_ d. P d \<and> (fin_outcome input = AttemptOutcomeCompleted \<longrightarrow> settled a d))"
    (is "tx_ok ?pre _ (\<lambda>_. ?S)")
proof (cases "fin_outcome input = AttemptOutcomeCompleted")
  case True
  let ?R = "\<lambda>d. P d \<and> bound a request d"
  have gate: "pure_tx (finish_gate kind input target issue a request)"
    unfolding finish_gate_def by (intro keeps_intro)
  have upd: "tx_ok ?pre (update_issues (unarchived_at (IID issue) (IVersion issue))
      (finished_issue target blocked now (NextClosedAt (IStatus issue) target now (ClosedAt issue)))) (\<lambda>_. ?R)"
    for blocked
    using finish [OF _ _ assms] True by (auto simp: tx_ok_def update_issues_Inr Let_def)
  have tail: "tx_ok ?R (if affected \<noteq> 1 then classifyConditionalUpdateFailure (IID issue) else tx_then
      (case claimed_for a request of None \<Rightarrow> tx_return ()
       | Some r \<Rightarrow> resolveReviewRequestForAttempt fresh r a now (the (fin_review input)) (fin_blocked_reason input))
      (\<lambda>_. tx_return i)) (\<lambda>_. ?S)" for affected :: nat and i
  proof (cases "claimed_for a request = request")
    case same: True
    have "tx_ok ?R (case request of None \<Rightarrow> tx_return ()
       | Some r \<Rightarrow> resolveReviewRequestForAttempt fresh r a now (the (fin_review input)) (fin_blocked_reason input)) (\<lambda>_. ?S)"
    proof (cases request)
      case (Some r)
      then show ?thesis using tx_ok_weaken [OF resolve_request_ok] by (simp add: unclaimed_settled)
    qed (simp add: tx_ok_def tx_return_Inr bound_def)
    then show ?thesis
      unfolding same
      by (intro tx_ok_if tx_ok_then [where R = "\<lambda>_. ?S"] tx_ok_return)
        (auto simp: tx_ok_def classifyConditionalUpdateFailure_def split: option.splits if_splits)
  next
    case False
    then have "\<not> ?R d" for d using bound_claimed_for by blast
    then show ?thesis unfolding tx_ok_def by blast
  qed
  show ?thesis
    unfolding complete_issue_def Let_def using True
    by (intro tx_ok_if tx_ok_return tx_ok_lift_then tx_ok_pure_then [OF gate] tx_ok_then [OF upd tail]) simp_all
qed (simp add: complete_issue_def tx_ok_def tx_return_Inr)

lemma finish_decided_ok:
  assumes "finishable input"
  shows "tx_ok (\<lambda>d. P d \<and> issue \<in> set (db_issues d) \<and> (fin_outcome input = AttemptOutcomeCompleted \<longrightarrow> bound (fc_attempt c) request d))
     (finish_decided fresh c input artifacts row issue latest request) (\<lambda>_. P)"
proof -
  have "AttemptOutcome_Valid (fin_outcome input)" using assms by (simp add: finishable_def)
  note close = close_ok [OF this]
  show ?thesis
    unfolding finish_decided_def
    by (intro tx_ok_pure_then [OF pure_basic(3)] tx_ok_lift_then tx_ok_require_then tx_ok_prod
        tx_ok_then [OF complete_issue_ok close] finish_target [OF assms])
qed

text \<open>The review part either settles the call, or hands on the request as loaded.\<close>

lemma review_request_ok:
  "tx_ok P (finish_review_request a input issue now) (\<lambda>x d. P d \<and> (\<not> fst x \<longrightarrow> bound a (snd x) d))"
proof -
  let ?post = "\<lambda>x d. P d \<and> (\<not> fst x \<longrightarrow> bound a (snd x) d)"
  have stale: "tx_ok (\<lambda>d. P d \<and> d = d0) (tx_then (supersede_stale_review (the request) issue a now) (\<lambda>_. tx_return (True, request))) ?post"
    if "claimed_for a request = Some r" "request = loadActiveReviewRequestForAttempt d0 a" for d0 request r
  proof (intro tx_ok_then [where R = "\<lambda>_. P"] tx_ok_return)
    have "request = Some r" using that(1) by (auto simp: claimed_for_def split: option.splits if_splits)
    then have "P d0 \<Longrightarrow> bound a (Some r) d0" using bound_loaded [OF schema, of d0 a] that(2) by simp
    then show "tx_ok (\<lambda>d. P d \<and> d = d0) (supersede_stale_review (the request) issue a now) (\<lambda>_. P)"
      using \<open>request = Some r\<close> by (auto intro!: tx_ok_weaken [OF supersede_stale_ok])
  qed simp
  have fresh: "tx_ok (\<lambda>d. P d \<and> d = d0) (tx_then (tx_read (\<lambda>d. has_unresolved_request d issue)) (\<lambda>unresolved.
      tx_then (tx_require (b unresolved) e) (\<lambda>_. tx_return (False, loadActiveReviewRequestForAttempt d0 a)))) ?post" for d0 b e
    using bound_loaded [OF schema] by (intro tx_ok_pure_then keeps_intro tx_ok_return) auto
  show ?thesis
    unfolding finish_review_request_def
  proof (intro tx_ok_read_then)
    fix d0
    let ?r = "loadActiveReviewRequestForAttempt d0 a"
    show "tx_ok (\<lambda>d. P d \<and> d = d0) (tx_then (case claimed_for a ?r of None \<Rightarrow> tx_return False
        | Some r \<Rightarrow> reviewTargetStale issue (rq_issue_version r) (rq_event r)) (\<lambda>stale.
        if stale then tx_then (supersede_stale_review (the ?r) issue a now) (\<lambda>_. tx_return (True, ?r))
        else tx_then (tx_read (\<lambda>d. has_unresolved_request d issue)) (\<lambda>unresolved. tx_then (tx_require
          (\<not> (?r = None \<and> fin_review input = Some ReviewOutcomeApproved \<and> unresolved)) reviewRequestRequired) (\<lambda>_.
          tx_return (False, ?r))))) ?post"
    proof (cases "claimed_for a ?r")
      case None
      then show ?thesis using fresh by (simp add: tx_then_return)
    next
      case (Some r)
      show ?thesis unfolding Some option.case
        by (intro tx_ok_pure_then [OF pure_stale] tx_ok_if stale [OF Some refl] fresh)
    qed
  qed
qed

end

lemma finish_review_kept:
  "finish_review_request a input issue now d = Inr (d', (False, r)) \<Longrightarrow> d' = d \<and> r = loadActiveReviewRequestForAttempt d a"
  by (auto simp: finish_review_request_def reviewTargetStale_def tx_simps split: if_splits option.splits)

context system_invariant
begin

lemma finish_checked_ok:
  assumes valid: "finishable input"
  shows "tx_ok (\<lambda>d. P d \<and> issue \<in> set (db_issues d) \<and> row \<in> set (db_attempts d) \<and> wa_id row = fc_attempt c)
    (finish_checked fresh c input artifacts row issue) (\<lambda>_. P)" (is "tx_ok ?R _ _")
proof -
  let ?post = "\<lambda>x d. P d \<and> (\<not> fst x \<longrightarrow> issue \<in> set (db_issues d) \<and>
    (fin_outcome input = AttemptOutcomeCompleted \<longrightarrow> bound (fc_attempt c) (snd x) d))"
  have review: "tx_ok ?R (if wa_kind row = AttemptKindReview \<and> fin_outcome input = AttemptOutcomeCompleted
       then finish_review_request (fc_attempt c) input (IID issue) (fc_now c) else tx_return (False, None)) ?post"
  proof (intro tx_ok_if tx_ok_return)
    show "tx_ok ?R (finish_review_request (fc_attempt c) input (IID issue) (fc_now c)) ?post"
      unfolding tx_ok_def
    proof (intro allI impI)
      fix d d' x
      assume R: "?R d" and run: "finish_review_request (fc_attempt c) input (IID issue) (fc_now c) d = Inr (d', x)"
      have "P d' \<and> (\<not> fst x \<longrightarrow> bound (fc_attempt c) (snd x) d')" using tx_okD [OF review_request_ok _ run] R by simp
      moreover have "d' = d" if "\<not> fst x" using finish_review_kept [of _ _ _ _ d d' "snd x"] run that by (cases x) simp
      ultimately show "?post x d'" using R by auto
    qed
  next
    fix d assume "\<not> (wa_kind row = AttemptKindReview \<and> fin_outcome input = AttemptOutcomeCompleted)" "?R d"
    moreover from this have "\<forall>x \<in> set (db_attempts d). wa_id x = fc_attempt c \<longrightarrow> wa_kind x = wa_kind row"
      using attempt_unique [OF schema] by metis
    ultimately have "settled (fc_attempt c) d" if "fin_outcome input = AttemptOutcomeCompleted"
      using that unfolding settled_def by metis
    then show "?post (False, None) d" using \<open>?R d\<close> by (simp add: bound_def)
  qed
  have rest: "tx_ok (?post x) (case x of (stale, request) \<Rightarrow> if stale then tx_return (Inl staleReviewTargetError)
        else finish_decided fresh c input artifacts row issue latest request) (\<lambda>_. P)" for x latest
    using finish_decided_ok [OF valid] by (cases x) (auto simp: tx_ok_return)
  show ?thesis
    unfolding finish_checked_def
    by (intro tx_ok_pure_then keeps_intro tx_ok_then [OF review rest])
qed

lemma keeps_finish:
  assumes valid: "finishable input"
  shows "keeps P (finish_active env fresh c input artifacts)"
proof (rule keepsI)
  fix d d' r
  assume P: "P d" and run: "finish_active env fresh c input artifacts d = Inr (d', r)"
  then obtain row i where row: "find (\<lambda>a. wa_id a = fc_attempt c) (db_attempts d) = Some row"
      and i: "loadIssueForMutation (internal_id (wa_issue row)) d = Inr (d, i)"
      and checked: "finish_checked fresh c input artifacts row i d = Inr (d', r)"
    unfolding finish_active_def by (auto simp: tx_simps from_option_eq_Inr)
  show "P d'"
    by (rule tx_okD [OF finish_checked_ok [OF valid] _ checked])
      (use P find_Some_mem [OF row] loadIssue_mem [OF i] in simp)
qed

lemma FinishAttempt_keeps: "P d \<Longrightarrow> P (fst (FinishAttempt env fresh c d))"
  unfolding FinishAttempt_def
  by (auto intro!: write_keeps keeps_with_replay keeps_under_lease keeps_finish dest: valid_finishable split: sum.splits)

lemma ForceReleaseAttempt_keeps: "P d \<Longrightarrow> P (fst (ForceReleaseAttempt env a now d))"
  unfolding ForceReleaseAttempt_def force_release_def
  by (auto intro!: write_keeps keeps_intro keeps_abandon simp: terminalStatusAbandonsReviewClaim_def)

lemma SubmitGateEvidence_keeps: "P d \<Longrightarrow> P (fst (SubmitGateEvidence env c d))"
proof -
  assume P: "P d"
  have ins: "keeps P (exec (\<lambda>d. d\<lparr>db_evidence := db_evidence d @ [e]\<rparr>))" for e
    by (rule keeps_other) (simp add: same_core_def)
  have upd: "keeps P (update_evidence p f)" for p f
    unfolding update_evidence_def by (intro keeps_intro keeps_other) (simp add: same_core_def)
  have log: "keeps P (appendGateEvidenceEvent e ty now)" for e ty now
    unfolding appendGateEvidenceEvent_def by (rule keeps_other) (simp add: same_core_def)
  show ?thesis
    using P unfolding SubmitGateEvidence_def upsert_evidence_def requireSingleRowAffected_def loadAttemptEvidenceByID_def
    by (auto intro!: write_keeps keeps_with_replay keeps_under_lease keeps_intro ins upd log)
qed

section \<open>Policies and relations\<close>

lemma keeps_load_policy [keeps_intro]: "keeps P (loadWorkflowPolicy env i)"
  unfolding loadWorkflowPolicy_def by (intro keeps_intro)

lemma keeps_policy_event [keeps_intro]: "keeps P (appendWorkflowPolicyEvent p ty prior session now)"
  unfolding appendWorkflowPolicyEvent_def by (rule keeps_other) (simp add: same_core_def)

lemma CreatePolicy_keeps: "P d \<Longrightarrow> P (fst (CreatePolicy env c d))"
proof -
  assume P: "P d"
  have ins: "keeps P (exec (\<lambda>d. d\<lparr>db_policies := db_policies d @ [p]\<rparr>))" for p
    by (rule keeps_other) (simp add: same_core_def)
  show ?thesis using P unfolding CreatePolicy_def
    by (auto intro!: write_keeps keeps_with_replay keeps_intro ins split: sum.splits)
qed

lemma keeps_mutate_policy: "keeps P (mutate_policy env c operation ty assign)"
proof -
  have upd: "keeps P (update_policies p f)" for p f
    unfolding update_policies_def by (intro keeps_intro keeps_other) (simp add: same_core_def)
  show ?thesis unfolding mutate_policy_def requireSingleRowAffected_def by (intro keeps_with_replay keeps_intro upd)
qed

lemma UpdatePolicy_keeps: "P d \<Longrightarrow> P (fst (UpdatePolicy env c input d))"
  unfolding UpdatePolicy_def by (auto intro!: write_keeps keeps_mutate_policy split: sum.splits)

lemma ArchivePolicy_keeps: "P d \<Longrightarrow> P (fst (ArchivePolicy env c d))"
  unfolding ArchivePolicy_def by (auto intro!: write_keeps keeps_mutate_policy)

lemma keeps_relation_events [keeps_intro]: "keeps P (appendRelationEvents ty r now)"
  unfolding appendRelationEvents_def by (intro keeps_intro)

lemma keeps_add_relation: "rl_source r \<noteq> rl_target r \<Longrightarrow> keeps P (add_relation r now)"
proof -
  assume r: "rl_source r \<noteq> rl_target r"
  have "P d'" if P: "P d" and run: "add_relation r now d = Inr (d', x)" for d d' x
  proof (cases "loadRelation d (rl_source r) (rl_target r) (rl_type r)")
    case None
    let ?d1 = "d\<lparr>db_relations := db_relations d @ [r]\<rparr>"
    have free: "rl_type r = RelationTypeBlocks \<Longrightarrow> \<not> blocksPathExists (db_relations d) (rl_target r) (rl_source r)"
      and ok: "schema_ok ?d1" and log: "appendRelationEvents ''relation_added'' r now ?d1 = Inr (d', ())"
      using run None by (simp_all add: add_relation_def tx_simps)
    have "P ?d1" by (rule add_edge [OF P r free refl ok])
    then show ?thesis by (rule keepsD [OF keeps_relation_events log])
  qed (use P run in \<open>simp add: add_relation_def tx_simps\<close>)
  then show ?thesis by (simp add: keeps_def)
qed

lemma keeps_remove_relation: "keeps P (remove_relation r now)"
proof -
  have "keeps P (exec (\<lambda>d. d\<lparr>db_relations := filter s (db_relations d)\<rparr>))" for s
    using remove_edge by (auto simp: keeps_def exec_Inr)
  then show ?thesis unfolding remove_relation_def by (intro keeps_intro)
qed

lemma keeps_affected_issues [keeps_intro]: "keeps P (loadRelationAffectedIssues s t now)"
  unfolding loadRelationAffectedIssues_def by (intro keeps_intro)

lemma keeps_change_relation: "keeps P (change_relation c)"
proof -
  have "keeps P (if mc_action c = RelationActionAdd then add_relation r now else remove_relation r now)"
    if "rl_source r \<noteq> rl_target r" for r now
    using that by (intro keeps_if keeps_add_relation keeps_remove_relation)
  moreover have "fst (CanonicalRelationEndpoints t a b) \<noteq> snd (CanonicalRelationEndpoints t a b)" if "a \<noteq> b" for t a b
    using that by (simp add: CanonicalRelationEndpoints_def)
  ultimately show ?thesis
    unfolding change_relation_def Let_def
    by (intro keeps_then keeps_loadIssue keeps_require keeps_prod keeps_affected_issues keeps_store keeps_return keeps_guard)
      simp_all
qed

end

section \<open>Reviews\<close>

lemma request_kept: "(\<And>d. db_requests (f d) = db_requests d) \<Longrightarrow> keeps (\<lambda>d. r \<in> set (db_requests d)) (exec f)"
  by (rule keeps_exec) simp

lemma request_kept_target: "keeps (\<lambda>d. r \<in> set (db_requests d)) (ensureTarget tg issue v e artifacts purposes now)"
  unfolding ensureTarget_def freezeReviewTargetGateSnapshot_def insertReviewTargetGateSnapshot_def Let_def
  by (intro keeps_intro request_kept) simp_all

context system_invariant
begin

lemma keeps_load_request [keeps_intro]: "keeps P (loadRequestForMutation i)"
  unfolding loadRequestForMutation_def by (intro keeps_intro)

lemma keeps_ensure_target [keeps_intro]: "keeps P (ensureTarget tg issue v e artifacts purposes now)"
proof -
  have "keeps P (exec (\<lambda>d. d\<lparr>db_targets := db_targets d @ [x]\<rparr>))" for x
    by (rule keeps_other) (simp add: same_core_def)
  moreover have "keeps P (insertReviewTargetGateSnapshot tg s)" for s
    unfolding insertReviewTargetGateSnapshot_def by (rule keeps_other) (simp add: same_core_def)
  ultimately show ?thesis
    unfolding ensureTarget_def freezeReviewTargetGateSnapshot_def Let_def by (intro keeps_intro)
qed

lemma keeps_coverage [keeps_intro]: "keeps P (requireReviewPurposeCoverage tg purposes)"
  unfolding requireReviewPurposeCoverage_def Let_def by (intro keeps_intro)

lemma keeps_insert_request [keeps_intro]: "rq_attempt x = None \<Longrightarrow> keeps P (exec (\<lambda>d. d\<lparr>db_requests := db_requests d @ [x]\<rparr>))"
  using new_request by (auto simp: keeps_def exec_Inr)

lemma CreateReviewRequest_keeps: "P d \<Longrightarrow> P (fst (CreateReviewRequest env c d))"
  unfolding CreateReviewRequest_def create_request_def Let_def
  by (auto intro!: write_keeps keeps_intro simp: open_request_def split: sum.splits)

lemma load_request_then:
  assumes "\<And>request target d0. P d0 \<Longrightarrow> request \<in> set (db_requests d0) \<Longrightarrow> tx_ok (\<lambda>d. P d \<and> d = d0) (f (request, target)) Q"
  shows "tx_ok P (tx_then (loadRequestForMutation i) f) Q"
  unfolding tx_ok_def
proof (intro allI impI)
  fix d d' x assume P: "P d" and run: "tx_then (loadRequestForMutation i) f d = Inr (d', x)"
  obtain d1 request target where load: "loadRequestForMutation i d = Inr (d1, (request, target))"
      and f: "f (request, target) d1 = Inr (d', x)" using run by (auto simp: tx_then_Inr)
  have "d1 = d \<and> request \<in> set (db_requests d)"
    using load by (auto simp: loadRequestForMutation_def tx_simps from_option_eq_Inr dest: find_Some_mem)
  then show "Q x d'" using tx_okD [OF assms [of d request target], of d d' x] P f by simp
qed

lemma release_request_ok:
  assumes "is_unresolved request"
  shows "tx_ok (\<lambda>d. P d \<and> request \<in> set (db_requests d))
    (update_requests (request_at (rq_id request) (rq_version request)) (set_request status None resolved))
    (\<lambda>_ d. P d \<and> (\<forall>a. rq_attempt request = Some a \<longrightarrow> unclaimed a d))"
  unfolding tx_ok_def update_requests_Inr Let_def
proof (intro allI impI, elim conjE)
  fix d d' n
  let ?at = "request_at (rq_id request) (rq_version request)"
  assume P: "P d" and r: "request \<in> set (db_requests d)"
    and ok: "schema_ok (d\<lparr>db_requests := update_where ?at (set_request status None resolved) (db_requests d)\<rparr>)"
    and d': "(d', n) = (d\<lparr>db_requests := update_where ?at (set_request status None resolved) (db_requests d)\<rparr>, affected ?at (db_requests d))"
  have "unclaimed a d'" if "rq_attempt request = Some a" for a
    using cleared_unclaimed [OF schema [OF P] r that, of ?at] d' by (simp add: request_at_def)
  moreover have "P d'" using resolve [OF P only_unresolved_at [OF schema [OF P] r assms] refl ok] d' by simp
  ultimately show "P d' \<and> (\<forall>a. rq_attempt request = Some a \<longrightarrow> unclaimed a d')" by blast
qed

lemma release_loaded_ok:
  assumes "request \<in> set (db_requests d0)" and "is_unresolved request"
  shows "tx_ok (\<lambda>d. P d \<and> d = d0)
    (update_requests (request_at (rq_id request) (rq_version request)) (set_request status None resolved))
    (\<lambda>_ d. P d \<and> (\<forall>a. rq_attempt request = Some a \<longrightarrow> unclaimed a d))"
  by (rule tx_ok_weaken [OF release_request_ok [OF assms(2)]]) (use assms(1) in auto)

lemma CancelReviewRequest_keeps: "P d \<Longrightarrow> P (fst (CancelReviewRequest c d))"
proof -
  assume P: "P d"
  have terminate_bound: "tx_ok (\<lambda>d. P d \<and> (\<forall>a. rq_attempt request = Some a \<longrightarrow> unclaimed a d))
      (case rq_attempt request of None \<Rightarrow> tx_return None
       | Some a \<Rightarrow> tx_then (terminateAttempt a AttemptStatusCancelled reason now) (\<lambda>terminated.
           tx_return (if terminated then Some a else None))) (\<lambda>_. P)" for request reason now
  proof (cases "rq_attempt request")
    case (Some a)
    have "tx_ok (\<lambda>d. P d \<and> (\<forall>b. Some a = Some b \<longrightarrow> unclaimed b d)) (terminateAttempt a AttemptStatusCancelled reason now) (\<lambda>_. P)"
      by (rule tx_ok_weaken [OF terminate_ok]) (simp_all add: unclaimed_settled)
    then show ?thesis unfolding Some option.case by (rule tx_ok_then) (intro tx_ok_return)
  qed (simp add: tx_ok_return)
  have mutation: "tx_ok (\<lambda>d. P d \<and> d = d0)
      (tx_then (tx_require (rq_version request = v) e) (\<lambda>_. tx_then (tx_require (is_unresolved request) e') (\<lambda>_.
       tx_then (update_requests (request_at (rq_id request) (rq_version request)) (set_request status None resolved)) (\<lambda>_.
       tx_then (case rq_attempt request of None \<Rightarrow> tx_return None
         | Some a \<Rightarrow> tx_then (terminateAttempt a AttemptStatusCancelled reason now) (\<lambda>terminated.
             tx_return (if terminated then Some a else None))) rest)))) (\<lambda>_. P)"
    if "P d0" "request \<in> set (db_requests d0)" "\<And>x. keeps P (rest x)"
    for d0 request v e e' status resolved reason now and rest :: "string option \<Rightarrow> (ReviewRequest \<times> ReviewTarget) res tx"
    by (intro tx_ok_require_then tx_ok_then [OF release_loaded_ok [OF that(2)]] tx_ok_then [OF terminate_bound]
        tx_ok_keeps [THEN iffD1] that(3))
  show ?thesis
    unfolding CancelReviewRequest_def
    by (intro write_keeps [OF _ P] tx_ok_keeps [THEN iffD2] load_request_then) (auto intro!: mutation keeps_intro)
qed

lemma claim_request_ok:
  assumes "P d0" and r: "request \<in> set (db_requests d0)" "rq_status request = ReviewRequestStatusOpen"
    and a: "find (\<lambda>a. wa_id a = attemptID) (db_attempts d0) = Some a" "is_active a" "wa_kind a = AttemptKindReview"
      "wa_issue a = rq_issue request"
  shows "tx_ok (\<lambda>d. P d \<and> d = d0)
    (update_requests (request_at (rq_id request) (rq_version request)) (set_request ReviewRequestStatusClaimed (Some attemptID) None))
    (\<lambda>_. P)"
proof -
  have holds: "holder d0 attemptID (rq_issue request) AttemptKindReview"
    unfolding holder_def using find_Some_mem [OF a(1)] a(2-4) by blast
  have only: "only_unresolved (request_at (rq_id request) (rq_version request)) d0"
    by (rule only_unresolved_at [OF schema [OF assms(1)] r(1)]) (simp add: is_unresolved_def r(2))
  have "\<forall>x \<in> set (db_requests d0). request_at (rq_id request) (rq_version request) x \<longrightarrow> rq_issue x = rq_issue request"
    using request_unique [OF schema [OF assms(1)] r(1)] by (auto simp: request_at_def)
  note law = claim [OF assms(1) only holds this]
  show ?thesis unfolding tx_ok_def update_requests_Inr Let_def using law by simp
qed

lemma ClaimReviewRequest_keeps: "P d \<Longrightarrow> P (fst (ClaimReviewRequest c d))"
proof (cases "rvm_attempt c")
  case (Some attemptID)
  assume P: "P d"
  have claimed: "tx_ok (\<lambda>d. P d \<and> d = d0)
     (tx_then (tx_require (rq_version request = v) e1) (\<lambda>_. tx_then (tx_require (rq_status request = ReviewRequestStatusOpen) e2) (\<lambda>_.
      tx_then (reviewTargetStale (rq_issue request) (rq_issue_version request) (rq_event request)) (\<lambda>stale.
      if stale then tx_then (supersedeOpenReviewRequest request now) (\<lambda>_. tx_return res)
      else tx_then (tx_read (\<lambda>d. find (\<lambda>a. wa_id a = attemptID) (db_attempts d))) (\<lambda>row.
      tx_then (tx_lift (from_option e3 row)) (\<lambda>a. tx_then (tx_require (is_active a) e4) (\<lambda>_.
      tx_then (tx_require (wa_kind a = AttemptKindReview) e5) (\<lambda>_. tx_then (tx_require (wa_issue a = rq_issue request) e6) (\<lambda>_.
      tx_then (tx_require (wa_lease a > now) e7) (\<lambda>_. tx_then (tx_read assigned) (\<lambda>b. tx_then (tx_require (\<not> b) e8) (\<lambda>_.
      tx_then (update_requests (request_at (rq_id request) (rq_version request)) (set_request ReviewRequestStatusClaimed (Some attemptID) None)) rest))))))))))))
     (\<lambda>_. P)" if "P d0" "request \<in> set (db_requests d0)" "\<And>x. keeps P (rest x)"
     for d0 :: db and request v e1 e2 now res e3 e4 e5 e6 e7 assigned e8 rest
  proof (intro tx_ok_require_then tx_ok_pure_then [OF pure_stale] tx_ok_if tx_ok_read_then tx_ok_lift_then tx_ok_then [where R = "\<lambda>_. P"]
      tx_ok_keeps [THEN iffD1] that(3) keeps_return)
    show "tx_ok (\<lambda>d. P d \<and> d = d0) (supersedeOpenReviewRequest request now) (\<lambda>_. P)"
      using keeps_supersede_open by (rule tx_ok_of_keeps) simp
  next
    fix d1 d2 :: db and a
    assume "rq_status request = ReviewRequestStatusOpen" and a: "is_active a" "wa_kind a = AttemptKindReview" "wa_issue a = rq_issue request"
      and row: "from_option e3 (find (\<lambda>a. wa_id a = attemptID) (db_attempts d1)) = Inr a"
    then show "tx_ok (\<lambda>d. ((P d \<and> d = d0) \<and> d = d1) \<and> d = d2) (update_requests (request_at (rq_id request) (rq_version request))
        (set_request ReviewRequestStatusClaimed (Some attemptID) None)) (\<lambda>_. P)"
      using claim_request_ok [OF that(1,2)] by (auto simp: tx_ok_def from_option_eq_Inr)
  qed
  show ?thesis
  proof (cases "TrimSpace attemptID = ''''")
    case False
    show ?thesis
      unfolding ClaimReviewRequest_def Some option.case if_not_P [OF False]
      by (intro write_keeps [OF _ P] tx_ok_keeps [THEN iffD2] load_request_then) (auto intro!: claimed keeps_intro)
  qed (use P Some in \<open>simp add: ClaimReviewRequest_def\<close>)
qed (simp add: ClaimReviewRequest_def)

lemma ResolveReviewRequest_keeps: "P d \<Longrightarrow> P (fst (ResolveReviewRequest env c d))"
proof -
  assume P: "P d"
  have resolved: "tx_ok (\<lambda>d. P d \<and> d = d0) (tx_then (tx_require (rq_version request = v) e1) (\<lambda>_.
      tx_then (tx_require (rq_status request = ReviewRequestStatusClaimed) e2) (\<lambda>_.
      tx_then (tx_require (rq_attempt request = Some b) e3) (\<lambda>_.
      tx_then (update_requests (request_at (rq_id request) (rq_version request)) (set_request status None at)) rest)))) (\<lambda>_. P)"
    if "P d0" "request \<in> set (db_requests d0)" "\<And>x. keeps P (rest x)" for d0 request v e1 e2 b e3 status at rest
  proof (intro tx_ok_require_then tx_ok_then [where R = "\<lambda>_. P"] tx_ok_keeps [THEN iffD1] that(3))
    assume "rq_status request = ReviewRequestStatusClaimed"
    then show "tx_ok (\<lambda>d. P d \<and> d = d0) (update_requests (request_at (rq_id request) (rq_version request)) (set_request status None at)) (\<lambda>_. P)"
      using tx_ok_weaken [OF release_loaded_ok [OF that(2)]] by (simp add: is_unresolved_def)
  qed
  show ?thesis
  proof (cases "TrimSpace (rvr_outcome_id c) = '''' \<or> \<not> ids_ParseStrict env (rvr_outcome_id c) \<or>
      rvr_attempt c = '''' \<or> \<not> ReviewOutcome_Valid (rvr_outcome c)")
    case False
    show ?thesis
      unfolding ResolveReviewRequest_def Let_def if_not_P [OF False]
      by (intro write_keeps [OF _ P] tx_ok_keeps [THEN iffD2] load_request_then) (auto intro!: resolved keeps_intro)
  qed (use P in \<open>simp add: ResolveReviewRequest_def\<close>)
qed

lemma replaceable_open: "replaceable s = Inr u \<longleftrightarrow> s = ReviewRequestStatusOpen"
  by (simp add: replaceable_def)

lemma replace_request_keeps: "keeps P (replace_request c)"
proof -
  let ?Q = "\<lambda>r d. P d \<and> r \<in> set (db_requests d)"
  have target: "tx_ok (?Q r) (ensureTarget tg issue v e artifacts purposes now) (\<lambda>_. ?Q r)" for r tg issue v e artifacts purposes now
    unfolding tx_ok_keeps [symmetric] by (intro keeps_conj keeps_ensure_target request_kept_target)
  have release: "tx_ok (?Q r) (update_requests (request_at (rq_id r) (rq_version r)) (set_request status None resolved)) (\<lambda>_. P)"
    if "rq_status r = ReviewRequestStatusOpen" for r status resolved
    by (rule tx_ok_weaken [OF release_request_ok]) (simp_all add: is_unresolved_def that)
  have coverage: "pure_tx (requireReviewPurposeCoverage tg purposes)" for tg purposes
    unfolding requireReviewPurposeCoverage_def Let_def by (intro keeps_intro)
  have future: "pure_tx (reviewTargetFuture e)" for e unfolding reviewTargetFuture_def by (intro keeps_intro)
  have body: "tx_ok (?Q r) (tx_then (tx_require b1 e1) (\<lambda>_. tx_then (tx_lift (replaceable (rq_status r))) (\<lambda>_.
      tx_then (reviewTargetFuture f) (\<lambda>x. tx_then (tx_require (b2 x) e2) (\<lambda>_.
      tx_then (reviewTargetStale issue v e) (\<lambda>x. tx_then (tx_require (b3 x) e3) (\<lambda>_.
      tx_then (tx_read g) (\<lambda>x. tx_then (tx_require (b4 x) e4) (\<lambda>_.
      tx_then (ensureTarget tg issue' v' ev artifacts purposes now) (\<lambda>t.
      tx_then (requireReviewPurposeCoverage (rt_id t) purposes') (\<lambda>_.
      tx_then (update_requests (request_at (rq_id r) (rq_version r)) (set_request status None resolved)) (\<lambda>_. rest t)))))))))))) (\<lambda>_. P)"
    if rest: "\<And>t. keeps P (rest t)"
    for r b1 e1 f b2 e2 issue v e b3 e3 and g :: "db \<Rightarrow> ReviewRequest option" and b4 e4 tg issue' v' ev artifacts purposes now purposes' status resolved
      and rest :: "ReviewTarget \<Rightarrow> ReplaceReviewRequestResult res tx"
  proof (intro tx_ok_require_then)
    show "tx_ok (?Q r) (tx_then (tx_lift (replaceable (rq_status r))) (\<lambda>_.
      tx_then (reviewTargetFuture f) (\<lambda>x. tx_then (tx_require (b2 x) e2) (\<lambda>_.
      tx_then (reviewTargetStale issue v e) (\<lambda>x. tx_then (tx_require (b3 x) e3) (\<lambda>_.
      tx_then (tx_read g) (\<lambda>x. tx_then (tx_require (b4 x) e4) (\<lambda>_.
      tx_then (ensureTarget tg issue' v' ev artifacts purposes now) (\<lambda>t.
      tx_then (requireReviewPurposeCoverage (rt_id t) purposes') (\<lambda>_.
      tx_then (update_requests (request_at (rq_id r) (rq_version r)) (set_request status None resolved)) (\<lambda>_. rest t))))))))))) (\<lambda>_. P)"
    proof (cases "rq_status r = ReviewRequestStatusOpen")
      case True
      show ?thesis
        by (intro tx_ok_lift_then tx_ok_pure_then [OF pure_basic(5)] tx_ok_pure_then [OF pure_basic(3)] tx_ok_pure_then [OF future]
            tx_ok_pure_then [OF pure_stale] tx_ok_pure_then [OF coverage] tx_ok_then [OF target] tx_ok_then [OF release [OF True]]
            tx_ok_keeps [THEN iffD1] rest)
    next
      case False
      have "(\<And>x. replaceable (rq_status r) \<noteq> Inr x)" using False by (simp add: replaceable_open)
      then show ?thesis by (auto simp: tx_ok_def tx_then_Inr tx_lift_Inr)
    qed
  qed
  have member: "tx_ok (\<lambda>d. P d \<and> d = d0) t (\<lambda>_. P)" if "tx_ok (?Q r) t (\<lambda>_. P)" "r \<in> set (db_requests d0)" for d0 r and t :: "'t tx"
    by (rule tx_ok_weaken [OF that(1)]) (use that(2) in auto)
  show ?thesis
    unfolding replace_request_def Let_def
    by (intro tx_ok_keeps [THEN iffD2] load_request_then) (auto intro!: member body keeps_intro simp: open_request_def)
qed

lemma ReplaceReviewRequest_keeps: "P d \<Longrightarrow> P (fst (ReplaceReviewRequest env c d))"
  unfolding ReplaceReviewRequest_def by (auto intro!: write_keeps keeps_with_replay replace_request_keeps)

end

end
