(* ===== verification/Sessions.thy ===== *)
theory Sessions
  imports Attempts
begin

text \<open>
  Agent sessions: \<^verbatim>\<open>internal/domain/session.go\<close>, the repository \<^verbatim>\<open>internal/adapters/sqlite/sessions.go\<close> and
  its commands (\<^verbatim>\<open>internal/ports/sessions.go\<close>). A session is found by its id or by the SHA-256 digest of
  the handle its client presents; the digest function is the parameter of \<open>env\<close>.
\<close>

section \<open>Input\<close>

definition MaxSessionMetadataRunes :: int where "MaxSessionMetadataRunes = 256"

record CreateAgentSessionInput =
  sx_client :: string
  sx_version :: "string option"
  sx_label :: "string option"
  sx_model :: "string option"
  sx_instance :: "string option"

definition normalizeSessionMetadata :: "string \<Rightarrow> string option \<Rightarrow> string option res" where
  "normalizeSessionMetadata field value =
     (case value of
        None \<Rightarrow> Inr None
      | Some v \<Rightarrow>
          let normalized = TrimSpace v in
          if normalized = '''' then Inl (validationError field ''REQUIRED'')
          else and_then (ValidateText field normalized MaxSessionMetadataRunes) (\<lambda>_. Inr (Some normalized)))"

definition CreateAgentSessionInput_Validate :: "CreateAgentSessionInput \<Rightarrow> CreateAgentSessionInput res" where
  "CreateAgentSessionInput_Validate i =
     (let clientName = TrimSpace (sx_client i) in
      and_then (require (clientName \<noteq> '''') (validationError ''client_name'' ''REQUIRED'')) (\<lambda>_.
      and_then (ValidateText ''client_name'' clientName MaxSessionMetadataRunes) (\<lambda>_.
      and_then (normalizeSessionMetadata ''client_version'' (sx_version i)) (\<lambda>version.
      and_then (normalizeSessionMetadata ''agent_label'' (sx_label i)) (\<lambda>label.
      and_then (normalizeSessionMetadata ''model'' (sx_model i)) (\<lambda>model.
      and_then (normalizeSessionMetadata ''instance_key'' (sx_instance i)) (\<lambda>instance_key.
      Inr \<lparr>sx_client = clientName, sx_version = version, sx_label = label, sx_model = model, sx_instance = instance_key\<rparr>)))))))"

definition session_metadata :: "AgentSession \<Rightarrow> CreateAgentSessionInput" where
  "session_metadata s = \<lparr>sx_client = as_client s, sx_version = as_version s, sx_label = as_label s,
     sx_model = as_model s, sx_instance = as_instance s\<rparr>"

definition with_metadata :: "CreateAgentSessionInput \<Rightarrow> AgentSession \<Rightarrow> AgentSession" where
  "with_metadata i s = s\<lparr>as_client := sx_client i, as_version := sx_version i, as_label := sx_label i,
     as_model := sx_model i, as_instance := sx_instance i\<rparr>"

section \<open>Validation of commands and rows\<close>

definition invalidSessionID :: "string \<Rightarrow> Error" where
  "invalidSessionID field = NewError CodeInvalidArgument False [detail field ''INVALID_ULID'']"

definition invalidSessionCommand :: "string \<Rightarrow> Error" where
  "invalidSessionCommand field = NewError CodeInvalidArgument False [detail field ''INVALID_VALUE'']"

definition invalidHandle :: Error where
  "invalidHandle = NewError CodeInvalidArgument False [detail ''agent_session_handle'' ''INVALID_HANDLE'']"

definition session_times_ok :: "AgentSession \<Rightarrow> bool" where
  "session_times_ok s \<longleftrightarrow> \<not> as_seen s < as_started s \<and>
     (case as_ended s of None \<Rightarrow> True | Some e \<Rightarrow> \<not> e < as_started s \<and> e = as_seen s)"

definition validateSessionCommand :: "env \<Rightarrow> AgentSession \<Rightarrow> AgentSession res" where
  "validateSessionCommand env s =
     and_then (require (ids_ParseStrict env (as_id s)) (invalidSessionID ''id'')) (\<lambda>_.
     and_then (CreateAgentSessionInput_Validate (session_metadata s)) (\<lambda>normalized.
     and_then (require (\<not> IsZero (as_started s)) (invalidSessionCommand ''started_at'')) (\<lambda>_.
     and_then (require (\<not> IsZero (as_seen s)) (invalidSessionCommand ''last_seen_at'')) (\<lambda>_.
     and_then (require (\<not> (case as_ended s of None \<Rightarrow> False | Some e \<Rightarrow> IsZero e)) (invalidSessionCommand ''ended_at'')) (\<lambda>_.
     and_then (require (session_times_ok s) (invalidSessionCommand ''timestamps'')) (\<lambda>_.
     Inr ((with_metadata normalized s)\<lparr>as_handle := None\<rparr>)))))))"

text \<open>
  A session outside the table carries no handle. The handle is scanned rune by rune; a rune above 127 or a malformed byte (which ranges as U+FFFD)
  is refused, so this is a check on bytes.
\<close>

definition handle_byte :: "char \<Rightarrow> bool" where
  "handle_byte c \<longleftrightarrow> of_char c \<le> (127 :: nat) \<and> (of_char c \<ge> (32 :: nat) \<or> of_char c \<in> {9, 10, 13 :: nat})"

definition validateHandleString :: "string \<Rightarrow> unit res" where
  "validateHandleString value =
     (if value = '''' \<or> length value > 256 then Inl invalidHandle else require (list_all handle_byte value) invalidHandle)"

definition corruptSessionProjection :: "Detail list \<Rightarrow> Error" where
  "corruptSessionProjection details = NewError CodeStorageCorrupt False details"

definition loadAgentSessionFromRow :: "env \<Rightarrow> AgentSession \<Rightarrow> AgentSession res" where
  "loadAgentSessionFromRow env row =
     (if \<not> ids_ParseStrict env (as_id row) then Inl (corruptSessionProjection [])
      else (case CreateAgentSessionInput_Validate (session_metadata row) of
          Inl e \<Rightarrow> Inl (corruptSessionProjection (Details e))
        | Inr normalized \<Rightarrow>
            if IsZero (as_started row) \<or> IsZero (as_seen row) \<or> \<not> session_times_ok row
            then Inl (corruptSessionProjection [])
            else Inr ((with_metadata normalized row)\<lparr>as_handle := None\<rparr>)))"

definition sessionNotFoundByHandle :: Error where
  "sessionNotFoundByHandle = NewError CodeSessionNotFound False [detail ''agent_session_handle'' ''NOT_FOUND'']"

definition loadAgentSessionByHandle :: "env \<Rightarrow> string \<Rightarrow> AgentSession tx" where
  "loadAgentSessionByHandle env handleHash =
     tx_then (tx_read (\<lambda>d. find (\<lambda>s. as_handle s = Some handleHash) (db_sessions d))) (\<lambda>row.
     case row of
       None \<Rightarrow> tx_fail sessionNotFoundByHandle
     | Some s \<Rightarrow> tx_lift (loadAgentSessionFromRow env s))"

definition loadAgentSession :: "env \<Rightarrow> string \<Rightarrow> AgentSession tx" where
  "loadAgentSession env sessionID =
     tx_then (tx_read (\<lambda>d. find (\<lambda>s. as_id s = sessionID) (db_sessions d))) (\<lambda>row.
     case row of
       None \<Rightarrow> tx_fail (NewError CodeSessionNotFound False [])
     | Some s \<Rightarrow> tx_lift (loadAgentSessionFromRow env s))"

section \<open>Operations\<close>

definition update_sessions :: "string \<Rightarrow> (AgentSession \<Rightarrow> AgentSession) \<Rightarrow> unit tx" where
  "update_sessions sessionID f =
     exec (\<lambda>d. d\<lparr>db_sessions := update_where (\<lambda>s. as_id s = sessionID) f (db_sessions d)\<rparr>)"

definition CreateAgentSession :: "env \<Rightarrow> AgentSession \<Rightarrow> string \<Rightarrow> db \<Rightarrow> db \<times> AgentSession res" where
  "CreateAgentSession env session handleHash d =
     (case validateSessionCommand env session of
        Inl e \<Rightarrow> (d, Inl e)
      | Inr s \<Rightarrow> Write (
          tx_then (exec (\<lambda>d. d\<lparr>db_sessions := db_sessions d @
            [s\<lparr>as_handle := if handleHash = [] then None else Some handleHash\<rparr>]\<rparr>)) (\<lambda>_.
          tx_return (Inr s))) d)"

definition ResolveAgentSessionHandle :: "env \<Rightarrow> string \<Rightarrow> db \<Rightarrow> string res" where
  "ResolveAgentSessionHandle env handle d =
     and_then (validateHandleString handle) (\<lambda>_.
     case find (\<lambda>s. as_handle s = Some (sha256_Sum256 env handle)) (db_sessions d) of
       None \<Rightarrow> Inl sessionNotFoundByHandle
     | Some s \<Rightarrow> if ids_ParseStrict env (as_id s) then Inr (as_id s) else Inl (corruptSessionProjection []))"

text \<open>The two steps the by-handle and by-id operations share.\<close>

definition touch_session :: "Error \<Rightarrow> time \<Rightarrow> AgentSession \<Rightarrow> AgentSession tx" where
  "touch_session ended_error occurredAt session =
     tx_then (tx_require (as_ended session = None) ended_error) (\<lambda>_.
     if occurredAt > as_seen session then
       tx_then (update_sessions (as_id session) (\<lambda>s. s\<lparr>as_seen := occurredAt\<rparr>)) (\<lambda>_.
       tx_return (session\<lparr>as_seen := occurredAt\<rparr>))
     else tx_return session)"

definition end_session :: "time \<Rightarrow> AgentSession \<Rightarrow> AgentSession tx" where
  "end_session occurredAt session =
     (if as_ended session \<noteq> None then tx_return session
      else
        let last = (if occurredAt > as_seen session then occurredAt else as_seen session);
            finish = (\<lambda>s. s\<lparr>as_seen := last, as_ended := Some last\<rparr>) in
        tx_then (update_sessions (as_id session) finish) (\<lambda>_. tx_return (finish session)))"

definition sessionNotActiveByHandle :: Error where
  "sessionNotActiveByHandle = NewError CodeSessionNotActive False [detail ''agent_session_handle'' ''ENDED'']"

definition ResolveAndTouchAgentSessionHandle :: "env \<Rightarrow> string \<Rightarrow> time \<Rightarrow> db \<Rightarrow> db \<times> string res" where
  "ResolveAndTouchAgentSessionHandle env handle occurredAt d =
     (case and_then (validateHandleString handle) (\<lambda>_. require (\<not> IsZero occurredAt) (invalidSessionCommand ''occurred_at'')) of
        Inl e \<Rightarrow> (d, Inl e)
      | Inr _ \<Rightarrow> Write (
          tx_then (loadAgentSessionByHandle env (sha256_Sum256 env handle)) (\<lambda>session.
          tx_then (touch_session sessionNotActiveByHandle occurredAt session) (\<lambda>s.
          tx_return (Inr (as_id s))))) d)"

definition EndAgentSessionByHandle :: "env \<Rightarrow> string \<Rightarrow> time \<Rightarrow> db \<Rightarrow> db \<times> AgentSession res" where
  "EndAgentSessionByHandle env handle occurredAt d =
     (case and_then (validateHandleString handle) (\<lambda>_. require (\<not> IsZero occurredAt) (invalidSessionCommand ''occurred_at'')) of
        Inl e \<Rightarrow> (d, Inl e)
      | Inr _ \<Rightarrow> Write (
          tx_then (loadAgentSessionByHandle env (sha256_Sum256 env handle)) (\<lambda>session.
          tx_then (end_session occurredAt session) (\<lambda>s. tx_return (Inr s)))) d)"

definition check_session_command :: "env \<Rightarrow> string \<Rightarrow> time \<Rightarrow> unit res" where
  "check_session_command env sessionID occurredAt =
     and_then (require (ids_ParseStrict env sessionID) (invalidSessionID ''session_id'')) (\<lambda>_.
     require (\<not> IsZero occurredAt) (invalidSessionCommand ''occurred_at''))"

definition TouchAgentSession :: "env \<Rightarrow> string \<Rightarrow> time \<Rightarrow> db \<Rightarrow> db \<times> AgentSession res" where
  "TouchAgentSession env sessionID occurredAt d =
     (case check_session_command env sessionID occurredAt of
        Inl e \<Rightarrow> (d, Inl e)
      | Inr _ \<Rightarrow> Write (
          tx_then (loadAgentSession env sessionID) (\<lambda>session.
          tx_then (touch_session (NewError CodeSessionNotActive False []) occurredAt session) (\<lambda>s. tx_return (Inr s)))) d)"

definition EndAgentSession :: "env \<Rightarrow> string \<Rightarrow> time \<Rightarrow> db \<Rightarrow> db \<times> AgentSession res" where
  "EndAgentSession env sessionID occurredAt d =
     (case check_session_command env sessionID occurredAt of
        Inl e \<Rightarrow> (d, Inl e)
      | Inr _ \<Rightarrow> Write (
          tx_then (loadAgentSession env sessionID) (\<lambda>session.
          tx_then (end_session occurredAt session) (\<lambda>s. tx_return (Inr s)))) d)"

end
