(* ===== verification/Discussion.thy ===== *)
theory Discussion
  imports Attempts IssueInput
begin

text \<open>
  Comments and decisions: \<^verbatim>\<open>internal/domain/comment.go\<close> and \<^verbatim>\<open>decision.go\<close> with the repositories
  \<^verbatim>\<open>internal/adapters/sqlite/comments.go\<close> and \<^verbatim>\<open>decisions.go\<close>. The columns \<^verbatim>\<open>author_label\<close> and \<^verbatim>\<open>edited_at\<close>
  of a comment, which the code only ever writes as NULL, are left out.
\<close>

section \<open>Comments\<close>

definition MaxCommentRunes :: int where "MaxCommentRunes = 50000"

record AddCommentInput =
  ac_issue :: string
  ac_content :: string
  ac_session :: "string option"
  ac_key :: "string option"

definition AddCommentInput_Validate :: "env \<Rightarrow> AddCommentInput \<Rightarrow> AddCommentInput res" where
  "AddCommentInput_Validate env i =
     and_then (ParseIssueIdentifier env (ac_issue i)) (\<lambda>identifier.
     and_then (ValidateText ''content'' (ac_content i) MaxCommentRunes) (\<lambda>_.
     and_then (require (TrimSpace (ac_content i) \<noteq> '''') (validationError ''content'' ''REQUIRED'')) (\<lambda>_.
     and_then (copyOptionalSessionID env (ac_session i)) (\<lambda>session.
     and_then (normalize_idempotency_key (ac_key i)) (\<lambda>key.
     Inr (i\<lparr>ac_issue := id_value identifier, ac_session := session, ac_key := key\<rparr>))))))"

record AddCommentCommand =
  oc_id :: string
  oc_input :: AddCommentInput
  oc_now :: time
  oc_key :: string
  oc_hash :: string

definition response_comment :: "Response \<Rightarrow> Comment res" where
  "response_comment r = (case r of ResponseComment x \<Rightarrow> Inr x | _ \<Rightarrow> Inl storedResponseInvalid)"

definition corruptComment :: "Detail list \<Rightarrow> Error" where
  "corruptComment details = NewError CodeStorageCorrupt False details"

definition parseNullableCommentID :: "env \<Rightarrow> string \<Rightarrow> string option \<Rightarrow> string option res" where
  "parseNullableCommentID env field value =
     (case value of
        None \<Rightarrow> Inr None
      | Some v \<Rightarrow> if ids_ParseStrict env v then Inr (Some v) else Inl (corruptComment [detail field ''INVALID_ULID'']))"

definition validateStoredCommentText :: "string \<Rightarrow> unit res" where
  "validateStoredCommentText value =
     (case ValidateText ''content'' value MaxCommentRunes of
        Inl _ \<Rightarrow> Inl (corruptComment [])
      | Inr _ \<Rightarrow> require (TrimSpace value \<noteq> '''') (corruptComment [detail ''content'' ''REQUIRED'']))"

definition scanComment :: "env \<Rightarrow> Comment \<Rightarrow> Comment res" where
  "scanComment env row =
     and_then (require (ids_ParseStrict env (cm_id row)) (corruptComment [detail ''id'' ''INVALID_ULID''])) (\<lambda>_.
     and_then (require (ids_ParseStrict env (cm_issue row)) (corruptComment [detail ''issue_id'' ''INVALID_ULID''])) (\<lambda>_.
     and_then (validateStoredCommentText (cm_content row)) (\<lambda>_.
     and_then (parseNullableCommentID env ''created_by_session_id'' (cm_session row)) (\<lambda>session.
     Inr (row\<lparr>cm_session := session\<rparr>)))))"

text \<open>\<^verbatim>\<open>sql.ErrNoRows\<close>, which is passed on as it is and carries no domain code.\<close>

definition noRows :: Error where
  "noRows = NewError [] False []"

definition loadComment :: "env \<Rightarrow> string \<Rightarrow> Comment tx" where
  "loadComment env i =
     tx_then (tx_read (\<lambda>d. find (\<lambda>c. cm_id c = i) (db_comments d))) (\<lambda>row.
     case row of None \<Rightarrow> tx_fail noRows | Some c \<Rightarrow> tx_lift (scanComment env c))"

definition add_comment :: "env \<Rightarrow> AddCommentCommand \<Rightarrow> AddCommentInput \<Rightarrow> IssueIdentifier \<Rightarrow> Comment res tx" where
  "add_comment env c input identifier =
     tx_then (loadIssueForMutation identifier) (\<lambda>issue.
     tx_then (tx_require (ArchivedAt issue = None) issueArchived) (\<lambda>_.
     tx_then (exec (\<lambda>d. d\<lparr>db_comments := db_comments d @
       [\<lparr>cm_id = oc_id c, cm_issue = IID issue, cm_content = ac_content input, cm_session = ac_session input,
         cm_created = oc_now c\<rparr>]\<rparr>)) (\<lambda>_.
     tx_then (append_event (Some (IID issue)) ''comment_added'' (ac_session input) None (PayloadComment (oc_id c)) (oc_now c)
       SourceIssue) (\<lambda>_.
     tx_then (loadComment env (oc_id c)) (\<lambda>comment.
     tx_then (store_idempotency ''add_comment'' (oc_key c) (oc_hash c) (ResponseComment comment)) (\<lambda>_.
     tx_return (Inr comment)))))))"

definition AddComment :: "env \<Rightarrow> AddCommentCommand \<Rightarrow> db \<Rightarrow> db \<times> Comment res" where
  "AddComment env c d =
     (if \<not> ids_ParseStrict env (oc_id c) then (d, Inl (NewError CodeIDGeneration False []))
      else (case AddCommentInput_Validate env (oc_input c) of
          Inl e \<Rightarrow> (d, Inl e)
        | Inr input \<Rightarrow>
            (case ParseIssueIdentifier env (ac_issue input) of
               Inl e \<Rightarrow> (d, Inl e)
             | Inr identifier \<Rightarrow>
                 if IsZero (oc_now c) then (d, Inl invalidCommand)
                 else Write (with_replay ''add_comment'' (oc_key c) (oc_hash c) response_comment
                   (add_comment env c input identifier)) d)))"

definition LookupAddComment :: "string \<Rightarrow> string \<Rightarrow> db \<Rightarrow> Comment option res" where
  "LookupAddComment = lookup_saved ''add_comment'' response_comment"

section \<open>Decisions\<close>

definition MaxDecisionSummaryRunes :: int where "MaxDecisionSummaryRunes = 2000"
definition MaxDecisionContentRunes :: int where "MaxDecisionContentRunes = 100000"

record RecordDecisionInput =
  di_issue :: "string option"
  di_title :: string
  di_summary :: string
  di_content :: string
  di_status :: DecisionStatus
  di_supersedes :: "string option"
  di_session :: "string option"

definition RecordDecisionInput_Validate :: "env \<Rightarrow> RecordDecisionInput \<Rightarrow> RecordDecisionInput res" where
  "RecordDecisionInput_Validate env i =
     and_then (case di_issue i of None \<Rightarrow> Inr None
       | Some x \<Rightarrow> and_then (ParseIssueIdentifier env x) (\<lambda>identifier. Inr (Some (id_value identifier)))) (\<lambda>issueID.
     and_then (ValidateText ''title'' (di_title i) MaxTitleRunes) (\<lambda>_.
     and_then (require (TrimSpace (di_title i) \<noteq> '''') (validationError ''title'' ''REQUIRED'')) (\<lambda>_.
     and_then (ValidateText ''summary'' (di_summary i) MaxDecisionSummaryRunes) (\<lambda>_.
     and_then (require (TrimSpace (di_summary i) \<noteq> '''') (validationError ''summary'' ''REQUIRED'')) (\<lambda>_.
     and_then (ValidateText ''content'' (di_content i) MaxDecisionContentRunes) (\<lambda>_.
     let status = (if di_status i = DecisionStatus_other '''' then DecisionStatusActive else di_status i) in
     and_then (require (DecisionStatus_Valid status) (validationError ''status'' ''INVALID_VALUE'')) (\<lambda>_.
     and_then (case di_supersedes i of None \<Rightarrow> Inr ()
       | Some x \<Rightarrow>
           and_then (require (ids_ParseStrict env x) (validationError ''supersedes_id'' ''INVALID_ULID'')) (\<lambda>_.
           require (status = DecisionStatusActive) (validationError ''supersedes_id'' ''INVALID_SHAPE''))) (\<lambda>_.
     and_then (copyOptionalSessionID env (di_session i)) (\<lambda>session.
     Inr (i\<lparr>di_issue := issueID, di_status := status, di_session := session\<rparr>))))))))))"

record RecordDecisionCommand =
  yc_id :: string
  yc_input :: RecordDecisionInput
  yc_now :: time

definition corruptDecision :: "Detail list \<Rightarrow> Error" where
  "corruptDecision details = NewError CodeStorageCorrupt False details"

definition parseNullableDecisionID :: "env \<Rightarrow> string \<Rightarrow> string option \<Rightarrow> string option res" where
  "parseNullableDecisionID env field value =
     (case value of
        None \<Rightarrow> Inr None
      | Some v \<Rightarrow> if ids_ParseStrict env v then Inr (Some v) else Inl (corruptDecision [detail field ''INVALID_ULID'']))"

definition validateStoredDecisionText :: "string \<Rightarrow> string \<Rightarrow> int \<Rightarrow> bool \<Rightarrow> unit res" where
  "validateStoredDecisionText field value maximum required =
     (case ValidateText field value maximum of
        Inl _ \<Rightarrow> Inl (corruptDecision [])
      | Inr _ \<Rightarrow> require (\<not> (required \<and> TrimSpace value = '''')) (corruptDecision [detail field ''REQUIRED'']))"

definition scanDecisionFromScanner :: "env \<Rightarrow> Decision \<Rightarrow> Decision res" where
  "scanDecisionFromScanner env row =
     and_then (require (ids_ParseStrict env (dc_id row)) (corruptDecision [detail ''id'' ''INVALID_ULID''])) (\<lambda>_.
     and_then (parseNullableDecisionID env ''issue_id'' (dc_issue row)) (\<lambda>issue.
     and_then (validateStoredDecisionText ''title'' (dc_title row) MaxTitleRunes True) (\<lambda>_.
     and_then (validateStoredDecisionText ''summary'' (dc_summary row) MaxDecisionSummaryRunes True) (\<lambda>_.
     and_then (validateStoredDecisionText ''content'' (dc_content row) MaxDecisionContentRunes False) (\<lambda>_.
     and_then (require (DecisionStatus_Valid (dc_status row)) (corruptDecision [detail ''status'' ''INVALID_VALUE''])) (\<lambda>_.
     and_then (parseNullableDecisionID env ''supersedes_id'' (dc_supersedes row)) (\<lambda>supersedes.
     and_then (parseNullableDecisionID env ''created_by_session_id'' (dc_session row)) (\<lambda>session.
     Inr (row\<lparr>dc_issue := issue, dc_supersedes := supersedes, dc_session := session\<rparr>)))))))))"

definition sameDecisionScope :: "string option \<Rightarrow> string option \<Rightarrow> bool" where
  "sameDecisionScope left right =
     (case (left, right) of
        (Some l, Some r) \<Rightarrow> l = r
      | _ \<Rightarrow> left = None \<and> right = None)"

definition decisionSupersessionError :: "string \<Rightarrow> Error" where
  "decisionSupersessionError code = NewError CodeInvalidArgument False [detail ''supersedes_id'' code]"

definition find_decision :: "string \<Rightarrow> db \<Rightarrow> Decision option" where
  "find_decision i d = find (\<lambda>x. dc_id x = i) (db_decisions d)"

definition load_predecessor :: "env \<Rightarrow> string option \<Rightarrow> string option \<Rightarrow> Decision option tx" where
  "load_predecessor env issueID supersedes =
     (case supersedes of
        None \<Rightarrow> tx_return None
      | Some i \<Rightarrow>
          tx_then (tx_read (find_decision i)) (\<lambda>row.
          case row of
            None \<Rightarrow> tx_fail (decisionSupersessionError ''NOT_FOUND'')
          | Some x \<Rightarrow>
              tx_then (tx_lift (scanDecisionFromScanner env x)) (\<lambda>loaded.
              tx_then (tx_require (sameDecisionScope issueID (dc_issue loaded)) (decisionSupersessionError ''SCOPE_MISMATCH'')) (\<lambda>_.
              tx_then (tx_require (dc_status loaded = DecisionStatusActive) (decisionSupersessionError ''NOT_ACTIVE'')) (\<lambda>_.
              tx_return (Some loaded))))))"

definition decision_scope :: "env \<Rightarrow> string option \<Rightarrow> string option tx" where
  "decision_scope env issue =
     (case issue of
        None \<Rightarrow> tx_return None
      | Some x \<Rightarrow>
          tx_then (tx_lift (ParseIssueIdentifier env x)) (\<lambda>identifier.
          tx_then (loadIssueForMutation identifier) (\<lambda>i.
          tx_then (tx_require (ArchivedAt i = None) issueArchived) (\<lambda>_. tx_return (Some (IID i))))))"

definition active_decision :: "string \<Rightarrow> Decision \<Rightarrow> bool" where
  "active_decision i x \<longleftrightarrow> dc_id x = i \<and> dc_status x = DecisionStatusActive"

definition supersede_decision :: "string \<Rightarrow> unit tx" where
  "supersede_decision i =
     tx_then (tx_read (\<lambda>d. affected (active_decision i) (db_decisions d))) (\<lambda>count.
     tx_then (exec (\<lambda>d. d\<lparr>db_decisions := update_where (active_decision i) (\<lambda>x. x\<lparr>dc_status := DecisionStatusSuperseded\<rparr>)
       (db_decisions d)\<rparr>)) (\<lambda>_.
     tx_require (count = 1) (decisionSupersessionError ''NOT_ACTIVE'')))"

definition recorded_decision :: "RecordDecisionCommand \<Rightarrow> RecordDecisionInput \<Rightarrow> string option \<Rightarrow> Decision" where
  "recorded_decision c input issueID =
     \<lparr>dc_id = yc_id c, dc_issue = issueID, dc_title = di_title input, dc_summary = di_summary input,
      dc_content = di_content input, dc_status = di_status input, dc_supersedes = di_supersedes input,
      dc_session = di_session input, dc_created = yc_now c\<rparr>"

definition record_decision :: "env \<Rightarrow> RecordDecisionCommand \<Rightarrow> RecordDecisionInput \<Rightarrow> (Decision \<times> string option) res tx" where
  "record_decision env c input =
     tx_then (decision_scope env (di_issue input)) (\<lambda>issueID.
     tx_then (load_predecessor env issueID (di_supersedes input)) (\<lambda>predecessor.
     tx_then (exec (\<lambda>d. d\<lparr>db_decisions := db_decisions d @ [recorded_decision c input issueID]\<rparr>)) (\<lambda>_.
     tx_then (case predecessor of None \<Rightarrow> tx_return () | Some x \<Rightarrow> supersede_decision (dc_id x)) (\<lambda>_.
     tx_then (append_event issueID ''decision_recorded'' (di_session input) None
       (PayloadDecision (yc_id c) (di_status input) (di_supersedes input)) (yc_now c) SourceIssue) (\<lambda>_.
     tx_then (tx_read (find_decision (yc_id c))) (\<lambda>row.
     tx_then (tx_lift (from_option noRows row)) (\<lambda>x.
     tx_then (tx_lift (scanDecisionFromScanner env x)) (\<lambda>decision.
     tx_return (Inr (decision, map_option dc_id predecessor))))))))))"

definition RecordDecision :: "env \<Rightarrow> RecordDecisionCommand \<Rightarrow> db \<Rightarrow> db \<times> (Decision \<times> string option) res" where
  "RecordDecision env c d =
     (if \<not> ids_ParseStrict env (yc_id c) then (d, Inl (NewError CodeIDGeneration False []))
      else (case RecordDecisionInput_Validate env (yc_input c) of
          Inl e \<Rightarrow> (d, Inl e)
        | Inr input \<Rightarrow> if IsZero (yc_now c) then (d, Inl invalidCommand) else Write (record_decision env c input) d))"

end
