(* ===== verification/IssueSteps.thy ===== *)
theory IssueSteps
  imports StoreInvariant Sessions Discussion
begin

text \<open>
  The issue, session, comment and decision operations carry a predicate that obeys the laws of
  \<open>system_invariant\<close>. What the guards of an update, an archival and a restoration establish is what
  \<open>issue_step\<close> asks of the row they then write; labels may be rewritten in between.
\<close>

section \<open>Identifiers\<close>

lemma digits_value_ge:
  assumes "ds \<noteq> []" and "\<forall>c \<in> set ds. is_digit c" and "hd ds \<noteq> CHR ''0''"
  shows "10 ^ (length ds - 1) \<le> digits_value ds"
  using assms
proof (induction ds rule: rev_induct)
  case (snoc c ds)
  have v: "digits_value (ds @ [c]) = digits_value ds * 10 + (byte c - 48)" by (simp add: digits_value_def)
  show ?case
  proof (cases "ds = []")
    case True
    then show ?thesis using Itoa_digits_value [OF snoc.prems] by simp
  next
    case False
    then have "10 ^ (length ds - 1) \<le> digits_value ds" using snoc by simp
    moreover have "(10 :: nat) ^ length ds = 10 * 10 ^ (length ds - 1)" using False by (cases ds) simp_all
    ultimately show ?thesis unfolding v by simp
  qed
qed simp

text \<open>The twenty digits a 26-character display id would have exceed an int64: a stored id is never read as one.\<close>

lemma parse_stored:
  assumes "ParseIssueIdentifier env v = Inr i" and "length v = 26"
  shows "id_kind i = IssueIdentifierInternalID \<and> id_value i = v"
proof (rule ccontr)
  assume not: "\<not> ?thesis"
  let ?ds = "drop 6 v"
  have ds: "?ds \<noteq> []" "\<forall>c \<in> set ?ds. is_digit c" "hd ?ds \<noteq> CHR ''0''" and small: "digits_value ?ds < 2 ^ 63"
    using assms not by (auto simp: ParseIssueIdentifier_def Let_def hd_conv_nth list_all_iff split: if_splits)
  have "length ?ds - 1 = 19" using assms(2) by simp
  then have "10 ^ 19 \<le> digits_value ?ds" using digits_value_ge [OF ds] by simp
  then show False using small by simp
qed

section \<open>What the guards establish\<close>

lemma find_issue_mem: "find_issue d i = Some x \<Longrightarrow> x \<in> set (db_issues d)"
  by (auto simp: find_issue_def split: IssueIdentifierKind.splits dest: find_Some_mem)

lemma validateParent_found:
  assumes "validateParent env (Some v) d = Inr (d', x)"
  shows "d' = d \<and> (\<exists>ident parent. ParseIssueIdentifier env v = Inr ident \<and> find_issue d ident = Some parent \<and>
    IType parent = TypeEpic \<and> ArchivedAt parent = None \<and> x = Some (IID parent))"
proof -
  obtain ident where i: "ParseIssueIdentifier env v = Inr ident" and
    run: "(case find_issue d ident of None \<Rightarrow> tx_fail invalidParentError
        | Some parent \<Rightarrow> if IType parent \<noteq> TypeEpic then tx_fail invalidParentError
            else if ArchivedAt parent \<noteq> None then tx_fail archivedParentError
            else tx_return (Some (IID parent))) d = Inr (d', x)"
    using assms by (auto simp: validateParent_def tx_simps)
  then obtain parent where "find_issue d ident = Some parent"
    by (cases "find_issue d ident") (auto simp: tx_simps)
  then show ?thesis using i run by (auto simp: tx_simps split: if_splits)
qed

lemma validateParent_ok:
  "tx_ok R (validateParent env p) (\<lambda>parent d. R d \<and> (\<forall>q. parent = Some q \<longrightarrow> live_epic d q))"
  by (cases p) (auto simp: tx_ok_def live_epic_def validateParent_def [of env None] tx_return_Inr
      dest!: validateParent_found dest: find_issue_mem)

lemma require_no_children_ok: "tx_ok R (require_no_children e f) (\<lambda>_ d. R d \<and> \<not> epicHasLiveChildren d e)"
  by (auto simp: tx_ok_def require_no_children_def tx_simps)

lemma load_ok: "tx_ok R (loadIssueForMutation i) (\<lambda>issue d. R d \<and> issue \<in> set (db_issues d))"
  unfolding tx_ok_def using loadIssue_mem by metis

lemma pure_validateParent [keeps_intro]: "pure_tx (validateParent env p)"
  unfolding validateParent_def by (intro keeps_intro)

lemma live_epic_issues: "db_issues d' = db_issues d \<Longrightarrow> live_epic d' q = live_epic d q"
  by (simp add: live_epic_def)

lemma children_issues: "db_issues d' = db_issues d \<Longrightarrow> epicHasLiveChildren d' q = epicHasLiveChildren d q"
  by (simp add: epicHasLiveChildren_def)

context system_invariant
begin

lemma require_no_attempt_ok:
  "tx_ok (\<lambda>d. P d \<and> Q (db_issues d)) (require_no_attempt iss now)
     (\<lambda>_ d. P d \<and> Q (db_issues d) \<and> \<not> has_active_attempt d iss)"
proof -
  have sweep: "tx_ok (\<lambda>d. P d \<and> Q (db_issues d)) (expireAttemptsForIssue iss now) (\<lambda>_ d. P d \<and> Q (db_issues d))"
    using keeps_conj [OF keeps_expire_issue issue_row_expire] by (simp add: tx_ok_keeps)
  show ?thesis
    unfolding require_no_attempt_def
    by (intro tx_ok_then [OF sweep] tx_ok_read_then) (auto simp: tx_ok_def tx_require_Inr)
qed

end

section \<open>Archiving and restoring\<close>

lemma issue_step_archive:
  assumes "IType i = TypeEpic \<Longrightarrow> \<not> epicHasLiveChildren d (IID i)" and "\<not> has_active_attempt d (IID i)"
  shows "issue_step d i (archive_row now i)"
  using assms closing_same [of "archive_row now i" i]
  by (auto simp: issue_step_def archive_row_def parent_step_def epic_step_def park_step_def)

lemma issue_step_restore:
  assumes "ArchivedAt i \<noteq> None" and "\<And>q. ParentID i = Some q \<Longrightarrow> live_epic d q"
  shows "issue_step d i (restore_row now i)"
  using assms closing_same [of "restore_row now i" i]
  by (auto simp: issue_step_def restore_row_def parent_step_def epic_step_def park_step_def parked_def)

lemma parent_stored:
  assumes "schema_ok d" and "i \<in> set (db_issues d)" and "ParentID i = Some q"
  shows "length q = 26 \<and> IType i \<noteq> TypeEpic"
proof -
  have "issue_row_ok i" "refers (map IID (db_issues d)) (ParentID i)" "\<forall>x \<in> set (db_issues d). issue_row_ok x"
    using assms(1,2) by (simp_all add: schema_ok_def issues_ok_def list_all_iff)
  then show ?thesis using assms(3) by (auto simp: refers_def issue_row_ok_def)
qed

lemma validateParent_stored:
  assumes "validateParent env (Some q) d = Inr (d', x)" and "length q = 26"
  shows "d' = d \<and> live_epic d q"
proof -
  obtain ident parent where i: "ParseIssueIdentifier env q = Inr ident" "find_issue d ident = Some parent"
      "IType parent = TypeEpic" "ArchivedAt parent = None" and d: "d' = d"
    using validateParent_found [OF assms(1)] by auto
  from parse_stored [OF i(1) assms(2)] i(2) have "IID parent = q"
    by (auto simp: find_issue_def dest: find_Some_mem)
  then show ?thesis using d i(3,4) find_issue_mem [OF i(2)] by (auto simp: live_epic_def)
qed

context system_invariant
begin

lemma edit_ok:
  assumes "\<And>d. P d \<Longrightarrow> R d \<Longrightarrow> issue_edit d p f"
  shows "tx_ok (\<lambda>d. P d \<and> R d) (update_issues p f) (\<lambda>_. P)"
  using assms edit_issue by (auto simp: tx_ok_def update_issues_Inr Let_def)

lemma archive_update_ok:
  "tx_ok (\<lambda>d. P d \<and> (current \<in> set (db_issues d) \<and> (IType current = TypeEpic \<longrightarrow> \<not> epicHasLiveChildren d (IID current))) \<and>
       \<not> has_active_attempt d (IID current))
     (update_issues (unarchived_at (IID current) v) (archive_row now)) (\<lambda>_. P)"
proof (rule edit_ok)
  fix d assume P: "P d" and R: "(current \<in> set (db_issues d) \<and> (IType current = TypeEpic \<longrightarrow> \<not> epicHasLiveChildren d (IID current))) \<and>
       \<not> has_active_attempt d (IID current)"
  then show "issue_edit d (unarchived_at (IID current) v) (archive_row now)"
    by (intro issue_edit_at [OF schema [OF P], of current] issue_step_archive) (auto simp: unarchived_at_def)
qed

lemma keeps_archive: "keeps P (archive_issue c)"
proof -
  let ?issues = "\<lambda>current is. current \<in> set is \<and>
    (IType current = TypeEpic \<longrightarrow> \<not> list_ex (\<lambda>i. ParentID i = Some (IID current) \<and> ArchivedAt i = None) is)"
  have children: "tx_ok (\<lambda>d. P d \<and> current \<in> set (db_issues d))
      (if IType current = TypeEpic then require_no_children (IID current) f else tx_return ()) (\<lambda>_ d. P d \<and> ?issues current (db_issues d))"
    for current f
    using tx_ok_weaken [OF require_no_children_ok [of "\<lambda>d. P d \<and> current \<in> set (db_issues d)" "IID current" f]]
    by (auto simp: epicHasLiveChildren_def intro: tx_ok_return)
  have update: "tx_ok (\<lambda>d. P d \<and> ?issues current (db_issues d) \<and> \<not> has_active_attempt d (IID current))
     (update_issues (unarchived_at (IID current) v) (archive_row now)) (\<lambda>_. P)"
    for current v now
    using archive_update_ok by (simp add: epicHasLiveChildren_def)
  show ?thesis
    unfolding archive_issue_def tx_ok_keeps
    by (intro tx_ok_then [OF load_ok] tx_ok_require_then tx_ok_then [OF children] tx_ok_then [OF require_no_attempt_ok]
        tx_ok_then [OF update] tx_ok_keeps [THEN iffD1] keeps_intro)
qed

lemma keeps_unarchive: "keeps P (unarchive_issue env c)"
proof -
  let ?issues = "\<lambda>current is. current \<in> set is \<and>
    (\<forall>q. ParentID current = Some q \<longrightarrow> (\<exists>e \<in> set is. IID e = q \<and> IType e = TypeEpic \<and> ArchivedAt e = None))"
  have parent: "tx_ok (\<lambda>d. P d \<and> current \<in> set (db_issues d))
      (if IType current \<noteq> TypeEpic \<and> ParentID current \<noteq> None then validateParent env (ParentID current) else tx_return None)
      (\<lambda>_ d. P d \<and> ?issues current (db_issues d))" for current
    using parent_stored [OF schema, of _ current] validateParent_stored [of env]
    by (auto simp: tx_ok_def tx_return_Inr live_epic_def) blast+
  have update: "tx_ok (\<lambda>d. P d \<and> ?issues current (db_issues d) \<and> \<not> has_active_attempt d (IID current))
     (update_issues (archived_version (IID current) v) (restore_row now)) (\<lambda>_. P)" for current v now
  proof (rule edit_ok)
    fix d assume P: "P d" and R: "?issues current (db_issues d) \<and> \<not> has_active_attempt d (IID current)"
    then show "issue_edit d (archived_version (IID current) v) (restore_row now)"
      by (intro issue_edit_at [OF schema [OF P], of current] issue_step_restore) (auto simp: archived_version_def live_epic_def)
  qed
  show ?thesis
    unfolding unarchive_issue_def tx_ok_keeps
    by (intro tx_ok_then [OF load_ok] tx_ok_require_then tx_ok_then [OF parent] tx_ok_then [OF require_no_attempt_ok]
        tx_ok_then [OF update] tx_ok_keeps [THEN iffD1] keeps_intro)
qed

end

section \<open>Creating\<close>

lemma new_created:
  "(\<And>q. parent = Some q \<Longrightarrow> live_epic d q) \<Longrightarrow> db_project d = Some p \<Longrightarrow>
     new_issue_ok d p (created_issue i input (pj_next p) parent now)"
  by (simp add: new_issue_ok_def created_issue_def)

text \<open>A number has been taken, but the issue it is for is not there yet.\<close>

definition allocated :: "(db \<Rightarrow> bool) \<Rightarrow> time \<Rightarrow> int \<Rightarrow> db \<Rightarrow> bool" where
  "allocated P now n d \<longleftrightarrow> (\<exists>d0 p. P d0 \<and> db_project d0 = Some p \<and> n = pj_next p \<and> d = numbered_db p now d0)"

lemma allocate_ok: "tx_ok P (allocate_number now) (allocated P now)"
proof -
  have "allocated P now n d'" if P: "P d" and run: "allocate_number now d = Inr (d', n)" for d d' n
  proof -
    obtain project where p: "db_project d = Some project"
      using run by (cases "db_project d") (auto simp: allocate_number_def tx_simps)
    then have "d' = numbered_db project now d" "n = pj_next project"
      using run by (auto simp: allocate_number_def tx_simps numbered_db_def)
    then show ?thesis using P p by (auto simp: allocated_def)
  qed
  then show ?thesis by (simp add: tx_ok_def)
qed

lemma live_epic_numbered [simp]: "live_epic (numbered_db p now d) q = live_epic d q"
  by (simp add: live_epic_def numbered_db_def)

lemma issues_numbered [simp]: "db_issues (numbered_db p now d) = db_issues d"
  by (simp add: numbered_db_def)

context system_invariant
begin

lemma keeps_insert_label [keeps_intro]: "keeps P (insert_label i nm now)"
  unfolding insert_label_def by (intro keeps_intro keeps_other) (simp add: same_core_def)

lemma keeps_resolve_label [keeps_intro]: "keeps P (resolve_label b ids now x)"
  unfolding resolve_label_def by (intro keeps_intro)

lemma keeps_resolve_labels [keeps_intro]: "keeps P (resolveIssueLabels env names b ids now)"
  unfolding resolveIssueLabels_def by (intro keeps_intro)

lemma keeps_replace_labels [keeps_intro]: "keeps P (replaceIssueLabels i ls)"
  unfolding replaceIssueLabels_def
proof (rule keeps_exec)
  fix d
  let ?f = "\<lambda>x. x\<lparr>Labels := joined_names d (map lb_id ls)\<rparr>"
  assume P: "P d" and ok: "schema_ok (d\<lparr>db_issues := update_where (\<lambda>x. IID x = i) ?f (db_issues d)\<rparr>)"
  have "issue_edit d (\<lambda>x. IID x = i) ?f"
    unfolding issue_edit_def by (auto intro: issue_step_same)
  then show "P (d\<lparr>db_issues := update_where (\<lambda>x. IID x = i) ?f (db_issues d)\<rparr>)" using edit_issue [OF P _ refl ok] by simp
qed

lemma insert_issue_ok:
  "tx_ok (\<lambda>d. allocated P now n d \<and> (\<forall>q. parent = Some q \<longrightarrow> live_epic d q))
     (exec (\<lambda>d. d\<lparr>db_issues := db_issues d @ [created_issue i input n parent at]\<rparr>)) (\<lambda>_. P)"
  by (auto simp: tx_ok_def exec_Inr allocated_def intro!: new_issue [OF _ new_created refl])

lemma pure_create_gate: "pure_tx (create_gate input)"
  unfolding create_gate_def by (intro keeps_intro pure_live_gate)

lemma keeps_create: "keeps P (create_issue env c input)"
  unfolding create_issue_def tx_ok_keeps Let_def
  by (intro tx_ok_pure_then [OF pure_create_gate] tx_ok_then [OF allocate_ok] tx_ok_then [OF validateParent_ok]
      tx_ok_then [OF insert_issue_ok] tx_ok_keeps [THEN iffD1] keeps_intro)

end

section \<open>Updating\<close>

text \<open>What \<open>ApplyIssuePatch\<close> leaves alone, and what the statement then makes of the row.\<close>

lemma patch_status_same:
  assumes "patch_status current p r = Inr (result, changed)"
  shows "result = r\<lparr>IStatus := IStatus result, BlockedReason := BlockedReason result\<rparr> \<and>
    (case pt_status p of None \<Rightarrow> IStatus result = IStatus r | Some s \<Rightarrow> IStatus result = s)"
proof (cases "pt_status p")
  case None
  then show ?thesis using assms by (cases "pt_blocked p") (auto simp: patch_status_def split: if_splits)
next
  case (Some s)
  show ?thesis
  proof (cases "s = StatusBlocked")
    case True
    then obtain reason where "pt_blocked p = Some (Some reason)"
      using assms Some by (cases "pt_blocked p"; cases "the (pt_blocked p)") (auto simp: patch_status_def)
    then show ?thesis using assms Some True by (auto simp: patch_status_def result_simps)
  next
    case False
    then show ?thesis using assms Some by (auto simp: patch_status_def result_simps simp del: if_split split: if_split_asm)
  qed
qed

lemma applied_fields:
  assumes "ApplyIssuePatch current p = Inr (applied, fs)"
  shows "ClosedAt applied = ClosedAt current \<and> (pt_status p = None \<longrightarrow> IStatus applied = IStatus current) \<and>
    (pt_parent p = None \<longrightarrow> ParentID applied = ParentID current)"
proof -
  obtain changed where "patch_status current p (patch_fields p current) = Inr (applied, changed)"
    using assms by (auto simp: ApplyIssuePatch_def result_simps)
  note kept = patch_status_same [OF this]
  have "ClosedAt applied = ClosedAt (patch_fields p current)" "ParentID applied = ParentID (patch_fields p current)"
    by (subst conjunct1 [OF kept], simp)+
  moreover have "pt_status p = None \<longrightarrow> IStatus applied = IStatus (patch_fields p current)"
    using conjunct2 [OF kept] by (cases "pt_status p") simp_all
  ultimately show ?thesis by (simp add: patch_fields_def patched_def)
qed

definition edited :: "IssuePatch \<Rightarrow> Issue \<Rightarrow> Issue \<Rightarrow> string option \<Rightarrow> time \<Rightarrow> Issue" where
  "edited p current applied parent now =
     applied\<lparr>ParentID := parent, ClosedAt := updated_closed_at p current applied now\<rparr>"

text \<open>The row an update found is still there, up to its labels, and may become what the update writes.\<close>

definition update_ready :: "Issue \<Rightarrow> Issue \<Rightarrow> db \<Rightarrow> bool" where
  "update_ready current n d \<longleftrightarrow>
     (\<exists>i \<in> set (db_issues d). IID i = IID current \<and> (\<forall>j. IType j = IType n \<and> IStatus j = IStatus n \<and>
        ParentID j = ParentID n \<and> ClosedAt j = ClosedAt n \<longrightarrow> issue_step d i (assign_issue j i)))"

definition guarded :: "IssuePatch \<Rightarrow> Issue \<Rightarrow> Issue \<Rightarrow> db \<Rightarrow> bool" where
  "guarded p current applied d \<longleftrightarrow> current \<in> set (db_issues d) \<and>
     (pt_status p \<noteq> None \<and> IStatus applied = StatusCancelled \<and> IStatus current \<noteq> StatusCancelled \<longrightarrow>
        \<not> has_active_attempt d (IID current)) \<and>
     (IType current = TypeEpic \<and> IType applied \<noteq> TypeEpic \<longrightarrow> \<not> epicHasLiveChildren d (IID current))"

lemma guarded_ready:
  assumes applied: "ApplyIssuePatch current p = Inr (applied, fs)" and live: "ArchivedAt current = None"
    and g: "guarded p current applied d"
    and parent: "parent = ParentID current \<or> (\<forall>q. parent = Some q \<longrightarrow> live_epic d q)"
  shows "update_ready current (edited p current applied parent now) d"
  unfolding update_ready_def
proof (intro bexI conjI allI impI)
  show "current \<in> set (db_issues d)" using g by (simp add: guarded_def)
  fix j :: Issue
  assume j: "IType j = IType (edited p current applied parent now) \<and> IStatus j = IStatus (edited p current applied parent now) \<and>
    ParentID j = ParentID (edited p current applied parent now) \<and> ClosedAt j = ClosedAt (edited p current applied parent now)"
  let ?j = "assign_issue j current"
  have "ClosedAt ?j = NextClosedAt (IStatus current) (IStatus ?j) now (ClosedAt current)"
    using j applied_fields [OF applied]
    by (auto simp: edited_def assign_issue_def updated_closed_at_def NextClosedAt_def)
  then have "closing_step current ?j" by (auto simp: closing_step_def)
  moreover have "parent_step d current ?j"
    using parent live j by (auto simp: parent_step_def assign_issue_def edited_def)
  moreover have "epic_step d current ?j" using g live j by (auto simp: epic_step_def assign_issue_def edited_def guarded_def)
  moreover have "park_step d current ?j"
    using g live j applied_fields [OF applied] by (auto simp: park_step_def parked_def assign_issue_def edited_def guarded_def)
  ultimately show "issue_step d current ?j" by (simp add: issue_step_def assign_issue_def)
qed simp

text \<open>Rewriting labels changes nothing of this.\<close>

lemma relabel_live:
  "live_epic (d\<lparr>db_issues := update_where p (\<lambda>x. x\<lparr>Labels := ls\<rparr>) (db_issues d)\<rparr>) q = live_epic d q"
  by (auto simp: live_epic_def update_where_def simp del: if_image_distrib split: if_splits)

lemma relabel_children:
  "epicHasLiveChildren (d\<lparr>db_issues := update_where p (\<lambda>x. x\<lparr>Labels := ls\<rparr>) (db_issues d)\<rparr>) q = epicHasLiveChildren d q"
  by (auto simp: epicHasLiveChildren_def update_where_def list_ex_iff simp del: if_image_distrib split: if_splits)

lemma relabel_attempts: "has_active_attempt (d\<lparr>db_issues := is\<rparr>) = has_active_attempt d"
  by (simp add: fun_eq_iff has_active_attempt_def)

lemma relabel_step:
  assumes "d' = d\<lparr>db_issues := update_where p (\<lambda>x. x\<lparr>Labels := ls\<rparr>) (db_issues d)\<rparr>"
  shows "issue_step d' (i\<lparr>Labels := ms\<rparr>) (assign_issue j (i\<lparr>Labels := ms\<rparr>)) = issue_step d i (assign_issue j i)"
  unfolding assms
  by (simp add: issue_step_def closing_step_def parent_step_def epic_step_def park_step_def parked_def relabel_live
      relabel_children relabel_attempts assign_issue_def)

lemma relabel_step_same:
  assumes "d' = d\<lparr>db_issues := update_where p (\<lambda>x. x\<lparr>Labels := ls\<rparr>) (db_issues d)\<rparr>"
  shows "issue_step d' i (assign_issue j i) = issue_step d i (assign_issue j i)"
  using relabel_step [OF assms, where i = i and ms = "Labels i"] by simp

lemma ready_relabel: "keeps (update_ready current n) (replaceIssueLabels i ls)"
  unfolding replaceIssueLabels_def
proof (rule keeps_exec)
  fix d
  let ?d = "d\<lparr>db_issues := update_where (\<lambda>x. IID x = i) (\<lambda>x. x\<lparr>Labels := joined_names d (map lb_id ls)\<rparr>) (db_issues d)\<rparr>"
  assume "update_ready current n d"
  then obtain x where x: "x \<in> set (db_issues d)" "IID x = IID current"
      "\<And>j. IType j = IType n \<and> IStatus j = IStatus n \<and> ParentID j = ParentID n \<and> ClosedAt j = ClosedAt n \<Longrightarrow>
        issue_step d x (assign_issue j x)"
    by (auto simp: update_ready_def)
  let ?x = "if IID x = i then x\<lparr>Labels := joined_names d (map lb_id ls)\<rparr> else x"
  have "?x \<in> set (db_issues ?d)" using x(1) by (auto simp: update_where_def)
  moreover have "issue_step ?d ?x (assign_issue j ?x) = issue_step d x (assign_issue j x)" for j
    using relabel_step [OF refl] relabel_step_same [OF refl] by simp
  ultimately show "update_ready current n ?d" unfolding update_ready_def using x(2,3) by (intro bexI [of _ ?x]) auto
qed

lemma ready_labels: "keeps (update_ready current n) (exec (\<lambda>d. d\<lparr>db_labels := f d\<rparr>))"
  by (rule keeps_exec) (simp add: update_ready_def issue_step_def parent_step_def epic_step_def park_step_def live_epic_def
      epicHasLiveChildren_def has_active_attempt_def)

lemma ready_update_labels: "keeps (update_ready current n) (update_labels env c i applied)"
  unfolding update_labels_def resolveIssueLabels_def resolve_label_def insert_label_def
  by (intro keeps_intro ready_relabel ready_labels)

context system_invariant
begin

lemma guards_ok:
  "tx_ok (\<lambda>d. P d \<and> current \<in> set (db_issues d)) (update_guards p current applied now)
     (\<lambda>_ d. P d \<and> guarded p current applied d)"
proof -
  let ?c = "pt_status p \<noteq> None \<and> IStatus applied = StatusCancelled \<and> IStatus current \<noteq> StatusCancelled"
  let ?R = "\<lambda>d. (P d \<and> current \<in> set (db_issues d)) \<and> (?c \<longrightarrow> \<not> has_active_attempt d (IID current))"
  have cancel: "tx_ok (\<lambda>d. P d \<and> current \<in> set (db_issues d))
      (if ?c then require_no_attempt (IID current) now else tx_return ()) (\<lambda>_. ?R)"
    by (intro tx_ok_if tx_ok_weaken [OF require_no_attempt_ok [where Q = "\<lambda>is. current \<in> set is"]] tx_ok_return) auto
  have children: "tx_ok ?R (if IType current = TypeEpic \<and> IType applied \<noteq> TypeEpic then require_no_children (IID current) ''type''
       else tx_return ()) (\<lambda>_ d. P d \<and> guarded p current applied d)"
    by (intro tx_ok_if tx_ok_weaken [OF require_no_children_ok [of ?R]] tx_ok_return) (auto simp: guarded_def)
  show ?thesis unfolding update_guards_def by (intro tx_ok_then [OF cancel] children)
qed

lemma update_parent_ok:
  assumes "ApplyIssuePatch current p = Inr (applied, fs)"
  shows "tx_ok R (update_parent env p current applied)
    (\<lambda>parent d. R d \<and> (parent = ParentID current \<or> (\<forall>q. parent = Some q \<longrightarrow> live_epic d q)))"
  unfolding update_parent_def
proof (intro tx_ok_if tx_ok_then [OF validateParent_ok] tx_ok_fail tx_ok_return)
  fix d assume "\<not> (pt_parent p \<noteq> None \<and> ParentID applied \<noteq> None)" "R d"
  then show "R d \<and> (ParentID applied = ParentID current \<or> (\<forall>q. ParentID applied = Some q \<longrightarrow> live_epic d q))"
    using applied_fields [OF assms] by auto
qed auto

lemma keeps_update_labels: "keeps P (update_labels env c i applied)"
  unfolding update_labels_def by (intro keeps_intro)

lemma ready_edit:
  assumes P: "P d" and ready: "update_ready current n d"
    and j: "IType j = IType n" "IStatus j = IStatus n" "ParentID j = ParentID n" "ClosedAt j = ClosedAt n"
  shows "issue_edit d (unarchived_at (IID current) v) (assign_issue j)"
proof -
  obtain i where i: "i \<in> set (db_issues d)" "IID i = IID current" "issue_step d i (assign_issue j i)"
    using ready j unfolding update_ready_def by blast
  show ?thesis by (rule issue_edit_at [OF schema [OF P] i(1)]) (simp_all add: unarchived_at_def i(2,3))
qed

lemma keeps_update: "keeps P (update_issue env c)"
proof -
  let ?p = "uc_changes c"
  have rest: "tx_ok (\<lambda>d. (P d \<and> guarded ?p current applied d) \<and>
        (parent = ParentID current \<or> (\<forall>q. parent = Some q \<longrightarrow> live_epic d q)))
      (tx_then (update_labels env c (IID current) applied) (\<lambda>labels.
       tx_then (update_issues (unarchived_at (IID current) v) (assign_issue (applied\<lparr>ParentID := parent, Labels := labels,
         UpdatedAt := uc_now c, IVersion := w, ClosedAt := updated_closed_at ?p current applied (uc_now c)\<rparr>))) (body labels)))
      (\<lambda>_. P)"
    if applied: "ApplyIssuePatch current ?p = Inr (applied, fs)" and live: "ArchivedAt current = None"
      and body: "\<And>labels n. keeps P (body labels n)"
    for current applied fs parent v w and body :: "string list \<Rightarrow> nat \<Rightarrow> 'a tx"
  proof -
    let ?n = "edited ?p current applied parent (uc_now c)"
    have relabel: "tx_ok (\<lambda>d. P d \<and> update_ready current ?n d) (update_labels env c (IID current) applied)
        (\<lambda>_ d. P d \<and> update_ready current ?n d)"
      using keeps_conj [OF keeps_update_labels ready_update_labels] by (simp add: tx_ok_keeps)
    have written: "tx_ok (\<lambda>d. P d \<and> update_ready current ?n d) (update_issues (unarchived_at (IID current) v)
       (assign_issue (applied\<lparr>ParentID := parent, Labels := ls, UpdatedAt := uc_now c, IVersion := w,
          ClosedAt := updated_closed_at ?p current applied (uc_now c)\<rparr>))) (\<lambda>_. P)" for ls
      by (rule edit_ok, rule ready_edit [where n = ?n]) (simp_all, simp_all add: edited_def)
    show ?thesis
      by (rule tx_ok_weaken [OF tx_ok_then [OF relabel tx_ok_then [OF written body [unfolded tx_ok_keeps]]]])
        (auto intro: guarded_ready [OF applied live])
  qed
  show ?thesis
    unfolding update_issue_def tx_ok_keeps Let_def
    by (intro tx_ok_then [OF load_ok] tx_ok_require_then tx_ok_lift_then tx_ok_prod tx_ok_then [OF guards_ok]
        tx_ok_then [OF update_parent_ok] rest keeps_intro) auto
qed

section \<open>The repository operations\<close>

lemma CreateIssue_keeps: "P d \<Longrightarrow> P (fst (CreateIssue env c d))"
  by (auto simp: CreateIssue_def split: sum.splits intro!: write_keeps keeps_with_replay keeps_create)

lemma UpdateIssue_keeps: "P d \<Longrightarrow> P (fst (UpdateIssue env c d))"
  unfolding UpdateIssue_def by (intro write_keeps keeps_with_replay keeps_update)

lemma ArchiveIssue_keeps: "P d \<Longrightarrow> P (fst (ArchiveIssue c d))"
  unfolding ArchiveIssue_def by (intro write_keeps keeps_with_replay keeps_archive)

lemma UnarchiveIssue_keeps: "P d \<Longrightarrow> P (fst (UnarchiveIssue env c d))"
  unfolding UnarchiveIssue_def by (intro write_keeps keeps_with_replay keeps_unarchive)

lemma keeps_sessions [keeps_intro]:
  "keeps P (update_sessions i f)" "keeps P (touch_session e now s)" "keeps P (end_session now s)"
  "keeps P (loadAgentSession env i)" "keeps P (loadAgentSessionByHandle env h)"
proof -
  show update: "keeps P (update_sessions i f)" for i f
    unfolding update_sessions_def by (rule keeps_other) (simp add: same_core_def)
  show "keeps P (touch_session e now s)" unfolding touch_session_def by (intro keeps_intro update)
  show "keeps P (end_session now s)" unfolding end_session_def Let_def by (intro keeps_intro update)
  show "keeps P (loadAgentSession env i)" unfolding loadAgentSession_def by (intro keeps_intro)
  show "keeps P (loadAgentSessionByHandle env h)" unfolding loadAgentSessionByHandle_def by (intro keeps_intro)
qed

lemma session_keeps:
  assumes "P d"
  shows "P (fst (CreateAgentSession env s h d))" "P (fst (ResolveAndTouchAgentSessionHandle env handle now d))"
    "P (fst (EndAgentSessionByHandle env handle now d))" "P (fst (TouchAgentSession env i now d))"
    "P (fst (EndAgentSession env i now d))"
proof -
  have insert: "keeps P (exec (\<lambda>d. d\<lparr>db_sessions := db_sessions d @ [x]\<rparr>))" for x
    by (rule keeps_other) (simp add: same_core_def)
  show "P (fst (CreateAgentSession env s h d))"
    using assms by (auto simp: CreateAgentSession_def split: sum.splits intro!: write_keeps keeps_intro insert)
  show "P (fst (ResolveAndTouchAgentSessionHandle env handle now d))" "P (fst (EndAgentSessionByHandle env handle now d))"
    "P (fst (TouchAgentSession env i now d))" "P (fst (EndAgentSession env i now d))"
    using assms by (auto simp: ResolveAndTouchAgentSessionHandle_def EndAgentSessionByHandle_def TouchAgentSession_def
        EndAgentSession_def split: sum.splits intro!: write_keeps keeps_intro)
qed

lemma AddComment_keeps: "P d \<Longrightarrow> P (fst (AddComment env c d))"
proof -
  have insert: "keeps P (exec (\<lambda>d. d\<lparr>db_comments := db_comments d @ [x]\<rparr>))" for x
    by (rule keeps_other) (simp add: same_core_def)
  then show "P d \<Longrightarrow> P (fst (AddComment env c d))"
    by (auto simp: AddComment_def add_comment_def loadComment_def split: sum.splits
        intro!: write_keeps keeps_with_replay keeps_intro insert)
qed

lemma RecordDecision_keeps: "P d \<Longrightarrow> P (fst (RecordDecision env c d))"
proof -
  have decisions: "keeps P (exec (\<lambda>d. d\<lparr>db_decisions := f (db_decisions d)\<rparr>))" for f
    by (rule keeps_other) (simp add: same_core_def)
  then show "P d \<Longrightarrow> P (fst (RecordDecision env c d))"
    by (auto simp: RecordDecision_def record_decision_def decision_scope_def load_predecessor_def supersede_decision_def
        split: sum.splits intro!: write_keeps keeps_intro decisions)
qed

end

end
