(* ===== verification/Planning.thy ===== *)
theory Planning
  imports Issues Discussion Relations
begin

text \<open>
  Issue plans: \<^verbatim>\<open>internal/domain/issue_plan.go\<close>, the repository \<^verbatim>\<open>internal/adapters/sqlite/planning.go\<close>, its
  commands (\<^verbatim>\<open>internal/ports/planning.go\<close>) and the service \<^verbatim>\<open>internal/application/planning_service.go\<close>. A
  plan is a batch of new issues, relations and decisions that refer to each other by local names.
  Where the code ranges over a map the order of the errors it collects is arbitrary; they are sorted
  before anyone sees them, and two details that compare equal are equal here.
\<close>

section \<open>Plans\<close>

definition MaxRelationsPerOperation :: int where "MaxRelationsPerOperation = 100"
definition MaxBatchIssues :: int where "MaxBatchIssues = 50"
definition MaxBatchLabelAssignments :: int where "MaxBatchLabelAssignments = 50"
definition MaxBatchDecisions :: int where "MaxBatchDecisions = 20"
definition MaxLocalRefRunes :: int where "MaxLocalRefRunes = 64"

record PlannedIssue =
  pli_ref :: string
  pli_type :: Type
  pli_title :: string
  pli_description :: "string option"
  pli_acceptance :: "string option"
  pli_status :: Status
  pli_priority :: Priority
  pli_parent :: "string option"
  pli_blocked :: "string option"
  pli_labels :: "string list"
  pli_create_missing :: bool

record PlannedRelation =
  plr_source :: string
  plr_target :: string
  plr_type :: RelationType

record PlannedDecision =
  pld_issue :: "string option"
  pld_title :: string
  pld_summary :: string
  pld_content :: string
  pld_status :: DecisionStatus

record IssuePlan =
  pl_issues :: "PlannedIssue list"
  pl_relations :: "PlannedRelation list"
  pl_decisions :: "PlannedDecision list"

record PlanSummary =
  psm_issues :: nat
  psm_relations :: nat
  psm_decisions :: nat
  psm_labels :: nat

record PlanValidation =
  pv_valid :: bool
  pv_errors :: "Detail list"
  pv_summary :: PlanSummary
  pv_plan :: IssuePlan

section \<open>Details\<close>

text \<open>The decimal printer of the file, which prepends one digit after the other.\<close>

fun itoa_loop :: "nat \<Rightarrow> string \<Rightarrow> string" where
  "itoa_loop value result =
     (if value > 0 then itoa_loop (value div 10) (char_of (48 + value mod 10) # result) else result)"

declare itoa_loop.simps [simp del]

definition itoa :: "nat \<Rightarrow> string" where
  "itoa value = (if value = 0 then ''0'' else itoa_loop value '''')"

definition planDetail :: "nat option \<Rightarrow> string \<Rightarrow> string \<Rightarrow> Detail" where
  "planDetail index field code = \<lparr>EntityIndex = map_option int index, Field = field, DCode = code\<rparr>"

definition detailForPlanError :: "nat \<Rightarrow> string \<Rightarrow> Error \<Rightarrow> Detail" where
  "detailForPlanError index path e =
     (case Details e of
        d # _ \<Rightarrow>
          d\<lparr>EntityIndex := Some (int index),
            Field := if path = '''' then Field d else if Field d \<noteq> '''' then path @ ''.'' @ Field d else path\<rparr>
      | [] \<Rightarrow> planDetail (Some index) path ''INVALID'')"

text \<open>The path of the \<open>i\<close>-th member of a list of the plan.\<close>

definition member_path :: "string \<Rightarrow> nat \<Rightarrow> string" where
  "member_path collection i = collection @ ''['' @ itoa i @ '']''"

section \<open>Normalization\<close>

definition too_many :: "'a list \<Rightarrow> int \<Rightarrow> string \<Rightarrow> Detail list" where
  "too_many xs maximum field = (if int (length xs) > maximum then [planDetail None field ''MAX_ITEMS''] else [])"

text \<open>The local name of an issue: what is wrong with it, and the names taken after it.\<close>

definition normalize_ref :: "env \<Rightarrow> nat \<Rightarrow> string \<Rightarrow> string list \<Rightarrow> Detail list \<times> string list" where
  "normalize_ref env i ref refs =
     (if ref = '''' then ([], refs)
      else (case ValidateText ''ref'' ref MaxLocalRefRunes of
          Inl e \<Rightarrow> ([detailForPlanError i (member_path ''issues'' i) e], refs)
        | Inr _ \<Rightarrow>
            let failed = (\<lambda>code. ([planDetail (Some i) (member_path ''issues'' i @ ''.ref'') code], refs)) in
            if TrimSpace ref = '''' then failed ''REQUIRED''
            else if \<not> isl (ParseIssueIdentifier env ref) then failed ''RESERVED_REF''
            else if ref \<in> set refs then failed ''DUPLICATE_REF''
            else ([], ref # refs)))"

definition planned_input :: "PlannedIssue \<Rightarrow> CreateIssueInput" where
  "planned_input p =
     \<lparr>ci_type = pli_type p, ci_title = pli_title p, ci_description = pli_description p, ci_acceptance = pli_acceptance p,
      ci_status = pli_status p, ci_priority = pli_priority p, ci_parent = None, ci_blocked = pli_blocked p,
      ci_labels = pli_labels p, ci_create_missing = pli_create_missing p, ci_key = None\<rparr>"

definition normalize_planned :: "env \<Rightarrow> nat \<Rightarrow> PlannedIssue \<Rightarrow> PlannedIssue \<times> Detail list" where
  "normalize_planned env i p =
     (case CreateIssueInput_Validate env (planned_input p) of
        Inl e \<Rightarrow> (p, [detailForPlanError i (member_path ''issues'' i) e])
      | Inr n \<Rightarrow>
          (p\<lparr>pli_type := ci_type n, pli_title := ci_title n, pli_description := ci_description n,
             pli_acceptance := ci_acceptance n, pli_status := ci_status n, pli_priority := ci_priority n,
             pli_blocked := ci_blocked n, pli_labels := ci_labels n\<rparr>,
           case pli_parent p of
             None \<Rightarrow> []
           | Some parent \<Rightarrow>
               (case ValidateText ''parent_ref'' parent MaxLocalRefRunes of
                  Inl e \<Rightarrow> [detailForPlanError i (member_path ''issues'' i) e]
                | Inr _ \<Rightarrow> [])))"

fun normalize_issues :: "env \<Rightarrow> nat \<Rightarrow> string list \<Rightarrow> PlannedIssue list \<Rightarrow> PlannedIssue list \<times> Detail list" where
  "normalize_issues env i refs [] = ([], [])"
| "normalize_issues env i refs (p # ps) =
     (let (ref_errors, refs') = normalize_ref env i (pli_ref p) refs;
          (p', errors) = normalize_planned env i p;
          (ps', rest) = normalize_issues env (Suc i) refs' ps in
      (p' # ps', ref_errors @ errors @ rest))"

definition check_endpoint :: "nat \<Rightarrow> string \<Rightarrow> string \<Rightarrow> Detail list" where
  "check_endpoint i field value =
     (case ValidateText field value MaxLocalRefRunes of
        Inl e \<Rightarrow> [detailForPlanError i (member_path ''relations'' i) e]
      | Inr _ \<Rightarrow>
          if TrimSpace value = '''' then [planDetail (Some i) (member_path ''relations'' i @ ''.'' @ field) ''REQUIRED''] else [])"

definition check_relation :: "nat \<times> PlannedRelation \<Rightarrow> Detail list" where
  "check_relation = (\<lambda>(i, r).
     check_endpoint i ''source_ref'' (plr_source r) @ check_endpoint i ''target_ref'' (plr_target r) @
     (if RelationType_Valid (plr_type r) then []
      else [planDetail (Some i) (member_path ''relations'' i @ ''.type'') ''INVALID_ENUM'']) @
     (if plr_source r = plr_target r \<and> plr_source r \<noteq> ''''
      then [planDetail (Some i) (member_path ''relations'' i @ ''.target_ref'') ''SELF_RELATION''] else []))"

definition check_decision_text :: "nat \<Rightarrow> string \<Rightarrow> string \<Rightarrow> int \<Rightarrow> Detail list" where
  "check_decision_text i field value maximum =
     (case ValidateText field value maximum of
        Inl e \<Rightarrow> [detailForPlanError i (member_path ''decisions'' i) e]
      | Inr _ \<Rightarrow>
          if field \<noteq> ''content'' \<and> TrimSpace value = ''''
          then [planDetail (Some i) (member_path ''decisions'' i @ ''.'' @ field) ''REQUIRED''] else [])"

definition normalize_decision :: "nat \<times> PlannedDecision \<Rightarrow> PlannedDecision \<times> Detail list" where
  "normalize_decision = (\<lambda>(i, p).
     let status = (if pld_status p = DecisionStatus_other '''' then DecisionStatusActive else pld_status p) in
     (p\<lparr>pld_status := status\<rparr>,
      check_decision_text i ''title'' (pld_title p) MaxTitleRunes @
      check_decision_text i ''summary'' (pld_summary p) MaxDecisionSummaryRunes @
      check_decision_text i ''content'' (pld_content p) MaxDecisionContentRunes @
      (if DecisionStatus_Valid status then []
       else [planDetail (Some i) (member_path ''decisions'' i @ ''.status'') ''INVALID_ENUM'']) @
      (case pld_issue p of
         None \<Rightarrow> []
       | Some ref \<Rightarrow>
           (case ValidateText ''issue_ref'' ref MaxLocalRefRunes of
              Inl e \<Rightarrow> [detailForPlanError i (member_path ''decisions'' i) e]
            | Inr _ \<Rightarrow> []))))"

definition label_assignments :: "IssuePlan \<Rightarrow> nat" where
  "label_assignments plan = sum_list (map (length \<circ> pli_labels) (pl_issues plan))"

definition NormalizeIssuePlan :: "env \<Rightarrow> IssuePlan \<Rightarrow> PlanValidation" where
  "NormalizeIssuePlan env plan =
     (let (issues, issue_errors) = normalize_issues env 0 [] (pl_issues plan);
          decisions = map normalize_decision (enumerate 0 (pl_decisions plan));
          errors = SortDetails (
            too_many (pl_issues plan) MaxBatchIssues ''issues'' @
            too_many (pl_relations plan) MaxRelationsPerOperation ''relations'' @
            too_many (pl_decisions plan) MaxBatchDecisions ''decisions'' @
            issue_errors @
            (if int (label_assignments plan) > MaxBatchLabelAssignments then [planDetail None ''issues.labels'' ''MAX_ITEMS''] else []) @
            concat (map check_relation (enumerate 0 (pl_relations plan))) @
            concat (map snd decisions)) in
      \<lparr>pv_valid = (errors = []), pv_errors = errors,
       pv_summary = \<lparr>psm_issues = length (pl_issues plan), psm_relations = length (pl_relations plan),
         psm_decisions = length (pl_decisions plan), psm_labels = label_assignments plan\<rparr>,
       pv_plan = \<lparr>pl_issues = issues, pl_relations = pl_relations plan, pl_decisions = map fst decisions\<rparr>\<rparr>)"

definition MergePlanErrors :: "PlanValidation \<Rightarrow> Detail list \<Rightarrow> PlanValidation" where
  "MergePlanErrors v ds =
     (let errors = SortDetails (pv_errors v @ ds) in v\<lparr>pv_errors := errors, pv_valid := (errors = [])\<rparr>)"


section \<open>Validation against the store\<close>

text \<open>
  What a reference has been resolved to so far, and the problems found. An unresolved reference is
  reported as the empty id; \<open>local\<close> is what the lookup table answers, so the second use of the same
  outside reference counts as local.
\<close>

record PlanScan =
  ps_refs :: "string \<Rightarrow> string option"
  ps_details :: "Detail list"

definition planStoreDetail :: "nat \<Rightarrow> string \<Rightarrow> string \<Rightarrow> Detail" where
  "planStoreDetail index field code = \<lparr>EntityIndex = Some (int index), Field = field, DCode = code\<rparr>"

definition complain :: "nat \<Rightarrow> string \<Rightarrow> string \<Rightarrow> 's PlanScan_scheme \<Rightarrow> 's PlanScan_scheme" where
  "complain index field code s = s\<lparr>ps_details := ps_details s @ [planStoreDetail index field code]\<rparr>"

definition local_refs :: "IssuePlan \<Rightarrow> string \<Rightarrow> string option" where
  "local_refs plan ref =
     (if ref \<noteq> '''' \<and> ref \<in> set (map pli_ref (pl_issues plan)) then Some (''local:'' @ ref) else None)"

definition resolve_ref ::
  "env \<Rightarrow> db \<Rightarrow> string \<Rightarrow> nat \<Rightarrow> string \<Rightarrow> 's PlanScan_scheme \<Rightarrow> (string \<times> bool \<times> 's PlanScan_scheme) res" where
  "resolve_ref env d value index field s =
     (case ps_refs s value of
        Some i \<Rightarrow> Inr (i, True, s)
      | None \<Rightarrow>
          (case ParseIssueIdentifier env value of
             Inl _ \<Rightarrow> Inr ('''', False, complain index field ''INVALID_IDENTIFIER'' s)
           | Inr identifier \<Rightarrow>
               (case loadIssueForMutation identifier d of
                  Inl e \<Rightarrow>
                    if Code e = CodeIssueNotFound then Inr ('''', False, complain index field CodeIssueNotFound s) else Inl e
                | Inr (_, issue) \<Rightarrow>
                    if ArchivedAt issue \<noteq> None then Inr ('''', False, complain index field CodeIssueArchived s)
                    else Inr (IID issue, False, s\<lparr>ps_refs := (ps_refs s)(value \<mapsto> IID issue)\<rparr>))))"

text \<open>A parent in the plan must be an epic whatever its position; every issue with that name is looked at.\<close>

definition check_local_parent :: "IssuePlan \<Rightarrow> string \<Rightarrow> nat \<Rightarrow> PlanScan \<Rightarrow> PlanScan" where
  "check_local_parent plan parent i s =
     foldl (\<lambda>s candidate.
       if pli_ref candidate = parent \<and> pli_type candidate \<noteq> TypeEpic
       then complain i (member_path ''issues'' i @ ''.parent_ref'') CodeInvalidEpicParent s else s) s (pl_issues plan)"

definition check_parent :: "env \<Rightarrow> db \<Rightarrow> IssuePlan \<Rightarrow> nat \<times> PlannedIssue \<Rightarrow> PlanScan \<Rightarrow> PlanScan res" where
  "check_parent env d plan = (\<lambda>(i, issue) s.
     case pli_parent issue of
       None \<Rightarrow> Inr s
     | Some parent \<Rightarrow>
         let field = member_path ''issues'' i @ ''.parent_ref'' in
         and_then (resolve_ref env d parent i field s) (\<lambda>(parentID, known_ref, s).
         if parentID = '''' then Inr s
         else if pli_type issue = TypeEpic then Inr (complain i field CodeInvalidEpicParent s)
         else if known_ref then Inr (check_local_parent plan parent i s)
         else
           and_then (loadIssueForMutation (internal_id parentID) d) (\<lambda>(_, row).
           if IType row \<noteq> TypeEpic then Inr (complain i field CodeInvalidEpicParent s) else Inr s)))"

definition loadBlocksEdges :: "db \<Rightarrow> (string \<times> string) list" where
  "loadBlocksEdges d =
     map (\<lambda>r. (rl_source r, rl_target r)) (sort_key rl_source (sort_key rl_target
       (filter (\<lambda>r. rl_type r = RelationTypeBlocks) (db_relations d))))"

text \<open>
  The scan of the relations also carries the blocking edges, stored ones and those of the plan, and
  the relations seen so far. The code keys the latter by type, source and target joined with NUL, which
  no validated reference contains. Without a blocking relation in the plan the edges are not loaded,
  and not looked at.
\<close>

record RelationScan = PlanScan +
  rsc_edges :: "string \<Rightarrow> string list"
  rsc_proposed :: "(RelationType \<times> string \<times> string) list"

definition plan_edges :: "db \<Rightarrow> IssuePlan \<Rightarrow> string \<Rightarrow> string list" where
  "plan_edges d plan =
     (if list_ex (\<lambda>r. plr_type r = RelationTypeBlocks) (pl_relations plan)
      then foldl (\<lambda>edges (source, target). edges(source := edges source @ [target])) (\<lambda>_. []) (loadBlocksEdges d)
      else (\<lambda>_. []))"

definition check_plan_relation ::
  "env \<Rightarrow> db \<Rightarrow> nat \<times> PlannedRelation \<Rightarrow> RelationScan \<Rightarrow> RelationScan res" where
  "check_plan_relation env d = (\<lambda>(i, r) s.
     and_then (resolve_ref env d (plr_source r) i (member_path ''relations'' i @ ''.source_ref'') s) (\<lambda>(source, _, s).
     and_then (resolve_ref env d (plr_target r) i (member_path ''relations'' i @ ''.target_ref'') s) (\<lambda>(target, _, s).
     if source = '''' \<or> target = '''' then Inr s
     else if source = target then Inr (complain i (member_path ''relations'' i @ ''.target_ref'') ''SELF_RELATION'' s)
     else
       let (source, target) = (if plr_type r = RelationTypeRelatedTo \<and> source > target then (target, source) else (source, target));
           key = (plr_type r, source, target) in
       if key \<in> set (rsc_proposed s) then Inr (complain i (member_path ''relations'' i) ''DUPLICATE_RELATION'' s)
       else
         let s = s\<lparr>rsc_proposed := key # rsc_proposed s\<rparr> in
         if list_ex (\<lambda>x. rl_source x = source \<and> rl_target x = target \<and> rl_type x = plr_type r) (db_relations d)
         then Inr (complain i (member_path ''relations'' i) ''DUPLICATE_RELATION'' s)
         else if plr_type r = RelationTypeBlocks then
           if BlocksPathExists target source (rsc_edges s) \<noteq> Some False
           then Inr (complain i (member_path ''relations'' i @ ''.type'') CodeBlocksCycle s)
           else Inr (s\<lparr>rsc_edges := (rsc_edges s)(source := rsc_edges s source @ [target])\<rparr>)
         else Inr s)))"

definition check_plan_decision :: "env \<Rightarrow> db \<Rightarrow> nat \<times> PlannedDecision \<Rightarrow> RelationScan \<Rightarrow> RelationScan res" where
  "check_plan_decision env d = (\<lambda>(i, p) s.
     case pld_issue p of
       None \<Rightarrow> Inr s
     | Some ref \<Rightarrow> map_sum id (\<lambda>(_, _, s). s) (resolve_ref env d ref i (member_path ''decisions'' i @ ''.issue_ref'') s))"

definition validatePlanAgainstStore :: "env \<Rightarrow> IssuePlan \<Rightarrow> db \<Rightarrow> Detail list res" where
  "validatePlanAgainstStore env plan d =
     and_then (fold_result (check_parent env d plan) (enumerate 0 (pl_issues plan))
       \<lparr>ps_refs = local_refs plan, ps_details = []\<rparr>) (\<lambda>s.
     and_then (fold_result (check_plan_relation env d) (enumerate 0 (pl_relations plan))
       (PlanScan.extend s \<lparr>rsc_edges = plan_edges d plan, rsc_proposed = []\<rparr>)) (\<lambda>s.
     and_then (fold_result (check_plan_decision env d) (enumerate 0 (pl_decisions plan)) s) (\<lambda>s.
     Inr (SortDetails (ps_details s)))))"

section \<open>Applying a plan\<close>

record ApplyIssuePlanCommand =
  zc_plan :: IssuePlan
  zc_key :: string
  zc_hash :: string
  zc_issues :: "string list"
  zc_relations :: "string list"
  zc_decisions :: "string list"
  zc_labels :: "string list list"
  zc_now :: time

definition validatePlanCommand :: "env \<Rightarrow> ApplyIssuePlanCommand \<Rightarrow> unit res" where
  "validatePlanCommand env c =
     and_then (require (\<not> (zc_hash c = [] \<or> length (zc_issues c) \<noteq> length (pl_issues (zc_plan c)) \<or>
       length (zc_relations c) \<noteq> length (pl_relations (zc_plan c)) \<or>
       length (zc_decisions c) \<noteq> length (pl_decisions (zc_plan c)) \<or>
       length (zc_labels c) \<noteq> length (pl_issues (zc_plan c)))) (NewError CodeInvalidArgument False [])) (\<lambda>_.
     and_then (require (list_all (ids_ParseStrict env) (zc_issues c @ zc_relations c @ zc_decisions c))
       (NewError CodeIDGeneration False [])) (\<lambda>_.
     and_then (map_result (\<lambda>(ids, p). validateLabelIDs env (pli_labels p) (pli_create_missing p) ids)
       (zip (zc_labels c) (pl_issues (zc_plan c)))) (\<lambda>_. Inr ())))"

text \<open>The ids of the plan's own names; of two issues with one name the later one counts.\<close>

definition local_ids :: "ApplyIssuePlanCommand \<Rightarrow> string \<Rightarrow> string option" where
  "local_ids c = map_of (rev (filter (\<lambda>x. fst x \<noteq> '''') (zip (map pli_ref (pl_issues (zc_plan c))) (zc_issues c))))"

definition resolve_id :: "env \<Rightarrow> ApplyIssuePlanCommand \<Rightarrow> string \<Rightarrow> string tx" where
  "resolve_id env c value =
     (case local_ids c value of
        Some i \<Rightarrow> tx_return i
      | None \<Rightarrow>
          tx_then (tx_lift (ParseIssueIdentifier env value)) (\<lambda>identifier.
          tx_then (loadIssueForMutation identifier) (\<lambda>issue. tx_return (IID issue))))"

definition resolve_optional :: "env \<Rightarrow> ApplyIssuePlanCommand \<Rightarrow> string option \<Rightarrow> string option tx" where
  "resolve_optional env c ref =
     (case ref of None \<Rightarrow> tx_return None | Some v \<Rightarrow> tx_then (resolve_id env c v) (\<lambda>i. tx_return (Some i)))"

definition apply_planned_issue ::
  "env \<Rightarrow> ApplyIssuePlanCommand \<Rightarrow> PlannedIssue \<times> string \<times> string list \<Rightarrow> CreatedPlanIssue tx" where
  "apply_planned_issue env c = (\<lambda>(p, i, label_ids).
     tx_then (create_gate (planned_input p)) (\<lambda>_.
     tx_then (resolve_optional env c (pli_parent p)) (\<lambda>parent.
     tx_then (allocate_number (zc_now c)) (\<lambda>sequenceNo.
     let row = created_issue i (planned_input p) sequenceNo parent (zc_now c) in
     tx_then (exec (\<lambda>d. d\<lparr>db_issues := db_issues d @ [row]\<rparr>)) (\<lambda>_.
     tx_then (resolveIssueLabels env (pli_labels p) (pli_create_missing p) label_ids (zc_now c)) (\<lambda>labels.
     tx_then (replaceIssueLabels i labels) (\<lambda>_.
     tx_then (append_event (Some i) ''issue_created'' None None
       (PayloadIssueCreated sequenceNo (pli_type p) (pli_status p) (pli_priority p) parent (map lb_name labels))
       (zc_now c) SourceIssue) (\<lambda>_.
     tx_return \<lparr>cpi_ref = pli_ref p, cpi_issue = row\<lparr>Labels := map lb_name labels\<rparr>\<rparr>))))))))"

definition apply_planned_relation ::
  "env \<Rightarrow> ApplyIssuePlanCommand \<Rightarrow> PlannedRelation \<times> string \<Rightarrow> IssueRelation tx" where
  "apply_planned_relation env c = (\<lambda>(p, i).
     tx_then (resolve_id env c (plr_source p)) (\<lambda>source.
     tx_then (resolve_id env c (plr_target p)) (\<lambda>target.
     let ends = CanonicalRelationEndpoints (plr_type p) source target;
         r = \<lparr>rl_id = i, rl_source = fst ends, rl_target = snd ends, rl_type = plr_type p, rl_created = zc_now c\<rparr> in
     tx_then (exec (\<lambda>d. d\<lparr>db_relations := db_relations d @ [r]\<rparr>)) (\<lambda>_.
     tx_then (appendRelationEvents ''relation_added'' r (zc_now c)) (\<lambda>_.
     tx_return r)))))"

definition apply_planned_decision ::
  "env \<Rightarrow> ApplyIssuePlanCommand \<Rightarrow> PlannedDecision \<times> string \<Rightarrow> PlanDecision tx" where
  "apply_planned_decision env c = (\<lambda>(p, i).
     tx_then (resolve_optional env c (pld_issue p)) (\<lambda>issueID.
     tx_then (exec (\<lambda>d. d\<lparr>db_decisions := db_decisions d @
       [\<lparr>dc_id = i, dc_issue = issueID, dc_title = pld_title p, dc_summary = pld_summary p, dc_content = pld_content p,
         dc_status = pld_status p, dc_supersedes = None, dc_session = None, dc_created = zc_now c\<rparr>]\<rparr>)) (\<lambda>_.
     tx_then (append_event issueID ''decision_recorded'' None None (PayloadDecision i (pld_status p) None) (zc_now c) SourceIssue) (\<lambda>_.
     tx_return \<lparr>pd_id = i, pd_issue = issueID, pd_title = pld_title p, pd_summary = pld_summary p,
       pd_content = pld_content p, pd_status = pld_status p, pd_created = zc_now c\<rparr>))))"

definition applyPlan :: "env \<Rightarrow> ApplyIssuePlanCommand \<Rightarrow> ApplyIssuePlanResult tx" where
  "applyPlan env c =
     tx_then (tx_map (apply_planned_issue env c) (zip (pl_issues (zc_plan c)) (zip (zc_issues c) (zc_labels c)))) (\<lambda>issues.
     tx_then (tx_map (apply_planned_relation env c) (zip (pl_relations (zc_plan c)) (zc_relations c))) (\<lambda>relations.
     tx_then (tx_map (apply_planned_decision env c) (zip (pl_decisions (zc_plan c)) (zc_decisions c))) (\<lambda>decisions.
     tx_then (tx_read latest_event) (\<lambda>latest.
     tx_return \<lparr>apr_issues = issues, apr_relations = relations, apr_decisions = decisions, apr_latest = latest\<rparr>))))"

definition response_plan :: "Response \<Rightarrow> ApplyIssuePlanResult res" where
  "response_plan r = (case r of ResponsePlan x \<Rightarrow> Inr x | _ \<Rightarrow> Inl storedResponseInvalid)"

text \<open>Unlike the other mutations this one always looks for a saved response and always saves one.\<close>

definition lookup_plan :: "ApplyIssuePlanCommand \<Rightarrow> db \<Rightarrow> (db \<times> ApplyIssuePlanResult option) res" where
  "lookup_plan c d =
     (case find_idempotency d ''apply_issue_plan'' (zc_key c) of
        None \<Rightarrow> Inr (d, None)
      | Some r \<Rightarrow>
          if ir_hash r \<noteq> zc_hash c then Inl idempotencyConflict
          else and_then (response_plan (ir_response r)) (\<lambda>x. Inr (d, Some x)))"

definition store_plan :: "ApplyIssuePlanCommand \<Rightarrow> ApplyIssuePlanResult \<Rightarrow> unit tx" where
  "store_plan c result =
     exec (\<lambda>d. d\<lparr>db_idempotency := db_idempotency d @
       [\<lparr>ir_operation = ''apply_issue_plan'', ir_key = zc_key c, ir_hash = zc_hash c, ir_response = ResponsePlan result\<rparr>]\<rparr>)"

definition apply_plan :: "env \<Rightarrow> ApplyIssuePlanCommand \<Rightarrow> ApplyIssuePlanResult res tx" where
  "apply_plan env c =
     tx_then (lookup_plan c) (\<lambda>saved.
     case saved of
       Some result \<Rightarrow> tx_return (Inr result)
     | None \<Rightarrow>
         tx_then (tx_read (validatePlanAgainstStore env (zc_plan c))) (\<lambda>checked.
         tx_then (tx_lift checked) (\<lambda>details.
         tx_then (tx_require (details = []) (NewError CodeValidationError False details)) (\<lambda>_.
         tx_then (applyPlan env c) (\<lambda>result.
         tx_then (store_plan c result) (\<lambda>_. tx_return (Inr result)))))))"

definition ApplyIssuePlan :: "env \<Rightarrow> ApplyIssuePlanCommand \<Rightarrow> db \<Rightarrow> db \<times> ApplyIssuePlanResult res" where
  "ApplyIssuePlan env c d =
     (case validatePlanCommand env c of Inl e \<Rightarrow> (d, Inl e) | Inr _ \<Rightarrow> Write (apply_plan env c) d)"

definition LookupAppliedIssuePlan :: "string \<Rightarrow> string \<Rightarrow> db \<Rightarrow> ApplyIssuePlanResult option res" where
  "LookupAppliedIssuePlan = lookup_saved ''apply_issue_plan'' response_plan"

section \<open>The service\<close>

definition service_ValidateIssuePlan :: "env \<Rightarrow> IssuePlan \<Rightarrow> db \<Rightarrow> PlanValidation res" where
  "service_ValidateIssuePlan env plan d =
     (let v = NormalizeIssuePlan env plan in
      if \<not> pv_valid v then Inr v
      else and_then (validatePlanAgainstStore env (pv_plan v) d) (\<lambda>details. Inr (MergePlanErrors v details)))"

text \<open>
  The id generator is a function from the number of the call to its outcome; the request hash is a
  function of the normalized plan.
\<close>

definition planIDGeneration :: Error where
  "planIDGeneration = NewError CodeIDGeneration False []"

definition newID :: "env \<Rightarrow> (nat \<Rightarrow> string res) \<Rightarrow> nat \<Rightarrow> string res" where
  "newID env fresh n =
     (case fresh n of
        Inl _ \<Rightarrow> Inl planIDGeneration
      | Inr i \<Rightarrow> if ids_ParseStrict env i then Inr i else Inl planIDGeneration)"

definition newIDs :: "env \<Rightarrow> (nat \<Rightarrow> string res) \<Rightarrow> nat \<Rightarrow> nat \<Rightarrow> string list res" where
  "newIDs env fresh start many = map_result (newID env fresh) [start ..< start + many]"

fun newLabelIDs :: "env \<Rightarrow> (nat \<Rightarrow> string res) \<Rightarrow> nat \<Rightarrow> PlannedIssue list \<Rightarrow> string list list res" where
  "newLabelIDs env fresh start [] = Inr []"
| "newLabelIDs env fresh start (p # ps) =
     (let many = (if pli_create_missing p then length (pli_labels p) else 0) in
      and_then (newIDs env fresh start many) (\<lambda>ids.
      and_then (newLabelIDs env fresh (start + many) ps) (\<lambda>rest. Inr (ids # rest))))"

definition service_ApplyIssuePlan ::
  "env \<Rightarrow> (nat \<Rightarrow> string res) \<Rightarrow> (IssuePlan \<Rightarrow> string) \<Rightarrow> IssuePlan \<Rightarrow> string \<Rightarrow> time \<Rightarrow> db \<Rightarrow>
     db \<times> ApplyIssuePlanResult res" where
  "service_ApplyIssuePlan env fresh plan_hash plan key now d =
     (case and_then (ValidateText ''idempotency_key'' key MaxIdempotencyKeyRunes) (\<lambda>_.
           require (TrimSpace key \<noteq> '''') (NewError CodeInvalidArgument False [detail ''idempotency_key'' ''REQUIRED''])) of
        Inl e \<Rightarrow> (d, Inl e)
      | Inr _ \<Rightarrow>
          let v = NormalizeIssuePlan env plan; p = pv_plan v; h = plan_hash p in
          if \<not> pv_valid v then (d, Inl (NewError CodeValidationError False (pv_errors v)))
          else (case LookupAppliedIssuePlan key h d of
              Inl e \<Rightarrow> (d, Inl e)
            | Inr (Some result) \<Rightarrow> (d, Inr result)
            | Inr None \<Rightarrow>
                let n = length (pl_issues p); m = length (pl_relations p); k = length (pl_decisions p) in
                (case and_then (newIDs env fresh 0 n) (\<lambda>issues.
                      and_then (newIDs env fresh n m) (\<lambda>relations.
                      and_then (newIDs env fresh (n + m) k) (\<lambda>decisions.
                      and_then (newLabelIDs env fresh (n + m + k) (pl_issues p)) (\<lambda>labels.
                      Inr \<lparr>zc_plan = p, zc_key = key, zc_hash = h, zc_issues = issues, zc_relations = relations,
                        zc_decisions = decisions, zc_labels = labels, zc_now = now\<rparr>)))) of
                   Inl e \<Rightarrow> (d, Inl e)
                 | Inr c \<Rightarrow> ApplyIssuePlan env c d)))"

end
