(* ===== verification/PlanCheck.thy ===== *)
theory PlanCheck
  imports Planning
begin

text \<open>
  What the validation of a plan against the store decides. Each scan is characterised by what one step
  complains about: the references it resolves have one meaning throughout, the parents it accepts are
  epics, and the relations it accepts close no cycle.
\<close>

section \<open>The meaning of a reference\<close>

definition plan_name :: "env \<Rightarrow> IssuePlan \<Rightarrow> db \<Rightarrow> string \<Rightarrow> string option" where
  "plan_name env plan d v =
     (case local_refs plan v of
        Some x \<Rightarrow> Some x
      | None \<Rightarrow>
          (case ParseIssueIdentifier env v of
             Inl _ \<Rightarrow> None
           | Inr identifier \<Rightarrow>
               (case find_issue d identifier of
                  None \<Rightarrow> None
                | Some i \<Rightarrow> if ArchivedAt i = None then Some (IID i) else None)))"

text \<open>A lookup table that agrees with it: the local names and some outside references.\<close>

definition scan_ok :: "env \<Rightarrow> IssuePlan \<Rightarrow> db \<Rightarrow> 's PlanScan_scheme \<Rightarrow> bool" where
  "scan_ok env plan d s \<longleftrightarrow>
     (\<forall>v x. ps_refs s v = Some x \<longrightarrow> plan_name env plan d v = Some x) \<and>
     (\<forall>v x. local_refs plan v = Some x \<longrightarrow> ps_refs s v = Some x)"

lemma load_find: "loadIssueForMutation ident d = (case find_issue d ident of
    None \<Rightarrow> Inl (NewError CodeIssueNotFound False []) | Some i \<Rightarrow> Inr (d, i))"
  by (simp add: loadIssueForMutation_def find_issue_def)

lemma scan_ok_complain [simp]: "scan_ok env plan d (complain i f e s) = scan_ok env plan d s"
  by (simp add: scan_ok_def complain_def)

lemma complain_simps [simp]:
  "ps_refs (complain i f e s) = ps_refs s" "ps_details (complain i f e s) \<noteq> []"
  "PlanScan.more (complain i f e s) = PlanScan.more s"
  by (simp_all add: complain_def)

text \<open>Resolving always returns; it adds a detail exactly when the reference has no meaning.\<close>

lemma resolve_ref_run:
  assumes "scan_ok env plan d s"
  obtains x known s' where "resolve_ref env d v i f s = Inr (x, known, s')" "scan_ok env plan d s'"
    "PlanScan.more s' = PlanScan.more s"
    "case plan_name env plan d v of
       Some y \<Rightarrow> x = y \<and> ps_details s' = ps_details s \<and> known = (ps_refs s v \<noteq> None) \<and> ps_refs s' = (ps_refs s)(v \<mapsto> y)
     | None \<Rightarrow> x = '''' \<and> ps_details s' \<noteq> [] \<and> ps_refs s' = ps_refs s"
proof (cases "ps_refs s v")
  case (Some y)
  then have "plan_name env plan d v = Some y" using assms by (simp add: scan_ok_def)
  moreover have "(ps_refs s)(v \<mapsto> y) = ps_refs s" using Some by auto
  ultimately show ?thesis using that [of y True s] Some assms by (simp add: resolve_ref_def)
next
  case None
  then have l: "local_refs plan v = None" using assms by (cases "local_refs plan v") (auto simp: scan_ok_def)
  show ?thesis
  proof (cases "plan_name env plan d v")
    case unresolved: None
    then obtain e where "resolve_ref env d v i f s = Inr ('''', False, complain i f e s)"
      using l None by (auto simp: plan_name_def resolve_ref_def load_find split: sum.splits option.splits if_splits)
    then show ?thesis using that [of "''''" False "complain i f e s"] unresolved assms by simp
  next
    case (Some y)
    let ?s = "s\<lparr>ps_refs := (ps_refs s)(v \<mapsto> y)\<rparr>"
    have "resolve_ref env d v i f s = Inr (y, False, ?s)"
      using Some l None by (auto simp: plan_name_def resolve_ref_def load_find split: sum.splits option.splits if_splits)
    moreover have "scan_ok env plan d ?s" using assms Some None by (auto simp: scan_ok_def)
    ultimately show ?thesis using that [of y False ?s] Some None by simp
  qed
qed

lemma plan_name_nonempty:
  assumes "schema_ok d" and "plan_name env plan d v = Some x"
  shows "x \<noteq> ''''"
proof (cases "local_refs plan v")
  case None
  then obtain ident i where "find_issue d ident = Some i" "x = IID i"
    using assms(2) by (auto simp: plan_name_def split: sum.splits option.splits if_splits)
  then have "i \<in> set (db_issues d)" "x = IID i"
    by (auto simp: find_issue_def split: IssueIdentifierKind.splits dest: find_Some_mem)
  then have "length x = 26" using assms(1) by (auto simp: schema_ok_def issues_ok_def issue_row_ok_def list_all_iff)
  then show ?thesis by auto
next
  case (Some y)
  then show ?thesis using assms(2) by (auto simp: plan_name_def local_refs_def split: if_splits)
qed

section \<open>Parents\<close>

definition named_epic :: "env \<Rightarrow> IssuePlan \<Rightarrow> db \<Rightarrow> string \<Rightarrow> bool" where
  "named_epic env plan d v \<longleftrightarrow>
     (if local_refs plan v \<noteq> None then \<forall>q \<in> set (pl_issues plan). pli_ref q = v \<longrightarrow> pli_type q = TypeEpic
      else \<exists>i \<in> set (db_issues d). plan_name env plan d v = Some (IID i) \<and> IType i = TypeEpic \<and> ArchivedAt i = None)"

definition plan_parent_ok :: "env \<Rightarrow> IssuePlan \<Rightarrow> db \<Rightarrow> PlannedIssue \<Rightarrow> bool" where
  "plan_parent_ok env plan d p \<longleftrightarrow>
     (case pli_parent p of
        None \<Rightarrow> True
      | Some v \<Rightarrow> plan_name env plan d v \<noteq> None \<and> pli_type p \<noteq> TypeEpic \<and> named_epic env plan d v)"

text \<open>An outside reference already used as a parent was an epic, or has been complained about.\<close>

definition parents_scanned :: "env \<Rightarrow> IssuePlan \<Rightarrow> db \<Rightarrow> PlanScan \<Rightarrow> bool" where
  "parents_scanned env plan d s \<longleftrightarrow> scan_ok env plan d s \<and>
     (ps_details s = [] \<longrightarrow> (\<forall>v. ps_refs s v \<noteq> None \<longrightarrow> local_refs plan v = None \<longrightarrow> named_epic env plan d v))"

lemma check_local_parent_run:
  "ps_refs (check_local_parent plan v i s) = ps_refs s \<and>
     (ps_details (check_local_parent plan v i s) = [] \<longleftrightarrow>
        ps_details s = [] \<and> (\<forall>q \<in> set (pl_issues plan). pli_ref q = v \<longrightarrow> pli_type q = TypeEpic))"
proof -
  have "ps_refs (foldl (\<lambda>s q. if pli_ref q = v \<and> pli_type q \<noteq> TypeEpic then complain i f e s else s) s qs) = ps_refs s \<and>
      (ps_details (foldl (\<lambda>s q. if pli_ref q = v \<and> pli_type q \<noteq> TypeEpic then complain i f e s else s) s qs) = [] \<longleftrightarrow>
        ps_details s = [] \<and> (\<forall>q \<in> set qs. pli_ref q = v \<longrightarrow> pli_type q = TypeEpic))" for f e and qs :: "PlannedIssue list"
    by (induction qs arbitrary: s) auto
  then show ?thesis unfolding check_local_parent_def .
qed

lemma plan_name_row:
  assumes "schema_ok d" and "local_refs plan v = None" and "plan_name env plan d v = Some x"
  shows "\<exists>i \<in> set (db_issues d). IID i = x \<and> ArchivedAt i = None \<and> loadIssueForMutation (internal_id x) d = Inr (d, i)"
proof -
  obtain ident i where i: "find_issue d ident = Some i" "x = IID i" "ArchivedAt i = None"
    using assms(2,3) by (auto simp: plan_name_def split: sum.splits option.splits if_splits)
  then have mem: "i \<in> set (db_issues d)"
    by (auto simp: find_issue_def split: IssueIdentifierKind.splits dest: find_Some_mem)
  have "distinct (map IID (db_issues d))" using assms(1) by (simp add: schema_ok_def issues_ok_def)
  then have "y = i" if "find (\<lambda>y. IID y = x) (db_issues d) = Some y" for y
    using find_Some_mem [OF that] mem i(2) by (auto intro: distinct_key_eq)
  then have "find (\<lambda>y. IID y = x) (db_issues d) = Some i"
    using mem i(2) by (cases "find (\<lambda>y. IID y = x) (db_issues d)") (auto simp: find_None_iff)
  then have "loadIssueForMutation (internal_id x) d = Inr (d, i)" by (simp add: loadIssueForMutation_def internal_id_def)
  then show ?thesis using mem i by blast
qed


lemma check_local_parent_none:
  assumes "\<forall>q \<in> set (pl_issues plan). pli_ref q \<noteq> v"
  shows "check_local_parent plan v i s = s"
proof -
  have "\<forall>q \<in> set qs. pli_ref q \<noteq> v \<Longrightarrow>
      foldl (\<lambda>s q. if pli_ref q = v \<and> pli_type q \<noteq> TypeEpic then complain i f e s else s) s qs = s" for f e qs
    by (induction qs) auto
  then show ?thesis using assms unfolding check_local_parent_def by blast
qed

lemma plan_name_outside:
  assumes "schema_ok d" and "local_refs plan v = None" and "plan_name env plan d v \<noteq> None"
  shows "v \<noteq> ''''"
proof
  assume v: "v = ''''"
  obtain y where y: "plan_name env plan d v = Some y" using assms(3) by blast
  then obtain row where row: "row \<in> set (db_issues d)" "IID row = y" using plan_name_row [OF assms(1,2)] by blast
  have "y = ''''"
    using y assms(2) v by (auto simp: plan_name_def ParseIssueIdentifier_def find_issue_def split: if_splits option.splits
        dest: find_Some_mem)
  then show False using plan_name_nonempty [OF assms(1) y] by simp
qed

lemma check_parent_run:
  assumes ok: "schema_ok d" and s: "parents_scanned env plan d s"
  obtains s' where "check_parent env d plan (i, p) s = Inr s'" "parents_scanned env plan d s'"
    "ps_details s' = [] \<longleftrightarrow> ps_details s = [] \<and> plan_parent_ok env plan d p"
proof (cases "pli_parent p")
  case None
  then show ?thesis using that [of s] s by (simp add: check_parent_def plan_parent_ok_def)
next
  case (Some v)
  let ?f = "member_path ''issues'' i @ ''.parent_ref''"
  have scan: "scan_ok env plan d s" using s by (simp add: parents_scanned_def)
  obtain x known s1 where r: "resolve_ref env d v i ?f s = Inr (x, known, s1)" "scan_ok env plan d s1"
      "case plan_name env plan d v of
        Some y \<Rightarrow> x = y \<and> ps_details s1 = ps_details s \<and> known = (ps_refs s v \<noteq> None) \<and> ps_refs s1 = (ps_refs s)(v \<mapsto> y)
      | None \<Rightarrow> x = '''' \<and> ps_details s1 \<noteq> [] \<and> ps_refs s1 = ps_refs s"
    by (rule resolve_ref_run [OF scan])
  show ?thesis
  proof (cases "plan_name env plan d v")
    case None
    then show ?thesis using that [of s1] r Some
      by (simp add: check_parent_def plan_parent_ok_def parents_scanned_def Let_def)
  next
    case y: (Some y)
    then have x: "x = y" "y \<noteq> ''''" "ps_details s1 = ps_details s" "known = (ps_refs s v \<noteq> None)" "ps_refs s1 = (ps_refs s)(v \<mapsto> y)"
      using r(3) plan_name_nonempty [OF ok y] by simp_all
    show ?thesis
    proof (cases "pli_type p = TypeEpic")
      case True
      then show ?thesis using that [of "complain i ?f CodeInvalidEpicParent s1"] r(1,2) x Some
        by (simp add: check_parent_def plan_parent_ok_def parents_scanned_def Let_def)
    next
      case child: False
      show ?thesis
      proof (cases "local_refs plan v")
        case (Some z)
        then have k: "known" "ps_refs s1 = ps_refs s" using scan x(4,5) y by (auto simp: scan_ok_def plan_name_def)
        let ?s = "check_local_parent plan v i s1"
        have "check_parent env d plan (i, p) s = Inr ?s"
          using r(1) x(1,2) child k \<open>pli_parent p = Some v\<close> by (simp add: check_parent_def Let_def)
        moreover have "ps_details ?s = [] \<longleftrightarrow> ps_details s = [] \<and> named_epic env plan d v"
          using check_local_parent_run [of plan v i s1] x(3) Some by (simp add: named_epic_def)
        moreover have "parents_scanned env plan d ?s"
          using s r(2) k(2) check_local_parent_run [of plan v i s1] x(3) by (auto simp: parents_scanned_def scan_ok_def)
        ultimately show ?thesis using that [of ?s] child y \<open>pli_parent p = Some v\<close> by (simp add: plan_parent_ok_def)
      next
        case None
        obtain row where row: "row \<in> set (db_issues d)" "IID row = y" "ArchivedAt row = None"
            "loadIssueForMutation (internal_id y) d = Inr (d, row)"
          using plan_name_row [OF ok None y] by blast
        have unique: "j = row" if "j \<in> set (db_issues d)" "IID j = y" for j
          using that row(1,2) ok by (auto simp: schema_ok_def issues_ok_def intro: distinct_key_eq)
        have epic: "named_epic env plan d v \<longleftrightarrow> IType row = TypeEpic"
          unfolding named_epic_def using None y row(1-3) unique by (metis option.inject)
        show ?thesis
        proof (cases "known")
          case True
          then have refs: "ps_refs s1 = ps_refs s" using scan x(4,5) y by (auto simp: scan_ok_def)
          have "v \<noteq> ''''" using plan_name_outside [OF ok None] y by auto
          then have "v \<notin> set (map pli_ref (pl_issues plan))" using None by (simp add: local_refs_def split: if_splits)
          then have "check_local_parent plan v i s1 = s1" by (intro check_local_parent_none) auto
          then have "check_parent env d plan (i, p) s = Inr s1"
            using r(1) x(1,2) child True \<open>pli_parent p = Some v\<close> by (simp add: check_parent_def Let_def)
          moreover have "parents_scanned env plan d s1" using s r(2) refs x(3) by (simp add: parents_scanned_def)
          moreover have "ps_details s = [] \<longrightarrow> named_epic env plan d v"
            using s True x(4) None by (auto simp: parents_scanned_def)
          ultimately show ?thesis using that [of s1] x(3) child y \<open>pli_parent p = Some v\<close> by (auto simp: plan_parent_ok_def)
        next
          case False
          let ?s = "if IType row \<noteq> TypeEpic then complain i ?f CodeInvalidEpicParent s1 else s1"
          have "check_parent env d plan (i, p) s = Inr ?s"
            using r(1) x(1,2) child False row(4) \<open>pli_parent p = Some v\<close> by (simp add: check_parent_def Let_def)
          moreover have "parents_scanned env plan d ?s" using s r(2) x epic by (auto simp: parents_scanned_def)
          ultimately show ?thesis using that [of ?s] x(3) child y epic \<open>pli_parent p = Some v\<close> by (auto simp: plan_parent_ok_def)
        qed
      qed
    qed
  qed
qed


lemma check_parents_run:
  assumes ok: "schema_ok d" and s: "parents_scanned env plan d s"
  shows "\<exists>s'. fold_result (check_parent env d plan) (enumerate n ps) s = Inr s' \<and> parents_scanned env plan d s' \<and>
    (ps_details s' = [] \<longleftrightarrow> ps_details s = [] \<and> (\<forall>p \<in> set ps. plan_parent_ok env plan d p))"
  using s
proof (induction ps arbitrary: n s)
  case (Cons p ps)
  obtain s1 where s1: "check_parent env d plan (n, p) s = Inr s1" "parents_scanned env plan d s1"
      "ps_details s1 = [] \<longleftrightarrow> ps_details s = [] \<and> plan_parent_ok env plan d p"
    by (rule check_parent_run [OF ok Cons.prems])
  obtain s2 where s2: "fold_result (check_parent env d plan) (enumerate (Suc n) ps) s1 = Inr s2" "parents_scanned env plan d s2"
      "ps_details s2 = [] \<longleftrightarrow> ps_details s1 = [] \<and> (\<forall>p \<in> set ps. plan_parent_ok env plan d p)"
    using Cons.IH [OF s1(2)] by blast
  show ?case using s1 s2 by (intro exI [of _ s2]) auto
qed simp

section \<open>Relations\<close>

text \<open>
  A relation is admitted when both ends have a meaning and differ, it is new to the plan and to the
  store, and a blocking one closes no cycle with the edges admitted before.
\<close>

definition stored_relation :: "db \<Rightarrow> RelationType \<times> string \<times> string \<Rightarrow> bool" where
  "stored_relation d = (\<lambda>(t, a, b). list_ex (\<lambda>x. rl_source x = a \<and> rl_target x = b \<and> rl_type x = t) (db_relations d))"

definition admissible ::
  "db \<Rightarrow> (string \<times> string) set \<Rightarrow> (RelationType \<times> string \<times> string) set \<Rightarrow> RelationType \<Rightarrow> string \<Rightarrow> string \<Rightarrow> bool" where
  "admissible d E ks t a b \<longleftrightarrow> a \<noteq> b \<and> (t, CanonicalRelationEndpoints t a b) \<notin> ks \<and>
     \<not> stored_relation d (t, CanonicalRelationEndpoints t a b) \<and> (t = RelationTypeBlocks \<longrightarrow> (b, a) \<notin> E\<^sup>+)"

definition with_edge :: "RelationType \<Rightarrow> string \<Rightarrow> string \<Rightarrow> (string \<times> string) set \<Rightarrow> (string \<times> string) set" where
  "with_edge t a b E = (if t = RelationTypeBlocks then insert (a, b) E else E)"

fun admitted ::
  "db \<Rightarrow> (string \<Rightarrow> string option) \<Rightarrow> (string \<times> string) set \<Rightarrow> (RelationType \<times> string \<times> string) set \<Rightarrow>
     PlannedRelation list \<Rightarrow> bool" where
  "admitted d N E ks [] = True"
| "admitted d N E ks (r # rs) =
     (case (N (plr_source r), N (plr_target r)) of
        (Some a, Some b) \<Rightarrow>
          admissible d E ks (plr_type r) a b \<and>
          admitted d N (with_edge (plr_type r) a b E)
            (insert (plr_type r, CanonicalRelationEndpoints (plr_type r) a b) ks) rs
      | _ \<Rightarrow> False)"

lemma edges_of_upd: "edges_of (f(a := f a @ [b])) = insert (a, b) (edges_of f)"
  by (auto simp: edges_of_def split: if_splits)

lemma finite_reach:
  assumes "finite E"
  shows "finite (E\<^sup>* `` {a})"
proof -
  have "E\<^sup>* `` {a} \<subseteq> insert a (Range E)" by (auto elim: rtranclE)
  then show ?thesis by (rule finite_subset) (simp add: assms finite_Range)
qed

lemma same_more:
  fixes s :: RelationScan
  assumes "PlanScan.more s' = PlanScan.more s"
  shows "rsc_edges s' = rsc_edges s \<and> rsc_proposed s' = rsc_proposed s"
  using assms by (cases s, cases s') simp

lemma scan_ok_rsc [simp]:
  "scan_ok env plan d (s\<lparr>rsc_edges := E\<rparr>) = scan_ok env plan d s"
  "scan_ok env plan d (s\<lparr>rsc_proposed := ks\<rparr>) = scan_ok env plan d s"
  by (simp_all add: scan_ok_def)

lemma complain_rsc [simp]:
  "rsc_edges (complain i f e s) = rsc_edges s" "rsc_proposed (complain i f e s) = rsc_proposed s"
  by (simp_all add: complain_def)

lemma check_relation_run:
  fixes s :: RelationScan
  assumes ok: "schema_ok d" and scan: "scan_ok env plan d s" and fin: "finite (edges_of (rsc_edges s))"
  obtains s' where "check_plan_relation env d (i, r) s = Inr s'" "scan_ok env plan d s'" "finite (edges_of (rsc_edges s'))"
    "ps_details s \<noteq> [] \<longrightarrow> ps_details s' \<noteq> []"
    "ps_details s = [] \<longrightarrow>
      (case (plan_name env plan d (plr_source r), plan_name env plan d (plr_target r)) of
         (Some a, Some b) \<Rightarrow>
           (ps_details s' = [] \<longleftrightarrow> admissible d (edges_of (rsc_edges s)) (set (rsc_proposed s)) (plr_type r) a b) \<and>
           (ps_details s' = [] \<longrightarrow> edges_of (rsc_edges s') = with_edge (plr_type r) a b (edges_of (rsc_edges s)) \<and>
             set (rsc_proposed s') = insert (plr_type r, CanonicalRelationEndpoints (plr_type r) a b) (set (rsc_proposed s)))
       | _ \<Rightarrow> ps_details s' \<noteq> [])"
proof -
  let ?src = "member_path ''relations'' i @ ''.source_ref''" and ?tgt = "member_path ''relations'' i @ ''.target_ref''"
  obtain x k1 s1 where r1: "resolve_ref env d (plr_source r) i ?src s = Inr (x, k1, s1)" "scan_ok env plan d s1"
      "PlanScan.more s1 = PlanScan.more s"
      "case plan_name env plan d (plr_source r) of
        Some y \<Rightarrow> x = y \<and> ps_details s1 = ps_details s \<and> k1 = (ps_refs s (plr_source r) \<noteq> None) \<and> ps_refs s1 = (ps_refs s)(plr_source r \<mapsto> y)
      | None \<Rightarrow> x = '''' \<and> ps_details s1 \<noteq> [] \<and> ps_refs s1 = ps_refs s"
    by (rule resolve_ref_run [OF scan])
  obtain y k2 s2 where r2: "resolve_ref env d (plr_target r) i ?tgt s1 = Inr (y, k2, s2)" "scan_ok env plan d s2"
      "PlanScan.more s2 = PlanScan.more s1"
      "case plan_name env plan d (plr_target r) of
        Some z \<Rightarrow> y = z \<and> ps_details s2 = ps_details s1 \<and> k2 = (ps_refs s1 (plr_target r) \<noteq> None) \<and> ps_refs s2 = (ps_refs s1)(plr_target r \<mapsto> z)
      | None \<Rightarrow> y = '''' \<and> ps_details s2 \<noteq> [] \<and> ps_refs s2 = ps_refs s1"
    by (rule resolve_ref_run [OF r1(2)])
  have kept: "rsc_edges s2 = rsc_edges s" "rsc_proposed s2 = rsc_proposed s"
    using same_more [OF r1(3)] same_more [OF r2(3)] by simp_all
  have details: "ps_details s2 = [] \<longleftrightarrow> ps_details s = [] \<and> plan_name env plan d (plr_source r) \<noteq> None \<and>
      plan_name env plan d (plr_target r) \<noteq> None"
    using r1(4) r2(4) by (auto split: option.splits)
  show ?thesis
  proof (cases "plan_name env plan d (plr_source r) = None \<or> plan_name env plan d (plr_target r) = None")
    case True
    then have "x = '''' \<or> y = ''''" using r1(4) r2(4) by auto
    then have run: "check_plan_relation env d (i, r) s = Inr s2" using r1(1) r2(1) by (simp add: check_plan_relation_def)
    have bad: "ps_details s2 \<noteq> []" using details True by auto
    show ?thesis
      by (rule that [OF run r2(2)]) (use fin kept bad True in \<open>auto split: option.splits\<close>)
  next
    case False
    then obtain a b where ab: "plan_name env plan d (plr_source r) = Some a" "plan_name env plan d (plr_target r) = Some b" by auto
    then have xy: "x = a" "y = b" "a \<noteq> ''''" "b \<noteq> ''''"
      using r1(4) r2(4) plan_name_nonempty [OF ok] by auto
    have same: "ps_details s2 = [] \<longleftrightarrow> ps_details s = []" using details ab by simp
    let ?t = "plr_type r" and ?ends = "CanonicalRelationEndpoints (plr_type r) a b"
    let ?a = "fst ?ends" and ?b = "snd ?ends"
    let ?s3 = "s2\<lparr>rsc_proposed := (?t, ?a, ?b) # rsc_proposed s2\<rparr>"
    have path: "BlocksPathExists q p (rsc_edges s) = Some ((q, p) \<in> (edges_of (rsc_edges s))\<^sup>+)" for p q
      by (rule BlocksPathExists_correct [OF finite_reach [OF fin]])
    have run: "check_plan_relation env d (i, r) s = Inr (
        if a = b then complain i ?tgt ''SELF_RELATION'' s2
        else if (?t, ?a, ?b) \<in> set (rsc_proposed s) then complain i (member_path ''relations'' i) ''DUPLICATE_RELATION'' s2
        else if stored_relation d (?t, ?a, ?b) then complain i (member_path ''relations'' i) ''DUPLICATE_RELATION'' ?s3
        else if ?t = RelationTypeBlocks then
          (if (?b, ?a) \<in> (edges_of (rsc_edges s))\<^sup>+ then complain i (member_path ''relations'' i @ ''.type'') CodeBlocksCycle ?s3
           else ?s3\<lparr>rsc_edges := (rsc_edges s)(?a := rsc_edges s ?a @ [?b])\<rparr>)
        else ?s3)"
      using r1(1) r2(1) xy kept
      by (simp add: check_plan_relation_def Let_def path stored_relation_def CanonicalRelationEndpoints_def)
    have ends: "?t = RelationTypeBlocks \<Longrightarrow> ?a = a \<and> ?b = b" by (simp add: CanonicalRelationEndpoints_def)
    have pair: "(?t, ?ends) = (?t, ?a, ?b)" by simp
    show ?thesis
    proof (rule that [OF run])
    qed (use r2(2) fin kept same ab ends in
        \<open>auto simp: admissible_def with_edge_def pair edges_of_upd simp del: prod.collapse\<close>)
  qed
qed



lemma check_relations_run:
  fixes s :: RelationScan
  assumes ok: "schema_ok d" and s: "scan_ok env plan d s" "finite (edges_of (rsc_edges s))"
  shows "\<exists>s'. fold_result (check_plan_relation env d) (enumerate n rs) s = Inr s' \<and> scan_ok env plan d s' \<and>
    (ps_details s' = [] \<longleftrightarrow> ps_details s = [] \<and>
      admitted d (plan_name env plan d) (edges_of (rsc_edges s)) (set (rsc_proposed s)) rs)"
  using s
proof (induction rs arbitrary: n s)
  case (Cons r rs)
  let ?N = "plan_name env plan d"
  obtain s1 where s1: "check_plan_relation env d (n, r) s = Inr s1" "scan_ok env plan d s1" "finite (edges_of (rsc_edges s1))"
      and later: "ps_details s \<noteq> [] \<longrightarrow> ps_details s1 \<noteq> []"
      and now: "ps_details s = [] \<longrightarrow>
        (case (?N (plr_source r), ?N (plr_target r)) of
           (Some a, Some b) \<Rightarrow>
             (ps_details s1 = [] \<longleftrightarrow> admissible d (edges_of (rsc_edges s)) (set (rsc_proposed s)) (plr_type r) a b) \<and>
             (ps_details s1 = [] \<longrightarrow> edges_of (rsc_edges s1) = with_edge (plr_type r) a b (edges_of (rsc_edges s)) \<and>
               set (rsc_proposed s1) = insert (plr_type r, CanonicalRelationEndpoints (plr_type r) a b) (set (rsc_proposed s)))
         | _ \<Rightarrow> ps_details s1 \<noteq> [])"
    by (rule check_relation_run [OF ok Cons.prems, of n r])
  obtain s2 where s2: "fold_result (check_plan_relation env d) (enumerate (Suc n) rs) s1 = Inr s2" "scan_ok env plan d s2"
      "ps_details s2 = [] \<longleftrightarrow> ps_details s1 = [] \<and> admitted d ?N (edges_of (rsc_edges s1)) (set (rsc_proposed s1)) rs"
    using Cons.IH [OF s1(2,3)] by blast
  have "ps_details s2 = [] \<longleftrightarrow> ps_details s = [] \<and> admitted d ?N (edges_of (rsc_edges s)) (set (rsc_proposed s)) (r # rs)"
  proof (cases "ps_details s = []")
    case True
    then show ?thesis using mp [OF now True] s2(3) by (auto split: option.splits)
  qed (use later s2(3) in simp)
  then show ?case using s1 s2(1,2) by (intro exI [of _ s2]) simp
qed simp

section \<open>The whole plan\<close>

lemma check_decisions_run:
  fixes s :: RelationScan
  assumes "scan_ok env plan d s"
  shows "\<exists>s'. fold_result (check_plan_decision env d) (enumerate n ps) s = Inr s' \<and>
    (ps_details s' = [] \<longleftrightarrow> ps_details s = [] \<and>
      (\<forall>p \<in> set ps. \<forall>v. pld_issue p = Some v \<longrightarrow> plan_name env plan d v \<noteq> None))"
  using assms
proof (induction ps arbitrary: n s)
  case (Cons p ps)
  have "\<exists>s1. check_plan_decision env d (n, p) s = Inr s1 \<and> scan_ok env plan d s1 \<and>
    (ps_details s1 = [] \<longleftrightarrow> ps_details s = [] \<and> (\<forall>v. pld_issue p = Some v \<longrightarrow> plan_name env plan d v \<noteq> None))"
  proof (cases "pld_issue p")
    case None
    then show ?thesis using Cons.prems by (simp add: check_plan_decision_def)
  next
    case (Some v)
    obtain x known s1 where "resolve_ref env d v n (member_path ''decisions'' n @ ''.issue_ref'') s = Inr (x, known, s1)"
        "scan_ok env plan d s1"
        "case plan_name env plan d v of
          Some y \<Rightarrow> x = y \<and> ps_details s1 = ps_details s \<and> known = (ps_refs s v \<noteq> None) \<and> ps_refs s1 = (ps_refs s)(v \<mapsto> y)
        | None \<Rightarrow> x = '''' \<and> ps_details s1 \<noteq> [] \<and> ps_refs s1 = ps_refs s"
      by (rule resolve_ref_run [OF Cons.prems])
    then show ?thesis using Some by (intro exI [of _ s1]) (auto simp: check_plan_decision_def split: option.splits)
  qed
  then obtain s1 where s1: "check_plan_decision env d (n, p) s = Inr s1" "scan_ok env plan d s1"
      "ps_details s1 = [] \<longleftrightarrow> ps_details s = [] \<and> (\<forall>v. pld_issue p = Some v \<longrightarrow> plan_name env plan d v \<noteq> None)"
    by blast
  obtain s2 where "fold_result (check_plan_decision env d) (enumerate (Suc n) ps) s1 = Inr s2"
      "ps_details s2 = [] \<longleftrightarrow> ps_details s1 = [] \<and>
        (\<forall>p \<in> set ps. \<forall>v. pld_issue p = Some v \<longrightarrow> plan_name env plan d v \<noteq> None)"
    using Cons.IH [OF s1(2)] by blast
  then show ?case using s1 by (intro exI [of _ s2]) auto
qed simp

lemma edges_of_fold:
  "edges_of (foldl (\<lambda>edges (a, b). edges(a := edges a @ [b])) f es) = edges_of f \<union> set es"
  by (induction es arbitrary: f) (auto simp: edges_of_upd)

definition plan_start_edges :: "IssuePlan \<Rightarrow> db \<Rightarrow> (string \<times> string) set" where
  "plan_start_edges plan d =
     (if list_ex (\<lambda>r. plr_type r = RelationTypeBlocks) (pl_relations plan) then blocks_edges (db_relations d) else {})"

lemma edges_of_plan_edges: "edges_of (plan_edges d plan) = plan_start_edges plan d"
proof -
  have "edges_of (\<lambda>_ :: string. []) = {}" by (simp add: edges_of_def)
  moreover have "set (loadBlocksEdges d) = blocks_edges (db_relations d)"
    by (auto simp: loadBlocksEdges_def blocks_edges_def)
  ultimately show ?thesis by (simp add: plan_edges_def plan_start_edges_def edges_of_fold)
qed

lemma SortDetails_Nil: "SortDetails ds = [] \<longleftrightarrow> ds = []"
  using set_SortDetails [of ds] by (metis set_empty)

lemma validate_run:
  assumes ok: "schema_ok d"
  shows "\<exists>ds. validatePlanAgainstStore env plan d = Inr ds \<and>
    (ds = [] \<longleftrightarrow> (\<forall>p \<in> set (pl_issues plan). plan_parent_ok env plan d p) \<and>
      admitted d (plan_name env plan d) (plan_start_edges plan d) {} (pl_relations plan) \<and>
      (\<forall>p \<in> set (pl_decisions plan). \<forall>v. pld_issue p = Some v \<longrightarrow> plan_name env plan d v \<noteq> None))"
proof -
  let ?s0 = "\<lparr>ps_refs = local_refs plan, ps_details = []\<rparr> :: PlanScan"
  have "scan_ok env plan d ?s0" by (simp add: scan_ok_def plan_name_def)
  then have "parents_scanned env plan d ?s0" by (auto simp: parents_scanned_def)
  then obtain s1 where s1: "fold_result (check_parent env d plan) (enumerate 0 (pl_issues plan)) ?s0 = Inr s1"
      "parents_scanned env plan d s1" "ps_details s1 = [] \<longleftrightarrow> (\<forall>p \<in> set (pl_issues plan). plan_parent_ok env plan d p)"
    using check_parents_run [OF ok] by fastforce
  let ?t = "PlanScan.extend s1 \<lparr>rsc_edges = plan_edges d plan, rsc_proposed = []\<rparr>"
  have t: "scan_ok env plan d ?t" "rsc_edges ?t = plan_edges d plan" "rsc_proposed ?t = []" "ps_details ?t = ps_details s1"
    using s1(2) by (simp_all add: parents_scanned_def scan_ok_def PlanScan.defs)
  have fin: "finite (plan_start_edges plan d)" by (simp add: plan_start_edges_def blocks_edges_def)
  obtain s2 where s2: "fold_result (check_plan_relation env d) (enumerate 0 (pl_relations plan)) ?t = Inr s2" "scan_ok env plan d s2"
      "ps_details s2 = [] \<longleftrightarrow> ps_details s1 = [] \<and>
        admitted d (plan_name env plan d) (plan_start_edges plan d) {} (pl_relations plan)"
    using check_relations_run [OF ok t(1), of 0 "pl_relations plan"] fin by (auto simp: t edges_of_plan_edges)
  obtain s3 where "fold_result (check_plan_decision env d) (enumerate 0 (pl_decisions plan)) s2 = Inr s3"
      "ps_details s3 = [] \<longleftrightarrow> ps_details s2 = [] \<and>
        (\<forall>p \<in> set (pl_decisions plan). \<forall>v. pld_issue p = Some v \<longrightarrow> plan_name env plan d v \<noteq> None)"
    using check_decisions_run [OF s2(2)] by blast
  then show ?thesis using s1 s2
    by (intro exI [of _ "SortDetails (ps_details s3)"]) (simp add: validatePlanAgainstStore_def SortDetails_Nil)
qed

end
