(* ===== verification/PlanSteps.thy ===== *)
theory PlanSteps
  imports IssueSteps PlanCheck
begin

text \<open>
  Applying a validated plan carries every predicate that obeys the laws of \<open>system_invariant\<close>. The
  issues a plan adds are followed by their shape; the relations by a map from the ids that are written
  to the names that were validated, along which paths carry over.
\<close>

section \<open>The shape of the issues table\<close>

definition issue_shape :: "Issue \<Rightarrow> string \<times> int \<times> Type \<times> time option" where
  "issue_shape i = (IID i, SequenceNo i, IType i, ArchivedAt i)"

definition issue_shapes :: "db \<Rightarrow> (string \<times> int \<times> Type \<times> time option) list" where
  "issue_shapes d = map issue_shape (db_issues d)"

definition shape_at :: "IssueIdentifier \<Rightarrow> string \<times> int \<times> Type \<times> time option \<Rightarrow> bool" where
  "shape_at ident = (\<lambda>(i, n, _, _). case id_kind ident of
     IssueIdentifierInternalID \<Rightarrow> i = id_value ident | IssueIdentifierDisplayID \<Rightarrow> n = id_sequence ident)"

lemma shape_ids: "map fst (issue_shapes d) = map IID (db_issues d)"
  by (simp add: issue_shapes_def issue_shape_def comp_def)

lemma shape_epic: "live_epic d q \<longleftrightarrow> (\<exists>n. (q, n, TypeEpic, None) \<in> set (issue_shapes d))"
  by (auto simp: live_epic_def issue_shapes_def issue_shape_def image_iff) metis

lemma find_shape: "map_option issue_shape (find_issue d ident) = find (shape_at ident) (issue_shapes d)"
proof -
  have "map_option issue_shape (find (\<lambda>x. shape_at ident (issue_shape x)) xs) = find (shape_at ident) (map issue_shape xs)"
    for xs by (induction xs) simp_all
  then show ?thesis
    by (cases "id_kind ident") (simp_all add: find_issue_def issue_shapes_def shape_at_def issue_shape_def)
qed

lemma find_grown:
  assumes "issue_shapes d = issue_shapes d0 @ zs" and "find_issue d0 ident = Some i"
  shows "\<exists>j. find_issue d ident = Some j \<and> issue_shape j = issue_shape i"
proof -
  have "find q (xs @ ys) = Some x" if "find q xs = Some x" for q xs ys and x :: "string \<times> int \<times> Type \<times> time option"
    using that by (induction xs) auto
  moreover have "find (shape_at ident) (issue_shapes d0) = Some (issue_shape i)" using find_shape [of d0 ident] assms(2) by simp
  ultimately have "find (shape_at ident) (issue_shapes d) = Some (issue_shape i)" by (simp add: assms(1))
  then show ?thesis using find_shape [of d ident] by (cases "find_issue d ident") simp_all
qed

text \<open>A transaction that leaves shape and relations alone.\<close>

definition frame_is :: "(string \<times> int \<times> Type \<times> time option) list \<Rightarrow> IssueRelation list \<Rightarrow> db \<Rightarrow> bool" where
  "frame_is zs rs d \<longleftrightarrow> issue_shapes d = zs \<and> db_relations d = rs"

lemma frame_exec:
  "(\<And>d. issue_shapes (f d) = issue_shapes d \<and> db_relations (f d) = db_relations d) \<Longrightarrow> keeps (frame_is zs rs) (exec f)"
  by (rule keeps_exec) (simp add: frame_is_def)

lemma frame_labels: "keeps (frame_is zs rs) (resolveIssueLabels env names b ids now)"
  unfolding resolveIssueLabels_def resolve_label_def insert_label_def
  by (intro keeps_intro frame_exec) (simp_all add: issue_shapes_def)

lemma frame_replace: "keeps (frame_is zs rs) (replaceIssueLabels i ls)"
  unfolding replaceIssueLabels_def
  by (rule frame_exec) (simp add: issue_shapes_def update_where_def issue_shape_def)

lemma frame_event: "keeps (frame_is zs rs) (append_event issue ty session attempt payload now source)"
  unfolding append_event_def by (rule frame_exec) (simp add: issue_shapes_def)

lemma frame_allocate: "keeps (frame_is zs rs) (allocate_number now)"
  unfolding allocate_number_def by (intro keeps_intro frame_exec) (simp add: issue_shapes_def)

lemma pure_resolve [keeps_intro]: "pure_tx (resolve_id env c v)" "pure_tx (resolve_optional env c r)"
proof -
  show id: "pure_tx (resolve_id env c v)" for v unfolding resolve_id_def by (intro keeps_intro)
  show "pure_tx (resolve_optional env c r)" unfolding resolve_optional_def by (intro keeps_intro id)
qed

lemma pure_gate: "pure_tx (create_gate input)"
  unfolding create_gate_def by (intro keeps_intro pure_live_gate)

section \<open>Issues\<close>

lemma planned_issue_shape:
  assumes "apply_planned_issue env c (p, i, ls) d = Inr (d', x)"
  shows "\<exists>n. issue_shapes d' = issue_shapes d @ [(i, n, pli_type p, None)] \<and> db_relations d' = db_relations d \<and> schema_ok d'"
proof -
  obtain u d1 where u: "create_gate (planned_input p) d = Inr (d1, u)"
    using assms by (auto simp: apply_planned_issue_def tx_then_Inr)
  have d1: "d1 = d" by (rule pure_txD [OF pure_gate u])
  obtain parent d2 where parent: "resolve_optional env c (pli_parent p) d = Inr (d2, parent)"
    using assms u d1 by (auto simp: apply_planned_issue_def tx_then_Inr)
  have d2: "d2 = d" by (rule pure_txD [OF pure_resolve(2) parent])
  obtain n d3 where n: "allocate_number (zc_now c) d = Inr (d3, n)"
    using assms u parent d1 d2 by (auto simp: apply_planned_issue_def tx_then_Inr)
  have d3: "frame_is (issue_shapes d) (db_relations d) d3"
    using keepsD [OF frame_allocate n] by (simp add: frame_is_def)
  let ?row = "created_issue i (planned_input p) n parent (zc_now c)"
  let ?d4 = "d3\<lparr>db_issues := db_issues d3 @ [?row]\<rparr>"
  let ?zs = "issue_shapes d @ [(i, n, pli_type p, None)]"
  obtain labels d5 d6 where l: "resolveIssueLabels env (pli_labels p) (pli_create_missing p) ls (zc_now c) ?d4 = Inr (d5, labels)"
      "replaceIssueLabels i labels d5 = Inr (d6, ())"
      "append_event (Some i) ''issue_created'' None None
        (PayloadIssueCreated n (pli_type p) (pli_status p) (pli_priority p) parent (map lb_name labels)) (zc_now c) SourceIssue d6 = Inr (d', ())"
    using assms u parent n d1 d2 by (auto simp: apply_planned_issue_def tx_then_Inr exec_Inr Let_def tx_return_Inr)
  have "frame_is ?zs (db_relations d) ?d4"
    using d3 by (simp add: frame_is_def issue_shapes_def issue_shape_def created_issue_def planned_input_def)
  then have "frame_is ?zs (db_relations d) d'"
    using keepsD [OF frame_event l(3)] keepsD [OF frame_replace l(2)] keepsD [OF frame_labels l(1)] by blast
  moreover have "schema_ok d'" using l(3) by (auto simp: append_event_Inr Let_def)
  ultimately show ?thesis by (auto simp: frame_is_def)
qed

definition added_shape :: "PlannedIssue \<times> string \<Rightarrow> int \<Rightarrow> string \<times> int \<times> Type \<times> time option" where
  "added_shape = (\<lambda>(p, i) n. (i, n, pli_type p, None))"

text \<open>The store after the issues \<open>zs\<close> have been added to \<open>d0\<close>.\<close>

definition grown :: "db \<Rightarrow> (PlannedIssue \<times> string) list \<Rightarrow> db \<Rightarrow> bool" where
  "grown d0 zs d \<longleftrightarrow> (\<exists>ns. length ns = length zs \<and> issue_shapes d = issue_shapes d0 @ map2 added_shape zs ns) \<and>
     db_relations d = db_relations d0"

lemma grown_step:
  assumes "grown d0 zs d" and "apply_planned_issue env c (p, i, ls) d = Inr (d', x)"
  shows "grown d0 (zs @ [(p, i)]) d' \<and> schema_ok d'"
proof -
  obtain ns where ns: "length ns = length zs" "issue_shapes d = issue_shapes d0 @ map2 added_shape zs ns" "db_relations d = db_relations d0"
    using assms(1) by (auto simp: grown_def)
  obtain n where "issue_shapes d' = issue_shapes d @ [(i, n, pli_type p, None)]" "db_relations d' = db_relations d" "schema_ok d'"
    using planned_issue_shape [OF assms(2)] by blast
  then show ?thesis unfolding grown_def using ns by (auto simp: added_shape_def intro!: exI [of _ "ns @ [n]"])
qed

lemma grown_issues:
  assumes "grown d0 zs d" and "schema_ok d" and "tx_map (apply_planned_issue env c) todo d = Inr (d', xs)"
  shows "grown d0 (zs @ map (\<lambda>(p, i, _). (p, i)) todo) d' \<and> schema_ok d'"
  using assms
proof (induction todo arbitrary: zs d xs)
  case (Cons t todo)
  obtain p i ls where t: "t = (p, i, ls)" by (cases t)
  obtain d1 x ys where run: "apply_planned_issue env c (p, i, ls) d = Inr (d1, x)" "tx_map (apply_planned_issue env c) todo d1 = Inr (d', ys)"
    using Cons.prems(3) t by (auto simp: tx_then_Inr tx_return_Inr)
  from grown_step [OF Cons.prems(1) run(1)] have "grown d0 (zs @ [(p, i)]) d1" "schema_ok d1" by simp_all
  from Cons.IH [OF this run(2)] show ?case by (simp add: t)
qed (simp add: tx_return_Inr)

lemma grown_ids: "grown d0 zs d \<Longrightarrow> map IID (db_issues d) = map IID (db_issues d0) @ map snd zs"
proof -
  assume "grown d0 zs d"
  then obtain ns where ns: "length ns = length zs" "issue_shapes d = issue_shapes d0 @ map2 added_shape zs ns" by (auto simp: grown_def)
  have "map fst (map2 added_shape zs ns) = map snd zs"
    using ns(1) by (induction zs ns rule: list_induct2') (auto simp: added_shape_def)
  then show ?thesis using ns(2) by (metis shape_ids map_append)
qed

lemma grown_fresh:
  "grown d0 zs d \<Longrightarrow> schema_ok d \<Longrightarrow> distinct (map snd zs) \<and> set (map snd zs) \<inter> set (map IID (db_issues d0)) = {}"
  using grown_ids [of d0 zs d] by (auto simp: schema_ok_def issues_ok_def)


section \<open>Parents\<close>

text \<open>What the command adds to a store, and that it fits: one id per issue, none used yet.\<close>

abbreviation plan_rows :: "ApplyIssuePlanCommand \<Rightarrow> (PlannedIssue \<times> string) list" where
  "plan_rows c \<equiv> zip (pl_issues (zc_plan c)) (zc_issues c)"

definition plan_fits :: "ApplyIssuePlanCommand \<Rightarrow> db \<Rightarrow> bool" where
  "plan_fits c d0 \<longleftrightarrow> length (zc_issues c) = length (pl_issues (zc_plan c)) \<and> distinct (zc_issues c) \<and>
     set (zc_issues c) \<inter> set (map IID (db_issues d0)) = {}"

lemma local_ids_mem:
  assumes "local_ids c v = Some q"
  shows "v \<noteq> '''' \<and> (\<exists>p. (p, q) \<in> set (plan_rows c) \<and> pli_ref p = v)"
  using map_of_SomeD [OF assms [unfolded local_ids_def]] by (auto simp: zip_map1)

lemma local_ids_refs:
  assumes "length (zc_issues c) = length (pl_issues (zc_plan c))"
  shows "local_ids c v = None \<longleftrightarrow> local_refs (zc_plan c) v = None"
proof -
  have "local_ids c v = None \<longleftrightarrow> v \<notin> fst ` set (filter (\<lambda>x. fst x \<noteq> '''') (zip (map pli_ref (pl_issues (zc_plan c))) (zc_issues c)))"
    by (simp add: local_ids_def map_of_eq_None_iff)
  also have "\<dots> \<longleftrightarrow> v = '''' \<or> v \<notin> set (map fst (zip (map pli_ref (pl_issues (zc_plan c))) (zc_issues c)))" by force
  also have "\<dots> \<longleftrightarrow> local_refs (zc_plan c) v = None" using assms by (auto simp: local_refs_def)
  finally show ?thesis .
qed

lemma row_unique:
  assumes "plan_fits c d0" and "(p, q) \<in> set (plan_rows c)" and "(p', q) \<in> set (plan_rows c)"
  shows "p' = p"
  using assms by (auto simp: plan_fits_def dest: distinct_key_eq [where g = snd and t = "plan_rows c", rotated])

text \<open>An id that is there by now is that of a live epic: one the plan has added, or one the store had.\<close>

definition parent_known :: "string option \<Rightarrow> db \<Rightarrow> bool" where
  "parent_known parent d \<longleftrightarrow> (\<forall>q. parent = Some q \<longrightarrow> q \<in> set (map IID (db_issues d)) \<longrightarrow> live_epic d q)"

lemma plan_name_find:
  assumes "local_refs plan v = None" and "plan_name env plan d0 v = Some x"
  obtains ident i where "ParseIssueIdentifier env v = Inr ident" "find_issue d0 ident = Some i" "ArchivedAt i = None" "x = IID i"
  using assms by (auto simp: plan_name_def split: sum.splits option.splits if_splits)

lemma resolve_outside:
  assumes "length (zc_issues c) = length (pl_issues (zc_plan c))" and "local_refs (zc_plan c) v = None"
    and "plan_name env (zc_plan c) d0 v = Some x" and "issue_shapes d = issue_shapes d0 @ zs"
  shows "resolve_id env c v d = Inr (d, x)"
proof -
  obtain ident i where i: "ParseIssueIdentifier env v = Inr ident" "find_issue d0 ident = Some i" "x = IID i"
    by (rule plan_name_find [OF assms(2,3)])
  obtain j where "find_issue d ident = Some j" "issue_shape j = issue_shape i" using find_grown [OF assms(4) i(2)] by blast
  then have "loadIssueForMutation ident d = Inr (d, j)" "IID j = x" using i(3) by (simp_all add: load_find issue_shape_def)
  moreover have "local_ids c v = None" using assms(1,2) local_ids_refs by blast
  ultimately show ?thesis using i(1) by (simp add: resolve_id_def tx_then_def tx_lift_def tx_return_def)
qed

lemma parent_resolved:
  assumes fits: "plan_fits c d0" and ok: "schema_ok d0" and p: "plan_parent_ok env (zc_plan c) d0 p"
    and g: "grown d0 zs d" and zs: "set zs \<subseteq> set (plan_rows c)"
    and run: "resolve_optional env c (pli_parent p) d = Inr (d', parent)"
  shows "d' = d \<and> parent_known parent d"
proof (cases "pli_parent p")
  case None
  then show ?thesis using run by (simp add: resolve_optional_def tx_return_Inr parent_known_def)
next
  case (Some v)
  have len: "length (zc_issues c) = length (pl_issues (zc_plan c))" using fits by (simp add: plan_fits_def)
  obtain ns where ns: "length ns = length zs" "issue_shapes d = issue_shapes d0 @ map2 added_shape zs ns" using g by (auto simp: grown_def)
  have d: "d' = d" by (rule pure_txD [OF pure_resolve(2) run])
  have epic: "named_epic env (zc_plan c) d0 v" and named: "plan_name env (zc_plan c) d0 v \<noteq> None"
    using p Some by (simp_all add: plan_parent_ok_def)
  obtain q where q: "resolve_id env c v d = Inr (d, q)" "parent = Some q"
    using run Some d by (auto simp: resolve_optional_def tx_then_Inr tx_return_Inr dest: pure_txD [OF pure_resolve(1)])
  have "live_epic d q" if there: "q \<in> set (map IID (db_issues d))"
  proof (cases "local_ids c v")
    case None
    then have l: "local_refs (zc_plan c) v = None" using local_ids_refs [OF len] by simp
    obtain x where x: "plan_name env (zc_plan c) d0 v = Some x" using named by blast
    then have "x = q" using resolve_outside [OF len l x ns(2)] q(1) by simp
    then obtain i where "i \<in> set (db_issues d0)" "IID i = q" "IType i = TypeEpic" "ArchivedAt i = None"
      using epic l x by (auto simp: named_epic_def)
    then have "live_epic d0 q" by (auto simp: live_epic_def)
    then show ?thesis using ns(2) by (auto simp: shape_epic)
  next
    case (Some z)
    then have z: "z = q" using q(1) by (simp add: resolve_id_def tx_return_Inr)
    obtain p' where p': "(p', q) \<in> set (plan_rows c)" "pli_ref p' = v" using local_ids_mem [OF Some] z by blast
    have "q \<in> set (zc_issues c)" using p'(1) by (auto dest: set_zip_rightD)
    then have "q \<notin> set (map IID (db_issues d0))" using fits by (auto simp: plan_fits_def)
    then have "q \<in> set (map snd zs)" using there grown_ids [OF g] by auto
    then obtain p'' where p'': "(p'', q) \<in> set zs" by auto
    then have "p'' = p'" using row_unique [OF fits p'(1)] zs by blast
    moreover have "local_refs (zc_plan c) v \<noteq> None" using local_ids_refs [OF len, of v] Some by simp
    then have "pli_type p' = TypeEpic" using epic p' by (auto simp: named_epic_def dest: set_zip_leftD)
    ultimately obtain k where k: "k < length zs" "zs ! k = (p', q)" using p'' by (auto simp: in_set_conv_nth)
    then have "map2 added_shape zs ns ! k = (q, ns ! k, TypeEpic, None)" "k < length (map2 added_shape zs ns)"
      using ns(1) \<open>pli_type p' = TypeEpic\<close> by (simp_all add: added_shape_def)
    then have "(q, ns ! k, TypeEpic, None) \<in> set (map2 added_shape zs ns)" by (metis nth_mem)
    then show ?thesis unfolding shape_epic ns(2) set_append by blast
  qed
  then show ?thesis using d q(2) by (simp add: parent_known_def)
qed

context system_invariant
begin

lemma insert_planned:
  assumes P: "P d0" and project: "db_project d0 = Some pr" and n: "n = pj_next pr"
    and ok: "schema_ok (numbered_db pr now d0\<lparr>db_issues := db_issues d0 @ [created_issue i input n parent at]\<rparr>)"
    and known: "parent_known parent d0"
  shows "P (numbered_db pr now d0\<lparr>db_issues := db_issues d0 @ [created_issue i input n parent at]\<rparr>)"
proof -
  let ?d = "numbered_db pr now d0\<lparr>db_issues := db_issues d0 @ [created_issue i input n parent at]\<rparr>"
  have "live_epic d0 q" if q: "parent = Some q" for q
  proof -
    have "refers (map IID (db_issues ?d)) parent" "issue_row_ok (created_issue i input n parent at)"
      using ok by (simp_all add: schema_ok_def issues_ok_def created_issue_def)
    then have "q \<in> set (map IID (db_issues d0))" using q by (auto simp: created_issue_def issue_row_ok_def)
    then show ?thesis using known q by (simp add: parent_known_def)
  qed
  then have "new_issue_ok d0 pr (created_issue i input n parent at)" using project n by (simp add: new_issue_ok_def created_issue_def)
  then show ?thesis using new_issue [OF P _ refl ok] by simp
qed

lemma planned_issue_kept:
  assumes "P d" and "plan_fits c d0" and "schema_ok d0" and "plan_parent_ok env (zc_plan c) d0 p"
    and "grown d0 zs d" and "set zs \<subseteq> set (plan_rows c)"
    and run: "apply_planned_issue env c (p, i, ls) d = Inr (d', x)"
  shows "P d'"
proof -
  obtain u d1 where u: "create_gate (planned_input p) d = Inr (d1, u)"
    using run by (auto simp: apply_planned_issue_def tx_then_Inr)
  have d1: "d1 = d" by (rule pure_txD [OF pure_gate u])
  obtain parent d2 where parent: "resolve_optional env c (pli_parent p) d = Inr (d2, parent)"
    using run u d1 by (auto simp: apply_planned_issue_def tx_then_Inr)
  have d2: "d2 = d" and known: "parent_known parent d"
    using parent_resolved [OF assms(2-6) parent] by simp_all
  obtain n d3 where n: "allocate_number (zc_now c) d = Inr (d3, n)"
    using run u parent d1 d2 by (auto simp: apply_planned_issue_def tx_then_Inr)
  then obtain pr where pr: "db_project d = Some pr" "d3 = numbered_db pr (zc_now c) d" "n = pj_next pr"
    by (cases "db_project d") (auto simp: allocate_number_def tx_simps numbered_db_def)
  let ?d4 = "d3\<lparr>db_issues := db_issues d3 @ [created_issue i (planned_input p) n parent (zc_now c)]\<rparr>"
  obtain labels d5 d6 where ok: "schema_ok ?d4"
    and l: "resolveIssueLabels env (pli_labels p) (pli_create_missing p) ls (zc_now c) ?d4 = Inr (d5, labels)"
      "replaceIssueLabels i labels d5 = Inr (d6, ())"
      "append_event (Some i) ''issue_created'' None None
        (PayloadIssueCreated n (pli_type p) (pli_status p) (pli_priority p) parent (map lb_name labels)) (zc_now c) SourceIssue d6 = Inr (d', ())"
    using run u parent n d1 d2 by (auto simp: apply_planned_issue_def tx_then_Inr exec_Inr Let_def tx_return_Inr)
  have "P ?d4" using insert_planned [OF assms(1) pr(1,3) _ known] ok by (simp add: pr(2))
  then show "P d'"
    using keepsD [OF keeps_event l(3)] keepsD [OF keeps_replace_labels l(2)] keepsD [OF keeps_resolve_labels l(1)] by blast
qed

lemma planned_issues_kept:
  assumes "P d" and fits: "plan_fits c d0" "schema_ok d0" and parents: "\<forall>p \<in> set (pl_issues (zc_plan c)). plan_parent_ok env (zc_plan c) d0 p"
    and "grown d0 zs d" and "set zs \<subseteq> set (plan_rows c)" and "set (map (\<lambda>(p, i, _). (p, i)) todo) \<subseteq> set (plan_rows c)"
    and "tx_map (apply_planned_issue env c) todo d = Inr (d', xs)"
  shows "P d'"
  using assms(1,5-8)
proof (induction todo arbitrary: zs d xs)
  case (Cons t todo)
  obtain p i ls where t: "t = (p, i, ls)" by (cases t)
  obtain d1 x ys where run: "apply_planned_issue env c (p, i, ls) d = Inr (d1, x)" "tx_map (apply_planned_issue env c) todo d1 = Inr (d', ys)"
    using Cons.prems(5) t by (auto simp: tx_then_Inr tx_return_Inr)
  have mem: "(p, i) \<in> set (plan_rows c)" using Cons.prems(4) t by simp
  then have "plan_parent_ok env (zc_plan c) d0 p" using parents by (auto dest: set_zip_leftD)
  from planned_issue_kept [OF Cons.prems(1) fits this Cons.prems(2,3) run(1)] have "P d1" .
  moreover have "grown d0 (zs @ [(p, i)]) d1" using grown_step [OF Cons.prems(2) run(1)] by simp
  ultimately show ?case using Cons.IH [OF _ _ _ _ run(2)] Cons.prems(3,4) mem by auto
qed (simp add: tx_return_Inr)

end


section \<open>Relations\<close>

text \<open>The name under which validation saw an id that is written.\<close>

definition plan_label :: "ApplyIssuePlanCommand \<Rightarrow> string \<Rightarrow> string" where
  "plan_label c x =
     (case map_of (map (\<lambda>(p, i). (i, ''local:'' @ pli_ref p)) (plan_rows c)) x of Some n \<Rightarrow> n | None \<Rightarrow> x)"

lemma plan_label_outside:
  assumes "plan_fits c d0" and "x \<in> set (map IID (db_issues d0))"
  shows "plan_label c x = x"
proof -
  have "x \<notin> set (zc_issues c)" using assms by (auto simp: plan_fits_def)
  then have "map_of (map (\<lambda>(p, i). (i, ''local:'' @ pli_ref p)) (plan_rows c)) x = None"
    by (auto simp: map_of_eq_None_iff dest: set_zip_rightD)
  then show ?thesis by (simp add: plan_label_def)
qed

lemma plan_label_row:
  assumes "plan_fits c d0" and "(p, x) \<in> set (plan_rows c)"
  shows "plan_label c x = ''local:'' @ pli_ref p"
proof -
  have "distinct (map fst (map (\<lambda>(p, i). (i, ''local:'' @ pli_ref p)) (plan_rows c)))"
    using assms(1) by (simp add: plan_fits_def comp_def case_prod_beta flip: map_map [unfolded comp_def])
  moreover have "(x, ''local:'' @ pli_ref p) \<in> set (map (\<lambda>(p, i). (i, ''local:'' @ pli_ref p)) (plan_rows c))"
    using imageI [OF assms(2), of "\<lambda>(p, i). (i, ''local:'' @ pli_ref p)"] by simp
  ultimately show ?thesis by (simp add: plan_label_def map_of_is_SomeI)
qed

lemma resolve_labelled:
  assumes fits: "plan_fits c d0" and shapes: "issue_shapes d = issue_shapes d0 @ zs"
    and named: "plan_name env (zc_plan c) d0 v = Some a" and run: "resolve_id env c v d = Inr (d', x)"
  shows "d' = d \<and> plan_label c x = a"
proof -
  have len: "length (zc_issues c) = length (pl_issues (zc_plan c))" using fits by (simp add: plan_fits_def)
  have d: "d' = d" by (rule pure_txD [OF pure_resolve(1) run])
  show ?thesis
  proof (cases "local_ids c v")
    case None
    then have l: "local_refs (zc_plan c) v = None" using local_ids_refs [OF len] by simp
    obtain ident i where "find_issue d0 ident = Some i" "a = IID i" by (rule plan_name_find [OF l named])
    then have "a \<in> set (map IID (db_issues d0))" by (auto dest: find_issue_mem)
    then show ?thesis using resolve_outside [OF len l named shapes] run d plan_label_outside [OF fits] by simp
  next
    case (Some z)
    then have z: "z = x" using run by (simp add: resolve_id_def tx_return_Inr)
    obtain p where p: "(p, x) \<in> set (plan_rows c)" "pli_ref p = v" using local_ids_mem [OF Some] z by blast
    have "local_refs (zc_plan c) v \<noteq> None" using local_ids_refs [OF len, of v] Some by simp
    then have "a = ''local:'' @ v" using named by (auto simp: plan_name_def local_refs_def split: if_splits)
    then show ?thesis using plan_label_row [OF fits p(1)] p(2) d by simp
  qed
qed

lemma trancl_image:
  assumes "(x, y) \<in> R\<^sup>+" and "\<And>a b. (a, b) \<in> R \<Longrightarrow> (f a, f b) \<in> S"
  shows "(f x, f y) \<in> S\<^sup>+"
  using assms(1)
proof induction
  case (step y z)
  then show ?case using assms(2) by (blast intro: trancl_into_trancl)
qed (blast intro: assms(2))

text \<open>The blocking edges written so far, under their names, are among those validated so far.\<close>

definition edges_named :: "ApplyIssuePlanCommand \<Rightarrow> (string \<times> string) set \<Rightarrow> db \<Rightarrow> bool" where
  "edges_named c E d \<longleftrightarrow> list_ex (\<lambda>r. plr_type r = RelationTypeBlocks) (pl_relations (zc_plan c)) \<longrightarrow>
     (\<forall>a b. (a, b) \<in> blocks_edges (db_relations d) \<longrightarrow> (plan_label c a, plan_label c b) \<in> E)"

lemma edges_named_start:
  assumes "plan_fits c d0" and "schema_ok d0" and "db_relations d = db_relations d0"
  shows "edges_named c (plan_start_edges (zc_plan c) d0) d"
proof -
  have "a \<in> set (map IID (db_issues d0)) \<and> b \<in> set (map IID (db_issues d0))" if "(a, b) \<in> blocks_edges (db_relations d0)" for a b
    using that assms(2) by (auto simp: blocks_edges_def schema_ok_def relations_ok_def list_all_iff)
  then show ?thesis using plan_label_outside [OF assms(1)] assms(3) by (auto simp: edges_named_def plan_start_edges_def)
qed

lemma edges_named_add:
  assumes "edges_named c E d" and "plan_label c (rl_source r) = a" "plan_label c (rl_target r) = b"
    and "db_relations d' = db_relations d @ [r]"
  shows "edges_named c (with_edge (rl_type r) a b E) d'"
  using assms by (auto simp: edges_named_def blocks_edges_append with_edge_def)

lemma frame_relation_events: "keeps (frame_is zs rs) (appendRelationEvents ty r now)"
  unfolding appendRelationEvents_def by (intro keeps_intro frame_event)

lemma canonical_blocks: "CanonicalRelationEndpoints RelationTypeBlocks a b = (a, b)"
  by (simp add: CanonicalRelationEndpoints_def)

lemma canonical_ends:
  "{fst (CanonicalRelationEndpoints t a b), snd (CanonicalRelationEndpoints t a b)} = {a, b}"
  by (auto simp: CanonicalRelationEndpoints_def)

context system_invariant
begin

lemma planned_relation_kept:
  assumes P: "P d" and fits: "plan_fits c d0" and shapes: "issue_shapes d = issue_shapes d0 @ zs" and named: "edges_named c E d"
    and ends: "plan_name env (zc_plan c) d0 (plr_source p) = Some a" "plan_name env (zc_plan c) d0 (plr_target p) = Some b"
    and new: "admissible d0 E ks (plr_type p) a b" and p: "p \<in> set (pl_relations (zc_plan c))"
    and run: "apply_planned_relation env c (p, i) d = Inr (d', x)"
  shows "P d' \<and> issue_shapes d' = issue_shapes d \<and> edges_named c (with_edge (plr_type p) a b E) d'"
proof -
  obtain s d1 t d2 where s: "resolve_id env c (plr_source p) d = Inr (d1, s)" and t: "resolve_id env c (plr_target p) d1 = Inr (d2, t)"
    using run by (auto simp: apply_planned_relation_def tx_then_Inr)
  have d1: "d1 = d" "plan_label c s = a" using resolve_labelled [OF fits shapes ends(1) s] by simp_all
  then have d2: "d2 = d" "plan_label c t = b" using resolve_labelled [OF fits shapes ends(2)] t by simp_all
  let ?ends = "CanonicalRelationEndpoints (plr_type p) s t"
  let ?r = "\<lparr>rl_id = i, rl_source = fst ?ends, rl_target = snd ?ends, rl_type = plr_type p, rl_created = zc_now c\<rparr>"
  let ?d = "d\<lparr>db_relations := db_relations d @ [?r]\<rparr>"
  have ok: "schema_ok ?d" and events: "appendRelationEvents ''relation_added'' ?r (zc_now c) ?d = Inr (d', ())"
    using run s t d1 d2 by (auto simp: apply_planned_relation_def tx_then_Inr exec_Inr Let_def tx_return_Inr)
  have "s \<noteq> t" using new d1(2) d2(2) by (auto simp: admissible_def)
  then have differ: "rl_source ?r \<noteq> rl_target ?r" by (auto simp: CanonicalRelationEndpoints_def)
  have "\<not> blocksPathExists (db_relations d) (rl_target ?r) (rl_source ?r)" if blocks: "rl_type ?r = RelationTypeBlocks"
  proof
    have ty: "plr_type p = RelationTypeBlocks" using blocks by simp
    have some: "list_ex (\<lambda>r. plr_type r = RelationTypeBlocks) (pl_relations (zc_plan c))" using p ty by (auto simp: list_ex_iff)
    assume "blocksPathExists (db_relations d) (rl_target ?r) (rl_source ?r)"
    then have "(t, s) \<in> (blocks_edges (db_relations d))\<^sup>+" by (simp add: blocksPathExists_correct ty canonical_blocks)
    then have "(plan_label c t, plan_label c s) \<in> E\<^sup>+" using named some by (elim trancl_image) (auto simp: edges_named_def)
    then show False using new ty d1(2) d2(2) by (simp add: admissible_def)
  qed
  then have "P ?d" using add_edge [OF P differ _ refl ok] by blast
  then have "P d'" by (rule keepsD [OF keeps_relation_events events])
  have frame: "frame_is (issue_shapes d) (db_relations d @ [?r]) d'"
    using keepsD [OF frame_relation_events events] by (simp add: frame_is_def issue_shapes_def)
  have "edges_named c (with_edge (plr_type p) a b E) d'"
  proof (cases "plr_type p = RelationTypeBlocks")
    case True
    then show ?thesis using edges_named_add [OF named, of ?r a b d'] frame d1(2) d2(2) by (simp add: canonical_blocks frame_is_def)
  next
    case False
    then show ?thesis using named frame by (simp add: edges_named_def with_edge_def blocks_edges_append frame_is_def)
  qed
  then show ?thesis using \<open>P d'\<close> frame by (simp add: frame_is_def)
qed

lemma planned_relations_kept:
  assumes "P d" and fits: "plan_fits c d0" and "issue_shapes d = issue_shapes d0 @ zs" and "edges_named c E d"
    and "admitted d0 (plan_name env (zc_plan c) d0) E ks (map fst todo)" and "set (map fst todo) \<subseteq> set (pl_relations (zc_plan c))"
    and "tx_map (apply_planned_relation env c) todo d = Inr (d', xs)"
  shows "P d'"
  using assms(1,3-7)
proof (induction todo arbitrary: d E ks xs)
  case (Cons t todo)
  obtain p i where t: "t = (p, i)" by (cases t)
  obtain a b where ab: "plan_name env (zc_plan c) d0 (plr_source p) = Some a" "plan_name env (zc_plan c) d0 (plr_target p) = Some b"
      "admissible d0 E ks (plr_type p) a b"
      "admitted d0 (plan_name env (zc_plan c) d0) (with_edge (plr_type p) a b E)
        (insert (plr_type p, CanonicalRelationEndpoints (plr_type p) a b) ks) (map fst todo)"
    using Cons.prems(4) t by (auto split: option.splits)
  obtain d1 x ys where run: "apply_planned_relation env c (p, i) d = Inr (d1, x)" "tx_map (apply_planned_relation env c) todo d1 = Inr (d', ys)"
    using Cons.prems(6) t by (auto simp: tx_then_Inr tx_return_Inr)
  have "P d1 \<and> issue_shapes d1 = issue_shapes d \<and> edges_named c (with_edge (plr_type p) a b E) d1"
    using planned_relation_kept [OF Cons.prems(1) fits Cons.prems(2,3) ab(1-3) _ run(1)] Cons.prems(5) t by simp
  then show ?case using Cons.IH [OF _ _ _ ab(4) _ run(2)] Cons.prems(2,5) by simp
qed (simp add: tx_return_Inr)

end

section \<open>The whole plan\<close>

context system_invariant
begin

lemma keeps_planned_decision: "keeps P (apply_planned_decision env c t)"
  unfolding apply_planned_decision_def case_prod_beta
  by (intro keeps_intro keeps_pure pure_resolve keeps_other) (simp add: same_core_def)

lemma keeps_planned_decisions: "keeps P (tx_map (apply_planned_decision env c) ts)"
  by (intro keeps_intro keeps_planned_decision)

lemma keeps_store_plan: "keeps P (store_plan c result)"
  unfolding store_plan_def by (rule keeps_other) (simp add: same_core_def)

lemma applyPlan_kept:
  assumes P: "P d" and ok: "validatePlanAgainstStore env (zc_plan c) d = Inr []"
    and len: "length (zc_issues c) = length (pl_issues (zc_plan c))" "length (zc_labels c) = length (pl_issues (zc_plan c))"
      "length (zc_relations c) = length (pl_relations (zc_plan c))"
    and run: "applyPlan env c d = Inr (d', r)"
  shows "P d'"
proof -
  have schema_d: "schema_ok d" by (rule schema [OF P])
  have parents: "\<forall>p \<in> set (pl_issues (zc_plan c)). plan_parent_ok env (zc_plan c) d p"
    and admitted: "admitted d (plan_name env (zc_plan c) d) (plan_start_edges (zc_plan c) d) {} (pl_relations (zc_plan c))"
    using validate_run [OF schema_d, of env "zc_plan c"] ok by auto
  let ?todo = "zip (pl_issues (zc_plan c)) (zip (zc_issues c) (zc_labels c))"
  obtain d1 d2 issues relations decisions where
    run1: "tx_map (apply_planned_issue env c) ?todo d = Inr (d1, issues)" and
    run2: "tx_map (apply_planned_relation env c) (zip (pl_relations (zc_plan c)) (zc_relations c)) d1 = Inr (d2, relations)" and
    run3: "tx_map (apply_planned_decision env c) (zip (pl_decisions (zc_plan c)) (zc_decisions c)) d2 = Inr (d', decisions)"
    using run by (auto simp: applyPlan_def tx_then_Inr tx_read_Inr tx_return_Inr)
  have rows: "map (\<lambda>(p, i, _). (p, i)) ?todo = plan_rows c"
    using len(1,2) by (auto intro: nth_equalityI)
  have "grown d [] d" by (simp add: grown_def)
  from grown_issues [OF this schema_d run1] have g: "grown d (plan_rows c) d1" "schema_ok d1" by (simp_all add: rows)
  then have fits: "plan_fits c d" using grown_fresh [OF g] len(1) by (simp add: plan_fits_def)
  have "P d1"
    using planned_issues_kept [OF P fits schema_d parents \<open>grown d [] d\<close> _ _ run1] rows by simp
  moreover obtain ns where "issue_shapes d1 = issue_shapes d @ map2 added_shape (plan_rows c) ns"
    using g(1) by (auto simp: grown_def)
  moreover have "edges_named c (plan_start_edges (zc_plan c) d) d1"
    using edges_named_start [OF fits schema_d] g(1) by (simp add: grown_def)
  ultimately have "P d2" using planned_relations_kept [OF _ fits _ _ _ _ run2] admitted len(3) by simp
  then show "P d'" by (rule keepsD [OF keeps_planned_decisions run3])
qed

lemma ApplyIssuePlan_keeps:
  assumes P: "P d"
  shows "P (fst (ApplyIssuePlan env c d))"
proof (cases "validatePlanCommand env c")
  case (Inr u)
  then have len: "length (zc_issues c) = length (pl_issues (zc_plan c))" "length (zc_labels c) = length (pl_issues (zc_plan c))"
      "length (zc_relations c) = length (pl_relations (zc_plan c))"
    by (auto simp: validatePlanCommand_def result_simps)
  have "keeps P (apply_plan env c)"
  proof (rule keepsI)
    fix d d' x assume P: "P d" and run: "apply_plan env c d = Inr (d', x)"
    have lookup: "d1 = d" if "lookup_plan c d = Inr (d1, saved)" for d1 saved
      using that by (auto simp: lookup_plan_def result_simps split: option.splits if_splits)
    from run obtain d1 saved where saved: "lookup_plan c d = Inr (d1, saved)"
      by (auto simp: apply_plan_def tx_then_Inr)
    show "P d'"
    proof (cases saved)
      case (Some result)
      then show ?thesis using run saved lookup [OF saved] P by (simp add: apply_plan_def tx_then_def tx_return_def)
    next
      case None
      then obtain d2 result where "validatePlanAgainstStore env (zc_plan c) d = Inr []" "applyPlan env c d = Inr (d2, result)"
          "store_plan c result d2 = Inr (d', ())"
        using run saved lookup [OF saved] by (auto simp: apply_plan_def tx_simps)
      then show ?thesis using applyPlan_kept [OF P _ len] keepsD [OF keeps_store_plan] by blast
    qed
  qed
  then show ?thesis using Inr P by (simp add: ApplyIssuePlan_def write_keeps)
qed (simp add: ApplyIssuePlan_def P)

end

end
