(* ===== verification/SystemRun.thy ===== *)
theory SystemRun
  imports PlanSteps
begin

text \<open>
  The laws of predicates that hold statement by statement, and the system as a whole: one repository
  operation after another.
\<close>

section \<open>Invariants that hold statement by statement\<close>

locale store_invariant =
  fixes P :: "db \<Rightarrow> bool"
  assumes other_tables: "P d \<Longrightarrow> same_core d' d \<Longrightarrow> P d'"
    and event: "P d \<Longrightarrow> P (d\<lparr>db_events := db_events d @ [new_event d issue ty session attempt payload now source]\<rparr>)"
    and attempts: "P d \<Longrightarrow> attempt_change p f \<Longrightarrow> P (d\<lparr>db_attempts := update_where p f (db_attempts d)\<rparr>)"
    and start: "P d \<Longrightarrow> startable d (wa_issue a) \<Longrightarrow> wa_id a \<notin> set (map wa_id (db_attempts d)) \<Longrightarrow> P (d\<lparr>db_attempts := db_attempts d @ [a]\<rparr>)"
    and release: "P d \<Longrightarrow> P (d\<lparr>db_reservations := update_where q (release_row reason now) (db_reservations d)\<rparr>)"
    and acquire: "P d \<Longrightarrow> PrepareReservationRequest (map snd resources) = Inr prepared \<Longrightarrow>
      acquireReservationsForAttempt env prepared resources issueID attemptID sessionID now d = Inr (d', rows) \<Longrightarrow> P d'"
    and requests: "P d \<Longrightarrow> only_unresolved r d \<Longrightarrow> P (d\<lparr>db_requests := update_where r (set_request status bound_to resolved) (db_requests d)\<rparr>)"
    and new_request: "P d \<Longrightarrow> P (d\<lparr>db_requests := db_requests d @ [request]\<rparr>)"
    and edit_issue: "P d \<Longrightarrow> issue_edit d i_at f_issue \<Longrightarrow> schema_ok (d\<lparr>db_issues := update_where i_at f_issue (db_issues d)\<rparr>) \<Longrightarrow>
      P (d\<lparr>db_issues := update_where i_at f_issue (db_issues d)\<rparr>)"
    and new_issue: "P d \<Longrightarrow> schema_ok d \<Longrightarrow> new_issue_ok d project i \<Longrightarrow>
      schema_ok (numbered_db project now d\<lparr>db_issues := db_issues d @ [i]\<rparr>) \<Longrightarrow>
      P (numbered_db project now d\<lparr>db_issues := db_issues d @ [i]\<rparr>)"
    and add_edge: "P d \<Longrightarrow> rl_source e \<noteq> rl_target e \<Longrightarrow>
      (rl_type e = RelationTypeBlocks \<Longrightarrow> \<not> blocksPathExists (db_relations d) (rl_target e) (rl_source e)) \<Longrightarrow>
      P (d\<lparr>db_relations := db_relations d @ [e]\<rparr>)"
    and remove_edge: "P d \<Longrightarrow> P (d\<lparr>db_relations := filter s (db_relations d)\<rparr>)"
begin

lemma terminate_kept: "keeps (\<lambda>d. P d \<and> schema_ok d) (terminateAttempt a status reason now)"
  and expire_kept: "keeps (\<lambda>d. P d \<and> schema_ok d) (expireAttempt a now)"
proof -
  let ?K = "\<lambda>d. P d \<and> schema_ok d"
  have event: "keeps ?K (append_event issue ty session attempt payload now source)"
    for issue ty session attempt payload now source
    using event by (auto simp: keeps_def append_event_Inr Let_def)
  have change: "attempt_change p f \<Longrightarrow> keeps ?K (update_attempts p f)" for p f
    using attempts by (auto simp: keeps_def update_attempts_Inr Let_def)
  have releases: "keeps ?K (update_reservations p (release_row why now))" for p why now
    using release by (auto simp: keeps_def update_reservations_Inr Let_def)
  have request: "keeps ?K (update_requests (claimed_by i a) (set_request st None at))" for i a st at
    using requests by (auto simp: keeps_def update_requests_Inr Let_def)
  show "keeps ?K (terminateAttempt a status reason now)"
    unfolding terminateAttempt_def releaseReservationsForAttempt_def release_one_def releaseClaimedReviewRequest_def
      appendReviewEvent_def Let_def
    by (intro keeps_intro event change releases request)
      (simp add: attempt_change_def end_attempt_def active_named_def)
  show "keeps ?K (expireAttempt a now)"
    unfolding expireAttempt_def releaseReservationsForAttempt_def release_one_def releaseClaimedReviewRequest_def
      appendReviewEvent_def Let_def
    by (intro keeps_intro event change releases request)
      (simp add: attempt_change_def expire_row_def is_active_def)
qed

lemma new_attempt_fresh: "schema_ok (d\<lparr>db_attempts := db_attempts d @ [x]\<rparr>) \<Longrightarrow> wa_id x \<notin> set (map wa_id (db_attempts d))"
  by (simp add: schema_ok_def attempts_ok_def)

end

lemma keeps_schema_acquire:
  "keeps schema_ok (acquireReservationsForAttempt env prepared resources issueID attemptID sessionID now)"
  unfolding acquireReservationsForAttempt_def loadCandidateReservations_def scan_rows_def insert_reservation_def
    append_event_def Let_def
  by (intro keeps_intro)

sublocale store_invariant \<subseteq> system: system_invariant "\<lambda>d. P d \<and> schema_ok d"
proof unfold_locales
  fix d a status reason now d' done_now
  assume "P d \<and> schema_ok d" "terminateAttempt a status reason now d = Inr (d', done_now)"
  then show "P d' \<and> schema_ok d'" by (rule keepsD [OF terminate_kept, rotated])
next
  fix d a now d' done_now
  assume "P d \<and> schema_ok d" "expireAttempt a now d = Inr (d', done_now)"
  then show "P d' \<and> schema_ok d'" by (rule keepsD [OF expire_kept, rotated])
next
  fix d d' env prepared resources issueID attemptID sessionID now rows
  assume P: "P d \<and> schema_ok d" and p: "PrepareReservationRequest (map snd resources) = Inr prepared"
    and run: "acquireReservationsForAttempt env prepared resources issueID attemptID sessionID now d = Inr (d', rows)"
  have "P d" "schema_ok d" using P by simp_all
  then show "P d' \<and> schema_ok d'" using acquire [OF _ p run] keepsD [OF keeps_schema_acquire run] by simp
next
  fix d row d'
  assume "P d \<and> schema_ok d" "startable d (wa_issue row)" "d' = d\<lparr>db_attempts := db_attempts d @ [row]\<rparr>" "schema_ok d'"
  then show "P d' \<and> schema_ok d'" using start [of d row] new_attempt_fresh [of d row] by simp
next
  fix d d'
  assume "P d \<and> schema_ok d" "same_core d' d" "schema_ok d'"
  then show "P d' \<and> schema_ok d'" using other_tables [of d d'] by simp
next
  fix d d' p f
  assume "P d \<and> schema_ok d" "attempt_touch p f" "d' = d\<lparr>db_attempts := update_where p f (db_attempts d)\<rparr>" "schema_ok d'"
  then show "P d' \<and> schema_ok d'" using attempts [OF _ touch_change] by simp
next
  fix d d' i_at f_issue
  assume "P d \<and> schema_ok d" "issue_edit d i_at f_issue" "d' = d\<lparr>db_issues := update_where i_at f_issue (db_issues d)\<rparr>" "schema_ok d'"
  then show "P d' \<and> schema_ok d'" using edit_issue [of d i_at f_issue] by simp
qed (use event release requests new_request new_issue add_edge remove_edge in \<open>simp_all\<close>)

section \<open>The system\<close>

text \<open>
  A request to the system is one call of a repository operation. \<^verbatim>\<open>AcquireReservations\<close> is left out:
  no service calls it, and it does not check the lease of the attempt it reserves for.
\<close>

datatype Op =
    OpClaim ClaimIssueCommand | OpRenew RenewAttemptCommand | OpExpire time | OpNote SaveAttemptNoteCommand
  | OpReserve ReserveResourcesCommand | OpRelease ReleaseResourcesCommand | OpReleaseOne ReleaseReservationCommand
  | OpFinish FinishAttemptCommand | OpForce string time | OpEvidence SubmitGateEvidenceCommand
  | OpCreatePolicy CreateWorkflowPolicyCommand | OpUpdatePolicy PolicyMutation "PolicySelector \<times> PolicyRequirement list"
  | OpArchivePolicy PolicyMutation | OpRelation ManageIssueRelationCommand
  | OpCreateReview CreateReviewRequestCommand | OpCancelReview ReviewMutationCommand | OpClaimReview ReviewMutationCommand
  | OpResolveReview ResolveReviewRequestCommand | OpReplaceReview ReplaceReviewRequestCommand
  | OpCreateIssue CreateIssueCommand | OpUpdateIssue UpdateIssueCommand | OpArchiveIssue ArchiveIssueCommand
  | OpUnarchiveIssue UnarchiveIssueCommand | OpCreateSession AgentSession string | OpTouchHandle string time
  | OpEndHandle string time | OpTouchSession string time | OpEndSession string time
  | OpComment AddCommentCommand | OpDecision RecordDecisionCommand | OpPlan ApplyIssuePlanCommand

fun run :: "env \<Rightarrow> (nat \<Rightarrow> string res) \<Rightarrow> Op \<Rightarrow> db \<Rightarrow> db" where
  "run env fresh (OpClaim c) d = fst (ClaimIssue env c d)"
| "run env fresh (OpRenew c) d = fst (RenewAttempt env c d)"
| "run env fresh (OpExpire now) d = fst (ExpireAttempts now d)"
| "run env fresh (OpNote c) d = fst (SaveAttemptNote env c d)"
| "run env fresh (OpReserve c) d = fst (ReserveResources env c d)"
| "run env fresh (OpRelease c) d = fst (ReleaseResources env c d)"
| "run env fresh (OpReleaseOne c) d = fst (ReleaseReservation env c d)"
| "run env fresh (OpFinish c) d = fst (FinishAttempt env fresh c d)"
| "run env fresh (OpForce a now) d = fst (ForceReleaseAttempt env a now d)"
| "run env fresh (OpEvidence c) d = fst (SubmitGateEvidence env c d)"
| "run env fresh (OpCreatePolicy c) d = fst (CreatePolicy env c d)"
| "run env fresh (OpUpdatePolicy c i) d = fst (UpdatePolicy env c i d)"
| "run env fresh (OpArchivePolicy c) d = fst (ArchivePolicy env c d)"
| "run env fresh (OpRelation c) d = fst (ManageIssueRelation env c d)"
| "run env fresh (OpCreateReview c) d = fst (CreateReviewRequest env c d)"
| "run env fresh (OpCancelReview c) d = fst (CancelReviewRequest c d)"
| "run env fresh (OpClaimReview c) d = fst (ClaimReviewRequest c d)"
| "run env fresh (OpResolveReview c) d = fst (ResolveReviewRequest env c d)"
| "run env fresh (OpReplaceReview c) d = fst (ReplaceReviewRequest env c d)"
| "run env fresh (OpCreateIssue c) d = fst (CreateIssue env c d)"
| "run env fresh (OpUpdateIssue c) d = fst (UpdateIssue env c d)"
| "run env fresh (OpArchiveIssue c) d = fst (ArchiveIssue c d)"
| "run env fresh (OpUnarchiveIssue c) d = fst (UnarchiveIssue env c d)"
| "run env fresh (OpCreateSession s handleHash) d = fst (CreateAgentSession env s handleHash d)"
| "run env fresh (OpTouchHandle handle now) d = fst (ResolveAndTouchAgentSessionHandle env handle now d)"
| "run env fresh (OpEndHandle handle now) d = fst (EndAgentSessionByHandle env handle now d)"
| "run env fresh (OpTouchSession i now) d = fst (TouchAgentSession env i now d)"
| "run env fresh (OpEndSession i now) d = fst (EndAgentSession env i now d)"
| "run env fresh (OpComment c) d = fst (AddComment env c d)"
| "run env fresh (OpDecision c) d = fst (RecordDecision env c d)"
| "run env fresh (OpPlan c) d = fst (ApplyIssuePlan env c d)"

text \<open>Operations run one after another: each is one write transaction.\<close>

inductive reaches :: "env \<Rightarrow> db \<Rightarrow> db \<Rightarrow> bool" for env :: env where
  here: "reaches env d d"
| call: "reaches env d d1 \<Longrightarrow> d2 = run env fresh operation d1 \<Longrightarrow> reaches env d d2"

inductive_cases reaches_cases: "reaches env d d'"

context system_invariant
begin

lemma run_keeps: "P d \<Longrightarrow> P (run env fresh operation d)"
proof (cases operation)
  case (OpRelation c)
  then show "P d \<Longrightarrow> P (run env fresh operation d)"
    by (auto simp: ManageIssueRelation_def intro!: write_keeps keeps_with_replay keeps_change_relation)
qed (simp_all add: ClaimIssue_keeps RenewAttempt_keeps ExpireAttempts_keeps SaveAttemptNote_keeps ReserveResources_keeps
    ReleaseResources_keeps ReleaseReservation_keeps FinishAttempt_keeps ForceReleaseAttempt_keeps
    SubmitGateEvidence_keeps CreatePolicy_keeps UpdatePolicy_keeps ArchivePolicy_keeps CreateReviewRequest_keeps
    CancelReviewRequest_keeps ClaimReviewRequest_keeps ResolveReviewRequest_keeps ReplaceReviewRequest_keeps
    CreateIssue_keeps UpdateIssue_keeps ArchiveIssue_keeps UnarchiveIssue_keeps session_keeps AddComment_keeps RecordDecision_keeps ApplyIssuePlan_keeps)

lemma reaches_keeps: "reaches env d d' \<Longrightarrow> P d \<Longrightarrow> P d'"
  by (induction rule: reaches.induct) (simp_all add: run_keeps)

end

end
