(* ===== verification/Invariants.thy ===== *)
theory Invariants
  imports SystemRun
begin

text \<open>
  The invariants of the system, each an interpretation of \<open>store_invariant\<close> on the model's own
  definitions: active reservations stay disjoint, the event log only grows, the blocking graph stays
  acyclic, an open issue carries no closing time, live issues hang off live epics, no attempt is active
  on an archived or cancelled issue, issue numbers stay below the project's counter, an ended attempt
  stays ended, and no attempt changes its issue or kind.
\<close>

section \<open>Reservations\<close>

lemma release_keeps_sound:
  "reservations_sound d \<Longrightarrow>
     reservations_sound (d\<lparr>db_reservations := update_where q (release_row reason now) (db_reservations d)\<rparr>)"
  using released_keeps_sound [of d q reason now "[]"] by (simp add: reservations_sound_def released_db_def)

interpretation disjoint: store_invariant reservations_sound
proof unfold_locales
  fix d reason now q
  assume "reservations_sound d"
  then show "reservations_sound (d\<lparr>db_reservations := update_where q (release_row reason now) (db_reservations d)\<rparr>)"
    by (rule release_keeps_sound)
next
  fix d d' env resources prepared issueID attemptID sessionID now rows
  assume s: "reservations_sound d" and p: "PrepareReservationRequest (map snd resources) = Inr prepared"
    and a: "acquireReservationsForAttempt env prepared resources issueID attemptID sessionID now d = Inr (d', rows)"
  show "reservations_sound d'" by (rule acquire_keeps_sound [OF p s a])
qed (simp_all add: reservations_sound_def same_core_def numbered_db_def)

section \<open>The event log\<close>

definition log_after :: "Event list \<Rightarrow> db \<Rightarrow> bool" where
  "log_after es d \<longleftrightarrow> log_ok d \<and> log_extends es d"

lemma log_after_append:
  "log_after es d \<Longrightarrow> log_after es (d\<lparr>db_events := db_events d @ [new_event d issue ty session attempt payload now source]\<rparr>)"
  using log_ok_append by (auto simp: log_after_def log_extends_def)

lemma log_after_cong: "db_events d' = db_events d \<Longrightarrow> log_after es d' = log_after es d"
  by (simp add: log_after_def log_ok_def log_extends_def)

lemma insert_reservation_log:
  "keeps (log_after es) (insert_reservation resources issueID attemptID sessionID now p)"
  unfolding insert_reservation_def Let_def
proof (intro keeps_then keeps_return)
  show "keeps (log_after es) (exec (\<lambda>d. d\<lparr>db_reservations := db_reservations d @ [r]\<rparr>))" for r
    by (rule keeps_exec) (simp add: log_after_def log_ok_def log_extends_def)
  show "keeps (log_after es) (append_event issue ty session attempt payload at source)"
    for issue ty session attempt payload at source
    by (rule keepsI) (simp add: append_event_Inr Let_def log_after_append)
qed

lemma acquire_log:
  "keeps (log_after es) (acquireReservationsForAttempt env prepared resources issueID attemptID sessionID now)"
  unfolding acquireReservationsForAttempt_def loadCandidateReservations_def scan_rows_def Let_def
  by (intro keeps_intro insert_reservation_log)

interpretation log: store_invariant "log_after es" for es
proof unfold_locales
  fix d d' env resources prepared issueID attemptID sessionID now rows
  assume "log_after es d"
    "acquireReservationsForAttempt env prepared resources issueID attemptID sessionID now d = Inr (d', rows)"
  then show "log_after es d'" using keepsD [OF acquire_log] by blast
next
  fix d issue ty session attempt payload now source
  assume "log_after es d"
  then show "log_after es (d\<lparr>db_events := db_events d @ [new_event d issue ty session attempt payload now source]\<rparr>)"
    by (rule log_after_append)
qed (simp_all add: log_after_def log_ok_def log_extends_def same_core_def numbered_db_def)

section \<open>The blocking graph\<close>

definition blocking_acyclic :: "db \<Rightarrow> bool" where
  "blocking_acyclic d \<longleftrightarrow> acyclic (blocks_edges (db_relations d))"

lemma blocking_acyclic_cong: "db_relations d' = db_relations d \<Longrightarrow> blocking_acyclic d' = blocking_acyclic d"
  by (simp add: blocking_acyclic_def)

lemma blocks_edges_filter: "blocks_edges (filter s rows) \<subseteq> blocks_edges rows"
  by (auto simp: blocks_edges_def)

lemma acquire_relations:
  "acquireReservationsForAttempt env prepared resources issueID attemptID sessionID now d = Inr (d', rows) \<Longrightarrow>
     db_relations d' = db_relations d \<and> db_issues d' = db_issues d \<and> db_attempts d' = db_attempts d \<and> db_project d' = db_project d"
  using acquire_effect(2) [of env prepared resources issueID attemptID sessionID now d d' rows] by auto

interpretation graph: store_invariant blocking_acyclic
proof unfold_locales
  fix d d' env resources prepared issueID attemptID sessionID now rows
  assume "blocking_acyclic d"
    "acquireReservationsForAttempt env prepared resources issueID attemptID sessionID now d = Inr (d', rows)"
  then show "blocking_acyclic d'" using acquire_relations blocking_acyclic_cong by blast
next
  fix d and e :: IssueRelation
  assume "blocking_acyclic d" "rl_source e \<noteq> rl_target e"
    "rl_type e = RelationTypeBlocks \<Longrightarrow> \<not> blocksPathExists (db_relations d) (rl_target e) (rl_source e)"
  then show "blocking_acyclic (d\<lparr>db_relations := db_relations d @ [e]\<rparr>)"
    by (simp add: blocking_acyclic_def blocks_edges_append sql_path.insert_acyclic_iff del: acyclic_insert)
next
  fix d s
  assume "blocking_acyclic d"
  then show "blocking_acyclic (d\<lparr>db_relations := filter s (db_relations d)\<rparr>)"
    using acyclic_subset [OF _ blocks_edges_filter] by (simp add: blocking_acyclic_def)
qed (simp_all add: blocking_acyclic_def same_core_def numbered_db_def)

section \<open>Issues\<close>

lemma edited_cases:
  assumes "issue_edit d p f" and "j \<in> set (update_where p f (db_issues d))"
  obtains (untouched) "j \<in> set (db_issues d)" "\<not> p j" | (changed) i where "i \<in> set (db_issues d)" "p i" "j = f i" "issue_step d i (f i)"
proof -
  obtain i where i: "i \<in> set (db_issues d)" "j = (if p i then f i else i)" using assms(2) by (auto simp: mem_update_where)
  then show thesis using assms(1) that by (cases "p i") (auto simp: issue_edit_def)
qed

text \<open>
  An issue that is not terminal carries no closing time. The converse fails: an issue may be created
  as done or cancelled, and its row then has none.
\<close>

definition closed_rightly :: "Issue \<Rightarrow> bool" where
  "closed_rightly i \<longleftrightarrow> (\<not> Terminal (IStatus i) \<longrightarrow> ClosedAt i = None)"

definition closed_ok :: "db \<Rightarrow> bool" where
  "closed_ok d \<longleftrightarrow> list_all closed_rightly (db_issues d)"

lemma closing_rightly: "closing_step i j \<Longrightarrow> closed_rightly i \<Longrightarrow> closed_rightly j"
  by (auto simp: closing_step_def closed_rightly_def NextClosedAt_def)

interpretation closing: store_invariant closed_ok
proof unfold_locales
  fix d d' env resources prepared issueID attemptID sessionID now rows
  assume "closed_ok d"
    "acquireReservationsForAttempt env prepared resources issueID attemptID sessionID now d = Inr (d', rows)"
  then show "closed_ok d'" using acquire_relations [of env prepared resources issueID attemptID sessionID now d d' rows]
    by (simp add: closed_ok_def)
next
  fix d p f
  assume ok: "closed_ok d" and e: "issue_edit d p f"
  have "closed_rightly j" if "j \<in> set (update_where p f (db_issues d))" for j
    using edited_cases [OF e that] ok closing_rightly by (metis closed_ok_def issue_step_def list_all_iff)
  then show "closed_ok (d\<lparr>db_issues := update_where p f (db_issues d)\<rparr>)" by (simp add: closed_ok_def list_all_iff)
qed (simp_all add: closed_ok_def same_core_def new_issue_ok_def closed_rightly_def numbered_db_def)

text \<open>A live issue has no parent or a live epic as parent.\<close>

definition hierarchical :: "db \<Rightarrow> bool" where
  "hierarchical d \<longleftrightarrow> list_all (\<lambda>i. ArchivedAt i \<noteq> None \<or>
     (case ParentID i of None \<Rightarrow> True | Some q \<Rightarrow> live_epic d q)) (db_issues d)"

lemma hierarchical_iff:
  "hierarchical d \<longleftrightarrow> (\<forall>i \<in> set (db_issues d). ArchivedAt i = None \<longrightarrow> (\<forall>q. ParentID i = Some q \<longrightarrow> live_epic d q))"
  by (auto simp: hierarchical_def list_all_iff split: option.splits)

lemma live_epic_edit:
  assumes e: "issue_edit d p f" and live: "live_epic d q" and child: "epicHasLiveChildren d q"
  shows "live_epic (d\<lparr>db_issues := update_where p f (db_issues d)\<rparr>) q"
proof -
  obtain x where x: "x \<in> set (db_issues d)" "IID x = q" "IType x = TypeEpic" "ArchivedAt x = None"
    using live by (auto simp: live_epic_def)
  let ?x = "if p x then f x else x"
  have "p x \<Longrightarrow> issue_step d x (f x)" using e x(1) by (simp add: issue_edit_def)
  then have "IID ?x = q \<and> IType ?x = TypeEpic \<and> ArchivedAt ?x = None"
    using x child by (auto simp: issue_step_def epic_step_def)
  moreover have "?x \<in> set (update_where p f (db_issues d))" using x(1) by (auto simp: mem_update_where)
  ultimately show ?thesis by (auto simp: live_epic_def)
qed

lemma live_epic_kept:
  assumes e: "issue_edit d p f" and live: "live_epic d q" and no: "\<And>i. p i \<Longrightarrow> IID i \<noteq> q"
  shows "live_epic (d\<lparr>db_issues := update_where p f (db_issues d)\<rparr>) q"
proof -
  obtain x where x: "x \<in> set (db_issues d)" "IID x = q" "IType x = TypeEpic" "ArchivedAt x = None"
    using live by (auto simp: live_epic_def)
  then have "x \<in> set (update_where p f (db_issues d))" using no by (auto simp: mem_update_where)
  then show ?thesis using x(2-4) by (auto simp: live_epic_def)
qed

lemma hierarchical_edit:
  assumes h: "hierarchical d" and e: "issue_edit d p f" and ok: "schema_ok (d\<lparr>db_issues := update_where p f (db_issues d)\<rparr>)"
  shows "hierarchical (d\<lparr>db_issues := update_where p f (db_issues d)\<rparr>)" (is "hierarchical ?d")
  unfolding hierarchical_iff
proof (intro ballI allI impI)
  fix j q assume j: "j \<in> set (db_issues ?d)" and live: "ArchivedAt j = None" and q: "ParentID j = Some q"
  have old: "live_epic ?d q" if "i \<in> set (db_issues d)" "ArchivedAt i = None" "ParentID i = Some q" for i
  proof (rule live_epic_edit [OF e])
    show "live_epic d q" using h that by (auto simp: hierarchical_iff)
    show "epicHasLiveChildren d q" using that by (auto simp: epicHasLiveChildren_def list_ex_iff)
  qed
  from j have "j \<in> set (update_where p f (db_issues d))" by simp
  with e show "live_epic ?d q"
  proof (cases rule: edited_cases)
    case untouched
    show ?thesis using untouched old live q by blast
  next
    case (changed i)
    have "IID x \<noteq> q" if "p x" for x
    proof -
      have "IID x = IID j" using e that changed by (metis issue_edit_def issue_step_def)
      moreover have "ParentID j \<noteq> Some (IID j)" using ok j by (simp add: schema_ok_def issues_ok_def issue_row_ok_def list_all_iff)
      ultimately show ?thesis using q by auto
    qed
    then show ?thesis using changed live q old live_epic_kept [OF e] by (metis issue_step_def parent_step_def)
  qed
qed

interpretation hierarchy: store_invariant hierarchical
proof unfold_locales
  fix d d' env resources prepared issueID attemptID sessionID now rows
  assume "hierarchical d"
    "acquireReservationsForAttempt env prepared resources issueID attemptID sessionID now d = Inr (d', rows)"
  then show "hierarchical d'" using acquire_relations [of env prepared resources issueID attemptID sessionID now d d' rows]
    by (simp add: hierarchical_iff live_epic_def)
next
  fix d project i now
  assume "hierarchical d" "new_issue_ok d project i"
  then show "hierarchical (numbered_db project now d\<lparr>db_issues := db_issues d @ [i]\<rparr>)"
    by (auto simp: hierarchical_iff live_epic_def new_issue_ok_def)
qed (fact hierarchical_edit | simp add: hierarchical_iff live_epic_def same_core_def numbered_db_def)+

text \<open>No attempt is active on an archived or cancelled issue.\<close>

definition at_work :: "db \<Rightarrow> bool" where
  "at_work d \<longleftrightarrow> (\<forall>a \<in> set (db_attempts d). is_active a \<longrightarrow> startable d (wa_issue a))"

lemma at_work_edit:
  assumes w: "at_work d" and e: "issue_edit d p f"
  shows "at_work (d\<lparr>db_issues := update_where p f (db_issues d)\<rparr>)"
  unfolding at_work_def startable_def
proof (intro ballI impI notI)
  fix a j assume a: "a \<in> set (db_attempts (d\<lparr>db_issues := update_where p f (db_issues d)\<rparr>))" "is_active a"
    and j: "j \<in> set (db_issues (d\<lparr>db_issues := update_where p f (db_issues d)\<rparr>))" "IID j = wa_issue a" and parked: "parked j"
  have old: "\<not> parked i" if "i \<in> set (db_issues d)" "IID i = wa_issue a" for i
    using w a that by (simp add: at_work_def startable_def)
  from j(1) have "j \<in> set (update_where p f (db_issues d))" by simp
  with e show False
  proof (cases rule: edited_cases)
    case untouched
    show ?thesis using untouched old j(2) parked by blast
  next
    case (changed i)
    then have "IID i = wa_issue a" using j(2) by (simp add: issue_step_def)
    moreover have "has_active_attempt d (IID i)" using a calculation by (auto simp: has_active_attempt_def list_ex_iff)
    ultimately show ?thesis using changed old parked by (auto simp: issue_step_def park_step_def)
  qed
qed

lemma attempt_issue: "schema_ok d \<Longrightarrow> a \<in> set (db_attempts d) \<Longrightarrow> wa_issue a \<in> set (map IID (db_issues d))"
  by (simp add: schema_ok_def attempts_ok_def list_all_iff)

interpretation working: store_invariant at_work
proof unfold_locales
  fix d d' env resources prepared issueID attemptID sessionID now rows
  assume "at_work d"
    "acquireReservationsForAttempt env prepared resources issueID attemptID sessionID now d = Inr (d', rows)"
  then show "at_work d'" using acquire_relations [of env prepared resources issueID attemptID sessionID now d d' rows]
    by (simp add: at_work_def startable_def)
next
  fix d p f
  assume w: "at_work d" and c: "attempt_change p f"
  have "startable d (wa_issue x)" if "x \<in> set (update_where p f (db_attempts d))" "is_active x" for x
  proof -
    obtain y where "y \<in> set (db_attempts d)" "x = (if p y then f y else y)" using \<open>x \<in> _\<close> by (auto simp: mem_update_where)
    then show ?thesis using w c that(2) by (cases "p y") (auto simp: at_work_def attempt_change_def)
  qed
  then show "at_work (d\<lparr>db_attempts := update_where p f (db_attempts d)\<rparr>)" by (simp add: at_work_def startable_def)
next
  fix d p f assume "at_work d" "issue_edit d p f"
  then show "at_work (d\<lparr>db_issues := update_where p f (db_issues d)\<rparr>)" by (rule at_work_edit)
next
  fix d project i now
  assume w: "at_work d" and ok: "schema_ok d" "schema_ok (numbered_db project now d\<lparr>db_issues := db_issues d @ [i]\<rparr>)"
  then have "IID i \<notin> set (map IID (db_issues d))" by (simp add: schema_ok_def issues_ok_def numbered_db_def)
  then show "at_work (numbered_db project now d\<lparr>db_issues := db_issues d @ [i]\<rparr>)"
    using w attempt_issue [OF ok(1)] by (auto simp: at_work_def startable_def numbered_db_def)
qed (simp_all add: at_work_def startable_def same_core_def numbered_db_def)

text \<open>Every issue number lies below the number the project hands out next.\<close>

definition numbered :: "db \<Rightarrow> bool" where
  "numbered d \<longleftrightarrow> (case db_project d of None \<Rightarrow> True | Some p \<Rightarrow> list_all (\<lambda>i. SequenceNo i < pj_next p) (db_issues d))"

lemma numbered_iff: "numbered d \<longleftrightarrow> (\<forall>p. db_project d = Some p \<longrightarrow> (\<forall>i \<in> set (db_issues d). SequenceNo i < pj_next p))"
  by (auto simp: numbered_def list_all_iff split: option.splits)

interpretation numbering: store_invariant numbered
proof unfold_locales
  fix d d' env resources prepared issueID attemptID sessionID now rows
  assume "numbered d"
    "acquireReservationsForAttempt env prepared resources issueID attemptID sessionID now d = Inr (d', rows)"
  then show "numbered d'" using acquire_relations [of env prepared resources issueID attemptID sessionID now d d' rows]
    by (simp add: numbered_iff)
next
  fix d p f
  assume n: "numbered d" and e: "issue_edit d p f"
  show "numbered (d\<lparr>db_issues := update_where p f (db_issues d)\<rparr>)"
    unfolding numbered_iff
  proof (intro allI impI ballI)
    fix x j assume "db_project (d\<lparr>db_issues := update_where p f (db_issues d)\<rparr>) = Some x"
      "j \<in> set (db_issues (d\<lparr>db_issues := update_where p f (db_issues d)\<rparr>))"
    then have p: "db_project d = Some x" and j: "j \<in> set (update_where p f (db_issues d))" by simp_all
    from e j show "SequenceNo j < pj_next x"
      by (cases rule: edited_cases) (use n p in \<open>auto simp: numbered_iff issue_step_def\<close>)
  qed
next
  fix d project i now
  assume "numbered d" "new_issue_ok d project i"
  then show "numbered (numbered_db project now d\<lparr>db_issues := db_issues d @ [i]\<rparr>)"
    by (fastforce simp: numbered_iff new_issue_ok_def numbered_db_def)
qed (simp_all add: numbered_iff same_core_def numbered_db_def)

text \<open>The numbers given out so far, and the counter they have pushed up.\<close>

definition numbers :: "db \<Rightarrow> (string \<times> int) list" where
  "numbers d = map (\<lambda>i. (IID i, SequenceNo i)) (db_issues d)"

definition counting :: "(string \<times> int) list \<Rightarrow> int \<Rightarrow> db \<Rightarrow> bool" where
  "counting olds n d \<longleftrightarrow> (case db_project d of None \<Rightarrow> False | Some p \<Rightarrow> n \<le> pj_next p) \<and>
     (\<exists>new. numbers d = olds @ new \<and> list_all (\<lambda>x. n \<le> snd x) new)"

lemma numbers_edit:
  assumes "issue_edit d p f"
  shows "numbers (d\<lparr>db_issues := update_where p f (db_issues d)\<rparr>) = numbers d"
  using assms by (auto simp: numbers_def update_where_def issue_edit_def issue_step_def)

interpretation counter: store_invariant "counting olds n" for olds n
proof unfold_locales
  fix d d' env resources prepared issueID attemptID sessionID now rows
  assume "counting olds n d"
    "acquireReservationsForAttempt env prepared resources issueID attemptID sessionID now d = Inr (d', rows)"
  then show "counting olds n d'" using acquire_relations [of env prepared resources issueID attemptID sessionID now d d' rows]
    by (simp add: counting_def numbers_def)
next
  fix d p f
  assume "counting olds n d" "issue_edit d p f"
  then show "counting olds n (d\<lparr>db_issues := update_where p f (db_issues d)\<rparr>)" using numbers_edit by (simp add: counting_def)
next
  fix d project i now
  assume "counting olds n d" "new_issue_ok d project i"
  then show "counting olds n (numbered_db project now d\<lparr>db_issues := db_issues d @ [i]\<rparr>)"
    by (auto simp: counting_def numbers_def new_issue_ok_def numbered_db_def)
qed (simp_all add: counting_def numbers_def same_core_def)

section \<open>Ended attempts\<close>

definition ended :: "string \<Rightarrow> db \<Rightarrow> bool" where
  "ended a d \<longleftrightarrow> a \<in> set (map wa_id (db_attempts d)) \<and> (\<forall>x \<in> set (db_attempts d). wa_id x = a \<longrightarrow> \<not> is_active x)"

definition attempt_is :: "string \<Rightarrow> string \<Rightarrow> AttemptKind \<Rightarrow> db \<Rightarrow> bool" where
  "attempt_is a issue kind d \<longleftrightarrow> a \<in> set (map wa_id (db_attempts d)) \<and>
     (\<forall>x \<in> set (db_attempts d). wa_id x = a \<longrightarrow> wa_issue x = issue \<and> wa_kind x = kind)"

lemma ended_cong: "db_attempts d' = db_attempts d \<Longrightarrow> ended a d' = ended a d"
  by (simp add: ended_def)

lemma attempt_is_cong: "db_attempts d' = db_attempts d \<Longrightarrow> attempt_is a issue kind d' = attempt_is a issue kind d"
  by (simp add: attempt_is_def)

lemma change_ids: "attempt_change p f \<Longrightarrow> wa_id ` set (update_where p f xs) = wa_id ` set xs"
  by (induction xs) (auto simp: update_where_def attempt_change_def)

lemma change_rows:
  assumes "attempt_change p f" and "x \<in> set (update_where p f xs)"
  shows "\<exists>y \<in> set xs. wa_id x = wa_id y \<and> wa_issue x = wa_issue y \<and> wa_kind x = wa_kind y \<and> (is_active x \<longrightarrow> is_active y)"
  using assms by (auto simp: update_where_def attempt_change_def split: if_splits)

interpretation dead: store_invariant "ended a" for a
proof unfold_locales
  fix d d' env resources prepared issueID attemptID sessionID now rows
  assume "ended a d"
    "acquireReservationsForAttempt env prepared resources issueID attemptID sessionID now d = Inr (d', rows)"
  then show "ended a d'" using acquire_relations ended_cong by blast
next
  fix d p f
  assume e: "ended a d" and c: "attempt_change p f"
  show "ended a (d\<lparr>db_attempts := update_where p f (db_attempts d)\<rparr>)"
    using e change_ids [OF c] change_rows [OF c] by (fastforce simp: ended_def)
next
  fix d and b :: WorkAttempt
  assume "ended a d" "wa_id b \<notin> set (map wa_id (db_attempts d))"
  then show "ended a (d\<lparr>db_attempts := db_attempts d @ [b]\<rparr>)" by (auto simp: ended_def)
qed (simp_all add: ended_def same_core_def numbered_db_def)

interpretation identified: store_invariant "attempt_is a issue kind" for a issue kind
proof unfold_locales
  fix d d' env resources prepared issueID attemptID sessionID now rows
  assume "attempt_is a issue kind d"
    "acquireReservationsForAttempt env prepared resources issueID attemptID sessionID now d = Inr (d', rows)"
  then show "attempt_is a issue kind d'" using acquire_relations attempt_is_cong by blast
next
  fix d p f
  assume e: "attempt_is a issue kind d" and c: "attempt_change p f"
  show "attempt_is a issue kind (d\<lparr>db_attempts := update_where p f (db_attempts d)\<rparr>)"
    using e change_ids [OF c] change_rows [OF c] by (fastforce simp: attempt_is_def)
next
  fix d and b :: WorkAttempt
  assume "attempt_is a issue kind d" "wa_id b \<notin> set (map wa_id (db_attempts d))"
  then show "attempt_is a issue kind (d\<lparr>db_attempts := db_attempts d @ [b]\<rparr>)" by (auto simp: attempt_is_def)
qed (simp_all add: attempt_is_def same_core_def numbered_db_def)

section \<open>Resolved review requests\<close>

definition resolved_as :: "ReviewRequest \<Rightarrow> db \<Rightarrow> bool" where
  "resolved_as r d \<longleftrightarrow> r \<in> set (db_requests d) \<and> \<not> is_unresolved r"

interpretation final: store_invariant "resolved_as r" for r
proof unfold_locales
  fix d d' env resources prepared issueID attemptID sessionID now rows
  assume r: "resolved_as r d"
    and run: "acquireReservationsForAttempt env prepared resources issueID attemptID sessionID now d = Inr (d', rows)"
  have "db_requests d' = db_requests d" using acquire_effect(2) [OF run] by auto
  then show "resolved_as r d'" using r by (simp add: resolved_as_def)
next
  fix d q status bound_to resolved
  assume "resolved_as r d" "only_unresolved q d"
  then show "resolved_as r (d\<lparr>db_requests := update_where q (set_request status bound_to resolved) (db_requests d)\<rparr>)"
    by (auto simp: resolved_as_def only_unresolved_def mem_update_where intro!: bexI [of _ r])
qed (simp_all add: resolved_as_def same_core_def numbered_db_def)

end
