(* ===== verification/Lifecycle.thy ===== *)
theory Lifecycle
  imports Invariants
begin

text \<open>
  Who may hold what: an active reservation belongs to an active work attempt of its issue, and a
  claimed review request to an active review attempt of its issue. Ending an attempt breaks this in
  the middle of its transaction, so the invariant is an interpretation of \<open>system_invariant\<close>.
\<close>

section \<open>The invariant, but for one attempt\<close>

definition owners_but :: "string set \<Rightarrow> db \<Rightarrow> bool" where
  "owners_but X d \<longleftrightarrow> (\<forall>r \<in> set (db_reservations d).
     is_held r \<longrightarrow> rs_attempt r \<notin> X \<longrightarrow> holder d (rs_attempt r) (rs_issue r) AttemptKindWork)"

definition claims_but :: "string set \<Rightarrow> db \<Rightarrow> bool" where
  "claims_but X d \<longleftrightarrow> (\<forall>r \<in> set (db_requests d). \<forall>a.
     rq_attempt r = Some a \<longrightarrow> a \<notin> X \<longrightarrow> holder d a (rq_issue r) AttemptKindReview)"

definition rights_but :: "string set \<Rightarrow> db \<Rightarrow> bool" where
  "rights_but X d \<longleftrightarrow> schema_ok d \<and> owners_but X d \<and> claims_but X d"

definition rights_ok :: "db \<Rightarrow> bool" where
  "rights_ok = rights_but {}"

definition freed :: "string \<Rightarrow> db \<Rightarrow> bool" where
  "freed a d \<longleftrightarrow> (\<forall>r \<in> set (db_reservations d). is_held r \<longrightarrow> rs_attempt r \<noteq> a)"

lemma rights_restored: "rights_but {a} d \<Longrightarrow> freed a d \<Longrightarrow> unclaimed a d \<Longrightarrow> rights_ok d"
  by (auto simp: rights_ok_def rights_but_def owners_but_def claims_but_def freed_def unclaimed_def)

lemma rights_weaken: "rights_ok d \<Longrightarrow> rights_but X d"
  by (auto simp: rights_ok_def rights_but_def owners_but_def claims_but_def)

lemma settled_unclaimed:
  assumes "rights_ok d" and "settled a d" shows "unclaimed a d"
proof (rule ccontr)
  assume "\<not> unclaimed a d"
  then obtain r where "r \<in> set (db_requests d)" "rq_attempt r = Some a" by (auto simp: unclaimed_def)
  then have "holder d a (rq_issue r) AttemptKindReview"
    using assms(1) by (auto simp: rights_ok_def rights_but_def claims_but_def)
  then show False using assms(2) \<open>\<not> unclaimed a d\<close> by (auto simp: settled_def holder_def)
qed

text \<open>Tables the rights do not depend on, and rows of attempts other than the one being ended.\<close>

lemma holder_other:
  assumes "\<And>x. p x \<Longrightarrow> wa_id x = a" and "\<And>x. p x \<Longrightarrow> wa_id (f x) = a" and "b \<noteq> a"
  shows "holder (d\<lparr>db_attempts := update_where p f (db_attempts d)\<rparr>) b issue kind \<longleftrightarrow> holder d b issue kind"
  using assms unfolding holder_def by (fastforce simp: mem_update_where)

lemma rights_but_attempts:
  assumes ok: "rights_ok d" "schema_ok (d\<lparr>db_attempts := update_where p f (db_attempts d)\<rparr>)"
    and p: "\<And>x. p x \<Longrightarrow> wa_id x = a" "\<And>x. p x \<Longrightarrow> wa_id (f x) = a"
  shows "rights_but {a} (d\<lparr>db_attempts := update_where p f (db_attempts d)\<rparr>)"
  using ok holder_other [where d = d, OF p] by (auto simp: rights_ok_def rights_but_def owners_but_def claims_but_def)

lemma holder_cong: "db_attempts d' = db_attempts d \<Longrightarrow> holder d' = holder d"
  by (simp add: fun_eq_iff holder_def)

lemma rights_but_cong:
  assumes "rights_but X d" and "schema_ok d'" and "db_attempts d' = db_attempts d"
    and "\<And>r. r \<in> set (db_reservations d') \<Longrightarrow> is_held r \<Longrightarrow> rs_attempt r \<notin> X \<Longrightarrow>
      \<exists>s \<in> set (db_reservations d). is_held s \<and> rs_attempt s = rs_attempt r \<and> rs_issue s = rs_issue r"
    and "\<And>r a. r \<in> set (db_requests d') \<Longrightarrow> rq_attempt r = Some a \<Longrightarrow>
      \<exists>s \<in> set (db_requests d). rq_attempt s = Some a \<and> rq_issue s = rq_issue r"
  shows "rights_but X d'"
proof -
  have "holder d' (rs_attempt r) (rs_issue r) AttemptKindWork"
    if "r \<in> set (db_reservations d')" "is_held r" "rs_attempt r \<notin> X" for r
    using assms(4) [OF that] assms(1) that(3) by (auto simp: holder_cong [OF assms(3)] rights_but_def owners_but_def)
  moreover have "holder d' a (rq_issue r) AttemptKindReview"
    if "r \<in> set (db_requests d')" "rq_attempt r = Some a" "a \<notin> X" for r a
    using assms(5) [OF that(1,2)] assms(1) that(3) by (auto simp: holder_cong [OF assms(3)] rights_but_def claims_but_def)
  ultimately show ?thesis using assms(2) by (simp add: rights_but_def owners_but_def claims_but_def)
qed

section \<open>Ending an attempt\<close>

lemma released_not_owned:
  assumes "r \<in> set (update_where (owned_active a) (release_row reason now) rows)" and "is_held r"
  shows "rs_attempt r \<noteq> a"
proof -
  obtain s where "s \<in> set rows" "r = (if owned_active a s then release_row reason now s else s)"
    using assms(1) by (auto simp: mem_update_where)
  then show ?thesis using assms(2) by (cases "owned_active a s") (auto simp: owned_active_def)
qed

lemma release_schema_ok: "releaseReservationsForAttempt a reason now d = Inr (d', u) \<Longrightarrow> schema_ok d \<Longrightarrow> schema_ok d'"
proof -
  have "keeps schema_ok (releaseReservationsForAttempt a reason now)"
    unfolding releaseReservationsForAttempt_def release_one_def update_reservations_def append_event_def by (intro keeps_intro)
  then show "releaseReservationsForAttempt a reason now d = Inr (d', u) \<Longrightarrow> schema_ok d \<Longrightarrow> schema_ok d'" by (rule keepsD)
qed

lemma release_all_ok:
  "tx_ok (rights_but {a}) (releaseReservationsForAttempt a reason now) (\<lambda>_ d. rights_but {a} d \<and> freed a d)"
  unfolding tx_ok_def
proof (intro allI impI)
  fix d d' x
  assume ok: "rights_but {a} d" and run: "releaseReservationsForAttempt a reason now d = Inr (d', x)"
  then have schema: "schema_ok d" by (simp add: rights_but_def)
  obtain es where "d' = released_db (owned_active a) reason now es d"
    using release_attempt_total [OF schema, of a reason now] run by auto
  then have rows: "db_reservations d' = update_where (owned_active a) (release_row reason now) (db_reservations d)"
      "db_requests d' = db_requests d" "db_attempts d' = db_attempts d"
    by (simp_all add: released_db_def)
  have "rights_but {a} d'"
    by (rule rights_but_cong [OF ok release_schema_ok [OF run schema] rows(3)])
      (auto simp: rows mem_update_where split: if_splits)
  then show "rights_but {a} d' \<and> freed a d'" using released_not_owned unfolding freed_def rows by blast
qed

lemma unclaimed_release: "keeps (unclaimed a) (releaseReservationsForAttempt b reason now)"
proof -
  have "keeps (unclaimed a) (update_reservations p f)" for p f
    unfolding update_reservations_def by (intro keeps_intro keeps_unclaimed_exec) simp
  then show ?thesis unfolding releaseReservationsForAttempt_def release_one_def by (intro keeps_intro)
qed

lemma release_claim_ok:
  "tx_ok (\<lambda>d. rights_but {a} d \<and> freed a d) (releaseClaimedReviewRequest a now) (\<lambda>_. rights_ok)"
proof -
  let ?R = "\<lambda>d. rights_but {a} d \<and> freed a d"
  have event: "tx_ok (\<lambda>d. ?R d \<and> unclaimed a d) (appendReviewEvent i ty b payload now) (\<lambda>_. rights_ok)" for i ty b payload
  proof -
    have "rights_but {a} (d\<lparr>db_events := es\<rparr>)" if "rights_but {a} d" "schema_ok (d\<lparr>db_events := es\<rparr>)" for d es
      by (rule rights_but_cong [OF that]) auto
    then show ?thesis
      by (auto simp: tx_ok_def appendReviewEvent_def append_event_Inr Let_def freed_def intro!: rights_restored)
  qed
  have upd: "tx_ok (\<lambda>d. ?R d \<and> d = d0) (update_requests (claimed_by (rq_id r) a) (set_request status None resolved))
      (\<lambda>_ d. ?R d \<and> unclaimed a d)" if r: "loadActiveReviewRequestForAttempt d0 a = Some r" for d0 r status resolved
  proof -
    let ?d = "d0\<lparr>db_requests := update_where (claimed_by (rq_id r) a) (set_request status None resolved) (db_requests d0)\<rparr>"
    have "rights_but {a} ?d" if "rights_but {a} d0" "schema_ok ?d"
      by (rule rights_but_cong [OF that]) (auto simp: mem_update_where set_request_def split: if_splits)
    moreover have "unclaimed a ?d" if "rights_but {a} d0"
      using that cleared_unclaimed [of d0 r a "claimed_by (rq_id r) a"] loaded_claim [OF r]
      by (simp add: rights_but_def claimed_by_def)
    moreover have "freed a ?d" if "freed a d0" using that by (simp add: freed_def)
    ultimately show ?thesis by (simp add: tx_ok_def update_requests_Inr Let_def)
  qed
  have finish: "tx_ok (\<lambda>d. ?R d \<and> unclaimed a d) (if n \<noteq> 1 then tx_return () else appendReviewEvent i ty b payload now) (\<lambda>_. rights_ok)"
    for n :: nat and i ty b payload
    by (intro tx_ok_if event tx_ok_return) (use rights_restored in blast)
  show ?thesis
    unfolding releaseClaimedReviewRequest_def Let_def
  proof (intro tx_ok_read_then tx_ok_option tx_ok_return tx_ok_pure_then [OF pure_stale] tx_ok_then [OF upd finish])
    fix d0 d assume none: "loadActiveReviewRequestForAttempt d0 a = None" and "(?R d) \<and> d = d0"
    then show "rights_ok d" using rights_restored [of a d] loaded_unclaimed [OF _ none] by (auto simp: rights_but_def)
  qed
qed

lemma end_row_ok:
  assumes "\<And>x. p x \<Longrightarrow> wa_id x = a" and "\<And>x. p x \<Longrightarrow> wa_id (f x) = a"
  shows "tx_ok rights_ok (update_attempts p f) (\<lambda>n d. rights_but {a} d \<and> (n = 0 \<longrightarrow> rights_ok d))"
proof -
  have "rights_ok (d\<lparr>db_attempts := update_where p f (db_attempts d)\<rparr>)" if "rights_ok d" "affected p (db_attempts d) = 0" for d
    using that update_where_none [of "db_attempts d" p f] by (simp add: affected_eq_0)
  then show ?thesis
    using rights_but_attempts [OF _ _ assms] by (auto simp: tx_ok_def update_attempts_Inr Let_def)
qed

lemma release_ended_ok:
  "tx_ok (\<lambda>d. rights_but {a} d \<and> (n = 0 \<longrightarrow> rights_ok d)) (releaseReservationsForAttempt a why now)
     (\<lambda>_ d. rights_but {a} d \<and> freed a d)" for n :: nat
  by (rule tx_ok_weaken [OF release_all_ok]) simp_all

lemma terminate_rights:
  assumes "terminalStatusAbandonsReviewClaim status \<or> settled a d" and "rights_ok d"
    and run: "terminateAttempt a status reason now d = Inr (d', x)"
  shows "rights_ok d'"
proof (cases "terminalStatusAbandonsReviewClaim status")
  case True
  have "tx_ok rights_ok (terminateAttempt a status reason now) (\<lambda>_. rights_ok)"
    unfolding terminateAttempt_def if_not_P [OF iffD2 [OF not_not True]]
  proof (rule tx_ok_then [OF end_row_ok tx_ok_if])
    show "tx_ok (\<lambda>d. rights_but {a} d \<and> (n = 0 \<longrightarrow> rights_ok d)) (tx_return False) (\<lambda>_. rights_ok)" if "n = 0" for n :: nat
      using that by (auto intro!: tx_ok_return)
    show "tx_ok (\<lambda>d. rights_but {a} d \<and> (n = 0 \<longrightarrow> rights_ok d)) (tx_then (releaseReservationsForAttempt a (tr_release reason) now)
        (\<lambda>_. tx_then (releaseClaimedReviewRequest a now) (\<lambda>_. tx_return True))) (\<lambda>_. rights_ok)" for n :: nat
      by (intro tx_ok_then [OF release_ended_ok] tx_ok_then [OF release_claim_ok] tx_ok_return) simp_all
  qed (simp_all add: active_named_def end_attempt_def)
  from this assms(2) run show ?thesis by (rule tx_okD)
next
  case False
  let ?U = "\<lambda>d. rights_ok d \<and> unclaimed a d"
  have upd: "tx_ok ?U (update_attempts (active_named a) (end_attempt status fail int now))
      (\<lambda>n d. (rights_but {a} d \<and> (n = 0 \<longrightarrow> rights_ok d)) \<and> unclaimed a d)" for fail int
  proof -
    have "keeps (unclaimed a) (update_attempts (active_named a) (end_attempt status fail int now))"
      unfolding update_attempts_def by (intro keeps_intro keeps_unclaimed_exec) simp
    moreover have "tx_ok rights_ok (update_attempts (active_named a) (end_attempt status fail int now))
        (\<lambda>n d. rights_but {a} d \<and> (n = 0 \<longrightarrow> rights_ok d))"
      by (rule end_row_ok) (simp_all add: active_named_def end_attempt_def)
    ultimately show ?thesis unfolding tx_ok_def keeps_def by blast
  qed
  have release: "tx_ok (\<lambda>d. (rights_but {a} d \<and> (n = 0 \<longrightarrow> rights_ok d)) \<and> unclaimed a d)
      (releaseReservationsForAttempt a why now) (\<lambda>_. rights_ok)" for n :: nat and why
    using release_all_ok [of a why now] unclaimed_release [of a a why now] rights_restored
    unfolding tx_ok_def keeps_def by blast
  have "tx_ok ?U (terminateAttempt a status reason now) (\<lambda>_. rights_ok)"
    unfolding terminateAttempt_def if_P [OF False]
    by (intro tx_ok_then [OF upd] tx_ok_if tx_ok_then [OF release] tx_ok_return) simp_all
  moreover have "?U d" using assms settled_unclaimed False by blast
  ultimately show ?thesis using run by (rule tx_okD)
qed

lemma expire_rights:
  assumes "rights_ok d" and run: "expireAttempt a now d = Inr (d', x)"
  shows "rights_ok d'"
proof -
  have event: "keeps rights_ok (append_event i ty s b payload now source)" for i ty s b payload source
  proof (rule keepsI)
    fix d d' u assume "rights_ok d" "append_event i ty s b payload now source d = Inr (d', u)"
    then show "rights_ok d'" unfolding rights_ok_def append_event_Inr Let_def by (auto intro!: rights_but_cong [of "{}" d])
  qed
  have "tx_ok rights_ok (expireAttempt a now) (\<lambda>_. rights_ok)"
    unfolding expireAttempt_def
  proof (rule tx_ok_then [OF end_row_ok tx_ok_if])
    show "tx_ok (\<lambda>d. rights_but {a} d \<and> (n = 0 \<longrightarrow> rights_ok d)) (tx_return False) (\<lambda>_. rights_ok)" if "n = 0" for n :: nat
      using that by (auto intro!: tx_ok_return)
    show "tx_ok (\<lambda>d. rights_but {a} d \<and> (n = 0 \<longrightarrow> rights_ok d))
        (tx_then (tx_read (\<lambda>d. find (\<lambda>a'. wa_id a' = a) (db_attempts d))) (\<lambda>row.
         tx_then (tx_lift (from_option storageCorruptError row)) (\<lambda>a'.
         tx_then (releaseReservationsForAttempt a ReservationReleaseReasonExpired now) (\<lambda>_.
         tx_then (releaseClaimedReviewRequest a now) (\<lambda>_.
         tx_then (append_event (Some (wa_issue a')) ''attempt_expired'' None (Some a) (PayloadAttempt a) now SourceIssue) (\<lambda>_.
         tx_return True)))))) (\<lambda>_. rights_ok)" for n :: nat
      by (intro tx_ok_pure_then [OF pure_basic(3)] tx_ok_pure_then [OF pure_basic(4)]
          tx_ok_then [OF release_ended_ok] tx_ok_then [OF release_claim_ok]
          tx_ok_keeps [THEN iffD1] keeps_intro event)
  qed (simp_all add: expire_row_def)
  from this assms show ?thesis by (rule tx_okD)
qed

section \<open>The interpretation\<close>

lemma same_core_rights: "same_core d' d \<Longrightarrow> rights_ok d \<Longrightarrow> schema_ok d' \<Longrightarrow> rights_ok d'"
  unfolding rights_ok_def by (rule rights_but_cong [of "{}" d]) (auto simp: same_core_def)

lemma holder_touch:
  assumes "attempt_touch p f"
  shows "holder (d\<lparr>db_attempts := update_where p f (db_attempts d)\<rparr>) = holder d"
proof -
  let ?g = "\<lambda>x. if p x then f x else x"
  have "wa_id (?g x) = wa_id x \<and> is_active (?g x) = is_active x \<and> wa_issue (?g x) = wa_issue x \<and> wa_kind (?g x) = wa_kind x" for x
    using assms by (simp add: attempt_touch_def)
  then show ?thesis unfolding holder_def fun_eq_iff by (simp add: update_where_def del: if_image_distrib)
qed

lemma holder_start: "holder d a issue kind \<Longrightarrow> holder (d\<lparr>db_attempts := db_attempts d @ xs\<rparr>) a issue kind"
  by (auto simp: holder_def)

lemma rights_only_attempts:
  assumes "rights_ok d" and "\<And>a issue kind. holder d a issue kind \<Longrightarrow> holder (d\<lparr>db_attempts := as\<rparr>) a issue kind"
    and "schema_ok (d\<lparr>db_attempts := as\<rparr>)"
  shows "rights_ok (d\<lparr>db_attempts := as\<rparr>)"
  using assms by (auto simp: rights_ok_def rights_but_def owners_but_def claims_but_def)

interpretation lifecycle: system_invariant rights_ok
proof unfold_locales
  fix d d' env prepared resources issueID attemptID sessionID now rows
  assume ok: "rights_ok d" and h: "holder d attemptID issueID AttemptKindWork"
    and run: "acquireReservationsForAttempt env prepared resources issueID attemptID sessionID now d = Inr (d', rows)"
  have schema: "schema_ok d'" using keepsD [OF keeps_schema_acquire run] ok by (simp add: rights_ok_def rights_but_def)
  obtain es where d': "d' = d\<lparr>db_reservations := db_reservations d @ rows, db_events := db_events d @ es\<rparr>"
      and rows: "rows = map (new_row resources issueID attemptID now) prepared"
    using acquire_effect(1,2) [OF run] by blast
  have "holder d' (rs_attempt r) (rs_issue r) AttemptKindWork" if "r \<in> set (db_reservations d')" "is_held r" for r
  proof (cases "r \<in> set rows")
    case True
    then show ?thesis using h by (auto simp: rows new_row_def reservation_of_def d' holder_def)
  next
    case False
    then show ?thesis using that ok by (auto simp: d' holder_def rights_ok_def rights_but_def owners_but_def)
  qed
  moreover have "claims_but {} d'" using ok by (auto simp: d' holder_def rights_ok_def rights_but_def claims_but_def)
  ultimately show "rights_ok d'" using schema by (simp add: rights_ok_def rights_but_def owners_but_def)
next
  fix d a status reason now d' done_now
  assume "rights_ok d" "terminalStatusAbandonsReviewClaim status \<or> settled a d"
    "terminateAttempt a status reason now d = Inr (d', done_now)"
  then show "rights_ok d'" using terminate_rights by blast
next
  fix d a now d' done_now
  assume "rights_ok d" "expireAttempt a now d = Inr (d', done_now)"
  then show "rights_ok d'" using expire_rights by blast
next
  fix d p f d'
  assume "rights_ok d" "attempt_touch p f" "d' = d\<lparr>db_attempts := update_where p f (db_attempts d)\<rparr>" "schema_ok d'"
  then show "rights_ok d'" using rights_only_attempts [of d] by (simp add: holder_touch)
next
  fix d row d'
  assume "rights_ok d" "d' = d\<lparr>db_attempts := db_attempts d @ [row]\<rparr>" "schema_ok d'"
  then show "rights_ok d'" using rights_only_attempts [of d "db_attempts d @ [row]"] holder_start by simp
next
  fix d q now d' release_reason
  assume "rights_ok d" "d' = d\<lparr>db_reservations := update_where q (release_row release_reason now) (db_reservations d)\<rparr>" "schema_ok d'"
  then show "rights_ok d'"
    unfolding rights_ok_def by - (rule rights_but_cong [of "{}" d], auto simp: mem_update_where split: if_splits)
next
  fix d r status resolved d'
  assume "rights_ok d" "d' = d\<lparr>db_requests := update_where r (set_request status None resolved) (db_requests d)\<rparr>" "schema_ok d'"
  then show "rights_ok d'"
    unfolding rights_ok_def by - (rule rights_but_cong [of "{}" d], auto simp: mem_update_where set_request_def split: if_splits)
next
  fix d r status attemptID issueID resolved d'
  assume ok: "rights_ok d" and h: "holder d attemptID issueID AttemptKindReview"
    and only: "\<forall>x \<in> set (db_requests d). r x \<longrightarrow> rq_issue x = issueID"
    and d': "d' = d\<lparr>db_requests := update_where r (set_request status (Some attemptID) resolved) (db_requests d)\<rparr>"
    and schema: "schema_ok d'"
  have "holder d' a (rq_issue x) AttemptKindReview" if x: "x \<in> set (db_requests d')" "rq_attempt x = Some a" for x a
  proof -
    obtain y where y: "y \<in> set (db_requests d)" "x = (if r y then set_request status (Some attemptID) resolved y else y)"
      using x(1) by (auto simp: d' mem_update_where)
    show ?thesis
    proof (cases "r y")
      case True
      then show ?thesis using y x(2) only h by (simp add: set_request_def d' holder_def)
    next
      case False
      then show ?thesis using y x(2) ok by (simp add: d' holder_def rights_ok_def rights_but_def claims_but_def)
    qed
  qed
  moreover have "owners_but {} d'" using ok by (simp add: d' holder_def rights_ok_def rights_but_def owners_but_def)
  ultimately show "rights_ok d'" using schema by (simp add: rights_ok_def rights_but_def claims_but_def)
next
  fix d request d'
  assume "rights_ok d" "rq_attempt request = None" "d' = d\<lparr>db_requests := db_requests d @ [request]\<rparr>" "schema_ok d'"
  then show "rights_ok d'"
    unfolding rights_ok_def by - (rule rights_but_cong [of "{}" d], auto)
next
  fix d d' issue ty session attempt payload now source
  assume "rights_ok d" "d' = d\<lparr>db_events := db_events d @ [new_event d issue ty session attempt payload now source]\<rparr>" "schema_ok d'"
  then show "rights_ok d'" unfolding rights_ok_def by - (rule rights_but_cong [of "{}" d], auto)
next
  fix d d'
  assume "rights_ok d" "same_core d' d" "schema_ok d'"
  then show "rights_ok d'" using same_core_rights by blast
next
  fix d d' i_at f_issue
  assume "rights_ok d" "d' = d\<lparr>db_issues := update_where i_at f_issue (db_issues d)\<rparr>" "schema_ok d'"
  then show "rights_ok d'" unfolding rights_ok_def by - (rule rights_but_cong [of "{}" d], auto)
next
  fix d d' project i now
  assume "rights_ok d" "d' = numbered_db project now d\<lparr>db_issues := db_issues d @ [i]\<rparr>" "schema_ok d'"
  then show "rights_ok d'" unfolding rights_ok_def numbered_db_def by - (rule rights_but_cong [of "{}" d], auto)
next
  fix d d' and e :: IssueRelation
  assume "rights_ok d" "d' = d\<lparr>db_relations := db_relations d @ [e]\<rparr>" "schema_ok d'"
  then show "rights_ok d'" unfolding rights_ok_def by - (rule rights_but_cong [of "{}" d], auto)
next
  fix d d' s
  assume "rights_ok d" "d' = d\<lparr>db_relations := filter s (db_relations d)\<rparr>" "schema_ok d'"
  then show "rights_ok d'" unfolding rights_ok_def by - (rule rights_but_cong [of "{}" d], auto)
qed (simp add: rights_ok_def rights_but_def)

section \<open>Ended attempts hold nothing\<close>

lemma ended_no_holder: "ended a d \<Longrightarrow> \<not> holder d a issue kind"
  by (auto simp: ended_def holder_def)

lemma ended_holds_nothing:
  assumes "rights_ok d" and "ended a d" shows "freed a d \<and> unclaimed a d"
  using assms(1) ended_no_holder [OF assms(2)]
  unfolding rights_ok_def rights_but_def owners_but_def claims_but_def freed_def unclaimed_def by blast

end
