(* ===== verification/ExpirySweep.thy ===== *)
theory ExpirySweep
  imports Lifecycle
begin

text \<open>
  Expiring lapsed leases never fails on a consistent store: the steps of \<^verbatim>\<open>expireAttempt\<close> succeed one
  after the other, and the sweeps of \<^verbatim>\<open>ExpireAttempts\<close> and of a claim amount to one update of the
  attempts table.
\<close>

section \<open>Single steps\<close>

lemma distinct_filter_update:
  assumes "distinct (map g (filter q xs))" and "\<And>x. p x \<Longrightarrow> g (f x) = g x" and "\<And>x. p x \<Longrightarrow> q (f x) \<Longrightarrow> q x"
  shows "distinct (map g (filter q (update_where p f xs)))"
  using assms(1)
proof (induction xs)
  case (Cons x xs)
  have sub: "set (map g (filter q (update_where p f xs))) \<subseteq> set (map g (filter q xs))"
    using assms(2,3) by (auto simp: update_where_def)
  show ?case
  proof (cases "q x")
    case True
    then have "distinct (map g (filter q (update_where p f xs)))" "g x \<notin> set (map g (filter q xs))"
      using Cons by simp_all
    then show ?thesis using sub assms(2) by (auto simp: update_where_def)
  next
    case False
    then have "\<not> q (if p x then f x else x)" using assms(3) by auto
    then show ?thesis using Cons False by (simp add: update_where_def)
  qed
qed (simp add: update_where_def)

lemma expire_row_simps [simp]:
  "wa_id (expire_row now a) = wa_id a" "wa_issue (expire_row now a) = wa_issue a" "wa_kind (expire_row now a) = wa_kind a"
  "wa_session (expire_row now a) = wa_session a" "\<not> is_active (expire_row now a)" "\<not> lapsed later (expire_row now a)"
  by (simp_all add: expire_row_def is_active_def lapsed_def)

lemma expire_row_schema:
  assumes ok: "schema_ok d" and p: "\<And>a. p a \<Longrightarrow> is_active a"
  shows "schema_ok (d\<lparr>db_attempts := update_where p (expire_row now) (db_attempts d)\<rparr>)"
proof -
  let ?rows = "update_where p (expire_row now) (db_attempts d)"
  have ids: "map wa_id ?rows = map wa_id (db_attempts d)" by (rule map_update_where) simp
  have at: "attempts_ok d" using ok by (simp add: schema_ok_def)
  have row: "attempt_row_ok a \<Longrightarrow> is_active a \<Longrightarrow> attempt_row_ok (expire_row now a)" for a
    by (auto simp: attempt_row_ok_def expire_row_def is_active_def)
  have act: "distinct (map wa_issue (filter is_active ?rows))"
    by (rule distinct_filter_update) (use at p in \<open>simp_all add: attempts_ok_def\<close>)
  have "attempts_ok (d\<lparr>db_attempts := ?rows\<rparr>)"
    using at row p act unfolding attempts_ok_def by (simp add: ids) (auto simp: list_all_iff mem_update_where)
  then show ?thesis using ok ids schema_frame_attempts by blast
qed

lemma return_claim_schema:
  assumes ok: "schema_ok d" and p: "\<And>r. p r \<Longrightarrow> is_unresolved r"
    and st: "(status = ReviewRequestStatusOpen \<and> resolved = None) \<or> (status = ReviewRequestStatusSuperseded \<and> resolved \<noteq> None)"
  shows "schema_ok (d\<lparr>db_requests := update_where p (set_request status None resolved) (db_requests d)\<rparr>)"
proof -
  let ?f = "set_request status None resolved"
  let ?rows = "update_where p ?f (db_requests d)"
  have f: "rq_id (?f r) = rq_id r" "rq_target (?f r) = rq_target r" "rq_issue (?f r) = rq_issue r"
      "rq_issue_version (?f r) = rq_issue_version r" "rq_attempt (?f r) = None" "rq_supersedes (?f r) = rq_supersedes r" for r
    by (simp_all add: set_request_def)
  have ids: "map rq_id ?rows = map rq_id (db_requests d)" by (rule map_update_where) (simp add: f)
  have rq: "requests_ok d" using ok by (simp add: schema_ok_def)
  have row: "request_row_ok r \<Longrightarrow> request_row_ok (?f r)" for r
    using st by (auto simp: request_row_ok_def set_request_def is_unresolved_def)
  have target: "distinct (map rq_target (filter is_unresolved ?rows))"
    by (rule distinct_filter_update) (use rq p f in \<open>simp_all add: requests_ok_def\<close>)
  have issue: "distinct (map (\<lambda>r. (rq_issue r, rq_issue_version r)) (filter is_unresolved ?rows))"
    by (rule distinct_filter_update) (use rq p f in \<open>simp_all add: requests_ok_def\<close>)
  have attempt: "distinct (map rq_attempt (filter (\<lambda>r. rq_attempt r \<noteq> None) ?rows))"
  proof -
    have none: "filter (\<lambda>r. rq_attempt r \<noteq> None) ?rows = filter (\<lambda>r. rq_attempt r \<noteq> None \<and> \<not> p r) (db_requests d)"
      by (rule filter_update_where) (simp add: f)
    show ?thesis unfolding none by (rule distinct_map_filter) (use rq in \<open>simp add: requests_ok_def\<close>)
  qed
  have "list_all (\<lambda>r. request_row_ok r \<and> rq_issue r \<in> set (map IID (db_issues d)) \<and>
       rq_target r \<in> set (map rt_id (db_targets d)) \<and> refers (map wa_id (db_attempts d)) (rq_attempt r) \<and>
       refers (map rq_id (db_requests d)) (rq_supersedes r)) ?rows"
    using rq row f by (auto simp: requests_ok_def list_all_iff mem_update_where)
  then have "requests_ok (d\<lparr>db_requests := ?rows\<rparr>)"
    using rq target issue attempt by (simp add: requests_ok_def ids del: set_map)
  then show ?thesis using ok ids schema_frame_requests by blast
qed

text \<open>What every step leaves alone.\<close>

definition apart_from_attempts :: "db \<Rightarrow> db \<Rightarrow> bool" where
  "apart_from_attempts d' d \<longleftrightarrow> db_issues d' = db_issues d \<and> db_relations d' = db_relations d \<and> db_sessions d' = db_sessions d"

lemma stale_total:
  assumes "schema_ok d" and "r \<in> set (db_requests d)"
  shows "\<exists>b. reviewTargetStale (rq_issue r) v e d = Inr (d, b)"
proof -
  have "rq_issue r \<in> set (map IID (db_issues d))"
    using assms by (auto simp: schema_ok_def requests_ok_def list_all_iff)
  then obtain i where "find (\<lambda>i. IID i = rq_issue r) (db_issues d) = Some i"
    by (cases "find (\<lambda>i. IID i = rq_issue r) (db_issues d)") (auto simp: find_None_iff)
  then show ?thesis by (auto simp: reviewTargetStale_def)
qed

lemma release_claim_total:
  assumes ok: "schema_ok d" and a: "a \<in> set (map wa_id (db_attempts d))"
  shows "\<exists>d'. releaseClaimedReviewRequest a now d = Inr (d', ()) \<and> schema_ok d' \<and>
    db_attempts d' = db_attempts d \<and> apart_from_attempts d' d"
proof (cases "loadActiveReviewRequestForAttempt d a")
  case None
  then show ?thesis using ok by (simp add: releaseClaimedReviewRequest_def tx_then_def tx_read_def tx_return_def apart_from_attempts_def)
next
  case (Some r)
  have r: "r \<in> set (db_requests d)" using loaded_claim [OF Some] by blast
  obtain b where b: "reviewTargetStale (rq_issue r) (rq_issue_version r) (rq_event r) d = Inr (d, b)"
    using stale_total [OF ok r] by blast
  define status where "status = (if b then ReviewRequestStatusSuperseded else ReviewRequestStatusOpen)"
  define resolved where "resolved = (if b then Some now else None)"
  define d1 where "d1 = d\<lparr>db_requests := update_where (claimed_by (rq_id r) a) (set_request status None resolved) (db_requests d)\<rparr>"
  have ok1: "schema_ok d1" unfolding d1_def
    by (rule return_claim_schema [OF ok]) (auto simp: status_def resolved_def claimed_by_def is_unresolved_def)
  have issue: "rq_issue r \<in> set (map IID (db_issues d))" using ok r by (auto simp: schema_ok_def requests_ok_def list_all_iff)
  have event: "append_event (Some (rq_issue r)) ty None (Some a) p now SourceReview d1 =
      Inr (d1\<lparr>db_events := db_events d1 @ [new_event d1 (Some (rq_issue r)) ty None (Some a) p now SourceReview]\<rparr>, ())" if "ty \<noteq> []" for ty p
    by (rule append_event_total [OF ok1 that]) (use a issue in \<open>simp add: event_refs_ok_def d1_def\<close>)
  have ok2: "schema_ok (d1\<lparr>db_events := db_events d1 @ [new_event d1 (Some (rq_issue r)) ty None (Some a) p now SourceReview]\<rparr>)"
    if "ty \<noteq> []" for ty p by (rule append_event_schema [OF event [OF that]])
  have upd: "update_requests (claimed_by (rq_id r) a) (set_request status None resolved) d =
      Inr (d1, affected (claimed_by (rq_id r) a) (db_requests d))"
    using ok1 by (simp add: update_requests_Inr d1_def)
  define d' where "d' = (if affected (claimed_by (rq_id r) a) (db_requests d) \<noteq> 1 then d1 else
    d1\<lparr>db_events := db_events d1 @ [new_event d1 (Some (rq_issue r)) (if b then ''review_superseded'' else ''review_requested'')
      None (Some a) (payloadForReviewEvent r (Some a) None None) now SourceReview]\<rparr>)"
  have "releaseClaimedReviewRequest a now d = Inr (d', ())"
    using upd event
    by (simp add: releaseClaimedReviewRequest_def tx_then_def tx_read_def Some b Let_def tx_return_def
        appendReviewEvent_def d'_def status_def [symmetric] resolved_def [symmetric])
  moreover have "schema_ok d'"
    unfolding d'_def using ok1 ok2 by (simp del: schema_ok_event)
  ultimately show ?thesis by (auto simp: d'_def d1_def apart_from_attempts_def)
qed

lemma release_reservations_total:
  assumes "schema_ok d"
  shows "\<exists>d'. releaseReservationsForAttempt a reason now d = Inr (d', ()) \<and> schema_ok d' \<and>
    db_attempts d' = db_attempts d \<and> apart_from_attempts d' d"
proof -
  obtain es where run: "releaseReservationsForAttempt a reason now d = Inr (released_db (owned_active a) reason now es d, ())"
    using release_attempt_total [OF assms] by blast
  then show ?thesis using release_schema_ok [OF run assms] by (auto simp: released_db_def apart_from_attempts_def)
qed

section \<open>Expiring one attempt\<close>

lemma expire_total:
  assumes ok: "schema_ok d" and row: "row \<in> set (db_attempts d)" and lapsed: "lapsed now row"
  shows "\<exists>d'. expireAttempt (wa_id row) now d = Inr (d', True) \<and> schema_ok d' \<and> apart_from_attempts d' d \<and>
    db_attempts d' = update_where (\<lambda>a. wa_id a = wa_id row \<and> lapsed now a) (expire_row now) (db_attempts d)"
proof -
  let ?a = "wa_id row"
  let ?p = "\<lambda>a. wa_id a = ?a \<and> lapsed now a"
  let ?rows = "update_where ?p (expire_row now) (db_attempts d)"
  define d1 where "d1 = d\<lparr>db_attempts := ?rows\<rparr>"
  have ok1: "schema_ok d1" unfolding d1_def by (rule expire_row_schema [OF ok]) (simp add: lapsed_def)
  have ids: "map wa_id ?rows = map wa_id (db_attempts d)" by (rule map_update_where) simp
  have upd: "update_attempts ?p (expire_row now) d = Inr (d1, affected ?p (db_attempts d))"
    using ok1 by (simp add: update_attempts_Inr d1_def)
  have hit: "affected ?p (db_attempts d) \<noteq> 0" using row lapsed by (auto simp: affected_eq_0)
  have "?a \<in> set (map wa_id ?rows)" using row ids by simp
  then obtain x where x: "find (\<lambda>x. wa_id x = ?a) (db_attempts d1) = Some x"
    by (cases "find (\<lambda>x. wa_id x = ?a) (db_attempts d1)") (auto simp: find_None_iff d1_def)
  obtain d2 where d2: "releaseReservationsForAttempt ?a ReservationReleaseReasonExpired now d1 = Inr (d2, ())" "schema_ok d2"
      "db_attempts d2 = db_attempts d1" "apart_from_attempts d2 d1"
    using release_reservations_total [OF ok1] by blast
  have "?a \<in> set (map wa_id (db_attempts d2))" using \<open>?a \<in> set (map wa_id ?rows)\<close> d2(3) by (simp add: d1_def)
  then obtain d3 where d3: "releaseClaimedReviewRequest ?a now d2 = Inr (d3, ())" "schema_ok d3"
      "db_attempts d3 = db_attempts d2" "apart_from_attempts d3 d2"
    using release_claim_total [OF d2(2)] by blast
  have mem: "x \<in> set (db_attempts d3)" "wa_id x = ?a" using find_Some_mem [OF x] d2(3) d3(3) by simp_all
  then have refs: "event_refs_ok d3 (Some (wa_issue x)) None (Some ?a)"
    using d3(2) by (auto simp: event_refs_ok_def schema_ok_def attempts_ok_def list_all_iff intro!: image_eqI [of _ wa_id x])
  let ?e = "new_event d3 (Some (wa_issue x)) ''attempt_expired'' None (Some ?a) (PayloadAttempt ?a) now SourceIssue"
  have event: "append_event (Some (wa_issue x)) ''attempt_expired'' None (Some ?a) (PayloadAttempt ?a) now SourceIssue d3 =
      Inr (d3\<lparr>db_events := db_events d3 @ [?e]\<rparr>, ())"
    by (rule append_event_total [OF d3(2) _ refs]) simp
  have "expireAttempt ?a now d = Inr (d3\<lparr>db_events := db_events d3 @ [?e]\<rparr>, True)"
    using hit by (simp add: expireAttempt_def tx_then_def upd tx_read_def x tx_lift_def from_option_def d2(1) d3(1) event tx_return_def)
  moreover have "schema_ok (d3\<lparr>db_events := db_events d3 @ [?e]\<rparr>)" by (rule append_event_schema [OF event])
  ultimately show ?thesis
    using d2(3,4) d3(3,4)
    by (intro exI [of _ "d3\<lparr>db_events := db_events d3 @ [?e]\<rparr>"]) (simp add: apart_from_attempts_def d1_def)
qed

section \<open>The sweep\<close>

definition expired_rows :: "string set \<Rightarrow> time \<Rightarrow> WorkAttempt list \<Rightarrow> WorkAttempt list" where
  "expired_rows ids now rows = update_where (\<lambda>a. wa_id a \<in> ids \<and> lapsed now a) (expire_row now) rows"

lemma expired_rows_step:
  "expired_rows ids now (update_where (\<lambda>a. wa_id a = i \<and> lapsed now a) (expire_row now) rows) = expired_rows (insert i ids) now rows"
  by (auto simp: expired_rows_def update_where_def)

lemma lapsed_others:
  assumes "distinct (i # ids)" and "\<forall>j \<in> set ids. \<exists>a \<in> set rows. wa_id a = j \<and> lapsed now a"
  shows "\<forall>j \<in> set ids. \<exists>a \<in> set (update_where (\<lambda>a. wa_id a = i \<and> lapsed now a) (expire_row now) rows). wa_id a = j \<and> lapsed now a"
proof
  fix j assume j: "j \<in> set ids"
  then obtain a where a: "a \<in> set rows" "wa_id a = j" "lapsed now a" using assms(2) by blast
  moreover have "wa_id a \<noteq> i" using assms(1) j a(2) by auto
  ultimately show "\<exists>a \<in> set (update_where (\<lambda>a. wa_id a = i \<and> lapsed now a) (expire_row now) rows). wa_id a = j \<and> lapsed now a"
    by (intro bexI [of _ a]) (simp_all add: mem_update_where, metis)
qed

definition expire_strictly :: "time \<Rightarrow> string \<Rightarrow> unit tx" where
  "expire_strictly now i = tx_then (expireAttempt i now) (\<lambda>expired. tx_require expired storageCorruptError)"

lemma tx_then_run: "t d = Inr (d1, x) \<Longrightarrow> tx_then t f d = f x d1"
  by (simp add: tx_then_def)

lemma sweep_total:
  assumes "schema_ok d" and "distinct ids" and "\<forall>i \<in> set ids. \<exists>a \<in> set (db_attempts d). wa_id a = i \<and> lapsed now a"
  shows "\<exists>d'. tx_map (expire_counting now) ids d = Inr (d', replicate (length ids) 1) \<and>
    tx_each (expire_strictly now) ids d = Inr (d', ()) \<and>
    schema_ok d' \<and> apart_from_attempts d' d \<and> db_attempts d' = expired_rows (set ids) now (db_attempts d)"
  using assms
proof (induction ids arbitrary: d)
  case Nil
  then show ?case by (simp add: tx_return_def apart_from_attempts_def expired_rows_def update_where_def)
next
  case (Cons i ids)
  then obtain row where row: "row \<in> set (db_attempts d)" "wa_id row = i" "lapsed now row" by auto
  obtain d1 where d1: "expireAttempt i now d = Inr (d1, True)" "schema_ok d1" "apart_from_attempts d1 d"
      "db_attempts d1 = update_where (\<lambda>a. wa_id a = i \<and> lapsed now a) (expire_row now) (db_attempts d)"
    using expire_total [OF Cons.prems(1) row(1,3)] row(2) by auto
  obtain d' where d': "tx_map (expire_counting now) ids d1 = Inr (d', replicate (length ids) 1)"
      "tx_each (expire_strictly now) ids d1 = Inr (d', ())"
      "schema_ok d'" "apart_from_attempts d' d1" "db_attempts d' = expired_rows (set ids) now (db_attempts d1)"
    using Cons.IH [OF d1(2)] Cons.prems(2,3) lapsed_others [of i ids "db_attempts d" now] d1(4) by auto
  have "apart_from_attempts d' d" using d1(3) d'(4) by (simp add: apart_from_attempts_def)
  moreover have "expire_counting now i d = Inr (d1, 1)" "expire_strictly now i d = Inr (d1, ())"
    using d1(1) by (simp_all add: expire_counting_def expire_strictly_def tx_then_run tx_return_def tx_require_def)
  ultimately show ?case
    using d' expired_rows_step [of "set ids" now i "db_attempts d"]
    by (intro exI [of _ d']) (simp add: tx_then_run tx_return_def d1(4))
qed

lemma lapsed_ids_distinct: "schema_ok d \<Longrightarrow> distinct (map wa_id (filter q (db_attempts d)))"
  using distinct_map_filter [of wa_id "\<lambda>_. True" "db_attempts d" q] by (simp add: schema_ok_def attempts_ok_def)

lemma expired_rows_all: "expired_rows (wa_id ` {a \<in> set rows. lapsed now a}) now rows = update_where (lapsed now) (expire_row now) rows"
  by (auto simp: expired_rows_def update_where_def)

lemma expire_attempts_total:
  assumes ok: "schema_ok d" and now: "\<not> IsZero now"
  shows "\<exists>d'. ExpireAttempts now d = (d', Inr (length (filter (lapsed now) (db_attempts d)))) \<and>
    schema_ok d' \<and> apart_from_attempts d' d \<and> db_attempts d' = update_where (lapsed now) (expire_row now) (db_attempts d)"
proof -
  let ?ids = "sort (map wa_id (filter (lapsed now) (db_attempts d)))"
  have "distinct ?ids" using lapsed_ids_distinct [OF ok] by simp
  then obtain d' where d': "tx_map (expire_counting now) ?ids d = Inr (d', replicate (length ?ids) 1)"
      "schema_ok d'" "apart_from_attempts d' d" "db_attempts d' = expired_rows (set ?ids) now (db_attempts d)"
    using sweep_total [OF ok, of ?ids now] by fastforce
  have "set ?ids = wa_id ` {a \<in> set (db_attempts d). lapsed now a}" by auto
  then show ?thesis
    using d' now expired_rows_all [of "db_attempts d" now]
    by (intro exI [of _ d'])
      (simp add: ExpireAttempts_def Write_def tx_then_def tx_read_def tx_return_def sum_list_replicate)
qed

lemma expire_issue_total:
  assumes ok: "schema_ok d"
  shows "\<exists>d'. expireAttemptsForIssue issue now d = Inr (d', ()) \<and> schema_ok d' \<and> apart_from_attempts d' d \<and>
    db_attempts d' = update_where (\<lambda>a. wa_issue a = issue \<and> lapsed now a) (expire_row now) (db_attempts d)"
proof -
  let ?ids = "map wa_id (filter (\<lambda>a. wa_issue a = issue \<and> lapsed now a) (db_attempts d))"
  obtain d' where d': "tx_each (expire_strictly now) ?ids d = Inr (d', ())"
      "schema_ok d'" "apart_from_attempts d' d" "db_attempts d' = expired_rows (set ?ids) now (db_attempts d)"
    using sweep_total [OF ok lapsed_ids_distinct [OF ok], of "\<lambda>a. wa_issue a = issue \<and> lapsed now a" now] by fastforce
  have "wa_id a \<in> set ?ids \<and> lapsed now a \<longleftrightarrow> wa_issue a = issue \<and> lapsed now a" if "a \<in> set (db_attempts d)" for a
    proof
    assume "wa_id a \<in> set ?ids \<and> lapsed now a"
    then obtain b where "b \<in> set (db_attempts d)" "wa_issue b = issue" "wa_id a = wa_id b" by auto
    then show "wa_issue a = issue \<and> lapsed now a"
      using attempt_unique [OF ok _ that] \<open>wa_id a \<in> set ?ids \<and> lapsed now a\<close> by metis
  qed (use that in auto)
  then have "expired_rows (set ?ids) now (db_attempts d) =
      update_where (\<lambda>a. wa_issue a = issue \<and> lapsed now a) (expire_row now) (db_attempts d)"
    unfolding expired_rows_def by (rule update_where_cong)
  then show ?thesis
    using d' by (intro exI [of _ d']) (simp add: expireAttemptsForIssue_def tx_then_def tx_read_def expire_strictly_def [abs_def])
qed

section \<open>Properties\<close>

lemma swept_not_lapsed: "list_all (\<lambda>a. \<not> lapsed now a) (update_where (lapsed now) (expire_row now) rows)"
proof -
  have "\<not> lapsed now (if lapsed now r then expire_row now r else r)" for r by simp
  then show ?thesis by (simp add: update_where_def list_all_iff del: if_image_distrib)
qed

text \<open>
  C18. The expiry sweep always gets through: on every store that keeps its constraints it succeeds,
  reports the number of lapsed attempts, ends exactly those and leaves no lapsed attempt behind; each
  attempt it ends holds no reservation and no review request afterwards.
\<close>

theorem expiry_sweep_succeeds:
  assumes "rights_ok d" and "\<not> IsZero now"
  shows "\<exists>d'. ExpireAttempts now d = (d', Inr (length (filter (lapsed now) (db_attempts d)))) \<and>
    db_attempts d' = map (\<lambda>a. if lapsed now a then expire_row now a else a) (db_attempts d) \<and>
    list_all (\<lambda>a. \<not> lapsed now a) (db_attempts d') \<and>
    (\<forall>a \<in> set (db_attempts d). lapsed now a \<longrightarrow> freed (wa_id a) d' \<and> unclaimed (wa_id a) d')"
proof -
  have ok: "schema_ok d" using assms(1) by (simp add: rights_ok_def rights_but_def)
  obtain d' where run: "ExpireAttempts now d = (d', Inr (length (filter (lapsed now) (db_attempts d))))"
      and rows: "db_attempts d' = update_where (lapsed now) (expire_row now) (db_attempts d)"
    using expire_attempts_total [OF ok assms(2)] by blast
  have rights: "rights_ok d'" using lifecycle.ExpireAttempts_keeps [OF assms(1), of now] run by simp
  have "ended (wa_id a) d'" if a: "a \<in> set (db_attempts d)" "lapsed now a" for a
  proof -
    have "wa_id a \<in> set (map wa_id (db_attempts d'))" using a(1) by (simp add: rows map_update_where)
    moreover have "\<not> is_active x" if x: "x \<in> set (db_attempts d')" "wa_id x = wa_id a" for x
    proof -
      obtain y where y: "y \<in> set (db_attempts d)" "x = (if lapsed now y then expire_row now y else y)"
        using x(1) by (auto simp: rows mem_update_where)
      then have "wa_id y = wa_id a" using x(2) by (simp split: if_splits)
      then have "y = a" using attempt_unique [OF ok a(1) y(1)] by simp
      then show ?thesis using y a(2) by simp
    qed
    ultimately show ?thesis by (simp add: ended_def)
  qed
  then have "freed (wa_id a) d' \<and> unclaimed (wa_id a) d'" if "a \<in> set (db_attempts d)" "lapsed now a" for a
    using ended_holds_nothing [OF rights] that by blast
  then show ?thesis
    using run rows swept_not_lapsed [of now "db_attempts d"] by (simp add: update_where_def)
qed

lemma sample_rights_ok: "rights_ok sample_db"
  using sample_db_ok
  by (simp add: rights_ok_def rights_but_def owners_but_def claims_but_def sample_db_def empty_db_def
      holder_def sample_held_def reservation_of_def sample_attempt_def is_active_def)

theorem expiry_sweep_succeeds_witness:
  "\<exists>d'. ExpireAttempts 200 sample_db = (d', Inr 1) \<and> freed (sample_ulid CHR ''A'') d'"
proof -
  let ?a = "sample_attempt CHR ''A'' (sample_ulid CHR ''I'') AttemptKindWork 100"
  have a: "db_attempts sample_db = [?a]" by (simp add: sample_db_def)
  have l: "lapsed 200 ?a" by (simp add: lapsed_def sample_attempt_def is_active_def)
  have i: "wa_id ?a = sample_ulid CHR ''A''" by (simp add: sample_attempt_def)
  have "\<not> IsZero 200" by (simp add: IsZero_def)
  from expiry_sweep_succeeds [OF sample_rights_ok this] show ?thesis using a l i by auto
qed

end
