(* ===== verification/ClaimSafety.thy ===== *)
theory ClaimSafety
  imports ExpirySweep
begin

text \<open>
  What a claim does: it is accepted exactly for the issues the projection shows as claimable, leaves
  one active attempt on the issue, and its replay rotates the lease of that attempt instead of
  starting another.
\<close>

section \<open>Claimability before and after the expiry of old leases\<close>

lemma blockers_apart: "apart_from_attempts d' d \<Longrightarrow> unresolved_blocker_count d' i = unresolved_blocker_count d i"
  by (simp add: apart_from_attempts_def unresolved_blocker_count_def)

lemma active_after_expiry:
  assumes "db_attempts d' = update_where (\<lambda>a. wa_issue a = issue \<and> lapsed now a) (expire_row now) (db_attempts d)"
  shows "has_active_attempt d' issue \<longleftrightarrow> active_attempt_id d now issue \<noteq> None"
proof -
  have "has_active_attempt d' issue \<longleftrightarrow> (\<exists>a \<in> set (db_attempts d). wa_issue a = issue \<and> is_active a \<and> wa_lease a > now)"
  proof
    assume "has_active_attempt d' issue"
    then obtain a where a: "a \<in> set (db_attempts d')" "wa_issue a = issue" "is_active a"
      by (auto simp: has_active_attempt_def list_ex_iff)
    then obtain b where b: "b \<in> set (db_attempts d)" "a = (if wa_issue b = issue \<and> lapsed now b then expire_row now b else b)"
      by (auto simp: assms mem_update_where)
    have "a = b" "\<not> lapsed now b" using b(2) a(2,3) by (auto split: if_splits)
    then have "wa_lease b > now" using a(3) by (simp add: lapsed_def)
    then show "\<exists>a \<in> set (db_attempts d). wa_issue a = issue \<and> is_active a \<and> wa_lease a > now"
      using a b(1) \<open>a = b\<close> by blast
  next
    assume "\<exists>a \<in> set (db_attempts d). wa_issue a = issue \<and> is_active a \<and> wa_lease a > now"
    then obtain a where a: "a \<in> set (db_attempts d)" "wa_issue a = issue" "is_active a" "\<not> lapsed now a"
      by (auto simp: lapsed_def)
    then have "a \<in> set (db_attempts d')" by (auto simp: assms mem_update_where intro!: bexI [of _ a])
    then show "has_active_attempt d' issue" using a by (auto simp: has_active_attempt_def list_ex_iff)
  qed
  then show ?thesis by (auto simp: active_attempt_id_def find_None_iff)
qed

lemma evaluate_claimable:
  assumes "has_active_attempt d' (IID i) \<longleftrightarrow> active_attempt_id d now (IID i) \<noteq> None"
    and "unresolved_blocker_count d' (IID i) = unresolved_blocker_count d (IID i)"
  shows "(\<exists>kind. EvaluateClaim i (unresolved_blocker_count d' (IID i)) (has_active_attempt d' (IID i)) = Inr kind) \<longleftrightarrow>
    ip_claimable (issue_projection d now i)"
  using assms
  by (auto simp: EvaluateClaim_def issue_projection_def Let_def Executable_def unresolved_blocker_count_def
      and_then_def split: if_splits sum.splits)

section \<open>What the rest of a claim leaves alone\<close>

lemma attempts_frame: "(\<And>d. db_attempts (f d) = db_attempts d) \<Longrightarrow> keeps (\<lambda>d. db_attempts d = as) (exec f)"
  by (rule keeps_exec) simp

lemma attempts_event [keeps_intro]: "keeps (\<lambda>d. db_attempts d = as) (append_event issue ty session attempt payload now source)"
  unfolding append_event_def by (intro attempts_frame) simp

lemma attempts_requests [keeps_intro]: "keeps (\<lambda>d. db_attempts d = as) (update_requests p f)"
  unfolding update_requests_def by (intro keeps_intro attempts_frame) simp

lemma attempts_extras: "keeps (\<lambda>d. db_attempts d = as) (claim_extras env c prepared issue kind)"
  unfolding claim_extras_def bindOpenReviewRequestForAttempt_def appendReviewEvent_def acquireReservationsForAttempt_def
    loadCandidateReservations_def scan_rows_def insert_reservation_def Let_def
  by (intro keeps_intro attempts_frame) simp_all

lemma attempts_store: "keeps (\<lambda>d. db_attempts d = as) (store_idempotency operation key h response)"
  unfolding store_idempotency_def by (intro keeps_intro attempts_frame) simp

lemma insert_attempt_Inr: "insert_attempt a d = Inr (d', x) \<Longrightarrow> d' = d\<lparr>db_attempts := db_attempts d @ [a]\<rparr> \<and> schema_ok d'"
  by (auto simp: insert_attempt_def Let_def split: if_splits)

lemma claim_tail:
  "tx_ok (\<lambda>d. db_attempts d = as)
     (tx_then (insertAttemptGateSnapshot a s) (\<lambda>_. tx_then (append_event issue ty session attempt payload now source) (\<lambda>_.
      tx_then (claim_extras env c prepared i kind) (\<lambda>reservations. tx_then (queryIssueProjectionByID i now) (\<lambda>projection.
      tx_then (store_idempotency operation key h (f reservations projection)) (\<lambda>_. tx_return (Inr (g reservations projection))))))))
     (\<lambda>r d. db_attempts d = as \<and> (\<exists>reservations projection. r = Inr (g reservations projection)))"
proof -
  let ?A = "\<lambda>_ d. db_attempts d = as"
  have "tx_ok (\<lambda>d. db_attempts d = as) (insertAttemptGateSnapshot a s) ?A"
    unfolding insertAttemptGateSnapshot_def tx_ok_keeps [symmetric] by (intro attempts_frame) simp
  then show ?thesis
    by (intro tx_ok_then [where R = ?A] tx_ok_return tx_ok_keeps [THEN iffD1] attempts_event attempts_extras attempts_store keeps_projection)
      (auto simp: tx_ok_keeps)
qed

lemma claim_insert_then:
  assumes "\<And>d reservations projection. db_attempts d = db_attempts d1 @ [row] \<Longrightarrow> Q (Inr (g reservations projection)) d"
  shows "tx_ok (\<lambda>d. d = d1) (tx_then (insert_attempt row) (\<lambda>_.
     tx_then (insertAttemptGateSnapshot a s) (\<lambda>_. tx_then (append_event issue ty session attempt payload now source) (\<lambda>_.
      tx_then (claim_extras env c prepared i kind) (\<lambda>reservations. tx_then (queryIssueProjectionByID i now) (\<lambda>projection.
      tx_then (store_idempotency operation key h (f reservations projection)) (\<lambda>_. tx_return (Inr (g reservations projection))))))))) Q"
proof (rule tx_ok_exact_then)
  fix d2 u assume "insert_attempt row d1 = Inr (d2, u)"
  then have "db_attempts d2 = db_attempts d1 @ [row]" using insert_attempt_Inr by fastforce
  then show "tx_ok (\<lambda>d. d = d2) (tx_then (insertAttemptGateSnapshot a s) (\<lambda>_. tx_then (append_event issue ty session attempt payload now source) (\<lambda>_.
      tx_then (claim_extras env c prepared i kind) (\<lambda>reservations. tx_then (queryIssueProjectionByID i now) (\<lambda>projection.
      tx_then (store_idempotency operation key h (f reservations projection)) (\<lambda>_. tx_return (Inr (g reservations projection)))))))) Q"
    by (intro tx_ok_weaken [OF claim_tail [where as = "db_attempts d1 @ [row]"]]) (use assms in auto)
qed

lemma start_claim_effect:
  assumes run: "start_claim env c prepared d = Inr (d', r)"
  shows "\<exists>i d1 kind e result. loadIssueForMutation (cc_identifier c) d = Inr (d, i) \<and>
    expireAttemptsForIssue (IID i) (cc_now c) d = Inr (d1, ()) \<and>
    EvaluateClaim i (unresolved_blocker_count d1 (IID i)) (has_active_attempt d1 (IID i)) = Inr kind \<and>
    db_attempts d' = db_attempts d1 @ [started_attempt c i kind e] \<and>
    r = Inr result \<and> cir_attempt result = without_token (started_attempt c i kind e)"
    (is "\<exists>i d1 kind e result. ?Q i d1 kind e result d' r")
proof -
  have pure: "d2 = d1" if "t d1 = Inr (d2, x)" "pure_tx t" for t :: "'t tx" and d1 d2 x
    using that by (simp add: pure_tx_def)
  have gate: "pure_tx (evaluateGateAgainstLivePolicies point ty ls ev)" for point ty ls ev
    unfolding evaluateGateAgainstLivePolicies_def Let_def by (intro keeps_intro)
  have "tx_ok (\<lambda>d0. d0 = d) (start_claim env c prepared) (\<lambda>r d'. \<exists>i d1 kind e result. ?Q i d1 kind e result d' r)"
    unfolding start_claim_def Let_def
  proof (intro claim_insert_then tx_ok_exact_then tx_ok_prod)
    fix da i d1 u d1a ba d1b kind d1c gate d1d e blockers active requirements sources and dx :: db and reservations :: "Reservation list"
      and projection :: IssueProjection
    assume i: "loadIssueForMutation (cc_identifier c) d = Inr (da, i)"
      and d1: "expireAttemptsForIssue (IID i) (cc_now c) da = Inr (d1, u)"
      and read: "tx_read (\<lambda>d. (unresolved_blocker_count d (IID i), has_active_attempt d (IID i))) d1 = Inr (d1a, ba)"
        "ba = (blockers, active)"
      and kind: "tx_lift (EvaluateClaim i blockers active) d1a = Inr (d1b, kind)"
      and g: "evaluateGateAgainstLivePolicies EnforcementPointClaimWork (IType i) (labelNames i)
         \<lparr>AcceptanceCriteriaBlank = acceptanceCriteriaBlank (AcceptanceCriteria i),
          AttemptEvidenceKeys = [], ReviewApprovalPurposes = []\<rparr> d1b = Inr (d1c, gate)"
      and e: "tx_read latest_event d1c = Inr (d1d, e)"
      and rows: "db_attempts dx = db_attempts d1d @ [started_attempt c i kind e]"
    have "da = d" using loadIssue_mem [OF i] by simp
    moreover have "d1d = d1" using read kind e pure [OF g gate] by (simp add: tx_read_Inr tx_lift_Inr)
    moreover have "EvaluateClaim i (unresolved_blocker_count d1 (IID i)) (has_active_attempt d1 (IID i)) = Inr kind"
      using read kind by (simp add: tx_read_Inr tx_lift_Inr)
    ultimately show "\<exists>i' d1 kind' e' result. ?Q i' d1 kind' e' result dx (Inr \<lparr>cir_issue = i, cir_projection = projection,
        cir_attempt = without_token (started_attempt c i kind e), cir_reservations = reservations, cir_token = cc_token c\<rparr>)"
      using i d1 rows by (intro exI [of _ i] exI [of _ d1] exI [of _ kind] exI [of _ e]) simp
  qed
  note triple = this
  show ?thesis using tx_okD [OF triple refl run] .
qed

section \<open>The claim\<close>

lemma claim_body:
  assumes fresh: "cc_key c = '''' \<or> find_idempotency d ''claim_issue'' (cc_key c) = None"
  shows "(\<exists>e. ClaimIssue env c d = (d, Inl e)) \<or>
    (\<exists>prepared d' result. ClaimIssue env c d = (d', Inr result) \<and> length (cc_token_hash c) = 32 \<and> cc_duration c > 0 \<and>
      start_claim env c prepared d = Inr (d', Inr result))"
proof -
  have lookup: "lookup_idempotency ''claim_issue'' (cc_key c) (cc_hash c) d = Inr (d, None)"
    using fresh by (auto simp: lookup_idempotency_def)
  have "(\<exists>e. Write (start_claim env c prepared) d = (d, Inl e)) \<or>
      (\<exists>d' result. Write (start_claim env c prepared) d = (d', Inr result) \<and> start_claim env c prepared d = Inr (d', Inr result))"
    for prepared
  proof (cases "start_claim env c prepared d")
    case (Inr x)
    then obtain d' r where "start_claim env c prepared d = Inr (d', r)" by (cases x) auto
    then show ?thesis using start_claim_effect [of env c prepared d d' r] by (auto simp: Write_def)
  qed (simp add: Write_def)
  note body = this
  have replay: "Write (tx_then (lookup_idempotency ''claim_issue'' (cc_key c) (cc_hash c)) f) d = Write (f None) d"
    for f :: "Response option \<Rightarrow> ClaimIssueResult res tx"
    using lookup by (simp add: Write_def tx_then_run)
  show ?thesis
  proof (cases "\<not> validAttemptSessionID env (cc_session c) \<or> \<not> ids_ParseStrict env (cc_attempt c) \<or>
      length (cc_token_hash c) \<noteq> 32 \<or> cc_duration c \<le> 0")
    case valid: False
    show ?thesis
    proof (cases "if length (cc_resources c) > 0 then prepare_resources env (cc_resources c) else Inr []")
      case (Inr prepared)
      have "ClaimIssue env c d = Write (start_claim env c prepared) d"
        using valid by (simp add: ClaimIssue_def Inr replay del: length_greater_0_conv)
      then show ?thesis using body [of prepared] valid by auto
    qed (use valid in \<open>simp add: ClaimIssue_def del: length_greater_0_conv\<close>)
  qed (auto simp: ClaimIssue_def)
qed

text \<open>
  C3. The claim accepts what the projection calls claimable, and nothing else: without a stored replay
  it either fails and changes nothing, or the issue it names was claimable at that moment, and then the
  issue is left with exactly one active attempt: the new one, of the kind its status calls for, under
  the caller's token and with the lease ending after the requested duration.
\<close>

theorem claim_follows_projection:
  assumes ok: "schema_ok d" and fresh: "cc_key c = '''' \<or> find_idempotency d ''claim_issue'' (cc_key c) = None"
  shows "(\<exists>e. ClaimIssue env c d = (d, Inl e)) \<or>
    (\<exists>d' r i. ClaimIssue env c d = (d', Inr r) \<and> i \<in> set (db_issues d) \<and> ip_claimable (issue_projection d (cc_now c) i) \<and>
      (\<exists>x. filter (\<lambda>a. wa_issue a = IID i \<and> is_active a) (db_attempts d') = [x] \<and> wa_id x = cc_attempt c \<and>
         wa_kind x = (if IStatus i = StatusReady then AttemptKindWork else AttemptKindReview) \<and>
         wa_lease x = cc_now c + cc_duration c \<and> wa_token_hash x = cc_token_hash c \<and> cir_attempt r = without_token x))"
proof -
  have "?thesis" if run: "ClaimIssue env c d = (d', Inr r)" "start_claim env c prepared d = Inr (d', Inr r)" for prepared d' r
  proof -
    obtain i d1 kind e where i: "loadIssueForMutation (cc_identifier c) d = Inr (d, i)"
        and d1: "expireAttemptsForIssue (IID i) (cc_now c) d = Inr (d1, ())"
        and kind: "EvaluateClaim i (unresolved_blocker_count d1 (IID i)) (has_active_attempt d1 (IID i)) = Inr kind"
        and rows: "db_attempts d' = db_attempts d1 @ [started_attempt c i kind e]"
        and result: "cir_attempt r = without_token (started_attempt c i kind e)"
      using start_claim_effect [OF run(2)] by auto
    have apart: "apart_from_attempts d1 d"
        "db_attempts d1 = update_where (\<lambda>a. wa_issue a = IID i \<and> lapsed (cc_now c) a) (expire_row (cc_now c)) (db_attempts d)"
      using expire_issue_total [OF ok, of "IID i" "cc_now c"] d1 by auto
    have claimable: "ip_claimable (issue_projection d (cc_now c) i)"
      using evaluate_claimable [OF active_after_expiry [OF apart(2)] blockers_apart [OF apart(1)]] kind by blast
    have none: "filter (\<lambda>a. wa_issue a = IID i \<and> is_active a) (db_attempts d1) = []"
      using kind by (auto simp: EvaluateClaim_def has_active_attempt_def list_ex_iff filter_empty_conv and_then_def split: if_splits)
    have k: "kind = (if IStatus i = StatusReady then AttemptKindWork else AttemptKindReview)"
      using kind by (auto simp: EvaluateClaim_def split: if_splits)
    show ?thesis
      using run(1) loadIssue_mem [OF i] claimable none k result
      by (intro disjI2 exI [of _ d'] exI [of _ r] exI [of _ i] conjI exI [of _ "started_attempt c i kind e"])
        (simp_all add: rows started_attempt_def is_active_def)
  qed
  then show ?thesis using claim_body [OF fresh, of env] by blast
qed

definition sample_claim :: "string \<Rightarrow> time \<Rightarrow> ClaimIssueCommand" where
  "sample_claim key now = \<lparr>cc_identifier = internal_id (sample_ulid CHR ''I''), cc_attempt = sample_ulid CHR ''B'', cc_session = None,
     cc_token_hash = replicate 32 CHR ''x'', cc_token = ''token'', cc_duration = 50, cc_now = now, cc_resources = [],
     cc_key = key, cc_hash = ''request''\<rparr>"

theorem claim_follows_projection_witness:
  "\<exists>d' r x. ClaimIssue sample_env (sample_claim '''' 200) sample_db = (d', Inr r) \<and>
     filter (\<lambda>a. wa_issue a = sample_ulid CHR ''I'' \<and> is_active a) (db_attempts d') = [x] \<and>
     wa_id x = sample_ulid CHR ''B'' \<and> wa_lease x = 250"
proof -
  have c: "cc_key (sample_claim '''' 200) = ''''" "cc_now (sample_claim '''' 200) = 200" "cc_duration (sample_claim '''' 200) = 50"
      "cc_attempt (sample_claim '''' 200) = sample_ulid CHR ''B''"
    by (simp_all add: sample_claim_def)
  have "isl (snd (ClaimIssue sample_env (sample_claim '''' 200) sample_db)) = False" by code_simp
  then have run: "\<nexists>e. ClaimIssue sample_env (sample_claim '''' 200) sample_db = (sample_db, Inl e)" by auto
  have issue: "IID i = sample_ulid CHR ''I''" if "i \<in> set (db_issues sample_db)" for i
    using that by (simp add: sample_db_def sample_issue_def)
  from claim_follows_projection [OF sample_db_ok disjI1 [OF c(1)], of sample_env] run issue show ?thesis
    by (auto simp: c)
qed

section \<open>Replaying a claim\<close>

lemma rotate_lease_simps [simp]:
  "wa_id (rotate_lease h e a) = wa_id a" "wa_issue (rotate_lease h e a) = wa_issue a" "is_active (rotate_lease h e a) = is_active a"
  by (simp_all add: rotate_lease_def is_active_def)

lemma rotate_schema:
  assumes ok: "schema_ok d" and h: "h \<noteq> []"
  shows "schema_ok (d\<lparr>db_attempts := update_where p (rotate_lease h e) (db_attempts d)\<rparr>)"
proof -
  let ?rows = "update_where p (rotate_lease h e) (db_attempts d)"
  have ids: "map wa_id ?rows = map wa_id (db_attempts d)" by (rule map_update_where) simp
  have at: "attempts_ok d" using ok by (simp add: schema_ok_def)
  have row: "attempt_row_ok a \<Longrightarrow> attempt_row_ok (rotate_lease h e a)" "wa_session (rotate_lease h e a) = wa_session a" for a
    using h by (simp_all add: attempt_row_ok_def rotate_lease_def is_active_def)
  have act: "distinct (map wa_issue (filter is_active ?rows))"
    by (rule distinct_filter_update) (use at in \<open>simp_all add: attempts_ok_def\<close>)
  have "attempts_ok (d\<lparr>db_attempts := ?rows\<rparr>)"
    using at row act unfolding attempts_ok_def by (simp add: ids) (auto simp: list_all_iff mem_update_where)
  then show ?thesis using ok ids schema_frame_attempts by blast
qed

definition claim_arguments_ok :: "env \<Rightarrow> ClaimIssueCommand \<Rightarrow> bool" where
  "claim_arguments_ok env c \<longleftrightarrow> validAttemptSessionID env (cc_session c) \<and> ids_ParseStrict env (cc_attempt c) \<and>
     length (cc_token_hash c) = 32 \<and> cc_duration c > 0 \<and>
     (cc_resources c = [] \<or> \<not> isl (prepare_resources env (cc_resources c)))"

definition replayed_claim :: "ClaimIssueCommand \<Rightarrow> ClaimIssueResult \<Rightarrow> ClaimIssueResult" where
  "replayed_claim c saved = saved\<lparr>cir_attempt := (cir_attempt saved)\<lparr>wa_lease := cc_now c + cc_duration c\<rparr>, cir_token := cc_token c\<rparr>"

text \<open>
  C22. Repeating a claim with its key starts no second attempt. While the attempt it created is alive,
  the answer is the stored one with the new token, and the only change is that this attempt's row takes
  the new token hash and lease; once the attempt has ended, the claim fails and changes nothing.
\<close>

theorem claim_replay_rotates:
  assumes ok: "schema_ok d" and args: "claim_arguments_ok env c"
    and key: "cc_key c \<noteq> ''''" "find_idempotency d ''claim_issue'' (cc_key c) = Some saved_row"
    and saved: "ir_hash saved_row = cc_hash c" "ir_response saved_row = ResponseClaim saved"
    and row: "find (\<lambda>a. wa_id a = wa_id (cir_attempt saved)) (db_attempts d) = Some a" and fresh: "is_active a \<longrightarrow> wa_lease a > cc_now c"
  shows "ClaimIssue env c d =
    (if is_active a
     then (d\<lparr>db_attempts := map (\<lambda>x. if wa_id x = wa_id a then rotate_lease (cc_token_hash c) (cc_now c + cc_duration c) x else x)
             (db_attempts d)\<rparr>, Inr (replayed_claim c saved))
     else (d, Inl claimReplayNotActive))"
proof -
  let ?i = "wa_id (cir_attempt saved)" and ?f = "rotate_lease (cc_token_hash c) (cc_now c + cc_duration c)"
  have a: "a \<in> set (db_attempts d)" "wa_id a = ?i" using find_Some_mem [OF row] by simp_all
  have lookup: "lookup_idempotency ''claim_issue'' (cc_key c) (cc_hash c) d = Inr (d, Some (ResponseClaim saved))"
    using key saved by (simp add: lookup_idempotency_def)
  have lift: "tx_lift (response_claim (ResponseClaim saved)) d = Inr (d, saved)"
    by (simp add: tx_lift_def response_claim_def)
  have "ClaimIssue env c d = Write (replay_claim c saved) d"
    using args lookup lift
    by (auto simp: ClaimIssue_def claim_arguments_ok_def Write_def tx_then_run split: sum.splits)
  moreover have "replay_claim c saved d =
    (if is_active a then Inr (d\<lparr>db_attempts := update_where (active_named ?i) ?f (db_attempts d)\<rparr>, Inr (replayed_claim c saved))
     else Inr (d, Inl claimReplayNotActive))"
  proof (cases "is_active a")
    case True
    have h: "cc_token_hash c \<noteq> []" using args by (auto simp: claim_arguments_ok_def)
    have "affected (active_named ?i) (db_attempts d) = 1"
      by (rule affected_key_one [where g = wa_id and k = ?i and r = a])
        (use ok a True in \<open>auto simp: schema_ok_def attempts_ok_def active_named_def\<close>)
    then have "update_attempts (active_named ?i) ?f d =
        Inr (d\<lparr>db_attempts := update_where (active_named ?i) ?f (db_attempts d)\<rparr>, 1)"
      using rotate_schema [OF ok h, of "active_named ?i"] by (simp add: update_attempts_Inr)
    then show ?thesis
      using True fresh row by (simp add: replay_claim_def Let_def tx_then_def tx_read_def tx_return_def replayed_claim_def)
  qed (use row in \<open>simp add: replay_claim_def Let_def tx_then_def tx_read_def tx_return_def\<close>)
  moreover have "update_where (active_named ?i) ?f (db_attempts d) =
      map (\<lambda>x. if wa_id x = wa_id a then ?f x else x) (db_attempts d)" if "is_active a"
    unfolding update_where_def
  proof (rule map_cong [OF refl])
    fix x assume "x \<in> set (db_attempts d)"
    then show "(if active_named ?i x then ?f x else x) = (if wa_id x = wa_id a then ?f x else x)"
      using attempt_unique [OF ok a(1)] a(2) that by (auto simp: active_named_def)
  qed
  ultimately show ?thesis by (simp add: Write_def)
qed

text \<open>The sample attempt as the stored answer to a first claim.\<close>

definition replay_saved :: ClaimIssueResult where
  "replay_saved = \<lparr>cir_issue = sample_issue, cir_projection = issue_projection sample_db 5 sample_issue,
     cir_attempt = without_token (sample_attempt CHR ''A'' (sample_ulid CHR ''I'') AttemptKindWork 100),
     cir_reservations = [], cir_token = ''''\<rparr>"

definition replay_db :: db where
  "replay_db = sample_db\<lparr>db_idempotency := [\<lparr>ir_operation = ''claim_issue'', ir_key = ''k'', ir_hash = ''request'',
     ir_response = ResponseClaim replay_saved\<rparr>]\<rparr>"

theorem claim_replay_rotates_witness:
  "\<exists>d' r. ClaimIssue sample_env (sample_claim ''k'' 5) replay_db = (d', Inr r) \<and> map wa_id (db_attempts d') = [sample_ulid CHR ''A''] \<and>
     map wa_lease (db_attempts d') = [55] \<and> cir_token r = ''token''"
proof -
  let ?c = "sample_claim ''k'' 5" and ?a = "sample_attempt CHR ''A'' (sample_ulid CHR ''I'') AttemptKindWork 100"
  let ?row = "\<lparr>ir_operation = ''claim_issue'', ir_key = ''k'', ir_hash = ''request'', ir_response = ResponseClaim replay_saved\<rparr>"
  have ok: "schema_ok replay_db" by code_simp
  have args: "claim_arguments_ok sample_env ?c" by code_simp
  have key: "cc_key ?c \<noteq> ''''" "find_idempotency replay_db ''claim_issue'' (cc_key ?c) = Some ?row"
    by (simp_all add: sample_claim_def find_idempotency_def replay_db_def)
  have saved: "ir_hash ?row = cc_hash ?c" "ir_response ?row = ResponseClaim replay_saved" by (simp_all add: sample_claim_def)
  have row: "find (\<lambda>a. wa_id a = wa_id (cir_attempt replay_saved)) (db_attempts replay_db) = Some ?a"
    by (simp add: replay_db_def sample_db_def replay_saved_def without_token_def sample_attempt_def)
  have fresh: "is_active ?a \<longrightarrow> wa_lease ?a > cc_now ?c" by (simp add: sample_attempt_def sample_claim_def)
  have active: "is_active ?a" "db_attempts replay_db = [?a]" by (simp_all add: sample_attempt_def is_active_def replay_db_def sample_db_def)
  show ?thesis
    unfolding claim_replay_rotates [OF ok args key saved row fresh]
    by (simp add: active replayed_claim_def rotate_lease_def) (simp add: sample_claim_def sample_attempt_def)
qed

end
