(* ===== verification/FinishSafety.thy ===== *)
theory FinishSafety
  imports ClaimSafety
begin

text \<open>
  What finishing an attempt and cancelling a review request leave behind.
\<close>

section \<open>Steps that touch neither issues nor attempts\<close>

definition core_is :: "Issue list \<Rightarrow> WorkAttempt list \<Rightarrow> db \<Rightarrow> bool" where
  "core_is is as d \<longleftrightarrow> db_issues d = is \<and> db_attempts d = as"

named_theorems core_intro

lemma core_exec: "(\<And>d. db_issues (f d) = db_issues d \<and> db_attempts (f d) = db_attempts d) \<Longrightarrow> keeps (core_is is as) (exec f)"
  by (rule keeps_exec) (simp add: core_is_def)

lemma core_event [core_intro]: "keeps (core_is is as) (append_event issue ty session attempt payload now source)"
  unfolding append_event_def by (rule core_exec) simp

lemma core_review_event [core_intro]: "keeps (core_is is as) (appendReviewEvent issue ty attempt payload now)"
  unfolding appendReviewEvent_def by (rule core_event)

lemma core_requests [core_intro]: "keeps (core_is is as) (update_requests p f)"
  unfolding update_requests_def by (intro keeps_intro core_exec) simp

lemma core_reservations [core_intro]: "keeps (core_is is as) (update_reservations p f)"
  unfolding update_reservations_def by (intro keeps_intro core_exec) simp

lemma core_store [core_intro]: "keeps (core_is is as) (store_idempotency operation key h response)"
  unfolding store_idempotency_def by (intro keeps_intro core_exec) simp

lemma core_artifact [core_intro]: "keeps (core_is is as) (insert_artifact issue a now x)"
  unfolding insert_artifact_def Let_def by (intro keeps_intro core_exec) simp

lemma core_release [core_intro]: "keeps (core_is is as) (releaseReservationsForAttempt a reason now)"
  unfolding releaseReservationsForAttempt_def release_one_def by (intro keeps_intro core_intro)

lemma core_release_claim [core_intro]: "keeps (core_is is as) (releaseClaimedReviewRequest a now)"
  unfolding releaseClaimedReviewRequest_def Let_def by (intro keeps_intro core_intro)

lemma core_resolve [core_intro]: "keeps (core_is is as) (resolveReviewRequestForAttempt fresh request a now outcome reason)"
  unfolding resolveReviewRequestForAttempt_def insertReviewApprovals_def by (intro keeps_intro core_intro core_exec) simp_all

lemma core_dep:
  assumes "\<And>is as. keeps (core_is is as) t"
    and "\<And>d d'. db_issues d' = db_issues d \<Longrightarrow> db_attempts d' = db_attempts d \<Longrightarrow> Q d \<Longrightarrow> Q d'"
  shows "keeps Q t"
proof (rule keepsI)
  fix d d' x assume "Q d" "t d = Inr (d', x)"
  moreover from this have "core_is (db_issues d) (db_attempts d) d'" using keepsD [OF assms(1)] by (simp add: core_is_def)
  ultimately show "Q d'" using assms(2) by (simp add: core_is_def)
qed

section \<open>Ending\<close>

lemma affected_hit: "affected p t \<noteq> 0 \<Longrightarrow> \<exists>x \<in> set t. p x"
  unfolding affected_eq_0 by blast

definition closed_as :: "string \<Rightarrow> AttemptStatus \<Rightarrow> time \<Rightarrow> db \<Rightarrow> bool" where
  "closed_as a status now d \<longleftrightarrow>
     (\<exists>x \<in> set (db_attempts d). wa_id x = a \<and> wa_status x = status \<and> wa_finished x = Some now)"

definition known :: "string \<Rightarrow> db \<Rightarrow> bool" where
  "known a d \<longleftrightarrow> a \<in> set (map wa_id (db_attempts d))"

lemma end_rows:
  assumes "status \<noteq> AttemptStatusActive"
  shows "tx_ok (\<lambda>d. known a d \<and> issue \<in> set (db_issues d)) (update_attempts (active_named a) (end_attempt status f i now))
    (\<lambda>n d. ended a d \<and> (n \<noteq> 0 \<longrightarrow> closed_as a status now d) \<and> issue \<in> set (db_issues d))"
proof -
  let ?p = "active_named a" and ?f = "end_attempt status f i now"
  have f: "wa_id (?f x) = wa_id x" "\<not> is_active (?f x)" "wa_status (?f x) = status" "wa_finished (?f x) = Some now" for x
    using assms by (simp_all add: end_attempt_def is_active_def)
  have "ended a (d\<lparr>db_attempts := update_where ?p ?f (db_attempts d)\<rparr>)" if "known a d" for d
  proof -
    have "map wa_id (update_where ?p ?f (db_attempts d)) = map wa_id (db_attempts d)" by (rule map_update_where) (simp add: f)
    moreover have "\<not> is_active (if ?p x then ?f x else x)" if "wa_id (if ?p x then ?f x else x) = a" for x
      using that by (simp add: f active_named_def split: if_splits)
    then have "\<forall>x \<in> set (update_where ?p ?f (db_attempts d)). wa_id x = a \<longrightarrow> \<not> is_active x"
      by (simp add: update_where_def del: if_image_distrib)
    ultimately show ?thesis using that by (simp add: ended_def known_def del: set_map)
  qed
  moreover have "closed_as a status now (d\<lparr>db_attempts := update_where ?p ?f (db_attempts d)\<rparr>)"
    if hit: "affected ?p (db_attempts d) \<noteq> 0" for d
  proof -
    obtain x where "x \<in> set (db_attempts d)" "?p x" using affected_hit [OF hit] by blast
    then show ?thesis by (auto simp: closed_as_def set_update_where f active_named_def intro!: bexI [of _ "?f x"])
  qed
  ultimately show ?thesis by (simp add: tx_ok_def update_attempts_Inr Let_def)
qed

lemma terminate_ends:
  assumes "status \<noteq> AttemptStatusActive"
  shows "tx_ok (\<lambda>d. known a d \<and> issue \<in> set (db_issues d)) (terminateAttempt a status reason now)
    (\<lambda>done_now d. ended a d \<and> (done_now \<longrightarrow> closed_as a status now d) \<and> issue \<in> set (db_issues d))"
proof -
  let ?Q = "\<lambda>n d. ended a d \<and> (n \<noteq> 0 \<longrightarrow> closed_as a status now d) \<and> issue \<in> set (db_issues d)"
  have release: "keeps (?Q n) (releaseReservationsForAttempt a why now)" for n :: nat and why
    by (rule core_dep) (auto intro: core_intro simp: ended_def closed_as_def)
  have request: "keeps (?Q n) (releaseClaimedReviewRequest a now)" for n :: nat
    by (rule core_dep) (auto intro: core_intro simp: ended_def closed_as_def)
  have "tx_ok (?Q n) (if n = 0 then tx_return False else tx_then (releaseReservationsForAttempt a why now) (\<lambda>_.
      if \<not> terminalStatusAbandonsReviewClaim status then tx_return True
      else tx_then (releaseClaimedReviewRequest a now) (\<lambda>_. tx_return True)))
      (\<lambda>done_now d. ended a d \<and> (done_now \<longrightarrow> closed_as a status now d) \<and> issue \<in> set (db_issues d))" for n :: nat and why
    by (intro tx_ok_if tx_ok_then [where R = "\<lambda>_. ?Q n"] tx_ok_return tx_ok_keeps [THEN iffD1] release request) simp_all
  then show ?thesis unfolding terminateAttempt_def by (rule tx_ok_then [OF end_rows [OF assms]])
qed

lemma core_ends: "(\<And>is as. keeps (core_is is as) t) \<Longrightarrow>
  keeps (\<lambda>d. ended a d \<and> closed_as a status now d \<and> issue \<in> set (db_issues d)) t"
  by (erule core_dep) (simp add: ended_def closed_as_def)

lemma outcome_not_active: "AttemptOutcome_Valid outcome \<Longrightarrow> outcome_status outcome \<noteq> AttemptStatusActive"
  by (auto simp: AttemptOutcome_Valid_def)

lemma close_ends:
  assumes "AttemptOutcome_Valid (fin_outcome input)"
  shows "tx_ok (\<lambda>d. known (fc_attempt c) d \<and> issue \<in> set (db_issues d))
    (close_attempt c input artifacts target row issue warnings)
    (\<lambda>r d. ended (fc_attempt c) d \<and> closed_as (fc_attempt c) (outcome_status (fin_outcome input)) (fc_now c) d \<and>
       issue \<in> set (db_issues d) \<and> (\<exists>result. r = Inr result \<and> far_issue result = issue))"
proof -
  let ?a = "fc_attempt c" and ?st = "outcome_status (fin_outcome input)"
  let ?E = "\<lambda>d. ended ?a d \<and> closed_as ?a ?st (fc_now c) d \<and> issue \<in> set (db_issues d)"
  have start: "tx_ok (\<lambda>d. ended ?a d \<and> (done_now \<longrightarrow> closed_as ?a ?st (fc_now c) d) \<and> issue \<in> set (db_issues d))
      (tx_require done_now e) (\<lambda>_. ?E)" for done_now e
    by (auto simp: tx_ok_def tx_require_Inr)
  have recorded: "keeps ?E (update_attempts (\<lambda>a. wa_id a = ?a) (record_outcome input))"
  proof (rule keepsI)
    fix d d' n assume E: "?E d" and run: "update_attempts (\<lambda>a. wa_id a = ?a) (record_outcome input) d = Inr (d', n)"
    have f: "wa_id (record_outcome input x) = wa_id x" "is_active (record_outcome input x) = is_active x"
        "wa_status (record_outcome input x) = wa_status x" "wa_finished (record_outcome input x) = wa_finished x" for x
      by (simp_all add: record_outcome_def is_active_def)
    have d': "db_attempts d' = update_where (\<lambda>a. wa_id a = ?a) (record_outcome input) (db_attempts d)" "db_issues d' = db_issues d"
      using run by (simp_all add: update_attempts_Inr Let_def)
    have "map wa_id (db_attempts d') = map wa_id (db_attempts d)" unfolding d' by (rule map_update_where) (simp add: f)
    moreover have "\<forall>x \<in> set (db_attempts d'). wa_id x = ?a \<longrightarrow> \<not> is_active x"
      using E by (auto simp: d' mem_update_where ended_def f split: if_splits)
    moreover obtain x where "x \<in> set (db_attempts d)" "wa_id x = ?a" "wa_status x = ?st" "wa_finished x = Some (fc_now c)"
      using E by (auto simp: closed_as_def)
    then have "closed_as ?a ?st (fc_now c) d'"
      unfolding closed_as_def d' set_update_where by (intro bexI [of _ "record_outcome input x"]) (auto simp: f)
    ultimately show "?E d'" using E d'(2) by (simp add: ended_def)
  qed
  have keep: "keeps ?E t" if "\<And>is as. keeps (core_is is as) t" for t :: "'t tx" using that by (rule core_ends)
  show ?thesis
    unfolding close_attempt_def Let_def
    by (intro tx_ok_then [OF terminate_ends [OF outcome_not_active [OF assms]]] tx_ok_then [OF start]
        tx_ok_then [where R = "\<lambda>_. ?E"] tx_ok_keeps [THEN iffD1, OF recorded] tx_ok_return
        tx_ok_keeps [THEN iffD1, OF keep] core_intro keeps_map keeps_read) simp
qed

section \<open>Finishing\<close>

lemma core_gate: "pure_tx (finish_gate kind input target issue a request)"
  unfolding finish_gate_def by (intro keeps_intro)

lemma complete_effect:
  "tx_ok (\<lambda>d. schema_ok d \<and> known a d \<and> issue \<in> set (db_issues d)) (complete_issue fresh kind input target issue a request now)
     (\<lambda>i d. known a d \<and> i \<in> set (db_issues d) \<and>
       (if fin_outcome input = AttemptOutcomeCompleted then IID i = IID issue \<and> IStatus i = target else i = issue))"
proof (cases "fin_outcome input = AttemptOutcomeCompleted")
  case True
  let ?K = "\<lambda>i d. known a d \<and> i \<in> set (db_issues d)"
  let ?p = "unarchived_at (IID issue) (IVersion issue)"
  have upd: "tx_ok (\<lambda>d. schema_ok d \<and> known a d \<and> issue \<in> set (db_issues d)) (update_issues ?p (finished_issue target b now cl))
      (\<lambda>n d. n = 1 \<longrightarrow> ?K (finished_issue target b now cl issue) d)" for b cl
  proof -
    have "finished_issue target b now cl issue \<in> set (update_where ?p (finished_issue target b now cl) (db_issues d))"
      if d: "schema_ok d" "issue \<in> set (db_issues d)" "affected ?p (db_issues d) = 1" for d
    proof -
      obtain x where x: "x \<in> set (db_issues d)" "?p x" using affected_hit [of ?p "db_issues d"] d(3) by auto
      have "distinct (map IID (db_issues d))" using d(1) by (simp add: schema_ok_def issues_ok_def)
      then have "x = issue" using distinct_key_eq x d(2) by (fastforce simp: unarchived_at_def)
      then show ?thesis using x by (auto simp: set_update_where)
    qed
    then show ?thesis by (simp add: tx_ok_def update_issues_Inr Let_def known_def)
  qed
  have resolve: "keeps (?K i) (case claimed_for a request of None \<Rightarrow> tx_return ()
      | Some r \<Rightarrow> resolveReviewRequestForAttempt fresh r a now o' why)" for i o' why
  proof -
    have core: "keeps (core_is is as) (case claimed_for a request of None \<Rightarrow> tx_return ()
      | Some r \<Rightarrow> resolveReviewRequestForAttempt fresh r a now o' why)" for "is" as
      by (intro keeps_intro core_intro)
    show ?thesis by (rule core_dep [OF core]) (simp add: known_def)
  qed
  have tail: "tx_ok (\<lambda>d. n = 1 \<longrightarrow> ?K i d) (if n \<noteq> 1 then classifyConditionalUpdateFailure (IID issue)
      else tx_then (case claimed_for a request of None \<Rightarrow> tx_return ()
        | Some r \<Rightarrow> resolveReviewRequestForAttempt fresh r a now o' why) (\<lambda>_. tx_return i)) (\<lambda>j d. j = i \<and> ?K i d)" for n :: nat and i o' why
  proof (cases "n = 1")
    case True
    have "tx_ok (?K i) (tx_then (case claimed_for a request of None \<Rightarrow> tx_return ()
        | Some r \<Rightarrow> resolveReviewRequestForAttempt fresh r a now o' why) (\<lambda>_. tx_return i)) (\<lambda>j d. j = i \<and> ?K i d)"
      by (rule tx_ok_then [OF tx_ok_keeps [THEN iffD1, OF resolve]], rule tx_ok_return) simp
    then show ?thesis using True by simp
  qed (auto simp: tx_ok_def classifyConditionalUpdateFailure_def split: option.splits if_splits)
  have "tx_ok (\<lambda>d. schema_ok d \<and> known a d \<and> issue \<in> set (db_issues d)) (complete_issue fresh kind input target issue a request now)
      (\<lambda>i d. (\<exists>b cl. i = finished_issue target b now cl issue) \<and> ?K i d)"
    unfolding complete_issue_def Let_def using True
    by (intro tx_ok_if tx_ok_lift_then tx_ok_pure_then [OF core_gate] tx_ok_weaken [OF tx_ok_then [OF upd tail]]) auto
  then show ?thesis by (rule tx_ok_weaken) (use True in \<open>auto simp: finished_issue_def\<close>)
qed (auto simp: complete_issue_def tx_ok_def tx_return_Inr)

text \<open>What a finished call leaves: the attempt closed as its outcome says, and the issue as reported.\<close>

definition finished_as :: "FinishAttemptCommand \<Rightarrow> FinishAttemptInput \<Rightarrow> WorkAttempt \<Rightarrow> Issue \<Rightarrow> FinishAttemptResult \<Rightarrow> db \<Rightarrow> bool" where
  "finished_as c input row issue result d \<longleftrightarrow>
     ended (fc_attempt c) d \<and> closed_as (fc_attempt c) (outcome_status (fin_outcome input)) (fc_now c) d \<and>
     far_issue result \<in> set (db_issues d) \<and> IID (far_issue result) = IID issue \<and>
     (if fin_outcome input = AttemptOutcomeCompleted
      then FinishTargetStatus (wa_kind row) input (IStatus issue) = Inr (IStatus (far_issue result))
      else far_issue result = issue)"

lemma decided_effect:
  assumes valid: "AttemptOutcome_Valid (fin_outcome input)"
  shows "tx_ok (\<lambda>d. schema_ok d \<and> known (fc_attempt c) d \<and> issue \<in> set (db_issues d))
    (finish_decided fresh c input artifacts row issue latest request)
    (\<lambda>r d. \<exists>result. r = Inr result \<and> finished_as c input row issue result d)"
proof -
  have close: "tx_ok (\<lambda>d. schema_ok d \<and> known (fc_attempt c) d \<and> issue \<in> set (db_issues d))
      (tx_then (complete_issue fresh (wa_kind row) input target issue (fc_attempt c) request (fc_now c))
        (\<lambda>issue'. close_attempt c input artifacts target row issue' warnings))
      (\<lambda>r d. \<exists>result. r = Inr result \<and> finished_as c input row issue result d)"
    if target: "FinishTargetStatus (wa_kind row) input (IStatus issue) = Inr target" for target warnings
  proof (rule tx_ok_then [OF complete_effect])
    fix i
    let ?C = "if fin_outcome input = AttemptOutcomeCompleted then IID i = IID issue \<and> IStatus i = target else i = issue"
    show "tx_ok (\<lambda>d. known (fc_attempt c) d \<and> i \<in> set (db_issues d) \<and> ?C) (close_attempt c input artifacts target row i warnings)
        (\<lambda>r d. \<exists>result. r = Inr result \<and> finished_as c input row issue result d)"
    proof (cases ?C)
      case True
      show ?thesis
        by (rule tx_ok_weaken [OF close_ends [OF valid]]) (use True target in \<open>auto simp: finished_as_def split: if_splits\<close>)
    qed (simp add: tx_ok_def)
  qed
  show ?thesis
    unfolding finish_decided_def by (intro tx_ok_lift_then tx_ok_pure_then keeps_intro tx_ok_prod close)
qed

lemma checked_effect:
  assumes valid: "AttemptOutcome_Valid (fin_outcome input)"
    and run: "finish_checked fresh c input artifacts row issue d = Inr (d', Inr result)"
    and d: "schema_ok d" "known (fc_attempt c) d" "issue \<in> set (db_issues d)"
  shows "finished_as c input row issue result d'"
proof -
  obtain d1 stale request latest where
      review: "(if wa_kind row = AttemptKindReview \<and> fin_outcome input = AttemptOutcomeCompleted
         then finish_review_request (fc_attempt c) input (IID issue) (fc_now c) else tx_return (False, None)) d = Inr (d1, (stale, request))"
      and rest: "(if stale then tx_return (Inl staleReviewTargetError)
         else finish_decided fresh c input artifacts row issue latest request) d1 = Inr (d', Inr result)"
    using run unfolding finish_checked_def
    by (auto simp: tx_then_Inr tx_require_Inr tx_read_Inr split: prod.splits)
  have "\<not> stale" using rest by (auto simp: tx_return_Inr)
  then have "d1 = d" using review finish_review_kept [of _ _ _ _ d d1 request] by (auto simp: tx_return_Inr split: if_splits)
  then have decided: "finish_decided fresh c input artifacts row issue latest request d = Inr (d', Inr result)"
    using rest \<open>\<not> stale\<close> by simp
  show ?thesis using tx_okD [OF decided_effect [OF valid] _ decided] d by simp
qed

lemma finish_effect:
  assumes run: "FinishAttempt env fresh c d = (d', Inr result)" and ok: "schema_ok d"
    and new: "fc_key c = '''' \<or> find_idempotency d ''finish_attempt'' (fc_key c) = None"
  shows "\<exists>input row issue. FinishAttemptInput_Validate env (fc_input c) = Inr input \<and>
    find (\<lambda>a. wa_id a = fc_attempt c) (db_attempts d) = Some row \<and> is_active row \<and> wa_lease row > fc_now c \<and>
    wa_token_hash row = fc_token_hash c \<and> issue \<in> set (db_issues d) \<and> IID issue = wa_issue row \<and>
    finished_as c input row issue result d'"
proof -
  have lookup: "lookup_idempotency ''finish_attempt'' (fc_key c) (fc_hash c) d = Inr (d, None)"
    using new by (auto simp: lookup_idempotency_def)
  obtain input artifacts where input: "FinishAttemptInput_Validate env (fc_input c) = Inr input"
      and body: "under_lease (fc_attempt c) (fc_token_hash c) (fc_now c) None
        (\<lambda>_ _. finish_active env fresh c input artifacts) d = Inr (d', Inr result)"
    using run lookup
    by (auto simp: FinishAttempt_def Write_def with_replay_def tx_then_run split: if_splits sum.splits prod.splits)
  obtain d1 owner where auth: "authenticateActiveAttempt (fc_attempt c) (fc_token_hash c) (fc_now c) None d = Inr (d1, Some owner)"
      and active: "finish_active env fresh c input artifacts d1 = Inr (d', Inr result)"
    using body by (auto simp: under_lease_def tx_then_Inr tx_return_Inr split: option.splits)
  obtain row where d1: "d1 = d" and row: "find (\<lambda>x. wa_id x = fc_attempt c) (db_attempts d) = Some row" "is_active row"
      "wa_lease row > fc_now c" "wa_token_hash row = fc_token_hash c"
    using authenticated [OF auth] by blast
  obtain issue where issue: "loadIssueForMutation (internal_id (wa_issue row)) d = Inr (d, issue)"
      and checked: "finish_checked fresh c input artifacts row issue d = Inr (d', Inr result)"
    using active row(1) unfolding finish_active_def d1 by (auto simp: tx_simps from_option_eq_Inr)
  have mem: "issue \<in> set (db_issues d)" "IID issue = wa_issue row"
    using loadIssue_mem [OF issue] find_Some_mem [of "\<lambda>i. IID i = wa_issue row"] issue by (auto simp: loadIssue_internal)
  have "known (fc_attempt c) d" using find_Some_mem [OF row(1)] by (force simp: known_def image_iff)
  then have "finished_as c input row issue result d'" by (rule checked_effect [OF valid_outcome [OF input] checked ok _ mem(1)])
  then show ?thesis using input row mem by blast
qed

section \<open>Cancelling a review\<close>

named_theorems mem_intro

lemma mem_event [mem_intro]: "keeps (\<lambda>d. r \<in> set (db_requests d)) (append_event issue ty session attempt payload now source)"
  unfolding append_event_def by (rule request_kept) simp

lemma mem_review_event [mem_intro]: "keeps (\<lambda>d. r \<in> set (db_requests d)) (appendReviewEvent issue ty attempt payload now)"
  unfolding appendReviewEvent_def by (rule mem_event)

lemma mem_cancelled [mem_intro]: "keeps (\<lambda>d. r \<in> set (db_requests d)) (appendAttemptCancelledEvent issue a now)"
  unfolding appendAttemptCancelledEvent_def by (rule mem_event)

lemma mem_terminate: "keeps (\<lambda>d. r \<in> set (db_requests d)) (terminateAttempt a AttemptStatusCancelled reason now)"
proof -
  have "\<not> terminalStatusAbandonsReviewClaim AttemptStatusCancelled" by (simp add: terminalStatusAbandonsReviewClaim_def)
  then show ?thesis
    unfolding terminateAttempt_def update_attempts_def releaseReservationsForAttempt_def release_one_def update_reservations_def
    by (simp, intro keeps_intro mem_intro request_kept) simp_all
qed

lemma core_cancelled [core_intro]: "keeps (core_is is as) (appendAttemptCancelledEvent issue a now)"
  unfolding appendAttemptCancelledEvent_def by (rule core_event)

definition cancelled :: "ReviewMutationCommand \<Rightarrow> ReviewRequest \<Rightarrow> ReviewRequest" where
  "cancelled c = set_request ReviewRequestStatusCancelled None (Some (rvm_now c))"

lemma cancel_effect:
  assumes ok: "schema_ok d" and run: "CancelReviewRequest c d = (d', Inr out)"
    and r: "find (\<lambda>r. rq_id r = rvm_request c) (db_requests d) = Some r" and a: "rq_attempt r = Some a" "known a d"
  shows "ended a d' \<and> cancelled c r \<in> set (db_requests d') \<and> fst out = cancelled c r \<and> rq_version r = rvm_expected c"
proof -
  let ?E = "\<lambda>d. ended a d \<and> cancelled c r \<in> set (db_requests d)"
  have mem: "r \<in> set (db_requests d)" using find_Some_mem [OF r] by simp
  have load: "loadRequestForMutation (rvm_request c) d1 = Inr (d2, (r', t)) \<Longrightarrow> d1 = d \<Longrightarrow> r' = r \<and> d2 = d" for d1 d2 r' t
    using r by (auto simp: loadRequestForMutation_def tx_simps from_option_eq_Inr)
  have upd: "tx_ok (\<lambda>d1. d1 = d) (update_requests (request_at (rq_id r) (rq_version r)) (cancelled c))
      (\<lambda>_ d. known a d \<and> cancelled c r \<in> set (db_requests d))"
    using mem a(2) by (auto simp: tx_ok_def update_requests_Inr Let_def known_def set_update_where request_at_def)
  have ends: "tx_ok (\<lambda>d. known a d \<and> cancelled c r \<in> set (db_requests d)) (terminateAttempt a AttemptStatusCancelled reason now) (\<lambda>_. ?E)" for reason now
  proof -
    have "tx_ok (known a) (terminateAttempt a AttemptStatusCancelled reason now) (\<lambda>_. ended a)"
    proof -
      let ?Q = "\<lambda>n d. ended a d"
      have upd: "tx_ok (known a) (update_attempts (active_named a) (end_attempt AttemptStatusCancelled f i now)) (\<lambda>_. ended a)" for f i
        unfolding tx_ok_def
      proof (intro allI impI)
        fix d d' n assume k: "known a d" and run: "update_attempts (active_named a) (end_attempt AttemptStatusCancelled f i now) d = Inr (d', n)"
        show "ended a d'"
        proof (cases "db_issues d")
          case (Cons x xs)
          then show ?thesis using tx_okD [OF end_rows [of AttemptStatusCancelled a x] _ run] k by simp
        next
          case Nil
          have "schema_ok d'" using run by (simp add: update_attempts_Inr Let_def)
          then show ?thesis using Nil k run by (auto simp: schema_ok_def attempts_ok_def update_attempts_Inr Let_def known_def list_all_iff update_where_def)
        qed
      qed
      have release: "keeps (ended a) (releaseReservationsForAttempt a why now)" for why
        by (rule core_dep) (auto intro: core_intro simp: ended_def)
      have "\<not> terminalStatusAbandonsReviewClaim AttemptStatusCancelled" by (simp add: terminalStatusAbandonsReviewClaim_def)
      then show ?thesis
        unfolding terminateAttempt_def
        by (simp) (intro tx_ok_then [OF upd] tx_ok_if tx_ok_then [OF tx_ok_keeps [THEN iffD1, OF release]] tx_ok_return)
    qed
    then show ?thesis using mem_terminate [of "cancelled c r" a reason now] unfolding tx_ok_def keeps_def by blast
  qed
  have keep: "keeps ?E t" if "\<And>is as. keeps (core_is is as) t" "keeps (\<lambda>d. cancelled c r \<in> set (db_requests d)) t" for t :: "'t tx"
    by (rule keeps_conj [OF core_dep [OF that(1)] that(2)]) (simp add: ended_def)
  have body: "tx_ok (\<lambda>d1. d1 = d)
     (tx_then (loadRequestForMutation (rvm_request c)) (\<lambda>(request, target).
     tx_then (tx_require (rq_version request = rvm_expected c) versionConflict) (\<lambda>_.
     tx_then (tx_require (is_unresolved request) invalidCommand) (\<lambda>_.
     tx_then (update_requests (request_at (rq_id request) (rq_version request)) (cancelled c)) (\<lambda>_.
     tx_then (case rq_attempt request of
         None \<Rightarrow> tx_return None
       | Some a \<Rightarrow>
           tx_then (terminateAttempt a AttemptStatusCancelled
             \<lparr>tr_failure = None, tr_interruption = None, tr_release = ReservationReleaseReasonForceReleased\<rparr> (rvm_now c)) (\<lambda>terminated.
           tx_return (if terminated then Some a else None))) (\<lambda>terminatedAttemptID.
     tx_then (appendReviewEvent (rq_issue request) ''review_cancelled'' terminatedAttemptID
       (payloadForReviewEvent request terminatedAttemptID None None) (rvm_now c)) (\<lambda>_.
     tx_then (case terminatedAttemptID of
         None \<Rightarrow> tx_return ()
       | Some a \<Rightarrow> appendAttemptCancelledEvent (rq_issue request) a (rvm_now c)) (\<lambda>_.
     tx_return (Inr (cancelled c request, target)))))))))) (\<lambda>x d. ?E d \<and> (\<exists>t. x = Inr (cancelled c r, t)) \<and> rq_version r = rvm_expected c)"
  proof (rule tx_ok_exact_then, rule tx_ok_prod)
    fix d1 x request target
    assume load1: "loadRequestForMutation (rvm_request c) d = Inr (d1, x)" and x: "x = (request, target)"
    have same: "request = r" "d1 = d" using load [of d d1 request target] load1 x by auto
    have event: "tx_ok ?E (appendReviewEvent i ty b p n) (\<lambda>_. ?E)" for i ty b p n
      unfolding tx_ok_keeps [symmetric] by (intro keep core_intro mem_intro)
    have last: "tx_ok ?E (case b of None \<Rightarrow> tx_return () | Some x \<Rightarrow> appendAttemptCancelledEvent i x n) (\<lambda>_. ?E)" for b i n
      unfolding tx_ok_keeps [symmetric] by (intro keep keeps_option keeps_return core_intro mem_intro)
    show "tx_ok (\<lambda>d. d = d1) (tx_then (tx_require (rq_version request = rvm_expected c) versionConflict) (\<lambda>_.
       tx_then (tx_require (is_unresolved request) invalidCommand) (\<lambda>_.
       tx_then (update_requests (request_at (rq_id request) (rq_version request)) (cancelled c)) (\<lambda>_.
       tx_then (case rq_attempt request of
           None \<Rightarrow> tx_return None
         | Some a \<Rightarrow>
             tx_then (terminateAttempt a AttemptStatusCancelled
               \<lparr>tr_failure = None, tr_interruption = None, tr_release = ReservationReleaseReasonForceReleased\<rparr> (rvm_now c)) (\<lambda>terminated.
             tx_return (if terminated then Some a else None))) (\<lambda>terminatedAttemptID.
       tx_then (appendReviewEvent (rq_issue request) ''review_cancelled'' terminatedAttemptID
         (payloadForReviewEvent request terminatedAttemptID None None) (rvm_now c)) (\<lambda>_.
       tx_then (case terminatedAttemptID of
           None \<Rightarrow> tx_return ()
         | Some a \<Rightarrow> appendAttemptCancelledEvent (rq_issue request) a (rvm_now c)) (\<lambda>_.
       tx_return (Inr (cancelled c request, target))))))))) (\<lambda>x d. ?E d \<and> (\<exists>t. x = Inr (cancelled c r, t)) \<and> rq_version r = rvm_expected c)"
      unfolding same a(1) option.case
      by (intro tx_ok_require_then tx_ok_then [OF upd] tx_ok_then [where R = "\<lambda>_. ?E"] ends event last tx_ok_return) auto
  qed
  show ?thesis
    using run body unfolding CancelReviewRequest_def cancelled_def [symmetric]
    by (auto simp: Write_def tx_ok_def split: sum.splits prod.splits)
qed

section \<open>Properties\<close>

text \<open>
  C4. A finish that succeeds settles the attempt. Unless it is the replay of an earlier one, the caller
  held the live lease, the attempt is closed with the outcome's status at the given time and can hold
  nothing any more, and the issue in the store is the one reported: in the status the finishing rules
  decide when the work is completed, and untouched when it failed or was interrupted.
\<close>

theorem finish_settles_attempt:
  assumes "rights_ok d" and "FinishAttempt env fresh c d = (d', Inr result)"
    and "fc_key c = '''' \<or> find_idempotency d ''finish_attempt'' (fc_key c) = None"
  shows "\<exists>input row issue. FinishAttemptInput_Validate env (fc_input c) = Inr input \<and>
    find (\<lambda>a. wa_id a = fc_attempt c) (db_attempts d) = Some row \<and> is_active row \<and> wa_lease row > fc_now c \<and>
    wa_token_hash row = fc_token_hash c \<and> issue \<in> set (db_issues d) \<and> IID issue = wa_issue row \<and>
    finished_as c input row issue result d' \<and> freed (fc_attempt c) d' \<and> unclaimed (fc_attempt c) d'"
proof -
  have ok: "schema_ok d" using assms(1) by (simp add: rights_ok_def rights_but_def)
  obtain input row issue where r: "FinishAttemptInput_Validate env (fc_input c) = Inr input"
      "find (\<lambda>a. wa_id a = fc_attempt c) (db_attempts d) = Some row" "is_active row" "wa_lease row > fc_now c"
      "wa_token_hash row = fc_token_hash c" "issue \<in> set (db_issues d)" "IID issue = wa_issue row"
      "finished_as c input row issue result d'"
    using finish_effect [OF assms(2) ok assms(3)] by blast
  have "rights_ok d'" using lifecycle.FinishAttempt_keeps [OF assms(1), of env fresh c] assms(2) by simp
  moreover have "ended (fc_attempt c) d'" using r(8) by (simp add: finished_as_def)
  ultimately show ?thesis using r ended_holds_nothing by blast
qed

definition claimed_db :: db where
  "claimed_db = fst (ClaimIssue sample_env (sample_claim '''' 200) sample_db)"

definition sample_finish_command :: FinishAttemptCommand where
  "sample_finish_command = \<lparr>fc_attempt = sample_ulid CHR ''B'', fc_session = None, fc_token_hash = replicate 32 CHR ''x'',
     fc_input = sample_finish\<lparr>fin_artifacts := []\<rparr>, fc_artifacts = [], fc_key = '''', fc_hash = '''', fc_now = 210\<rparr>"

theorem finish_settles_attempt_witness:
  "\<exists>d' result. FinishAttempt sample_env (\<lambda>_. Inl invalidCommand) sample_finish_command claimed_db = (d', Inr result) \<and>
     ended (sample_ulid CHR ''B'') d' \<and> freed (sample_ulid CHR ''B'') d'"
proof -
  let ?run = "FinishAttempt sample_env (\<lambda>_. Inl invalidCommand) sample_finish_command claimed_db"
  have c: "fc_attempt sample_finish_command = sample_ulid CHR ''B''" "fc_key sample_finish_command = ''''"
    by (simp_all add: sample_finish_command_def)
  have "isl (snd ?run) = False" by code_simp
  then obtain d' result where run: "?run = (d', Inr result)" by (cases ?run; cases "snd ?run") auto
  have "rights_ok claimed_db" unfolding claimed_db_def by (rule lifecycle.ClaimIssue_keeps [OF sample_rights_ok])
  from finish_settles_attempt [OF this run disjI1 [OF c(2)]] show ?thesis
    using run by (auto simp: c finished_as_def)
qed

text \<open>
  C17. Cancelling a claimed review revokes the reviewer's authority with it: the request is cancelled in
  the store as reported, at the expected version only, and the attempt that held it is ended in the same
  transaction and holds nothing.
\<close>

theorem cancelled_review_revokes_attempt:
  assumes "rights_ok d" and "CancelReviewRequest c d = (d', Inr out)"
    and "find (\<lambda>r. rq_id r = rvm_request c) (db_requests d) = Some r" and "rq_attempt r = Some a"
  shows "ended a d' \<and> freed a d' \<and> unclaimed a d' \<and> fst out \<in> set (db_requests d') \<and>
    fst out = set_request ReviewRequestStatusCancelled None (Some (rvm_now c)) r \<and> rq_version r = rvm_expected c"
proof -
  have ok: "schema_ok d" using assms(1) by (simp add: rights_ok_def rights_but_def)
  have "r \<in> set (db_requests d)" using find_Some_mem [OF assms(3)] by simp
  then have "holder d a (rq_issue r) AttemptKindReview"
    using assms(1,4) by (simp add: rights_ok_def rights_but_def claims_but_def)
  then have "known a d" by (auto simp: holder_def known_def)
  note effect = cancel_effect [OF ok assms(2-4) this]
  have "rights_ok d'" using lifecycle.CancelReviewRequest_keeps [OF assms(1), of c] assms(2) by simp
  then show ?thesis using effect ended_holds_nothing by (auto simp: cancelled_def)
qed

text \<open>A store with a review attempt that holds the only request of the issue.\<close>

definition sample_target :: ReviewTarget where
  "sample_target = \<lparr>rt_id = sample_ulid CHR ''T'', rt_issue = sample_ulid CHR ''I'', rt_issue_version = 1, rt_event = 0,
     rt_artifacts = [], rt_purposes = [''implementation''], rt_version = 1, rt_created = 1\<rparr>"

definition sample_claimed :: ReviewRequest where
  "sample_claimed = set_request ReviewRequestStatusClaimed (Some (sample_ulid CHR ''A'')) None
     (open_request (sample_ulid CHR ''Q'') sample_target None 1)"

definition reviewing_db :: db where
  "reviewing_db = empty_db\<lparr>db_issues := [sample_issue\<lparr>IStatus := StatusReview\<rparr>],
     db_attempts := [sample_attempt CHR ''A'' (sample_ulid CHR ''I'') AttemptKindReview 100],
     db_targets := [sample_target], db_requests := [sample_claimed]\<rparr>"

lemma reviewing_rights: "rights_ok reviewing_db"
proof -
  have "schema_ok reviewing_db" by code_simp
  then show ?thesis
    by (simp add: rights_ok_def rights_but_def owners_but_def claims_but_def reviewing_db_def empty_db_def holder_def
        sample_claimed_def set_request_def open_request_def sample_target_def sample_attempt_def is_active_def)
qed

definition sample_cancel :: ReviewMutationCommand where
  "sample_cancel = \<lparr>rvm_request = sample_ulid CHR ''Q'', rvm_expected = 2, rvm_now = 9, rvm_attempt = None\<rparr>"

theorem cancelled_review_revokes_attempt_witness:
  "\<exists>d' out. CancelReviewRequest sample_cancel reviewing_db = (d', Inr out) \<and> ended (sample_ulid CHR ''A'') d' \<and>
     rq_status (fst out) = ReviewRequestStatusCancelled"
proof -
  let ?run = "CancelReviewRequest sample_cancel reviewing_db"
  have "isl (snd ?run) = False" by code_simp
  then obtain d' out where run: "?run = (d', Inr out)" by (cases ?run; cases "snd ?run") auto
  have r: "find (\<lambda>r. rq_id r = rvm_request sample_cancel) (db_requests reviewing_db) = Some sample_claimed"
      "rq_attempt sample_claimed = Some (sample_ulid CHR ''A'')"
    by (simp_all add: sample_cancel_def reviewing_db_def sample_claimed_def set_request_def open_request_def)
  from cancelled_review_revokes_attempt [OF reviewing_rights run r] show ?thesis
    by (intro exI [of _ d'] exI [of _ out]) (simp add: run set_request_def)
qed

end
