(* ===== verification/IssueSafety.thy ===== *)
theory IssueSafety
  imports ClaimSafety
begin

text \<open>
  What the issue operations do: numbering, the rows a validated request may produce, what an update
  changes and reports, and when an archival succeeds.
\<close>

section \<open>Numbers\<close>

text \<open>
  C15. Issue numbers are handed out once, in increasing order: whatever operations run, the issues of
  the old store keep their numbers, every issue created since has a number at or above the old counter
  and below the new one, and no two issues share a number.
\<close>

theorem issue_numbers_never_reused:
  assumes "reaches env d d'" and "schema_ok d" and "numbered d" and "db_project d = Some p"
  shows "\<exists>p' new. db_project d' = Some p' \<and> pj_next p \<le> pj_next p' \<and> numbers d' = numbers d @ new \<and>
    list_all (\<lambda>x. pj_next p \<le> snd x \<and> snd x < pj_next p') new \<and> distinct (map snd (numbers d'))"
proof -
  have "counting (numbers d) (pj_next p) d" using assms(4) by (simp add: counting_def)
  then have "counting (numbers d) (pj_next p) d'" using counter.system.reaches_keeps [OF assms(1)] assms(2) by blast
  then obtain p' new where p': "db_project d' = Some p'" "pj_next p \<le> pj_next p'"
      and new: "numbers d' = numbers d @ new" "list_all (\<lambda>x. pj_next p \<le> snd x) new"
    by (auto simp: counting_def split: option.splits)
  have kept: "numbered d'" "schema_ok d'" using numbering.system.reaches_keeps [OF assms(1)] assms(2,3) by blast+
  have "snd x < pj_next p'" if "x \<in> set new" for x
  proof -
    have "x \<in> set (numbers d')" using new(1) that by simp
    then show ?thesis using kept(1) p'(1) by (auto simp: numbers_def numbered_iff)
  qed
  moreover have "distinct (map snd (numbers d'))" using kept(2) by (simp add: numbers_def schema_ok_def issues_ok_def comp_def)
  ultimately show ?thesis using p' new by (auto simp: list_all_iff)
qed

definition sample_project_db :: db where
  "sample_project_db = sample_db\<lparr>db_project := Some \<lparr>pj_id = sample_ulid CHR ''P'', pj_next = 8, pj_updated = 1\<rparr>,
     db_labels := [\<lparr>lb_id = sample_ulid CHR ''L'', lb_name = ''api'', lb_description = None, lb_created = 1\<rparr>]\<rparr>"

definition sample_create :: CreateIssueCommand where
  "sample_create = \<lparr>xc_id = sample_ulid CHR ''N'', xc_input = \<lparr>ci_type = TypeTask, ci_title = ''new'', ci_description = None,
     ci_acceptance = None, ci_status = Status_other '''', ci_priority = Priority_other '''', ci_parent = None, ci_blocked = None,
     ci_labels = [''api''], ci_create_missing = False, ci_key = None\<rparr>, xc_label_ids = [], xc_now = 20, xc_key = '''', xc_hash = ''h''\<rparr>"

lemma sample_project_ok: "schema_ok sample_project_db \<and> numbered sample_project_db"
  by code_simp

theorem issue_numbers_never_reused_witness:
  "\<exists>new. numbers (run sample_env (\<lambda>_. Inl invalidCommand) (OpCreateIssue sample_create) sample_project_db) =
     numbers sample_project_db @ new \<and> map fst new = [sample_ulid CHR ''N''] \<and> list_all (\<lambda>x. 8 \<le> snd x) new"
proof -
  let ?d = "run sample_env (\<lambda>_. Inl invalidCommand) (OpCreateIssue sample_create) sample_project_db"
  have p: "db_project sample_project_db = Some \<lparr>pj_id = sample_ulid CHR ''P'', pj_next = 8, pj_updated = 1\<rparr>"
    by (simp add: sample_project_db_def)
  have run: "map fst (numbers ?d) = map fst (numbers sample_project_db) @ [sample_ulid CHR ''N'']" by code_simp
  obtain new where "numbers ?d = numbers sample_project_db @ new" "list_all (\<lambda>x. 8 \<le> snd x) new"
    using issue_numbers_never_reused [OF reaches.call [OF reaches.here refl] _ _ p, of sample_env "\<lambda>_. Inl invalidCommand" "OpCreateIssue sample_create"]
      sample_project_ok by (auto simp: list_all_iff)
  then show ?thesis using run by auto
qed

section \<open>Rows a validated request may produce\<close>

lemma front_blank: "front_space space_tokens (CHR '' '' # s) = Some '' ''"
proof -
  have "char_of n \<noteq> CHR '' ''" if "n < 14" for n :: nat
  proof
    assume "char_of n = CHR '' ''"
    then have "of_char (char_of n :: char) = (32 :: nat)" by simp
    then show False using that by (simp add: of_char_of)
  qed
  moreover have "bytes [32] = '' ''" by code_simp
  ultimately show ?thesis by (simp add: front_space_def space_tokens_def) (simp add: bytes_def)
qed

lemma trim_blanks: "trim_left_with space_tokens (replicate n CHR '' '') = []"
proof (induction n)
  case 0
  show ?case using trim_left_with_suffix [of "[]" space_tokens] by auto
next
  case (Suc n)
  then show ?case by (simp add: trim_left_with.simps [of space_tokens "CHR '' '' # replicate n CHR '' ''"] front_blank)
qed

lemma trimmed_visible:
  assumes "TrimSpace r \<noteq> []" shows "list_ex (\<lambda>c. c \<noteq> CHR '' '') r"
proof (rule ccontr)
  assume "\<not> ?thesis"
  then have "r = replicate (length r) CHR '' ''" by (auto simp: list_ex_iff intro!: replicate_eqI [symmetric] replicate_eqI)
  then have "trim_left_with space_tokens r = []" using trim_blanks by metis
  then have "TrimSpace r = rev (trim_left_with (map rev space_tokens) [])" by (simp add: TrimSpace_def)
  then show False using assms trim_left_with_suffix [of "[]" "map rev space_tokens"] by auto
qed

lemma title_visible: "check_title t = Inr () \<Longrightarrow> t \<noteq> []"
proof
  assume "check_title t = Inr ()" and "t = []"
  then have "TrimSpace ([] :: string) \<noteq> []" by (simp add: check_title_def result_simps)
  then show False using trimmed_visible [of "[]"] by simp
qed

lemma created_row_ok:
  assumes v: "CreateIssueInput_Validate env x = Inr input" and i: "length i = 26" "n > 0"
    and parent: "parent \<noteq> Some i" "ci_parent input = None \<Longrightarrow> parent = None"
  shows "issue_row_ok (created_issue i input n parent now)"
proof -
  have t: "Type_Valid (ci_type input)" "check_title (ci_title input) = Inr ()" "Status_Valid (ci_status input)"
      "Priority_Valid (ci_priority input)" "ci_type input = TypeEpic \<Longrightarrow> ci_parent input = None"
      "create_blocked_reason (ci_status input) (ci_blocked input) = Inr ()"
    using v by (auto simp: CreateIssueInput_Validate_def result_simps Let_def)
  have "ci_status input = StatusBlocked \<longleftrightarrow> ci_blocked input \<noteq> None"
    "\<forall>r. ci_blocked input = Some r \<longrightarrow> list_ex (\<lambda>c. c \<noteq> CHR '' '') r"
    using t(6) trimmed_visible by (auto simp: create_blocked_reason_def result_simps split: if_splits option.splits)
  then show ?thesis
    using t(1,3,4,5) title_visible [OF t(2)] i parent
    by (auto simp: issue_row_ok_def created_issue_def split: option.split)
qed

definition reason_ok :: "Status \<Rightarrow> string option \<Rightarrow> bool" where
  "reason_ok s r \<longleftrightarrow> (s = StatusBlocked \<longleftrightarrow> r \<noteq> None) \<and> (case r of None \<Rightarrow> True | Some x \<Rightarrow> list_ex (\<lambda>c. c \<noteq> CHR '' '') x)"

lemma patch_status_reason:
  assumes run: "patch_status current p r = Inr (result, changed)" and same: "IStatus r = IStatus current" "BlockedReason r = BlockedReason current"
    and ok: "reason_ok (IStatus current) (BlockedReason current)"
  shows "reason_ok (IStatus result) (BlockedReason result)"
proof (cases "pt_status p")
  case None
  then show ?thesis
    using run same ok trimmed_visible by (cases "pt_blocked p") (auto simp: patch_status_def reason_ok_def split: if_splits)
next
  case (Some s)
  show ?thesis
  proof (cases "s = StatusBlocked")
    case True
    then obtain reason where "pt_blocked p = Some (Some reason)"
      using run Some by (cases "pt_blocked p"; cases "the (pt_blocked p)") (auto simp: patch_status_def)
    then show ?thesis
      using run Some True trimmed_visible
      by (auto simp: patch_status_def result_simps reason_ok_def ApplyStatusTransition_def split: if_split_asm)
  next
    case False
    then show ?thesis using run Some by (auto simp: patch_status_def result_simps reason_ok_def simp del: if_split split: if_split_asm)
  qed
qed

lemma check_set_Inr: "check_set f v = Inr u \<longleftrightarrow> (\<forall>x. v = Some x \<longrightarrow> f x = Inr ())"
  by (cases v) (simp_all add: check_set_def)

lemma validated_patch:
  assumes "validate_patch env x = Inr p"
  shows "(\<forall>t. pt_title p = Some t \<longrightarrow> t \<noteq> []) \<and> (\<forall>t. pt_type p = Some t \<longrightarrow> Type_Valid t) \<and>
    (\<forall>t. pt_priority p = Some t \<longrightarrow> Priority_Valid t) \<and> (\<forall>s. pt_status p = Some s \<longrightarrow> Status_Valid s)"
proof -
  obtain parent labels where p: "x\<lparr>pt_parent := parent, pt_labels := labels\<rparr> = p" and checks: "check_set check_title (pt_title x) = Inr ()"
      "check_set (\<lambda>t. require (Type_Valid t) (invalidEnum ''type'')) (pt_type x) = Inr ()"
      "check_set (\<lambda>t. require (Priority_Valid t) (invalidEnum ''priority'')) (pt_priority x) = Inr ()"
      "check_set (\<lambda>t. require (Status_Valid t) (invalidEnum ''status'')) (pt_status x) = Inr ()"
    using assms unfolding validate_patch_def and_then_eq_Inr sum.inject by (elim exE conjE) (rule that, assumption, simp_all)
  show ?thesis using checks title_visible unfolding p [symmetric] by (simp add: check_set_Inr result_simps)
qed

lemma applied_row:
  assumes "ApplyIssuePatch current p = Inr (applied, fs)"
  obtains changed where "patch_status current p (patch_fields p current) = Inr (applied, changed)"
    "fs = orderedChangedFields (set_fields p @ changed)" "IType applied = TypeEpic \<longrightarrow> ParentID applied = None"
    "applied = (patch_fields p current)\<lparr>IStatus := IStatus applied, BlockedReason := BlockedReason applied\<rparr>"
    "case pt_status p of None \<Rightarrow> IStatus applied = IStatus current | Some s \<Rightarrow> IStatus applied = s"
proof -
  obtain changed where c: "patch_status current p (patch_fields p current) = Inr (applied, changed)"
      "fs = orderedChangedFields (set_fields p @ changed)" "IType applied = TypeEpic \<longrightarrow> ParentID applied = None"
    using assms by (auto simp: ApplyIssuePatch_def result_simps)
  moreover have "IStatus (patch_fields p current) = IStatus current" by (simp add: patch_fields_def)
  ultimately show thesis using that patch_status_same [OF c(1)] by metis
qed

lemma patched_row_ok:
  assumes v: "validate_patch env x = Inr p" and ok: "issue_row_ok current" and a: "ApplyIssuePatch current p = Inr (applied, fs)"
    and parent: "ParentID applied \<noteq> Some (IID current)"
  shows "issue_row_ok applied"
proof -
  obtain changed where c: "patch_status current p (patch_fields p current) = Inr (applied, changed)"
      "fs = orderedChangedFields (set_fields p @ changed)" "IType applied = TypeEpic \<longrightarrow> ParentID applied = None"
      "applied = (patch_fields p current)\<lparr>IStatus := IStatus applied, BlockedReason := BlockedReason applied\<rparr>"
      "case pt_status p of None \<Rightarrow> IStatus applied = IStatus current | Some s \<Rightarrow> IStatus applied = s"
    by (rule applied_row [OF a])
  have "reason_ok (IStatus applied) (BlockedReason applied)"
    by (rule patch_status_reason [OF c(1)]) (use ok in \<open>simp_all add: patch_fields_def reason_ok_def issue_row_ok_def\<close>)
  moreover have "Status_Valid (IStatus applied)"
    using c(5) validated_patch [OF v] ok by (cases "pt_status p") (simp_all add: issue_row_ok_def)
  moreover have "IID applied = IID current" "SequenceNo applied = SequenceNo current" "IVersion applied = IVersion current"
      "Title applied = patched (pt_title p) (Title current)" "IType applied = patched (pt_type p) (IType current)"
      "IPriority applied = patched (pt_priority p) (IPriority current)"
    by (subst c(4), simp add: patch_fields_def)+
  moreover have "patched (pt_title p) (Title current) \<noteq> []" "Type_Valid (patched (pt_type p) (IType current))"
      "Priority_Valid (patched (pt_priority p) (IPriority current))"
    using validated_patch [OF v] ok
    by (simp_all add: patched_def issue_row_ok_def del: Type_Valid_iff split: option.split)
  ultimately show ?thesis using ok c(3) parent by (simp add: issue_row_ok_def reason_ok_def del: Type_Valid_iff Status_Valid_iff)
qed

text \<open>
  C24. Validation guards the table: the row a validated creation inserts, and the row a validated patch
  makes of a stored one, satisfy every CHECK constraint of the issues table, given a ULID, a positive
  number and a parent other than the issue itself.
\<close>

theorem validated_rows_fit_table:
  shows "(CreateIssueInput_Validate env x = Inr input \<and> length i = 26 \<and> n > 0 \<and> parent \<noteq> Some i \<and>
      (ci_parent input = None \<longrightarrow> parent = None) \<longrightarrow> issue_row_ok (created_issue i input n parent now)) \<and>
    (validate_patch env y = Inr p \<and> issue_row_ok current \<and> ApplyIssuePatch current p = Inr (applied, fs) \<and>
      ParentID applied \<noteq> Some (IID current) \<longrightarrow> issue_row_ok applied)"
  using created_row_ok [of env x input i n parent now] patched_row_ok [of env y p current applied fs] by simp

section \<open>What an update changes\<close>

text \<open>One row of the table replaced by another.\<close>

definition replaced :: "string \<Rightarrow> Issue \<Rightarrow> Issue list \<Rightarrow> Issue list" where
  "replaced k j rows = map (\<lambda>x. if IID x = k then j else x) rows"

lemma update_parent_effect:
  assumes "update_parent env p current applied d = Inr (d', parent)"
  shows "d' = d \<and> (pt_parent p = None \<longrightarrow> parent = ParentID applied)"
proof -
  have "pure_tx (update_parent env p current applied)" unfolding update_parent_def by (intro keeps_intro)
  then have "d' = d" using assms by (rule pure_txD)
  then show ?thesis using assms by (auto simp: update_parent_def tx_return_Inr)
qed

lemma update_labels_effect:
  assumes run: "update_labels env c k n d = Inr (d', ls)" and row: "i \<in> set (db_issues d)" "IID i = k" and ok: "distinct (map IID (db_issues d))"
  shows "\<exists>h. db_issues d' = replaced k (i\<lparr>Labels := h\<rparr>) (db_issues d) \<and> (pt_labels (uc_changes c) = None \<longrightarrow> h = Labels i \<and> ls = Labels n)"
proof -
  have unique: "x = i" if "x \<in> set (db_issues d)" "IID x = k" for x
    using that row ok by (auto simp: distinct_map inj_on_def)
  show ?thesis
  proof (cases "pt_labels (uc_changes c)")
    case None
    then have "d' = d" "ls = Labels n" using run by (simp_all add: update_labels_def tx_return_Inr)
    moreover have "db_issues d = replaced k (i\<lparr>Labels := Labels i\<rparr>) (db_issues d)"
      using unique by (auto simp: replaced_def map_idI)
    ultimately show ?thesis by metis
  next
    case (Some names)
    have labels: "keeps (issues_are is) (resolveIssueLabels env names b ids now)" for names b ids now "is"
      unfolding resolveIssueLabels_def resolve_label_def insert_label_def by (intro keeps_intro issues_are_exec) simp
    obtain d1 labels where d1: "resolveIssueLabels env (patched names []) (uc_create_missing c) (uc_label_ids c) (uc_now c) d = Inr (d1, labels)"
        "replaceIssueLabels k labels d1 = Inr (d', ())"
      using run Some by (auto simp: update_labels_def tx_simps)
    have "db_issues d1 = db_issues d" using keepsD [OF labels d1(1), of "db_issues d"] by (simp add: issues_are_def)
    then obtain h where "db_issues d' = update_where (\<lambda>x. IID x = k) (\<lambda>x. x\<lparr>Labels := h\<rparr>) (db_issues d)"
      using d1(2) by (auto simp: replaceIssueLabels_def exec_Inr)
    then have "db_issues d' = replaced k (i\<lparr>Labels := h\<rparr>) (db_issues d)"
      using unique by (auto simp: replaced_def update_where_def simp del: if_image_distrib)
    then show ?thesis using Some by auto
  qed
qed


definition updated :: "UpdateIssueCommand \<Rightarrow> Issue \<Rightarrow> Issue \<Rightarrow> string option \<Rightarrow> string list \<Rightarrow> Issue" where
  "updated c current applied parent ls =
     applied\<lparr>ParentID := parent, Labels := ls, UpdatedAt := uc_now c, IVersion := IVersion current + 1,
       ClosedAt := updated_closed_at (uc_changes c) current applied (uc_now c)\<rparr>"

lemma replaced_twice:
  assumes "i \<in> set rows" "distinct (map IID rows)" "IID j = IID i"
  shows "update_where (\<lambda>x. IID x = IID i \<and> q x) f (replaced (IID i) j rows) =
    (if q j then replaced (IID i) (f j) rows else replaced (IID i) j rows)"
  using assms by (auto simp: replaced_def update_where_def comp_def simp del: if_image_distrib)

lemma assign_labels: "assign_issue n (i\<lparr>Labels := h\<rparr>) = (assign_issue n i)\<lparr>Labels := h\<rparr>"
  by (cases i) (simp add: assign_issue_def)

lemma loadIssue_found: "loadIssueForMutation ident d = Inr (d', i) \<Longrightarrow> find_issue d ident = Some i"
  by (simp add: loadIssue_Inr find_issue_def)

lemma update_effect:
  assumes run: "update_issue env c d = Inr (d', r)" and ok: "schema_ok d"
  shows "\<exists>i applied fs parent ls h. find_issue d (uc_identifier c) = Some i \<and> i \<in> set (db_issues d) \<and>
    ArchivedAt i = None \<and> IVersion i = uc_expected c \<and> ApplyIssuePatch i (uc_changes c) = Inr (applied, fs) \<and>
    (pt_parent (uc_changes c) = None \<longrightarrow> parent = ParentID i) \<and>
    (pt_labels (uc_changes c) = None \<longrightarrow> h = Labels i \<and> ls = Labels i) \<and>
    db_issues d' = replaced (IID i) ((assign_issue (updated c i applied parent ls) i)\<lparr>Labels := h\<rparr>) (db_issues d) \<and>
    r = Inr (updated c i applied parent ls, fs)" (is "\<exists>i applied fs parent ls h. ?Q i applied fs parent ls h d' r")
proof -
  let ?p = "uc_changes c"
  have ids: "distinct (map IID (db_issues d))" using ok by (simp add: schema_ok_def issues_ok_def)
  have tail: "tx_ok (\<lambda>d. db_issues d = is) (tx_then (append_event issue ty session attempt payload now source) (\<lambda>_.
      tx_then (store_idempotency operation key h x) (\<lambda>_. tx_return y))) (\<lambda>r d. db_issues d = is \<and> r = y)"
    for "is" issue ty session attempt payload now source operation key h x and y :: "(Issue \<times> string list) res"
  proof -
    have "keeps (issues_are is) (append_event issue ty session attempt payload now source)"
      unfolding append_event_def by (rule issues_are_exec) simp
    moreover have "keeps (issues_are is) (store_idempotency operation key h x)"
      unfolding store_idempotency_def by (intro keeps_intro issues_are_exec) simp
    ultimately show ?thesis
      unfolding tx_ok_def keeps_def issues_are_def tx_then_Inr tx_return_Inr by blast
  qed
  have "tx_ok (\<lambda>d0. d0 = d) (update_issue env c) (\<lambda>r d'. \<exists>i applied fs parent ls h. ?Q i applied fs parent ls h d' r)"
    unfolding update_issue_def Let_def
  proof (intro tx_ok_exact_then tx_ok_prod)
    fix da i db u dc v dd result applied fs de w df parent dg x dh ls di affected
    assume i: "loadIssueForMutation (uc_identifier c) d = Inr (da, i)"
      and live: "tx_require (ArchivedAt i = None) issueArchived da = Inr (db, u)"
      and version: "tx_require (IVersion i = uc_expected c) versionConflict db = Inr (dc, v)"
      and applied: "tx_lift (ApplyIssuePatch i ?p) dc = Inr (dd, result)" "result = (applied, fs)"
      and guards: "update_guards ?p i applied (uc_now c) dd = Inr (de, w)"
      and parent: "update_parent env ?p i applied de = Inr (df, parent)"
      and epic: "tx_require (\<not> (IType applied = TypeEpic \<and> parent \<noteq> None)) invalidParentError df = Inr (dg, x)"
      and labels: "update_labels env c (IID i) applied dg = Inr (dh, ls)"
      and upd: "update_issues (unarchived_at (IID i) (uc_expected c)) (assign_issue (applied\<lparr>ParentID := parent, Labels := ls,
          UpdatedAt := uc_now c, IVersion := IVersion i + 1, ClosedAt := updated_closed_at ?p i applied (uc_now c)\<rparr>)) dh = Inr (di, affected)"
    have "ArchivedAt i = None \<and> db = da" "IVersion i = uc_expected c \<and> dc = db" "ApplyIssuePatch i ?p = Inr (applied, fs) \<and> dd = dc"
      using live version applied by (simp_all add: tx_require_Inr tx_lift_Inr)
    then have dd: "dd = d" "ArchivedAt i = None" "IVersion i = uc_expected c" "ApplyIssuePatch i ?p = Inr (applied, fs)"
        "i \<in> set (db_issues d)" "find_issue d (uc_identifier c) = Some i"
      using loadIssue_mem [OF i] loadIssue_found [OF i] by simp_all
    have "keeps (issues_are (db_issues d)) (update_guards ?p i applied (uc_now c))"
      unfolding update_guards_def require_no_attempt_def require_no_children_def by (intro keeps_intro issues_are_expire)
    from keepsD [OF this guards] have "db_issues de = db_issues d" using dd(1) by (simp add: issues_are_def)
    then have dg: "db_issues dg = db_issues d" "pt_parent ?p = None \<longrightarrow> parent = ParentID applied"
      using update_parent_effect [OF parent] epic by (simp_all add: tx_require_Inr)
    obtain changed where row: "applied = (patch_fields ?p i)\<lparr>IStatus := IStatus applied, BlockedReason := BlockedReason applied\<rparr>"
      by (rule applied_row [OF dd(4)])
    have same: "IID applied = IID i" "ParentID applied = patched (pt_parent ?p) (ParentID i)"
        "Labels applied = (case pt_labels ?p of None \<Rightarrow> Labels i | Some ls \<Rightarrow> patched ls [])"
      by (subst row, simp add: patch_fields_def)+
    obtain h where h: "db_issues dh = replaced (IID i) (i\<lparr>Labels := h\<rparr>) (db_issues d)"
        "pt_labels ?p = None \<longrightarrow> h = Labels i \<and> ls = Labels applied"
      using update_labels_effect [OF labels, of i] dd(5) dg(1) ids by auto
    let ?n = "updated c i applied parent ls"
    have di: "db_issues di = replaced (IID i) ((assign_issue ?n i)\<lparr>Labels := h\<rparr>) (db_issues d)"
    proof -
      have "unarchived_at (IID i) (uc_expected c) = (\<lambda>x. IID x = IID i \<and> (IVersion x = uc_expected c \<and> ArchivedAt x = None))"
        by (auto simp: unarchived_at_def)
      then have "db_issues di = update_where (\<lambda>x. IID x = IID i \<and> (IVersion x = uc_expected c \<and> ArchivedAt x = None))
          (assign_issue ?n) (replaced (IID i) (i\<lparr>Labels := h\<rparr>) (db_issues d))"
        using upd h(1) by (auto simp: update_issues_Inr Let_def updated_def)
      then show ?thesis
        using replaced_twice [OF dd(5) ids, of "i\<lparr>Labels := h\<rparr>"] dd(2,3) by (simp add: assign_labels)
    qed
    have q: "?Q i applied fs parent ls h d'' (Inr (?n, fs))" if "db_issues d'' = db_issues di" for d'' :: db
      using dd di dg(2) h(2) same that by (auto simp: patched_def)
    show "tx_ok (\<lambda>d. d = di) (if affected \<noteq> 1 then classifyConditionalUpdateFailure (IID i)
        else tx_then (append_event (Some (IID i)) (update_event_type ?p) None None (PayloadIssueUpdated (newIssueUpdatedPayload
            (applied\<lparr>ParentID := parent, Labels := ls, UpdatedAt := uc_now c, IVersion := IVersion i + 1,
               ClosedAt := updated_closed_at ?p i applied (uc_now c)\<rparr>) fs)) (uc_now c) SourceIssue) (\<lambda>_.
          tx_then (store_idempotency ''update_issue'' (uc_key c) (uc_hash c) (ResponseUpdate
            (applied\<lparr>ParentID := parent, Labels := ls, UpdatedAt := uc_now c, IVersion := IVersion i + 1,
               ClosedAt := updated_closed_at ?p i applied (uc_now c)\<rparr>) fs)) (\<lambda>_.
          tx_return (Inr (applied\<lparr>ParentID := parent, Labels := ls, UpdatedAt := uc_now c, IVersion := IVersion i + 1,
               ClosedAt := updated_closed_at ?p i applied (uc_now c)\<rparr>, fs)))))
        (\<lambda>r d'. \<exists>i applied fs parent ls h. ?Q i applied fs parent ls h d' r)"
    proof (intro tx_ok_if tx_ok_weaken [OF tail [of "db_issues di"]])
      show "tx_ok (\<lambda>d. d = di) (classifyConditionalUpdateFailure (IID i)) (\<lambda>r d'. \<exists>i applied fs parent ls h. ?Q i applied fs parent ls h d' r)"
        by (auto simp: tx_ok_def classifyConditionalUpdateFailure_def split: option.splits if_splits)
    next
      fix r :: "(Issue \<times> string list) res" and d'' :: db
      assume last: "db_issues d'' = db_issues di \<and> r = Inr (applied\<lparr>ParentID := parent, Labels := ls, UpdatedAt := uc_now c,
        IVersion := IVersion i + 1, ClosedAt := updated_closed_at ?p i applied (uc_now c)\<rparr>, fs)"
      have "r = Inr (?n, fs)" using last by (simp add: updated_def)
      then have "?Q i applied fs parent ls h d'' r" using q [OF conjunct1 [OF last]] by (rule ssubst)
      then show "\<exists>i applied fs parent ls h. ?Q i applied fs parent ls h d'' r" by (intro exI)
    qed simp
  qed
  note triple = this
  show ?thesis using tx_okD [OF triple refl run] .
qed

section \<open>Reported changes\<close>

definition differs_only :: "string list \<Rightarrow> Issue \<Rightarrow> Issue \<Rightarrow> bool" where
  "differs_only fs i j \<longleftrightarrow> IID j = IID i \<and> SequenceNo j = SequenceNo i \<and> CreatedAt j = CreatedAt i \<and> ArchivedAt j = ArchivedAt i \<and>
     (''title'' \<in> set fs \<or> Title j = Title i) \<and> (''description'' \<in> set fs \<or> Description j = Description i) \<and>
     (''acceptance_criteria'' \<in> set fs \<or> AcceptanceCriteria j = AcceptanceCriteria i) \<and> (''type'' \<in> set fs \<or> IType j = IType i) \<and>
     (''priority'' \<in> set fs \<or> IPriority j = IPriority i) \<and> (''parent_id'' \<in> set fs \<or> ParentID j = ParentID i) \<and>
     (''labels'' \<in> set fs \<or> Labels j = Labels i) \<and> (''blocked_reason'' \<in> set fs \<or> BlockedReason j = BlockedReason i) \<and>
     (''status'' \<in> set fs \<or> IStatus j = IStatus i \<and> ClosedAt j = ClosedAt i)"

lemma patch_status_reported:
  assumes "patch_status current p r = Inr (result, changed)" and "BlockedReason r = BlockedReason current"
  shows "(''status'' \<in> set changed \<longleftrightarrow> pt_status p \<noteq> None) \<and> (''blocked_reason'' \<in> set changed \<or> BlockedReason result = BlockedReason current)"
proof (cases "pt_status p")
  case None
  then show ?thesis using assms by (cases "pt_blocked p") (auto simp: patch_status_def split: if_splits)
next
  case (Some s)
  show ?thesis
  proof (cases "s = StatusBlocked")
    case True
    then obtain reason where "pt_blocked p = Some (Some reason)"
      using assms Some by (cases "pt_blocked p"; cases "the (pt_blocked p)") (auto simp: patch_status_def)
    then show ?thesis using assms Some True by (auto simp: patch_status_def result_simps)
  next
    case False
    then show ?thesis using assms Some by (auto simp: patch_status_def result_simps simp del: if_split split: if_split_asm)
  qed
qed

lemma set_ordered [simp]: "set (orderedChangedFields fs) = set fs"
  by (simp add: orderedChangedFields_def)

lemma set_fields_mem:
  "(''title'' \<in> set (set_fields p) \<longleftrightarrow> pt_title p \<noteq> None)" "(''description'' \<in> set (set_fields p) \<longleftrightarrow> pt_description p \<noteq> None)"
  "(''acceptance_criteria'' \<in> set (set_fields p) \<longleftrightarrow> pt_acceptance p \<noteq> None)" "(''type'' \<in> set (set_fields p) \<longleftrightarrow> pt_type p \<noteq> None)"
  "(''priority'' \<in> set (set_fields p) \<longleftrightarrow> pt_priority p \<noteq> None)" "(''parent_id'' \<in> set (set_fields p) \<longleftrightarrow> pt_parent p \<noteq> None)"
  "(''labels'' \<in> set (set_fields p) \<longleftrightarrow> pt_labels p \<noteq> None)"
  by (simp_all add: set_fields_def)

lemma applied_columns:
  assumes a: "ApplyIssuePatch i p = Inr (applied, fs)"
  shows "IID applied = IID i \<and> SequenceNo applied = SequenceNo i \<and> CreatedAt applied = CreatedAt i \<and> ArchivedAt applied = ArchivedAt i \<and>
    Title applied = patched (pt_title p) (Title i) \<and> Description applied = patched (pt_description p) (Description i) \<and>
    AcceptanceCriteria applied = patched (pt_acceptance p) (AcceptanceCriteria i) \<and> IType applied = patched (pt_type p) (IType i) \<and>
    IPriority applied = patched (pt_priority p) (IPriority i) \<and> ClosedAt applied = ClosedAt i"
proof -
  obtain changed where c: "patch_status i p (patch_fields p i) = Inr (applied, changed)"
      "fs = orderedChangedFields (set_fields p @ changed)" "IType applied = TypeEpic \<longrightarrow> ParentID applied = None"
      "applied = (patch_fields p i)\<lparr>IStatus := IStatus applied, BlockedReason := BlockedReason applied\<rparr>"
      "case pt_status p of None \<Rightarrow> IStatus applied = IStatus i | Some s \<Rightarrow> IStatus applied = s"
    by (rule applied_row [OF a])
  show ?thesis by (subst c(4), simp add: patch_fields_def)+
qed

lemma applied_reported:
  assumes a: "ApplyIssuePatch i p = Inr (applied, fs)"
  shows "sorted fs \<and> distinct fs \<and> set (set_fields p) \<subseteq> set fs \<and> (''status'' \<in> set fs \<longleftrightarrow> pt_status p \<noteq> None) \<and>
    (''blocked_reason'' \<in> set fs \<or> BlockedReason applied = BlockedReason i) \<and> (pt_status p = None \<longrightarrow> IStatus applied = IStatus i)"
proof -
  obtain changed where c: "patch_status i p (patch_fields p i) = Inr (applied, changed)"
      "fs = orderedChangedFields (set_fields p @ changed)" "IType applied = TypeEpic \<longrightarrow> ParentID applied = None"
      "applied = (patch_fields p i)\<lparr>IStatus := IStatus applied, BlockedReason := BlockedReason applied\<rparr>"
      "case pt_status p of None \<Rightarrow> IStatus applied = IStatus i | Some s \<Rightarrow> IStatus applied = s"
    by (rule applied_row [OF a])
  have "''status'' \<notin> set (set_fields p)" by (simp add: set_fields_def)
  then show ?thesis
    using patch_status_reported [OF c(1)] c(5) by (auto simp: c(2) orderedChangedFields_def patch_fields_def)
qed

lemma patched_None [simp]: "patched None x = x"
  by (simp add: patched_def)

lemma updated_differs:
  assumes a: "ApplyIssuePatch i (uc_changes c) = Inr (applied, fs)"
    and parent: "pt_parent (uc_changes c) = None \<longrightarrow> parent = ParentID i"
    and ls: "pt_labels (uc_changes c) = None \<longrightarrow> h = Labels i"
  shows "differs_only fs i ((assign_issue (updated c i applied parent ls) i)\<lparr>Labels := h\<rparr>)"
proof -
  let ?p = "uc_changes c"
  have field: "f \<in> set fs" if "f \<in> set (set_fields ?p)" for f using applied_reported [OF a] that by blast
  note columns = applied_columns [OF a]
  have "''title'' \<in> set fs \<or> Title applied = Title i" "''description'' \<in> set fs \<or> Description applied = Description i"
    "''acceptance_criteria'' \<in> set fs \<or> AcceptanceCriteria applied = AcceptanceCriteria i" "''type'' \<in> set fs \<or> IType applied = IType i"
    "''priority'' \<in> set fs \<or> IPriority applied = IPriority i" "''parent_id'' \<in> set fs \<or> parent = ParentID i" "''labels'' \<in> set fs \<or> h = Labels i"
    using field set_fields_mem [of ?p] columns parent ls patched_None by metis+
  moreover have "''blocked_reason'' \<in> set fs \<or> BlockedReason applied = BlockedReason i"
    "''status'' \<in> set fs \<or> pt_status ?p = None \<and> IStatus applied = IStatus i" using applied_reported [OF a] by blast+
  then have "''blocked_reason'' \<in> set fs \<or> BlockedReason applied = BlockedReason i"
    "''status'' \<in> set fs \<or> IStatus applied = IStatus i \<and> updated_closed_at ?p i applied (uc_now c) = ClosedAt i"
    using columns by (auto simp: updated_closed_at_def)
  ultimately show ?thesis by (simp add: differs_only_def assign_issue_def updated_def)
qed

lemma fresh_replay:
  assumes "key = [] \<or> find_idempotency d operation key = None"
  shows "with_replay operation key h decode body d = body d"
  using assms by (auto simp: with_replay_def tx_then_def lookup_idempotency_def)

lemma write_cases:
  assumes "\<And>d' x. body d = Inr (d', x) \<Longrightarrow> \<exists>y. x = Inr y"
  obtains e where "Write body d = (d, Inl e)" | d' y where "Write body d = (d', Inr y)" "body d = Inr (d', Inr y)"
proof (cases "body d")
  case (Inr b)
  then obtain d' y where "body d = Inr (d', Inr y)" using assms by (cases b) auto
  then show ?thesis using that(2) by (simp add: Write_def)
qed (use that(1) in \<open>simp add: Write_def\<close>)

lemma update_run:
  assumes ok: "schema_ok d" and fresh: "uc_key c = [] \<or> find_idempotency d ''update_issue'' (uc_key c) = None"
  obtains e where "UpdateIssue env c d = (d, Inl e)"
  | d' i applied fs parent ls h where "UpdateIssue env c d = (d', Inr (updated c i applied parent ls, fs))"
      "find_issue d (uc_identifier c) = Some i" "i \<in> set (db_issues d)" "ArchivedAt i = None" "IVersion i = uc_expected c"
      "ApplyIssuePatch i (uc_changes c) = Inr (applied, fs)" "pt_parent (uc_changes c) = None \<longrightarrow> parent = ParentID i"
      "pt_labels (uc_changes c) = None \<longrightarrow> h = Labels i \<and> ls = Labels i"
      "db_issues d' = replaced (IID i) ((assign_issue (updated c i applied parent ls) i)\<lparr>Labels := h\<rparr>) (db_issues d)"
proof -
  have run: "UpdateIssue env c d = Write (update_issue env c) d"
    by (simp add: UpdateIssue_def Write_def fresh_replay [OF fresh])
  have "\<exists>y. x = Inr y" if "update_issue env c d = Inr (d', x)" for d' x
    using update_effect [OF that ok] by blast
  then consider e where "Write (update_issue env c) d = (d, Inl e)"
    | d' y where "Write (update_issue env c) d = (d', Inr y)" "update_issue env c d = Inr (d', Inr y)"
    by (rule write_cases)
  then show thesis
  proof cases
    case (1 e)
    then show ?thesis using that(1) run by simp
  next
    case (2 d' y)
    from update_effect [OF 2(2) ok] show ?thesis using that(2) 2(1) run by fastforce
  qed
qed

text \<open>
  C10. An update reports every change it makes. Without a stored replay it either fails and changes no
  table, or replaces the one row it names: the version goes up by one, the reported fields are sorted
  and free of duplicates, every column but the timestamps that is not reported keeps its value, and the
  answer is the row as stored (up to the order of its labels).
\<close>

theorem update_reports_every_change:
  assumes ok: "schema_ok d" and fresh: "uc_key c = [] \<or> find_idempotency d ''update_issue'' (uc_key c) = None"
  shows "(\<exists>e. UpdateIssue env c d = (d, Inl e)) \<or>
    (\<exists>d' n fs i j. UpdateIssue env c d = (d', Inr (n, fs)) \<and> find_issue d (uc_identifier c) = Some i \<and>
      db_issues d' = replaced (IID i) j (db_issues d) \<and> IVersion i = uc_expected c \<and> IVersion j = uc_expected c + 1 \<and>
      sorted fs \<and> distinct fs \<and> differs_only fs i j \<and> n\<lparr>Labels := Labels j\<rparr> = j)"
  using ok fresh
proof (cases rule: update_run [where env = env])
  case (2 d' i applied fs parent ls h)
  let ?n = "updated c i applied parent ls"
  have "?n\<lparr>Labels := h\<rparr> = (assign_issue ?n i)\<lparr>Labels := h\<rparr>"
    using applied_columns [OF 2(6)] by (cases i, cases applied) (simp add: assign_issue_def updated_def)
  moreover have "IVersion (assign_issue ?n i) = uc_expected c + 1" using 2(5) by (simp add: assign_issue_def updated_def)
  ultimately show ?thesis
    using 2(1,2,5,9) updated_differs [OF 2(6,7), of h ls] 2(8) applied_reported [OF 2(6)]
    by (intro disjI2 exI [of _ d'] exI [of _ ?n] exI [of _ fs] exI [of _ i] exI [of _ "(assign_issue ?n i)\<lparr>Labels := h\<rparr>"] conjI)
      simp_all
qed blast

section \<open>Workflow\<close>

lemma patch_status_workflow:
  assumes run: "patch_status current p r = Inr (result, changed)" and moved: "IStatus result \<noteq> IStatus current" and r: "IStatus r = IStatus current"
  shows "(CanTransition (IStatus current) (IStatus result) \<or> \<not> Executable (IType r) \<and> IStatus current = StatusOpen \<and> IStatus result = StatusDone) \<and>
    IStatus result \<noteq> StatusReview \<and> (IStatus result = StatusDone \<longrightarrow> \<not> Executable (IType current) \<and> \<not> Executable (IType r))"
proof (cases "pt_status p")
  case None
  then show ?thesis using run moved r by (cases "pt_blocked p") (auto simp: patch_status_def split: if_splits)
next
  case (Some s)
  have step: "CanTransition from to" if "ApplyStatusTransition from to why = Inr x" for "from" to why x
    using that by (auto simp: ApplyStatusTransition_def split: if_splits)
  show ?thesis
  proof (cases "s = StatusBlocked")
    case True
    then obtain reason where "pt_blocked p = Some (Some reason)"
      using run Some by (cases "pt_blocked p"; cases "the (pt_blocked p)") (auto simp: patch_status_def)
    then show ?thesis using run Some True step by (auto simp: patch_status_def result_simps)
  next
    case False
    then obtain x where s: "ApplyPatchStatusTransition (IType r) (IStatus current) s [] = Inr x" "IStatus result = s"
        "\<not> (s = StatusReview \<or> s = StatusDone \<and> (Executable (IType current) \<or> Executable (IType r)))"
      using run Some by (auto simp: patch_status_def result_simps simp del: if_split split: if_split_asm)
    then show ?thesis using step by (auto simp: ApplyPatchStatusTransition_def split: if_splits)
  qed
qed

lemma replaced_row:
  assumes "j \<in> set (replaced k x rows)" and "IID j = k" and "IID x = k" shows "j = x"
  using assms by (auto simp: replaced_def split: if_splits)

lemma replaced_other: "j \<in> set (replaced k x rows) \<Longrightarrow> IID j \<noteq> k \<Longrightarrow> IID x = k \<Longrightarrow> j \<in> set rows"
  by (auto simp: replaced_def split: if_splits)

text \<open>
  C16. An update never skips the workflow: a status it changes follows the status machine (an epic may go
  from open straight to done), it never becomes review, and no executable issue becomes done.
\<close>

theorem update_follows_workflow:
  assumes ok: "schema_ok d" and fresh: "uc_key c = [] \<or> find_idempotency d ''update_issue'' (uc_key c) = None"
    and run: "UpdateIssue env c d = (d', Inr r)"
    and i: "i \<in> set (db_issues d)" and j: "j \<in> set (db_issues d')" "IID j = IID i" and moved: "IStatus j \<noteq> IStatus i"
  shows "(CanTransition (IStatus i) (IStatus j) \<or> \<not> Executable (IType j) \<and> IStatus i = StatusOpen \<and> IStatus j = StatusDone) \<and>
    IStatus j \<noteq> StatusReview \<and> (IStatus j = StatusDone \<longrightarrow> \<not> Executable (IType i) \<and> \<not> Executable (IType j))"
  using ok fresh
proof (cases rule: update_run [where env = env])
  case (1 e)
  then show ?thesis using run by simp
next
  case (2 d1 k applied fs parent ls h)
  let ?j = "(assign_issue (updated c k applied parent ls) k)\<lparr>Labels := h\<rparr>"
  have d1: "d1 = d'" using 2(1) run by simp
  have rows: "j \<in> set (replaced (IID k) ?j (db_issues d))" using j(1) 2(9) unfolding d1 by simp
  have "IID j = IID k"
  proof (rule ccontr)
    assume "IID j \<noteq> IID k"
    then have "j \<in> set (db_issues d)" using rows replaced_other by (simp add: assign_issue_def)
    then show False using issue_unique [OF ok i _ j(2)] moved by simp
  qed
  then have "j = ?j" "i = k" using replaced_row [OF rows] issue_unique [OF ok 2(3) i] j(2) by (simp_all add: assign_issue_def)
  moreover obtain changed where c: "patch_status k (uc_changes c) (patch_fields (uc_changes c) k) = Inr (applied, changed)"
      "fs = orderedChangedFields (set_fields (uc_changes c) @ changed)" "IType applied = TypeEpic \<longrightarrow> ParentID applied = None"
      "applied = (patch_fields (uc_changes c) k)\<lparr>IStatus := IStatus applied, BlockedReason := BlockedReason applied\<rparr>"
      "case pt_status (uc_changes c) of None \<Rightarrow> IStatus applied = IStatus k | Some s \<Rightarrow> IStatus applied = s"
    by (rule applied_row [OF 2(6)])
  moreover have "IType (patch_fields (uc_changes c) k) = IType applied" using arg_cong [OF c(4), of IType] by simp
  ultimately show ?thesis
    using patch_status_workflow [OF c(1)] moved by (simp add: assign_issue_def updated_def patch_fields_def)
qed

section \<open>Archiving and restoring\<close>

text \<open>Statements that always succeed on a store that keeps its constraints.\<close>

definition recordable :: "string \<Rightarrow> string \<Rightarrow> string \<Rightarrow> db \<Rightarrow> bool" where
  "recordable operation key h d \<longleftrightarrow> key = [] \<or> find_idempotency d operation key = None \<and> operation \<noteq> [] \<and> h \<noteq> []"

lemma recordable_exec: "(\<And>d. db_idempotency (f d) = db_idempotency d) \<Longrightarrow> keeps (recordable operation key h) (exec f)"
  by (rule keeps_exec) (simp add: recordable_def find_idempotency_def)

lemma recordable_expire: "keeps (recordable operation key h) (expireAttemptsForIssue issue now)"
  unfolding expireAttemptsForIssue_def expireAttempt_def releaseReservationsForAttempt_def release_one_def
    releaseClaimedReviewRequest_def appendReviewEvent_def append_event_def update_attempts_def update_reservations_def
    update_requests_def Let_def
  by (intro keeps_intro recordable_exec) simp_all

lemma store_total:
  assumes ok: "schema_ok d" and r: "recordable operation key h d"
  shows "\<exists>d'. store_idempotency operation key h x d = Inr (d', ()) \<and> db_issues d' = db_issues d \<and> db_attempts d' = db_attempts d"
proof (cases "key = []")
  case False
  let ?d = "d\<lparr>db_idempotency := db_idempotency d @ [\<lparr>ir_operation = operation, ir_key = key, ir_hash = h, ir_response = x\<rparr>]\<rparr>"
  have "(operation, key) \<notin> (\<lambda>r. (ir_operation r, ir_key r)) ` set (db_idempotency d)"
    using r False by (auto simp: recordable_def find_idempotency_def find_None_iff)
  then have "schema_ok ?d" using ok r False by (simp add: schema_parts recordable_def)
  then show ?thesis using False by (simp add: store_idempotency_def exec_def)
qed (simp add: store_idempotency_def tx_return_def)

lemma replaced_map: "(\<And>x. g j = g x \<or> IID x \<noteq> k \<or> x \<notin> set rows) \<Longrightarrow> map g (replaced k j rows) = map g rows"
  by (auto simp: replaced_def)

lemma replaced_schema:
  assumes ok: "schema_ok d" and i: "i \<in> set (db_issues d)" and j: "issue_row_ok j"
    and same: "IID j = IID i" "SequenceNo j = SequenceNo i" "ParentID j = ParentID i" "Labels j = Labels i"
  shows "schema_ok (d\<lparr>db_issues := replaced (IID i) j (db_issues d)\<rparr>)"
proof -
  let ?rows = "replaced (IID i) j (db_issues d)"
  have g: "map g ?rows = map g (db_issues d)" if "g j = g i" for g :: "Issue \<Rightarrow> 'g"
    using that issue_unique [OF ok i] by (auto simp: replaced_def)
  have rows: "list_all q ?rows" if "list_all q (db_issues d)" "q j" for q
    using that by (auto simp: replaced_def list_all_iff)
  have old: "issues_ok d" "labels_ok d" using ok by (simp_all add: schema_ok_def)
  note ids = g [OF same(1)] g [OF same(2)]
  have "list_all issue_row_ok ?rows" using old(1) j by (intro rows) (simp_all add: issues_ok_def)
  moreover have "list_all (\<lambda>x. refers (map IID (db_issues d)) (ParentID x)) ?rows"
    by (rule rows) (use old(1) i same(3) in \<open>auto simp: issues_ok_def list_all_iff\<close>)
  ultimately have "issues_ok (d\<lparr>db_issues := ?rows\<rparr>)" using old(1) by (simp add: issues_ok_def ids del: set_map)
  moreover have "list_all (\<lambda>i. distinct (Labels i) \<and> list_all (\<lambda>n. n \<in> set (map lb_name (db_labels d))) (Labels i)) ?rows"
    by (rule rows) (use old(2) i same(4) in \<open>auto simp: labels_ok_def list_all_iff\<close>)
  then have "labels_ok (d\<lparr>db_issues := ?rows\<rparr>)" using old(2) by (simp add: labels_ok_def)
  ultimately show ?thesis using schema_frame_issues [OF ok ids(1)] by simp
qed

lemma update_total:
  assumes ok: "schema_ok d" and i: "i \<in> set (db_issues d)" and p: "p i" "\<And>x. p x \<Longrightarrow> IID x = IID i"
    and j: "issue_row_ok (f i)" "IID (f i) = IID i" "SequenceNo (f i) = SequenceNo i" "ParentID (f i) = ParentID i" "Labels (f i) = Labels i"
  shows "update_issues p f d = Inr (d\<lparr>db_issues := replaced (IID i) (f i) (db_issues d)\<rparr>, 1)"
    and "schema_ok (d\<lparr>db_issues := replaced (IID i) (f i) (db_issues d)\<rparr>)"
proof -
  show s: "schema_ok (d\<lparr>db_issues := replaced (IID i) (f i) (db_issues d)\<rparr>)" by (rule replaced_schema [OF ok i j])
  have "update_where p f (db_issues d) = replaced (IID i) (f i) (db_issues d)"
    unfolding update_where_def replaced_def
  proof (rule map_cong [OF refl])
    fix x assume "x \<in> set (db_issues d)"
    then show "(if p x then f x else x) = (if IID x = IID i then f i else x)" using issue_unique [OF ok i] p by metis
  qed
  moreover have "affected p (db_issues d) = 1"
    by (rule affected_key_one [of IID _ i p "IID i", OF _ i p]) (use ok in \<open>simp add: schema_ok_def issues_ok_def\<close>)
  ultimately show "update_issues p f d = Inr (d\<lparr>db_issues := replaced (IID i) (f i) (db_issues d)\<rparr>, 1)"
    using s by (simp add: update_issues_Inr)
qed

lemma replaced_find:
  assumes "i \<in> set rows" and "IID j = IID i" shows "find (\<lambda>x. IID x = IID i) (replaced (IID i) j rows) = Some j"
proof -
  have "find (\<lambda>x. IID x = IID i) (replaced (IID i) j rows) \<noteq> None"
    using assms by (auto simp: find_None_iff replaced_def)
  then obtain x where x: "find (\<lambda>x. IID x = IID i) (replaced (IID i) j rows) = Some x" by auto
  then show ?thesis using find_Some_mem [OF x] replaced_row assms(2) by blast
qed

lemma find_issue_load:
  "loadIssueForMutation ident d = (case find_issue d ident of None \<Rightarrow> Inl (NewError CodeIssueNotFound False []) | Some i \<Rightarrow> Inr (d, i))"
  by (simp add: loadIssueForMutation_def find_issue_def)

lemma tx_then_step: "t d = Inr (d1, x) \<Longrightarrow> f x d1 = r \<Longrightarrow> tx_then t f d = r"
  by (simp add: tx_then_def)

lemma tx_then_error: "t d = Inl e \<Longrightarrow> tx_then t f d = Inl e"
  by (simp add: tx_then_def)

lemma tx_require_simps [simp]: "tx_require True e d = Inr (d, ())" "tx_require False e d = Inl e"
  by (simp_all add: tx_require_def tx_return_def tx_fail_def)

lemma stored_row: "schema_ok d \<Longrightarrow> i \<in> set (db_issues d) \<Longrightarrow> issue_row_ok i"
  by (simp add: schema_ok_def issues_ok_def list_all_iff)

text \<open>The sweep before the check: who is still active then, and what it leaves alone.\<close>

lemma require_no_attempt_run:
  assumes ok: "schema_ok d" and r: "recordable operation key h d"
  shows "if active_attempt_id d now issue = None
    then \<exists>d'. require_no_attempt issue now d = Inr (d', ()) \<and> schema_ok d' \<and> recordable operation key h d' \<and>
      db_issues d' = db_issues d \<and> session_ids d' = session_ids d \<and> \<not> has_active_attempt d' issue
    else require_no_attempt issue now d = Inl activeAttemptExists"
proof -
  obtain d1 where d1: "expireAttemptsForIssue issue now d = Inr (d1, ())" "schema_ok d1" "apart_from_attempts d1 d"
      "db_attempts d1 = update_where (\<lambda>a. wa_issue a = issue \<and> lapsed now a) (expire_row now) (db_attempts d)"
    using expire_issue_total [OF ok] by blast
  have "recordable operation key h d1" using keepsD [OF recordable_expire d1(1) r] .
  then show ?thesis
    using d1 active_after_expiry [OF d1(4)]
    by (auto simp: require_no_attempt_def tx_then_def tx_read_def apart_from_attempts_def)
qed

text \<open>What follows the write: the event, the row read back, and the stored response.\<close>

lemma report_run:
  assumes ok: "schema_ok d" and r: "recordable operation key h d" and i: "find (\<lambda>x. IID x = k) (db_issues d) = Some j"
    and ty: "ty \<noteq> []" and session: "refers (session_ids d) session"
  shows "\<exists>d'. tx_then (append_event (Some k) ty session None payload now source) (\<lambda>_.
      tx_then (loadIssueForMutation (internal_id k)) (\<lambda>issue.
      tx_then (store_idempotency operation key h (ResponseIssue issue)) (\<lambda>_. tx_return (Inr issue)))) d = Inr (d', Inr j) \<and>
    db_issues d' = db_issues d \<and> db_attempts d' = db_attempts d"
proof -
  let ?e = "new_event d (Some k) ty session None payload now source"
  let ?d = "d\<lparr>db_events := db_events d @ [?e]\<rparr>"
  have refs: "event_refs_ok d (Some k) session None"
    using find_Some_mem [OF i] session by (auto simp: event_refs_ok_def refers_def)
  have event: "append_event (Some k) ty session None payload now source d = Inr (?d, ())"
    by (rule append_event_total [OF ok ty refs])
  have "schema_ok ?d" using append_event_schema [OF event] .
  moreover have "recordable operation key h ?d" using r by (simp add: recordable_def find_idempotency_def)
  ultimately obtain d' where "store_idempotency operation key h (ResponseIssue j) ?d = Inr (d', ())"
      "db_issues d' = db_issues ?d" "db_attempts d' = db_attempts ?d"
    using store_total by blast
  then show ?thesis
    using i by (auto simp: event find_issue_load find_issue_def internal_id_def tx_then_def tx_return_def)
qed

definition archive_refusal :: "ArchiveIssueCommand \<Rightarrow> db \<Rightarrow> Issue \<Rightarrow> Error option" where
  "archive_refusal c d i =
     (if ArchivedAt i \<noteq> None then Some issueArchived
      else if IVersion i \<noteq> hc_expected c then Some versionConflict
      else if IType i = TypeEpic \<and> epicHasLiveChildren d (IID i) then Some (epicHasChildrenError ''id'')
      else if active_attempt_id d (hc_now c) (IID i) \<noteq> None then Some activeAttemptExists
      else None)"

text \<open>
  C13. Archiving is decided by the issue alone: without a stored replay it is refused, with the error of
  the first obstacle and nothing changed, exactly when the issue is missing, already archived, at another
  version, an epic with live children, or held by an attempt whose lease has not run out; in every other
  case it succeeds, archives that row only, and leaves no attempt active on it.
\<close>

theorem archive_decides_exactly:
  assumes ok: "schema_ok d" and r: "recordable ''archive_issue'' (hc_key c) (hc_hash c) d"
  shows "case find_issue d (hc_identifier c) of
      None \<Rightarrow> ArchiveIssue c d = (d, Inl (NewError CodeIssueNotFound False []))
    | Some i \<Rightarrow> (case archive_refusal c d i of
          Some e \<Rightarrow> ArchiveIssue c d = (d, Inl e)
        | None \<Rightarrow> \<exists>d'. ArchiveIssue c d = (d', Inr (archive_row (hc_now c) i)) \<and>
            db_issues d' = replaced (IID i) (archive_row (hc_now c) i) (db_issues d) \<and> \<not> has_active_attempt d' (IID i))"
proof -
  have fresh: "hc_key c = [] \<or> find_idempotency d ''archive_issue'' (hc_key c) = None" using r by (auto simp: recordable_def)
  have run: "ArchiveIssue c d = Write (archive_issue c) d"
    by (simp add: ArchiveIssue_def Write_def fresh_replay [OF fresh])
  show ?thesis
  proof (cases "find_issue d (hc_identifier c)")
    case None
    then show ?thesis by (simp add: run Write_def archive_issue_def find_issue_load tx_then_def)
  next
    case i: (Some i)
    have mem: "i \<in> set (db_issues d)" by (rule find_issue_mem [OF i])
    show ?thesis
    proof (cases "archive_refusal c d i")
      case (Some e)
      then show ?thesis
        using i require_no_attempt_run [OF ok r, of "hc_now c" "IID i"]
        by (auto simp: run Write_def archive_issue_def archive_refusal_def find_issue_load require_no_children_def
            tx_then_def tx_read_def tx_return_def split: if_splits)
    next
      case None
      then have free: "ArchivedAt i = None" "IVersion i = hc_expected c" "\<not> (IType i = TypeEpic \<and> epicHasLiveChildren d (IID i))"
          "active_attempt_id d (hc_now c) (IID i) = None"
        by (auto simp: archive_refusal_def split: if_splits)
      obtain d1 where d1: "require_no_attempt (IID i) (hc_now c) d = Inr (d1, ())" "schema_ok d1"
          "recordable ''archive_issue'' (hc_key c) (hc_hash c) d1" "db_issues d1 = db_issues d" "\<not> has_active_attempt d1 (IID i)"
        using require_no_attempt_run [OF ok r, of "hc_now c" "IID i"] free(4) by auto
      let ?j = "archive_row (hc_now c) i"
      let ?d = "d1\<lparr>db_issues := replaced (IID i) ?j (db_issues d1)\<rparr>"
      have row: "issue_row_ok ?j"
        using stored_row [OF ok mem] by (simp add: issue_row_ok_def archive_row_def)
      have target: "i \<in> set (db_issues d1)" "unarchived_at (IID i) (hc_expected c) i"
          "\<And>x. unarchived_at (IID i) (hc_expected c) x \<Longrightarrow> IID x = IID i"
        using mem free by (simp_all add: d1(4) unarchived_at_def)
      have same: "IID ?j = IID i" "SequenceNo ?j = SequenceNo i" "ParentID ?j = ParentID i" "Labels ?j = Labels i"
        by (simp_all add: archive_row_def)
      note upd = update_total [of d1 i "unarchived_at (IID i) (hc_expected c)" "archive_row (hc_now c)", OF d1(2) target row same]
      have found: "find (\<lambda>x. IID x = IID i) (db_issues ?d) = Some ?j"
        using replaced_find [OF mem same(1)] by (simp add: d1(4))
      have kept: "recordable ''archive_issue'' (hc_key c) (hc_hash c) ?d" using d1(3) by (simp add: recordable_def find_idempotency_def)
      have event: "''issue_archived'' \<noteq> []" "refers (session_ids ?d) None" by (simp_all add: refers_def)
      obtain d' where "tx_then (append_event (Some (IID i)) ''issue_archived'' None None
          (PayloadIssueArchived (hc_expected c + 1) (hc_now c)) (hc_now c) SourceIssue) (\<lambda>_.
        tx_then (loadIssueForMutation (internal_id (IID i))) (\<lambda>issue.
        tx_then (store_idempotency ''archive_issue'' (hc_key c) (hc_hash c) (ResponseIssue issue)) (\<lambda>_. tx_return (Inr issue)))) ?d =
          Inr (d', Inr ?j :: Issue res) \<and> db_issues d' = db_issues ?d \<and> db_attempts d' = db_attempts ?d"
        using report_run [OF upd(2) kept found event] by (rule exE)
      note report = conjunct1 [OF this] conjunct1 [OF conjunct2 [OF this]] conjunct2 [OF conjunct2 [OF this]]
      have "archive_issue c d = Inr (d', Inr ?j)"
      proof -
        have load: "loadIssueForMutation (hc_identifier c) d = Inr (d, i)" using i by (simp add: find_issue_load)
        have guards: "tx_require (ArchivedAt i = None) issueArchived d = Inr (d, ())"
            "tx_require (IVersion i = hc_expected c) versionConflict d = Inr (d, ())"
            "(if IType i = TypeEpic then require_no_children (IID i) ''id'' else tx_return ()) d = Inr (d, ())"
          using free by (simp_all add: require_no_children_def tx_then_def tx_read_def tx_return_def)
        show ?thesis
          unfolding archive_issue_def
          by (rule tx_then_step, rule load, rule tx_then_step, rule guards, rule tx_then_step, rule guards, rule tx_then_step,
              rule guards, rule tx_then_step, rule d1(1), rule tx_then_step, rule upd(1)) (simp, insert report(1), simp)
      qed
      then show ?thesis
        using i None report(2,3) d1(4,5) by (simp add: run Write_def has_active_attempt_def)
    qed
  qed
qed

section \<open>Concrete requests\<close>

definition sample_patch :: IssuePatch where
  "sample_patch = \<lparr>pt_title = Some ''t2'', pt_description = None, pt_acceptance = None, pt_type = None, pt_priority = None,
     pt_status = Some StatusBlocked, pt_parent = None, pt_blocked = Some (Some ''waiting''), pt_labels = Some (Some [''api''])\<rparr>"

definition sample_update :: UpdateIssueCommand where
  "sample_update = \<lparr>uc_identifier = internal_id (sample_ulid CHR ''I''), uc_expected = 1, uc_changes = sample_patch,
     uc_label_ids = [], uc_create_missing = False, uc_now = 20, uc_key = '''', uc_hash = ''h''\<rparr>"

definition sample_archive :: "time \<Rightarrow> ArchiveIssueCommand" where
  "sample_archive now = \<lparr>hc_identifier = internal_id (sample_ulid CHR ''I''), hc_expected = 1, hc_now = now, hc_key = '''', hc_hash = ''h''\<rparr>"

definition sample_input :: CreateIssueInput where
  "sample_input = (xc_input sample_create)\<lparr>ci_status := StatusOpen, ci_priority := PriorityMedium\<rparr>"

lemma sample_create_valid: "CreateIssueInput_Validate sample_env (xc_input sample_create) = Inr sample_input"
  by code_simp

lemma sample_patch_valid: "validate_patch sample_env sample_patch = Inr sample_patch"
  by code_simp

definition sample_applied :: Issue where
  "sample_applied = sample_issue\<lparr>Title := ''t2'', IStatus := StatusBlocked, BlockedReason := Some ''waiting'', Labels := [''api'']\<rparr>"

lemma sample_patch_applied:
  "ApplyIssuePatch sample_issue sample_patch = Inr (sample_applied, [''blocked_reason'', ''labels'', ''status'', ''title''])"
  by code_simp

theorem validated_rows_fit_table_witness:
  "issue_row_ok (created_issue (sample_ulid CHR ''N'') sample_input 8 None 20) \<and> issue_row_ok sample_applied"
proof -
  have "length (sample_ulid CHR ''N'') = 26" "(8 :: int) > 0" "(None :: string option) \<noteq> Some (sample_ulid CHR ''N'')"
    "issue_row_ok sample_issue" "ParentID sample_applied \<noteq> Some (IID sample_issue)" by code_simp+
  then show ?thesis
    using validated_rows_fit_table [of sample_env "xc_input sample_create" sample_input "sample_ulid CHR ''N''" 8 None 20
        sample_patch sample_patch sample_issue sample_applied "[''blocked_reason'', ''labels'', ''status'', ''title'']"]
      sample_create_valid sample_patch_valid sample_patch_applied by simp
qed

lemma sample_update_runs: "\<exists>d' r. UpdateIssue sample_env sample_update sample_project_db = (d', Inr r)"
proof -
  have "isl (snd (UpdateIssue sample_env sample_update sample_project_db)) = False" by code_simp
  then show ?thesis
    by (cases "UpdateIssue sample_env sample_update sample_project_db"; cases "snd (UpdateIssue sample_env sample_update sample_project_db)")
      auto
qed

theorem update_reports_every_change_witness:
  "\<exists>d' n fs j. UpdateIssue sample_env sample_update sample_project_db = (d', Inr (n, fs)) \<and>
     db_issues d' = [j] \<and> IVersion j = 2 \<and> differs_only fs sample_issue j"
proof -
  have issue: "find_issue sample_project_db (uc_identifier sample_update) = Some sample_issue" by code_simp
  have rows: "db_issues sample_project_db = [sample_issue]" by (simp add: sample_project_db_def sample_db_def)
  have key: "uc_key sample_update = []" "uc_expected sample_update = 1" by (simp_all add: sample_update_def)
  obtain d' r where "UpdateIssue sample_env sample_update sample_project_db = (d', Inr r)" using sample_update_runs by blast
  then obtain n fs j where "UpdateIssue sample_env sample_update sample_project_db = (d', Inr (n, fs))"
      "db_issues d' = replaced (IID sample_issue) j (db_issues sample_project_db)" "IVersion j = 2" "differs_only fs sample_issue j"
    using update_reports_every_change [of sample_project_db sample_update sample_env] sample_project_ok issue key by auto
  then show ?thesis by (auto simp: rows replaced_def)
qed

theorem update_follows_workflow_witness:
  "list_all (\<lambda>j. IStatus j = StatusBlocked \<and> CanTransition StatusReady (IStatus j) \<and> IStatus j \<noteq> StatusReview)
     (db_issues (fst (UpdateIssue sample_env sample_update sample_project_db)))"
  unfolding list_all_iff
proof
  let ?d = "fst (UpdateIssue sample_env sample_update sample_project_db)"
  fix j assume j: "j \<in> set (db_issues ?d)"
  have "list_all (\<lambda>j. IID j = IID sample_issue \<and> IStatus j = StatusBlocked) (db_issues ?d)" by code_simp
  then have row: "IID j = IID sample_issue" "IStatus j = StatusBlocked" using j by (auto simp: list_all_iff)
  obtain d' r where run: "UpdateIssue sample_env sample_update sample_project_db = (d', Inr r)" using sample_update_runs by blast
  have start: "sample_issue \<in> set (db_issues sample_project_db)" "IStatus sample_issue = StatusReady"
    by (simp_all add: sample_project_db_def sample_db_def sample_issue_def)
  have "uc_key sample_update = []" by (simp add: sample_update_def)
  from update_follows_workflow [OF _ disjI1 [OF this] run start(1) _ row(1)] j row start(2) run sample_project_ok
  show "IStatus j = StatusBlocked \<and> CanTransition StatusReady (IStatus j) \<and> IStatus j \<noteq> StatusReview" by auto
qed

theorem archive_decides_exactly_witness:
  "ArchiveIssue (sample_archive 5) sample_project_db = (sample_project_db, Inl activeAttemptExists) \<and>
   (\<exists>d'. ArchiveIssue (sample_archive 200) sample_project_db = (d', Inr (archive_row 200 sample_issue)) \<and>
     \<not> has_active_attempt d' (sample_ulid CHR ''I''))"
proof -
  have r: "recordable ''archive_issue'' (hc_key (sample_archive now)) (hc_hash (sample_archive now)) sample_project_db" for now
    by (simp add: recordable_def sample_archive_def)
  have issue: "find_issue sample_project_db (hc_identifier (sample_archive now)) = Some sample_issue" for now
    by (simp add: sample_archive_def find_issue_def internal_id_def sample_project_db_def sample_db_def sample_issue_def)
  have "archive_refusal (sample_archive 5) sample_project_db sample_issue = Some activeAttemptExists"
    "archive_refusal (sample_archive 200) sample_project_db sample_issue = None" by code_simp+
  moreover have "hc_now (sample_archive now) = now" "IID sample_issue = sample_ulid CHR ''I''" for now
    by (simp_all add: sample_archive_def sample_issue_def)
  ultimately show ?thesis
    using archive_decides_exactly [OF _ r [of 5]] archive_decides_exactly [OF _ r [of 200]] sample_project_ok by (simp add: issue) blast
qed


section \<open>Two gaps\<close>

text \<open>
  An issue created as done has no closing time, and an epic closed by a patch can be retyped: the two
  updates below leave a done task that no attempt finished and no gate saw.
\<close>

definition sample_epic_db :: db where
  "sample_epic_db = sample_project_db\<lparr>db_attempts := [], db_reservations := [],
     db_issues := [sample_issue\<lparr>IType := TypeEpic, IStatus := StatusOpen, BlockedReason := None\<rparr>]\<rparr>"

definition sample_patched :: "IssuePatch \<Rightarrow> int \<Rightarrow> db \<Rightarrow> db" where
  "sample_patched p n d = fst (UpdateIssue sample_env (sample_update\<lparr>uc_changes := p, uc_expected := n, uc_label_ids := [], uc_create_missing := False\<rparr>) d)"

definition no_changes :: IssuePatch where
  "no_changes = \<lparr>pt_title = None, pt_description = None, pt_acceptance = None, pt_type = None, pt_priority = None,
     pt_status = None, pt_parent = None, pt_blocked = None, pt_labels = None\<rparr>"

lemma retyped_epic_skips_gates:
  "map (\<lambda>i. (IType i, IStatus i, IVersion i)) (db_issues
     (sample_patched (no_changes\<lparr>pt_type := Some TypeTask\<rparr>) 2
       (sample_patched (no_changes\<lparr>pt_status := Some StatusDone\<rparr>) 1 sample_epic_db))) = [(TypeTask, StatusDone, 3)]"
  by code_simp

lemma created_done_never_closes:
  "list_ex (\<lambda>i. IStatus i = StatusDone \<and> ClosedAt i = None) (db_issues (fst (CreateIssue sample_env
     (sample_create\<lparr>xc_input := (xc_input sample_create)\<lparr>ci_status := StatusDone\<rparr>\<rparr>) sample_project_db)))"
  by code_simp

end
