(* ===== verification/PlanSafety.thy ===== *)
theory PlanSafety
  imports IssueSafety
begin

text \<open>
  What validating a plan decides, and a plan that validates but can never be applied.
\<close>

section \<open>Validation is exact\<close>

definition relation_key :: "(string \<Rightarrow> string option) \<Rightarrow> PlannedRelation \<Rightarrow> RelationType \<times> string \<times> string" where
  "relation_key N r = (plr_type r, CanonicalRelationEndpoints (plr_type r) (the (N (plr_source r))) (the (N (plr_target r))))"

definition ends_differ :: "(string \<Rightarrow> string option) \<Rightarrow> PlannedRelation \<Rightarrow> bool" where
  "ends_differ N r \<longleftrightarrow> N (plr_source r) \<noteq> None \<and> N (plr_target r) \<noteq> None \<and> N (plr_source r) \<noteq> N (plr_target r)"

definition named_blocks :: "(string \<Rightarrow> string option) \<Rightarrow> PlannedRelation list \<Rightarrow> (string \<times> string) set" where
  "named_blocks N rs = (\<lambda>r. (the (N (plr_source r)), the (N (plr_target r)))) ` {r \<in> set rs. plr_type r = RelationTypeBlocks}"

lemma named_blocks_Cons:
  "named_blocks N (r # rs) = with_edge (plr_type r) (the (N (plr_source r))) (the (N (plr_target r))) (named_blocks N rs)"
  by (auto simp: named_blocks_def with_edge_def)

text \<open>
  What a consistent plan is, without reference to the order of the scan: every reference has a meaning,
  children are not epics and their parents are, relations join different issues and are new, and the
  blocking relations of store and plan together have no cycle.
\<close>

definition plan_consistent :: "env \<Rightarrow> IssuePlan \<Rightarrow> db \<Rightarrow> bool" where
  "plan_consistent env plan d \<longleftrightarrow>
     (let N = plan_name env plan d; rs = pl_relations plan in
      list_all (plan_parent_ok env plan d) (pl_issues plan) \<and>
      list_all (ends_differ N) rs \<and> distinct (map (relation_key N) rs) \<and>
      list_all (\<lambda>r. \<not> stored_relation d (relation_key N r)) rs \<and>
      acyclic (blocks_edges (db_relations d) \<union> named_blocks N rs) \<and>
      list_all (\<lambda>p. case pld_issue p of None \<Rightarrow> True | Some v \<Rightarrow> N v \<noteq> None) (pl_decisions plan))"

lemma admitted_iff:
  assumes "acyclic E"
  shows "admitted d N E ks rs \<longleftrightarrow> list_all (ends_differ N) rs \<and> distinct (map (relation_key N) rs) \<and>
    list_all (\<lambda>r. relation_key N r \<notin> ks \<and> \<not> stored_relation d (relation_key N r)) rs \<and> acyclic (E \<union> named_blocks N rs)"
  using assms
proof (induction rs arbitrary: E ks)
  case Nil
  then show ?case by (simp add: named_blocks_def)
next
  case (Cons r rs)
  show ?case
  proof (cases "ends_differ N r")
    case False
    then show ?thesis by (auto simp: ends_differ_def admissible_def split: option.splits)
  next
    case True
    then obtain a b where ab: "N (plr_source r) = Some a" "N (plr_target r) = Some b" "a \<noteq> b" by (auto simp: ends_differ_def)
    let ?E = "with_edge (plr_type r) a b E"
    have key: "relation_key N r = (plr_type r, CanonicalRelationEndpoints (plr_type r) a b)" by (simp add: relation_key_def ab)
    have step: "acyclic ?E \<longleftrightarrow> (plr_type r = RelationTypeBlocks \<longrightarrow> (b, a) \<notin> E\<^sup>+)"
      using Cons.prems ab(3) by (auto simp: with_edge_def acyclic_insert rtrancl_eq_or_trancl)
    have union: "E \<union> named_blocks N (r # rs) = ?E \<union> named_blocks N rs"
      by (auto simp: named_blocks_Cons ab with_edge_def)
    show ?thesis
    proof (cases "acyclic ?E")
      case acyc: True
      show ?thesis
        unfolding union admitted.simps ab option.case prod.case Cons.IH [OF acyc] admissible_def
        using step acyc True ab(3) by (auto simp: key list_all_iff image_iff)
    next
      case False
      then have "\<not> acyclic (?E \<union> named_blocks N rs)" using acyclic_subset by blast
      then show ?thesis using False step ab by (simp add: union admissible_def)
    qed
  qed
qed

text \<open>
  C7. Validating a plan against the store is exact. On a store that meets its constraints and has no
  blocking cycle the scan always returns, and it reports nothing exactly when the plan is consistent.
\<close>

theorem plan_validation_exact:
  assumes "schema_ok d" and "blocking_acyclic d"
  shows "\<exists>ds. validatePlanAgainstStore env plan d = Inr ds \<and> (ds = [] \<longleftrightarrow> plan_consistent env plan d)"
proof -
  let ?N = "plan_name env plan d" and ?rs = "pl_relations plan"
  have start: "acyclic (plan_start_edges plan d)"
    using assms(2) by (simp add: plan_start_edges_def blocking_acyclic_def wf_acyclic)
  have same: "acyclic (plan_start_edges plan d \<union> named_blocks ?N ?rs) \<longleftrightarrow>
      acyclic (blocks_edges (db_relations d) \<union> named_blocks ?N ?rs)"
  proof (cases "list_ex (\<lambda>r. plr_type r = RelationTypeBlocks) ?rs")
    case False
    then have "named_blocks ?N ?rs = {}" by (auto simp: named_blocks_def list_ex_iff)
    then show ?thesis using start assms(2) by (simp add: blocking_acyclic_def)
  qed (simp add: plan_start_edges_def)
  have decisions: "(\<forall>p \<in> set (pl_decisions plan). \<forall>v. pld_issue p = Some v \<longrightarrow> ?N v \<noteq> None) \<longleftrightarrow>
      list_all (\<lambda>p. case pld_issue p of None \<Rightarrow> True | Some v \<Rightarrow> ?N v \<noteq> None) (pl_decisions plan)"
    by (auto simp: list_all_iff split: option.splits)
  show ?thesis
    using validate_run [OF assms(1), of env plan]
    by (simp only: plan_consistent_def admitted_iff [OF start] same decisions Let_def list_all_iff) blast
qed


definition sample_epic :: PlannedIssue where
  "sample_epic = \<lparr>pli_ref = ''epic'', pli_type = TypeEpic, pli_title = ''E'', pli_description = None, pli_acceptance = None,
     pli_status = StatusOpen, pli_priority = PriorityMedium, pli_parent = None, pli_blocked = None, pli_labels = [],
     pli_create_missing = False\<rparr>"

definition sample_child :: PlannedIssue where
  "sample_child = sample_epic\<lparr>pli_ref := ''child'', pli_type := TypeTask, pli_parent := Some ''epic''\<rparr>"

definition sample_plan :: "PlannedIssue list \<Rightarrow> IssuePlan" where
  "sample_plan issues = \<lparr>pl_issues = issues, pl_relations = [\<lparr>plr_source = ''child'', plr_target = ''epic'', plr_type = RelationTypeBlocks\<rparr>,
     \<lparr>plr_source = sample_ulid CHR ''I'', plr_target = ''child'', plr_type = RelationTypeBlocks\<rparr>], pl_decisions = []\<rparr>"

definition sample_apply :: "PlannedIssue list \<Rightarrow> ApplyIssuePlanCommand" where
  "sample_apply issues = \<lparr>zc_plan = sample_plan issues, zc_key = ''k'', zc_hash = ''h'',
     zc_issues = [sample_ulid CHR ''X'', sample_ulid CHR ''Y''], zc_relations = [sample_ulid CHR ''U'', sample_ulid CHR ''V''],
     zc_decisions = [], zc_labels = [[], []], zc_now = 20\<rparr>"

lemma sample_plan_valid:
  "validatePlanAgainstStore sample_env (sample_plan [sample_child, sample_epic]) sample_project_db = Inr []"
  "validatePlanAgainstStore sample_env (sample_plan [sample_epic, sample_child]) sample_project_db = Inr []"
  by code_simp+

theorem plan_validation_exact_witness:
  "plan_consistent sample_env (sample_plan [sample_epic, sample_child]) sample_project_db"
proof -
  have "blocks_edges (db_relations sample_project_db) = {}"
    by (simp add: blocks_edges_def sample_project_db_def sample_db_def empty_db_def)
  then have "blocking_acyclic sample_project_db" by (simp add: blocking_acyclic_def acyclic_def)
  then show ?thesis
    using plan_validation_exact [of sample_project_db sample_env "sample_plan [sample_epic, sample_child]"]
      sample_project_ok sample_plan_valid by auto
qed

section \<open>Parents must come first\<close>

lemma tx_map_split:
  assumes "tx_map f (xs @ ys) d = Inr (d', zs)"
  obtains d1 us vs where "tx_map f xs d = Inr (d1, us)" "tx_map f ys d1 = Inr (d', vs)" "zs = us @ vs"
  using assms
proof (induction xs arbitrary: d zs thesis)
  case Nil
  then show ?case by (simp add: tx_return_def)
next
  case (Cons x xs)
  obtain d1 u rest where "f x d = Inr (d1, u)" "tx_map f (xs @ ys) d1 = Inr (d', rest)" "zs = u # rest"
    using Cons.prems(2) by (auto simp: tx_then_Inr tx_return_Inr)
  moreover from Cons.IH [OF _ this(2)] obtain d2 us vs where
      "tx_map f xs d1 = Inr (d2, us)" "tx_map f ys d2 = Inr (d', vs)" "rest = us @ vs" by metis
  ultimately show ?case using Cons.prems(1) [of d2 "u # us" vs] by (simp add: tx_then_def tx_return_def)
qed

text \<open>The foreign key of an inserted issue: its parent is in the table by then.\<close>

lemma planned_parent_there:
  assumes run: "apply_planned_issue env c (p, i, ls) d = Inr (d', x)" and v: "pli_parent p = Some v" "local_ids c v = Some q"
    and "q \<noteq> i"
  shows "q \<in> set (map IID (db_issues d))"
proof -
  obtain u d1 where u: "create_gate (planned_input p) d = Inr (d1, u)"
    using run by (auto simp: apply_planned_issue_def tx_then_Inr)
  have d1: "d1 = d" by (rule pure_txD [OF pure_gate u])
  have parent: "resolve_optional env c (pli_parent p) d = Inr (d, Some q)"
    by (simp add: resolve_optional_def v resolve_id_def tx_then_def tx_return_def)
  obtain n d3 where n: "allocate_number (zc_now c) d = Inr (d3, n)"
    using run u d1 parent by (auto simp: apply_planned_issue_def tx_then_Inr)
  have d3: "db_issues d3 = db_issues d" using n by (cases "db_project d") (auto simp: allocate_number_def tx_simps)
  let ?row = "created_issue i (planned_input p) n (Some q) (zc_now c)"
  have "schema_ok (d3\<lparr>db_issues := db_issues d3 @ [?row]\<rparr>)"
    using run u d1 parent n by (auto simp: apply_planned_issue_def tx_then_Inr exec_Inr Let_def)
  then have "issues_ok (d3\<lparr>db_issues := db_issues d3 @ [?row]\<rparr>)" unfolding schema_ok_def by (elim conjE)
  moreover have "IID ?row = i" "ParentID ?row = Some q" by (simp_all add: created_issue_def)
  ultimately have "refers (map IID (db_issues d3) @ [i]) (Some q)" by (simp add: issues_ok_def)
  then show ?thesis using d3 assms(4) by simp
qed

lemma forward_parent_fails:
  assumes ok: "schema_ok d" and len: "length (zc_issues c) = length (pl_issues (zc_plan c))" "length (zc_labels c) = length (pl_issues (zc_plan c))"
    and child: "i < j" "j < length (pl_issues (zc_plan c))"
      "pli_parent (pl_issues (zc_plan c) ! i) = Some (pli_ref (pl_issues (zc_plan c) ! j))"
      "local_ids c (pli_ref (pl_issues (zc_plan c) ! j)) = Some (zc_issues c ! j)"
  shows "applyPlan env c d \<noteq> Inr r"
proof
  assume "applyPlan env c d = Inr r"
  let ?todo = "zip (pl_issues (zc_plan c)) (zip (zc_issues c) (zc_labels c))"
  let ?p = "pl_issues (zc_plan c) ! i" and ?q = "zc_issues c ! j"
  obtain d1 created where run: "tx_map (apply_planned_issue env c) ?todo d = Inr (d1, created)"
    using \<open>applyPlan env c d = Inr r\<close> by (cases r) (auto simp: applyPlan_def tx_then_Inr)
  have rows: "map (\<lambda>(p, i, _). (p, i)) ?todo = plan_rows c" using len by (auto intro: nth_equalityI)
  have here: "grown d [] d" by (simp add: grown_def)
  have "grown d (plan_rows c) d1" "schema_ok d1" using grown_issues [OF here ok run] rows by simp_all
  from grown_fresh [OF this] have fresh: "distinct (zc_issues c)" "set (zc_issues c) \<inter> set (map IID (db_issues d)) = {}"
    using len(1) by simp_all
  have i: "i < length ?todo" using child(1,2) len by simp
  have split: "?todo = take i ?todo @ (?todo ! i) # drop (Suc i) ?todo" by (rule id_take_nth_drop [OF i])
  have at: "?todo ! i = (?p, zc_issues c ! i, zc_labels c ! i)" using i len by simp
  obtain d2 us d3 x where first: "tx_map (apply_planned_issue env c) (take i ?todo) d = Inr (d2, us)"
      and this_one: "apply_planned_issue env c (?p, zc_issues c ! i, zc_labels c ! i) d2 = Inr (d3, x)"
  proof (rule tx_map_split)
    show "tx_map (apply_planned_issue env c) (take i ?todo @ (?todo ! i) # drop (Suc i) ?todo) d = Inr (d1, created)"
      using run by (subst split [symmetric])
  next
    fix e us vs
    assume "tx_map (apply_planned_issue env c) (take i ?todo) d = Inr (e, us)"
      "tx_map (apply_planned_issue env c) (?todo ! i # drop (Suc i) ?todo) e = Inr (d1, vs)"
    then show thesis using that by (auto simp: at tx_then_Inr)
  qed
  have "grown d (map (\<lambda>(p, i, _). (p, i)) (take i ?todo)) d2" using grown_issues [OF here ok first] by simp
  then have g: "grown d (take i (plan_rows c)) d2" using rows by (metis take_map)
  from planned_parent_there [OF this_one child(3,4)] have "?q \<in> set (map IID (db_issues d2))"
    using fresh(1) child(1,2) len(1) by (auto simp: nth_eq_iff_index_eq)
  moreover have "?q \<in> set (zc_issues c)" using child(2) len(1) by simp
  then have "?q \<notin> set (map IID (db_issues d))" using fresh(2) by blast
  ultimately have "?q \<in> set (map snd (take i (plan_rows c)))" using grown_ids [OF g] by (simp del: set_map)
  then have "?q \<in> set (take i (zc_issues c))" using len(1) by (simp add: take_zip take_map [symmetric])
  then obtain k where "k < i" "zc_issues c ! k = ?q" by (auto simp: in_set_conv_nth)
  then show False using fresh(1) child(1,2) len(1) by (simp add: nth_eq_iff_index_eq)
qed




text \<open>In the order validation does not ask for, the same plan is applied.\<close>

lemma parent_first_is_applied:
  "map_sum (\<lambda>_. ()) (\<lambda>r. map (\<lambda>x. SequenceNo (cpi_issue x)) (apr_issues r))
     (snd (ApplyIssuePlan sample_env (sample_apply [sample_epic, sample_child]) sample_project_db)) = Inr [8, 9]"
  by code_simp

end
