(* ===== verification/Graph.thy ===== *)
theory Graph
  imports Store
begin

text \<open>
  Issue graphs (\<^verbatim>\<open>internal/domain/graph.go\<close>): the limits of a graph request and the bounded
  breadth-first traversal over a snapshot of nodes and edges. A Go map from ids to nodes is a function
  into options; the set of edges already emitted is the list of emitted edges itself.
\<close>

section \<open>Requests\<close>

definition MaxGraphDepth :: int where "MaxGraphDepth = 5"
definition MaxGraphNodes :: int where "MaxGraphNodes = 500"
definition defaultGraphDepth :: int where "defaultGraphDepth = 2"
definition defaultGraphNodes :: int where "defaultGraphNodes = 100"

datatype GraphDirection =
  GraphDirectionOutgoing | GraphDirectionIncoming | GraphDirectionBoth | GraphDirection_other string

definition GraphDirection_Valid :: "GraphDirection \<Rightarrow> bool" where
  "GraphDirection_Valid d \<longleftrightarrow> d = GraphDirectionOutgoing \<or> d = GraphDirectionIncoming \<or> d = GraphDirectionBoth"

record GetIssueGraphInput =
  gi_root :: string
  gi_depth :: "int option"
  gi_direction :: GraphDirection
  gi_types :: "RelationType list"
  gi_hierarchy :: "bool option"
  gi_terminal :: "bool option"
  gi_nodes :: "int option"
  gi_view :: string

record GetPlanningGraphInput =
  gp_root :: "string option"
  gp_depth :: "int option"
  gp_nodes :: "int option"
  gp_review :: "bool option"
  gp_related :: "bool option"
  gp_terminal :: "bool option"

definition graphIdentifier :: "env \<Rightarrow> string \<Rightarrow> string \<Rightarrow> IssueIdentifier res" where
  "graphIdentifier env field v =
     and_then (ValidateText field v (-1)) (\<lambda>_.
     case ParseIssueIdentifier env v of
       Inl _ \<Rightarrow> Inl (validationError field ''INVALID_IDENTIFIER'')
     | Inr identifier \<Rightarrow> Inr identifier)"

definition graphBounds :: "int option \<Rightarrow> int option \<Rightarrow> int \<Rightarrow> (int \<times> int) res" where
  "graphBounds depth nodes defaultDepth =
     (let resolvedDepth = case_option defaultDepth id depth; resolvedNodes = case_option defaultGraphNodes id nodes in
      and_then (require (0 \<le> resolvedDepth \<and> resolvedDepth \<le> MaxGraphDepth) (validationError ''depth'' ''OUT_OF_RANGE'')) (\<lambda>_.
      and_then (require (1 \<le> resolvedNodes \<and> resolvedNodes \<le> MaxGraphNodes) (validationError ''max_nodes'' ''OUT_OF_RANGE'')) (\<lambda>_.
      Inr (resolvedDepth, resolvedNodes))))"

fun check_relation_types :: "RelationType list \<Rightarrow> RelationType list \<Rightarrow> unit res" where
  "check_relation_types seen [] = Inr ()"
| "check_relation_types seen (t # ts) =
     and_then (require (RelationType_Valid t) (invalidEnum ''relation_types'')) (\<lambda>_.
     and_then (require (t \<notin> set seen) (validationError ''relation_types'' ''DUPLICATE'')) (\<lambda>_.
     check_relation_types (t # seen) ts))"

definition graphRelationTypes :: "RelationType list \<Rightarrow> RelationType list res" where
  "graphRelationTypes types =
     (if types = [] then Inr [RelationTypeBlocks, RelationTypeRelatedTo, RelationTypeDuplicates]
      else and_then (check_relation_types [] types) (\<lambda>_. Inr types))"

definition graphBool :: "bool option \<Rightarrow> bool \<Rightarrow> bool option" where
  "graphBool v fallback = Some (case_option fallback id v)"

definition GetIssueGraphInput_Validate :: "env \<Rightarrow> GetIssueGraphInput \<Rightarrow> GetIssueGraphInput res" where
  "GetIssueGraphInput_Validate env i =
     and_then (graphIdentifier env ''root_issue_id'' (gi_root i)) (\<lambda>root.
     and_then (graphBounds (gi_depth i) (gi_nodes i) defaultGraphDepth) (\<lambda>(depth, nodes).
     let direction = (if gi_direction i = GraphDirection_other '''' then GraphDirectionBoth else gi_direction i) in
     and_then (require (GraphDirection_Valid direction) (invalidEnum ''direction'')) (\<lambda>_.
     and_then (require (gi_view i = '''' \<or> gi_view i = ''compact'') (validationError ''view'' ''UNSUPPORTED'')) (\<lambda>_.
     and_then (graphRelationTypes (gi_types i)) (\<lambda>types.
     Inr \<lparr>gi_root = id_value root, gi_depth = Some depth, gi_direction = direction, gi_types = types,
       gi_hierarchy = graphBool (gi_hierarchy i) True, gi_terminal = graphBool (gi_terminal i) True,
       gi_nodes = Some nodes, gi_view = ''compact''\<rparr>)))))"

definition GetPlanningGraphInput_Validate :: "env \<Rightarrow> GetPlanningGraphInput \<Rightarrow> GetPlanningGraphInput res" where
  "GetPlanningGraphInput_Validate env i =
     and_then (graphBounds (gp_depth i) (gp_nodes i) 3) (\<lambda>(depth, nodes).
     and_then (case gp_root i of None \<Rightarrow> Inr None
       | Some r \<Rightarrow> and_then (graphIdentifier env ''root_issue_id'' r) (\<lambda>identifier. Inr (Some (id_value identifier)))) (\<lambda>root.
     Inr \<lparr>gp_root = root, gp_depth = Some depth, gp_nodes = Some nodes, gp_review = graphBool (gp_review i) True,
       gp_related = graphBool (gp_related i) False, gp_terminal = graphBool (gp_terminal i) True\<rparr>))"

section \<open>Graphs\<close>

record GraphEdge =
  gx_source :: string
  gx_target :: string
  gx_type :: string

record GraphSummary =
  gm_nodes :: nat
  gm_edges :: nat
  gm_entries :: int
  gm_blocking :: nat

record GraphResult =
  gr_root :: "string option"
  gr_nodes :: "IssueProjection list"
  gr_edges :: "GraphEdge list"
  gr_entries :: "string list"
  gr_blocking :: "string list"
  gr_summary :: GraphSummary
  gr_truncated :: bool
  gr_reason :: "string option"

record GraphSnapshot =
  gs_root :: "string option"
  gs_top :: "string list"
  gs_nodes :: "IssueProjection list"
  gs_edges :: "GraphEdge list"
  gs_selected :: "GraphResult option"
  gs_entries :: "string list"
  gs_entry_count :: "int option"

record GraphTraversal =
  gt_roots :: "string list"
  gt_explicit :: string
  gt_depth :: int
  gt_max :: int
  gt_direction :: GraphDirection
  gt_types :: "RelationType list"
  gt_hierarchy :: bool
  gt_terminal :: bool
  gt_no_review :: bool
  gt_prefer_open :: bool

abbreviation node_id :: "IssueProjection \<Rightarrow> string" where
  "node_id n \<equiv> IID (ip_issue n)"

abbreviation node_status :: "IssueProjection \<Rightarrow> Status" where
  "node_status n \<equiv> IStatus (ip_issue n)"

fun RelationType_string :: "RelationType \<Rightarrow> string" where
  "RelationType_string RelationTypeBlocks = ''blocks''"
| "RelationType_string RelationTypeRelatedTo = ''related_to''"
| "RelationType_string RelationTypeDuplicates = ''duplicates''"
| "RelationType_string (RelationType_other s) = s"

text \<open>Of two nodes with one id the later one counts.\<close>

definition nodesByID :: "GraphSnapshot \<Rightarrow> string \<Rightarrow> IssueProjection option" where
  "nodesByID s = map_of (rev (map (\<lambda>n. (node_id n, n)) (gs_nodes s)))"

definition allowedTypes :: "GraphTraversal \<Rightarrow> string \<Rightarrow> bool" where
  "allowedTypes t ty \<longleftrightarrow> ty \<in> set (map RelationType_string (gt_types t)) \<or> gt_hierarchy t \<and> ty = ''contains''"

text \<open>Every usable edge is appended once to the list of each of its ends.\<close>

definition usable_edge :: "GraphSnapshot \<Rightarrow> GraphTraversal \<Rightarrow> GraphEdge \<Rightarrow> bool" where
  "usable_edge s t e \<longleftrightarrow> allowedTypes t (gx_type e) \<and> nodesByID s (gx_source e) \<noteq> None \<and> nodesByID s (gx_target e) \<noteq> None"

definition adjacency :: "GraphSnapshot \<Rightarrow> GraphTraversal \<Rightarrow> string \<Rightarrow> GraphEdge list" where
  "adjacency s t i = filter (\<lambda>e. usable_edge s t e \<and> (gx_source e = i \<or> gx_target e = i)) (gs_edges s)"

definition terminal_status :: "Status \<Rightarrow> bool" where
  "terminal_status st \<longleftrightarrow> st = StatusDone \<or> st = StatusCancelled"

definition nodeExcluded :: "GraphSnapshot \<Rightarrow> GraphTraversal \<Rightarrow> string \<Rightarrow> bool" where
  "nodeExcluded s t i =
     (case nodesByID s i of
        None \<Rightarrow> True
      | Some n \<Rightarrow> if \<not> gt_terminal t \<and> terminal_status (node_status n) then True
                  else gt_no_review t \<and> node_status n = StatusReview)"

definition isTerminalNode :: "GraphSnapshot \<Rightarrow> string \<Rightarrow> bool" where
  "isTerminalNode s i = (case nodesByID s i of None \<Rightarrow> False | Some n \<Rightarrow> terminal_status (node_status n))"

definition isDeferrable :: "GraphSnapshot \<Rightarrow> GraphTraversal \<Rightarrow> string \<Rightarrow> bool" where
  "isDeferrable s t i \<longleftrightarrow> gt_prefer_open t \<and> i \<noteq> gt_explicit t \<and> isTerminalNode s i"

definition allowedNode :: "GraphSnapshot \<Rightarrow> GraphTraversal \<Rightarrow> string \<Rightarrow> bool \<Rightarrow> bool" where
  "allowedNode s t i root \<longleftrightarrow> nodesByID s i \<noteq> None \<and> (root \<and> i = gt_explicit t \<or> \<not> nodeExcluded s t i)"

section \<open>Neighbours\<close>

record graphNeighbor =
  gn_edge :: GraphEdge
  gn_id :: string
  gn_sequence :: int

definition neighbor_id :: "string \<Rightarrow> GraphDirection \<Rightarrow> GraphEdge \<Rightarrow> string" where
  "neighbor_id current direction e =
     (if gx_type e = ''related_to'' then
        (if gx_source e = current then gx_target e else if gx_target e = current then gx_source e else '''')
      else
        let out = (if (direction = GraphDirectionOutgoing \<or> direction = GraphDirectionBoth) \<and> gx_source e = current
                   then gx_target e else '''') in
        if (direction = GraphDirectionIncoming \<or> direction = GraphDirectionBoth) \<and> gx_target e = current
        then gx_source e else out)"

definition neighbor_of :: "GraphSnapshot \<Rightarrow> string \<Rightarrow> GraphDirection \<Rightarrow> GraphEdge \<Rightarrow> graphNeighbor option" where
  "neighbor_of s current direction e =
     (let i = neighbor_id current direction e in
      if i = '''' then None
      else map_option (\<lambda>n. \<lparr>gn_edge = e, gn_id = i, gn_sequence = SequenceNo (ip_issue n)\<rparr>) (nodesByID s i))"

text \<open>Sorted by edge type, then sequence number, then id, as three stable sorts from the least key up.\<close>

definition graphNeighbors :: "GraphSnapshot \<Rightarrow> string \<Rightarrow> GraphEdge list \<Rightarrow> GraphDirection \<Rightarrow> graphNeighbor list" where
  "graphNeighbors s current edges direction =
     sort_key (\<lambda>n. gx_type (gn_edge n)) (sort_key gn_sequence (sort_key gn_id
       (List.map_filter (neighbor_of s current direction) edges)))"

definition appendGraphEdge :: "GraphEdge list \<Rightarrow> GraphEdge \<Rightarrow> GraphEdge list" where
  "appendGraphEdge edges e = (if e \<in> set edges then edges else edges @ [e])"

definition sequence_of :: "GraphSnapshot \<Rightarrow> string \<Rightarrow> int" where
  "sequence_of s i = (case nodesByID s i of None \<Rightarrow> 0 | Some n \<Rightarrow> SequenceNo (ip_issue n))"

definition uniqueSortedGraphEdges :: "GraphSnapshot \<Rightarrow> GraphEdge list \<Rightarrow> GraphEdge list" where
  "uniqueSortedGraphEdges s edges =
     sort_key gx_type (sort_key (\<lambda>e. sequence_of s (gx_source e)) (sort_key gx_source
       (sort_key (\<lambda>e. sequence_of s (gx_target e)) (sort_key gx_target edges))))"

section \<open>The traversal\<close>

record GraphState =
  st_nodes :: "IssueProjection list"
  st_edges :: "GraphEdge list"
  st_visited :: "string list"
  st_queue :: "(string \<times> int) list"
  st_truncated :: bool
  st_exhausted :: bool
  st_deferred :: "string list"
  st_deferred_seen :: "string list"

definition start_state :: GraphState where
  "start_state = \<lparr>st_nodes = [], st_edges = [], st_visited = [], st_queue = [], st_truncated = False,
     st_exhausted = False, st_deferred = [], st_deferred_seen = []\<rparr>"

definition addNode :: "GraphSnapshot \<Rightarrow> GraphTraversal \<Rightarrow> string \<Rightarrow> int \<Rightarrow> bool \<Rightarrow> GraphState \<Rightarrow> bool \<times> GraphState" where
  "addNode s t i depth root g =
     (if i \<in> set (st_visited g) then (True, g)
      else (case nodesByID s i of
          None \<Rightarrow> (False, g)
        | Some n \<Rightarrow>
            if isDeferrable s t i then
              (False,
               if i \<in> set (st_deferred_seen g) then g
               else g\<lparr>st_deferred_seen := i # st_deferred_seen g, st_queue := st_queue g @ [(i, depth)],
                      st_deferred := if allowedNode s t i root then st_deferred g @ [i] else st_deferred g\<rparr>)
            else if \<not> allowedNode s t i root then (False, g)
            else if int (length (st_nodes g)) \<ge> gt_max t then (False, g\<lparr>st_truncated := True, st_exhausted := True\<rparr>)
            else (True, g\<lparr>st_visited := i # st_visited g, st_nodes := st_nodes g @ [n], st_queue := st_queue g @ [(i, depth)]\<rparr>)))"

definition visit_candidate :: "GraphSnapshot \<Rightarrow> GraphTraversal \<Rightarrow> string \<Rightarrow> int \<Rightarrow> graphNeighbor \<Rightarrow> GraphState \<Rightarrow> GraphState" where
  "visit_candidate s t current depth c g =
     (if \<not> allowedNode s t (gn_id c) False \<and> \<not> isDeferrable s t (gn_id c) then g
      else
        let (added, g) = (if gn_id c \<in> set (st_visited g) then (True, g) else addNode s t (gn_id c) (depth + 1) False g) in
        if added \<and> current \<in> set (st_visited g) \<and> gn_id c \<in> set (st_visited g)
        then g\<lparr>st_edges := appendGraphEdge (st_edges g) (gn_edge c)\<rparr> else g)"

definition expand_node :: "GraphSnapshot \<Rightarrow> GraphTraversal \<Rightarrow> string \<times> int \<Rightarrow> GraphState \<Rightarrow> GraphState" where
  "expand_node s t = (\<lambda>(current, depth) g.
     if depth \<ge> gt_depth t then g
     else if nodeExcluded s t current \<and> \<not> isDeferrable s t current then g
     else fold (visit_candidate s t current depth) (graphNeighbors s current (adjacency s t current) (gt_direction t)) g)"

text \<open>
  A node enters the queue at most twice, once as deferred and once as visited, and only if it is in the
  snapshot: this many pushes are left.
\<close>

definition pushes_left :: "GraphSnapshot \<Rightarrow> GraphState \<Rightarrow> nat" where
  "pushes_left s g = card (dom (nodesByID s) - set (st_visited g)) + card (dom (nodesByID s) - set (st_deferred_seen g)) +
     length (st_queue g)"

lemma finite_nodes: "finite (dom (nodesByID s))"
  by (simp add: nodesByID_def finite_dom_map_of)

lemma card_Diff_insert_less: "finite A \<Longrightarrow> x \<in> A \<Longrightarrow> x \<notin> B \<Longrightarrow> Suc (card (A - insert x B)) = card (A - B)"
  by (metis Diff_iff Diff_insert card_Suc_Diff1 finite_Diff)

lemma addNode_pushes: "pushes_left s (snd (addNode s t i k root g)) = pushes_left s g"
proof (cases "nodesByID s i")
  case None
  then show ?thesis by (simp add: addNode_def)
next
  case (Some n)
  then have i: "i \<in> dom (nodesByID s)" by auto
  have less: "i \<notin> B \<Longrightarrow> card (dom (nodesByID s) - B) = Suc (card (dom (nodesByID s) - insert i B))" for B
    using card_Diff_insert_less [OF finite_nodes i] by simp
  show ?thesis
    by (cases "i \<in> set (st_visited g)"; cases "i \<in> set (st_deferred_seen g)")
      (simp_all add: addNode_def pushes_left_def Some less del: card_Diff_insert)
qed

lemma visit_pushes: "pushes_left s (visit_candidate s t x k c g) = pushes_left s g"
proof -
  have edges: "pushes_left s (g\<lparr>st_edges := es\<rparr>) = pushes_left s g" for g :: GraphState and es by (simp add: pushes_left_def)
  show ?thesis
    using addNode_pushes [of s t "gn_id c" "k + 1" False g]
    by (auto simp: visit_candidate_def edges split: prod.splits)
qed

lemma expand_pushes: "pushes_left s (expand_node s t x g) = pushes_left s g"
proof -
  have "pushes_left s (fold (visit_candidate s t i k) cs g) = pushes_left s g" for i k cs
    by (induction cs arbitrary: g) (simp_all add: visit_pushes)
  then show ?thesis by (simp add: expand_node_def split: prod.split)
qed

function drain :: "GraphSnapshot \<Rightarrow> GraphTraversal \<Rightarrow> GraphState \<Rightarrow> GraphState" where
  "drain s t g =
     (case st_queue g of
        [] \<Rightarrow> g
      | x # rest \<Rightarrow> drain s t (expand_node s t x (g\<lparr>st_queue := rest\<rparr>)))"
  by pat_completeness auto
termination
proof (relation "measure (\<lambda>(s, t, g). pushes_left s g)")
  show "((s, t, expand_node s t x (g\<lparr>st_queue := rest\<rparr>)), s, t, g) \<in> measure (\<lambda>(s, t, g). pushes_left s g)"
    if "st_queue g = x # rest" for s t g x rest
    using that by (simp add: expand_pushes) (simp add: pushes_left_def)
qed simp

declare drain.simps [simp del]

fun visit_roots :: "GraphSnapshot \<Rightarrow> GraphTraversal \<Rightarrow> string list \<Rightarrow> GraphState \<Rightarrow> GraphState" where
  "visit_roots s t [] g = g"
| "visit_roots s t (root # roots) g =
     (if root \<in> set (st_visited g) then visit_roots s t roots g
      else if \<not> allowedNode s t root (root = gt_explicit t) \<and> \<not> isDeferrable s t root then visit_roots s t roots g
      else
        let (added, g) = addNode s t root 0 (root = gt_explicit t) g in
        if \<not> added \<and> st_exhausted g then g else visit_roots s t roots (drain s t g))"

section \<open>The second pass\<close>

definition other_end :: "string \<Rightarrow> GraphEdge \<Rightarrow> string" where
  "other_end i e = (if gx_source e = i then gx_target e else gx_source e)"

definition attached :: "GraphSnapshot \<Rightarrow> GraphTraversal \<Rightarrow> string list \<Rightarrow> string \<Rightarrow> bool" where
  "attached s t retained i \<longleftrightarrow>
     list_ex (\<lambda>e. other_end i e \<noteq> i \<and> other_end i e \<in> set retained) (adjacency s t i)"

definition admit_deferred :: "GraphSnapshot \<Rightarrow> string \<Rightarrow> GraphState \<Rightarrow> GraphState" where
  "admit_deferred s i g =
     g\<lparr>st_visited := i # st_visited g, st_nodes := st_nodes g @ (case nodesByID s i of None \<Rightarrow> [] | Some n \<Rightarrow> [n])\<rparr>"

fun second_pass :: "GraphSnapshot \<Rightarrow> GraphTraversal \<Rightarrow> string list \<Rightarrow> string list \<Rightarrow> GraphState \<Rightarrow> GraphState" where
  "second_pass s t retained [] g = g"
| "second_pass s t retained (i # deferred) g =
     (if int (length (st_nodes g)) \<ge> gt_max t then g\<lparr>st_truncated := True\<rparr>
      else if \<not> attached s t retained i then second_pass s t retained deferred g
      else
        let g = admit_deferred s i g;
            g = fold (\<lambda>e g. if other_end i e \<in> set (st_visited g)
                            then g\<lparr>st_edges := appendGraphEdge (st_edges g) e\<rparr> else g) (adjacency s t i) g in
        second_pass s t retained deferred g)"

section \<open>The result\<close>

definition claimable_entry :: "IssueProjection \<Rightarrow> bool" where
  "claimable_entry n \<longleftrightarrow> ip_claimable n \<and> \<not> terminal_status (node_status n)"

definition entry_points :: "GraphSnapshot \<Rightarrow> GraphTraversal \<Rightarrow> IssueProjection list \<Rightarrow> string list" where
  "entry_points s t nodes =
     (if gt_prefer_open t \<and> gs_entry_count s \<noteq> None then gs_entries s
      else if gt_prefer_open t then
        map node_id (filter (\<lambda>n. claimable_entry n \<and> \<not> nodeExcluded s t (node_id n)) (gs_nodes s))
      else map node_id (filter claimable_entry nodes))"

definition blocking_source :: "GraphSnapshot \<Rightarrow> GraphEdge list \<Rightarrow> string \<Rightarrow> bool" where
  "blocking_source s edges i \<longleftrightarrow>
     list_ex (\<lambda>e. gx_type e = ''blocks'' \<and> gx_source e = i \<and>
       (case nodesByID s i of None \<Rightarrow> False | Some n \<Rightarrow> \<not> terminal_status (node_status n))) edges"

definition traverse :: "GraphSnapshot \<Rightarrow> GraphTraversal \<Rightarrow> GraphState" where
  "traverse s t =
     (let g = visit_roots s t (gt_roots t) start_state in second_pass s t (st_visited g) (st_deferred g) g)"

definition BuildGraph :: "GraphSnapshot \<Rightarrow> GraphTraversal \<Rightarrow> GraphResult" where
  "BuildGraph s t =
     (let g = traverse s t;
          edges = uniqueSortedGraphEdges s (st_edges g);
          found = entry_points s t (st_nodes g);
          entryPointCount = (case gs_entry_count s of Some n \<Rightarrow> if gt_prefer_open t then n else int (length found)
            | None \<Rightarrow> int (length found));
          capped = (gt_max t > 0 \<and> entryPointCount > gt_max t);
          entries = (if capped then take (nat (gt_max t)) found else found);
          blocking = map node_id (filter (\<lambda>n. blocking_source s edges (node_id n)) (st_nodes g)) in
      \<lparr>gr_root = gs_root s, gr_nodes = st_nodes g, gr_edges = edges, gr_entries = entries, gr_blocking = blocking,
       gr_summary = \<lparr>gm_nodes = length (st_nodes g), gm_edges = length edges, gm_entries = entryPointCount,
         gm_blocking = length blocking\<rparr>,
       gr_truncated = (st_truncated g \<or> capped),
       gr_reason = (if st_truncated g then Some ''node_limit'' else if capped then Some ''entry_point_limit'' else None)\<rparr>)"

end
