(* ===== verification/GraphSafety.thy ===== *)
theory GraphSafety
  imports Graph AttemptPolicy
begin

text \<open>
  What a graph request returns (\<^verbatim>\<open>internal/domain/graph.go\<close>): the result stays within its budget and inside the
  snapshot, and a rooted traversal that was not truncated finds exactly the issues within the requested distance.
\<close>

section \<open>Budget and snapshot\<close>

lemma nodesByID_id: "nodesByID s i = Some n \<Longrightarrow> node_id n = i"
  unfolding nodesByID_def by (drule map_of_SomeD) auto

lemma nodesByID_in: "nodesByID s i = Some n \<Longrightarrow> n \<in> set (gs_nodes s)"
  unfolding nodesByID_def by (drule map_of_SomeD) auto

text \<open>A row is one of the graph: in the snapshot, and not of an excluded status unless it is the requested root.\<close>

definition shown :: "GraphSnapshot \<Rightarrow> GraphTraversal \<Rightarrow> IssueProjection \<Rightarrow> bool" where
  "shown s t n \<longleftrightarrow> nodesByID s (node_id n) = Some n \<and> (node_id n = gt_explicit t \<or> \<not> nodeExcluded s t (node_id n))"

definition drawn :: "GraphSnapshot \<Rightarrow> GraphTraversal \<Rightarrow> string list \<Rightarrow> GraphEdge \<Rightarrow> bool" where
  "drawn s t ids e \<longleftrightarrow> e \<in> set (gs_edges s) \<and> allowedTypes t (gx_type e) \<and> gx_source e \<in> set ids \<and> gx_target e \<in> set ids"

definition pass_ok :: "GraphSnapshot \<Rightarrow> GraphTraversal \<Rightarrow> GraphState \<Rightarrow> bool" where
  "pass_ok s t g \<longleftrightarrow>
     st_visited g = rev (map node_id (st_nodes g)) \<and> distinct (st_visited g) \<and>
     length (st_nodes g) \<le> nat (gt_max t) \<and> (st_truncated g \<longrightarrow> gt_max t \<le> int (length (st_nodes g))) \<and>
     list_all (shown s t) (st_nodes g) \<and> distinct (st_edges g) \<and> list_all (drawn s t (st_visited g)) (st_edges g)"

definition defer_ok :: "GraphSnapshot \<Rightarrow> GraphTraversal \<Rightarrow> GraphState \<Rightarrow> bool" where
  "defer_ok s t g \<longleftrightarrow>
     distinct (st_deferred g) \<and> set (st_deferred g) \<subseteq> set (st_deferred_seen g) \<and>
     (\<forall>i\<in>set (st_deferred_seen g). isDeferrable s t i) \<and> (\<forall>i\<in>set (st_visited g). \<not> isDeferrable s t i) \<and>
     (\<forall>i\<in>set (st_deferred g). nodesByID s i \<noteq> None \<and> \<not> nodeExcluded s t i)"

lemma pass_ok_start: "pass_ok s t start_state" "defer_ok s t start_state"
  by (simp_all add: pass_ok_def defer_ok_def start_state_def)

lemma drawn_mono: "list_all (drawn s t ids) es \<Longrightarrow> list_all (drawn s t (i # ids)) es"
  by (erule list.pred_mono_strong) (auto simp: drawn_def)

lemma pass_ok_queue: "pass_ok s t (g\<lparr>st_queue := q\<rparr>) = pass_ok s t g"
  by (simp add: pass_ok_def)

lemma defer_ok_queue: "defer_ok s t (g\<lparr>st_queue := q\<rparr>) = defer_ok s t g"
  by (simp add: defer_ok_def)

lemma defer_ok_edges: "defer_ok s t (g\<lparr>st_edges := es\<rparr>) = defer_ok s t g"
  by (simp add: defer_ok_def)

lemma pass_ok_push:
  assumes g: "pass_ok s t g" and n: "nodesByID s i = Some n" and new: "i \<notin> set (st_visited g)"
    and room: "int (length (st_nodes g)) < gt_max t" and admit: "i = gt_explicit t \<or> \<not> nodeExcluded s t i"
  shows "pass_ok s t (g\<lparr>st_visited := i # st_visited g, st_nodes := st_nodes g @ [n]\<rparr>)"
  using g n new room admit nodesByID_id [OF n]
  by (auto simp: pass_ok_def shown_def intro: drawn_mono)

lemma pass_ok_draw:
  assumes g: "pass_ok s t g" and e: "drawn s t (st_visited g) e"
  shows "pass_ok s t (g\<lparr>st_edges := appendGraphEdge (st_edges g) e\<rparr>)"
  using g e unfolding pass_ok_def appendGraphEdge_def by simp (metis rev_rev_ident distinct_rev)

lemma addNode_ok:
  assumes g: "pass_ok s t g"
  shows "pass_ok s t (snd (addNode s t i k root g))"
proof (cases "nodesByID s i")
  case None
  then show ?thesis using g by (simp add: addNode_def)
next
  case (Some n)
  have push: "pass_ok s t (g\<lparr>st_visited := i # st_visited g, st_nodes := st_nodes g @ [n], st_queue := q\<rparr>)"
    if "i \<notin> set (st_visited g)" "int (length (st_nodes g)) < gt_max t" "allowedNode s t i root" for q
    using pass_ok_push [OF g Some that(1,2)] that(3) by (auto simp: pass_ok_def allowedNode_def)
  have rest: "pass_ok s t (g\<lparr>st_deferred_seen := a, st_queue := q, st_deferred := b\<rparr>)"
    "gt_max t \<le> int (length (st_nodes g)) \<Longrightarrow> pass_ok s t (g\<lparr>st_truncated := True, st_exhausted := True\<rparr>)" for a b q
    using g by (auto simp: pass_ok_def)
  show ?thesis
    using g push rest unfolding addNode_def Some option.case not_le [symmetric] by (simp split: if_split)
qed

lemma addNode_defer_ok: "defer_ok s t g \<Longrightarrow> defer_ok s t (snd (addNode s t i k root g))"
  by (auto simp: addNode_def defer_ok_def isDeferrable_def allowedNode_def split: option.split)

lemma addNode_added: "fst (addNode s t i k root g) \<Longrightarrow> i \<in> set (st_visited (snd (addNode s t i k root g)))"
  by (simp add: addNode_def split: if_splits option.splits)

text \<open>A neighbour is reached over a usable edge between the two nodes.\<close>

lemma neighbor_id_end: "neighbor_id x d e \<noteq> '''' \<Longrightarrow>
    gx_source e = x \<and> gx_target e = neighbor_id x d e \<or> gx_target e = x \<and> gx_source e = neighbor_id x d e"
  unfolding neighbor_id_def Let_def by (cases d) (auto split: if_split_asm)

lemma graphNeighbors_set: "c \<in> set (graphNeighbors s x es d) \<longleftrightarrow> (\<exists>e\<in>set es. neighbor_of s x d e = Some c)"
  by (force simp: graphNeighbors_def map_filter_def)

lemma neighbor_of_some: "neighbor_of s x d e = Some c \<longleftrightarrow>
    (\<exists>n. nodesByID s (neighbor_id x d e) = Some n \<and> neighbor_id x d e \<noteq> '''' \<and>
      c = \<lparr>gn_edge = e, gn_id = neighbor_id x d e, gn_sequence = SequenceNo (ip_issue n)\<rparr>)"
  by (auto simp: neighbor_of_def Let_def)

lemma neighbor_edge:
  assumes "c \<in> set (graphNeighbors s x (adjacency s t x) d)"
  shows "gn_edge c \<in> set (gs_edges s)" "usable_edge s t (gn_edge c)"
    "gx_source (gn_edge c) = x \<and> gx_target (gn_edge c) = gn_id c \<or> gx_target (gn_edge c) = x \<and> gx_source (gn_edge c) = gn_id c"
proof -
  obtain e where e: "e \<in> set (adjacency s t x)" "neighbor_of s x d e = Some c"
    using assms unfolding graphNeighbors_set by blast
  then have c: "gn_edge c = e" "gn_id c = neighbor_id x d e" "gn_id c \<noteq> ''''"
    by (auto simp: neighbor_of_some)
  show "gn_edge c \<in> set (gs_edges s)" "usable_edge s t (gn_edge c)" using e c by (auto simp: adjacency_def)
  show "gx_source (gn_edge c) = x \<and> gx_target (gn_edge c) = gn_id c \<or> gx_target (gn_edge c) = x \<and> gx_source (gn_edge c) = gn_id c"
    using neighbor_id_end [of x d e] c by simp
qed

lemma visit_ok:
  assumes g: "pass_ok s t g" and c: "c \<in> set (graphNeighbors s x (adjacency s t x) d)"
  shows "pass_ok s t (visit_candidate s t x k c g)"
proof -
  have e: "drawn s t (st_visited g') (gn_edge c)" if "x \<in> set (st_visited g')" "gn_id c \<in> set (st_visited g')" for g'
    using neighbor_edge [OF c] that by (auto simp: drawn_def usable_edge_def)
  show ?thesis
    using g addNode_ok [OF g, of "gn_id c" "k + 1" False]
    by (auto simp: visit_candidate_def split: prod.split intro: pass_ok_draw e)
qed

lemma visit_defer_ok: "defer_ok s t g \<Longrightarrow> defer_ok s t (visit_candidate s t x k c g)"
  using addNode_defer_ok [of s t g "gn_id c" "k + 1" False]
  by (auto simp: visit_candidate_def defer_ok_edges split: prod.split)

lemma expand_ok:
  assumes g: "pass_ok s t g" "defer_ok s t g"
  shows "pass_ok s t (expand_node s t x g)" "defer_ok s t (expand_node s t x g)"
proof -
  obtain i k where x: "x = (i, k)" by fastforce
  have "pass_ok s t (fold (visit_candidate s t i k) cs g) \<and> defer_ok s t (fold (visit_candidate s t i k) cs g)"
    if "set cs \<subseteq> set (graphNeighbors s i (adjacency s t i) (gt_direction t))" "pass_ok s t g" "defer_ok s t g" for cs g
    using that
  proof (induction cs arbitrary: g)
    case (Cons c cs)
    then show ?case using visit_ok [of s t g c i "gt_direction t" k] by (simp add: visit_defer_ok)
  qed simp
  then show "pass_ok s t (expand_node s t x g)" "defer_ok s t (expand_node s t x g)"
    using g by (simp_all add: expand_node_def x)
qed

lemma drain_ok: "pass_ok s t g \<and> defer_ok s t g \<Longrightarrow> pass_ok s t (drain s t g) \<and> defer_ok s t (drain s t g)"
proof (induction s t g rule: drain.induct)
  case (1 s t g)
  show ?case
  proof (cases "st_queue g")
    case Nil
    then show ?thesis using 1(2) by (simp add: drain.simps)
  next
    case (Cons x rest)
    show ?thesis
      using 1(1) [OF Cons] 1(2) expand_ok [of s t "g\<lparr>st_queue := rest\<rparr>" x]
      by (simp add: drain.simps [of s t g] Cons pass_ok_queue defer_ok_queue)
  qed
qed

lemma visit_roots_ok: "pass_ok s t g \<Longrightarrow> defer_ok s t g \<Longrightarrow>
    pass_ok s t (visit_roots s t roots g) \<and> defer_ok s t (visit_roots s t roots g)"
proof (induction roots arbitrary: g)
  case (Cons r roots)
  obtain b g' where a: "addNode s t r 0 (r = gt_explicit t) g = (b, g')" by fastforce
  have g': "pass_ok s t g'" "defer_ok s t g'"
    using addNode_ok [OF Cons.prems(1), of r 0 "r = gt_explicit t"] addNode_defer_ok [OF Cons.prems(2), of r 0 "r = gt_explicit t"]
    by (simp_all add: a)
  then show ?case using Cons.prems Cons.IH [OF Cons.prems] Cons.IH [of "drain s t g'"] drain_ok [of s t g'] by (simp add: a)
qed simp

lemma draw_attached_ok:
  assumes "set es \<subseteq> set (adjacency s t i)" "i \<in> set (st_visited g)" "pass_ok s t g"
  shows "pass_ok s t (fold (\<lambda>e g. if other_end i e \<in> set (st_visited g)
      then g\<lparr>st_edges := appendGraphEdge (st_edges g) e\<rparr> else g) es g)"
  using assms
proof (induction es arbitrary: g)
  case (Cons e es)
  have "drawn s t (st_visited g) e" if "other_end i e \<in> set (st_visited g)"
    using Cons.prems that by (auto simp: drawn_def adjacency_def usable_edge_def other_end_def split: if_splits)
  then show ?case using Cons pass_ok_draw [OF Cons.prems(3), of e] by simp
qed simp

lemma draw_attached_rest:
  "st_visited (fold (\<lambda>e g. if other_end i e \<in> set (st_visited g)
      then g\<lparr>st_edges := appendGraphEdge (st_edges g) e\<rparr> else g) es g) = st_visited g"
  by (induction es arbitrary: g) simp_all

lemma second_pass_ok:
  assumes "pass_ok s t g" "distinct ds" "set ds \<inter> set (st_visited g) = {}"
    "\<forall>i\<in>set ds. nodesByID s i \<noteq> None \<and> \<not> nodeExcluded s t i"
  shows "pass_ok s t (second_pass s t retained ds g)"
  using assms
proof (induction ds arbitrary: g)
  case (Cons i ds)
  show ?case
  proof (cases "int (length (st_nodes g)) \<ge> gt_max t \<or> \<not> attached s t retained i")
    case True
    then show ?thesis using Cons by (auto simp: pass_ok_def)
  next
    case False
    obtain n where n: "nodesByID s i = Some n" using Cons.prems by auto
    have g: "pass_ok s t (admit_deferred s i g)"
      using pass_ok_push [OF Cons.prems(1) n] Cons.prems False by (simp add: admit_deferred_def n)
    have v: "st_visited (admit_deferred s i g) = i # st_visited g" by (simp add: admit_deferred_def)
    show ?thesis
      using False Cons.prems draw_attached_ok [OF order_refl _ g]
      by (auto simp: Let_def v draw_attached_rest intro!: Cons.IH)
  qed
qed simp

lemma traverse_ok: "pass_ok s t (traverse s t)"
  using visit_roots_ok [OF pass_ok_start, of s t "gt_roots t"]
  by (auto simp: traverse_def Let_def defer_ok_def intro!: second_pass_ok)

section \<open>A rooted traversal is exact\<close>

text \<open>One step of the traversal, in the terms of the stored edges: \<^verbatim>\<open>related_to\<close> is followed both ways.\<close>

definition linked :: "GraphSnapshot \<Rightarrow> GraphTraversal \<Rightarrow> string \<Rightarrow> string \<Rightarrow> bool" where
  "linked s t i j \<longleftrightarrow> j \<noteq> '''' \<and> (\<exists>e\<in>set (gs_edges s). usable_edge s t e \<and>
     ((gx_type e = ''related_to'' \<or> gt_direction t \<in> {GraphDirectionOutgoing, GraphDirectionBoth}) \<and>
        gx_source e = i \<and> gx_target e = j \<or>
      (gx_type e = ''related_to'' \<or> gt_direction t \<in> {GraphDirectionIncoming, GraphDirectionBoth}) \<and>
        gx_target e = i \<and> gx_source e = j))"

inductive within :: "GraphSnapshot \<Rightarrow> GraphTraversal \<Rightarrow> string \<Rightarrow> string \<Rightarrow> nat \<Rightarrow> bool" for s t r where
  within_root: "allowedNode s t r (r = gt_explicit t) \<Longrightarrow> within s t r r 0"
| within_step: "within s t r i k \<Longrightarrow> \<not> nodeExcluded s t i \<Longrightarrow> linked s t i j \<Longrightarrow> \<not> nodeExcluded s t j \<Longrightarrow> within s t r j (Suc k)"

inductive_cases within_SucE: "within s t r j (Suc k)"

lemma linked_iff: "linked s t i j \<longleftrightarrow> (\<exists>c\<in>set (graphNeighbors s i (adjacency s t i) (gt_direction t)). gn_id c = j)"
proof
  assume "linked s t i j"
  then obtain e where e: "e \<in> set (gs_edges s)" "usable_edge s t e" "neighbor_id i (gt_direction t) e = j" "j \<noteq> ''''"
    and ends: "gx_source e = i \<or> gx_target e = i" "gx_source e = j \<or> gx_target e = j"
    by (auto simp: linked_def neighbor_id_def Let_def split: if_split_asm)
  then obtain n where "nodesByID s j = Some n" by (auto simp: usable_edge_def)
  then have c: "neighbor_of s i (gt_direction t) e = Some \<lparr>gn_edge = e, gn_id = j, gn_sequence = SequenceNo (ip_issue n)\<rparr>"
    using e by (simp add: neighbor_of_some)
  have "e \<in> set (adjacency s t i)" using e ends by (simp add: adjacency_def)
  with c have "\<lparr>gn_edge = e, gn_id = j, gn_sequence = SequenceNo (ip_issue n)\<rparr>
      \<in> set (graphNeighbors s i (adjacency s t i) (gt_direction t))"
    unfolding graphNeighbors_set by blast
  then show "\<exists>c\<in>set (graphNeighbors s i (adjacency s t i) (gt_direction t)). gn_id c = j"
    by (intro bexI) simp_all
next
  assume "\<exists>c\<in>set (graphNeighbors s i (adjacency s t i) (gt_direction t)). gn_id c = j"
  then obtain e where e: "e \<in> set (adjacency s t i)" "neighbor_id i (gt_direction t) e = j" "j \<noteq> ''''"
    by (auto simp: graphNeighbors_set neighbor_of_some)
  then show "linked s t i j"
    by (cases "gt_direction t") (auto simp: linked_def adjacency_def neighbor_id_def Let_def split: if_split_asm)
qed

lemma not_excluded_node: "\<not> nodeExcluded s t i \<Longrightarrow> \<exists>n. nodesByID s i = Some n"
  by (cases "nodesByID s i") (simp_all add: nodeExcluded_def)

lemma allowed_open: "allowedNode s t i False \<longleftrightarrow> \<not> nodeExcluded s t i"
  using not_excluded_node [of s t i] by (auto simp: allowedNode_def)

lemma visit_cases:
  assumes "\<not> gt_prefer_open t"
  obtains (skip) es where "visit_candidate s t x k c g = g\<lparr>st_edges := es\<rparr>"
      "nodeExcluded s t (gn_id c) \<or> gn_id c \<in> set (st_visited g)"
  | (full) "st_truncated (visit_candidate s t x k c g)"
  | (push) es n where "\<not> nodeExcluded s t (gn_id c)" "gn_id c \<notin> set (st_visited g)"
      "visit_candidate s t x k c g = g\<lparr>st_visited := gn_id c # st_visited g, st_nodes := st_nodes g @ [n],
         st_queue := st_queue g @ [(gn_id c, k + 1)], st_edges := es\<rparr>"
proof -
  have eager: "isDeferrable s t i = False" for i using assms by (simp add: isDeferrable_def)
  let ?g = "visit_candidate s t x k c g"
  consider "nodeExcluded s t (gn_id c)" | "\<not> nodeExcluded s t (gn_id c)" "gn_id c \<in> set (st_visited g)"
    | n where "\<not> nodeExcluded s t (gn_id c)" "gn_id c \<notin> set (st_visited g)" "nodesByID s (gn_id c) = Some n"
    using not_excluded_node by blast
  then show ?thesis
  proof cases
    case 1
    then have "?g = g\<lparr>st_edges := st_edges g\<rparr>" by (simp add: visit_candidate_def allowed_open eager)
    with 1 show ?thesis using skip by blast
  next
    case 2
    then have "\<exists>es. ?g = g\<lparr>st_edges := es\<rparr>"
      by (cases "x \<in> set (st_visited g)") (auto simp: visit_candidate_def allowed_open eager intro: exI [of _ "st_edges g"])
    with 2 show ?thesis using skip by blast
  next
    case 3
    show ?thesis
    proof (cases "gt_max t \<le> int (length (st_nodes g))")
      case True
      with 3 show ?thesis by (intro full) (simp add: visit_candidate_def addNode_def allowed_open eager)
    next
      case False
      with 3 have "\<exists>es. ?g = g\<lparr>st_visited := gn_id c # st_visited g, st_nodes := st_nodes g @ [n],
          st_queue := st_queue g @ [(gn_id c, k + 1)], st_edges := es\<rparr>"
        by (cases "x = gn_id c \<or> x \<in> set (st_visited g)")
          (auto simp: visit_candidate_def addNode_def allowed_open eager intro: exI [of _ "st_edges g"])
      with 3 show ?thesis using push by blast
    qed
  qed
qed

lemma visit_truncated: "st_truncated g \<Longrightarrow> st_truncated (visit_candidate s t x k c g)"
  by (auto simp: visit_candidate_def addNode_def Let_def split: option.split)

lemma expand_truncated: "st_truncated g \<Longrightarrow> st_truncated (expand_node s t x g)"
proof -
  have "st_truncated g \<Longrightarrow> st_truncated (fold (visit_candidate s t i k) cs g)" for i k cs g
    by (induction cs arbitrary: g) (simp_all add: visit_truncated)
  then show "st_truncated g \<Longrightarrow> st_truncated (expand_node s t x g)" by (simp add: expand_node_def split: prod.split)
qed

lemma drain_truncated: "st_truncated g \<Longrightarrow> st_truncated (drain s t g)"
proof (induction s t g rule: drain.induct)
  case (1 s t g)
  then show ?case by (simp add: drain.simps [of s t g] expand_truncated split: list.split)
qed


text \<open>
  The invariant of the queue: every visited issue has a depth at which it is reachable, the queue holds visited
  issues with their depths in order, no visited issue is more than one step deeper than a queued one, and every
  visited issue that has left the queue is settled.
\<close>

definition settled :: "GraphSnapshot \<Rightarrow> GraphTraversal \<Rightarrow> (string \<Rightarrow> nat) \<Rightarrow> string list \<Rightarrow> string \<Rightarrow> bool" where
  "settled s t \<delta> V i \<longleftrightarrow> gt_depth t \<le> int (\<delta> i) \<or>
     (\<forall>j. \<not> nodeExcluded s t i \<and> linked s t i j \<and> \<not> nodeExcluded s t j \<longrightarrow> j \<in> set V \<and> \<delta> j \<le> Suc (\<delta> i))"

definition queue_ok :: "GraphSnapshot \<Rightarrow> GraphTraversal \<Rightarrow> string \<Rightarrow> (string \<Rightarrow> nat) \<Rightarrow> GraphState \<Rightarrow> bool" where
  "queue_ok s t r \<delta> g \<longleftrightarrow>
     (\<forall>i\<in>set (st_visited g). within s t r i (\<delta> i) \<and> int (\<delta> i) \<le> max 0 (gt_depth t)) \<and>
     (\<forall>q\<in>set (st_queue g). fst q \<in> set (st_visited g) \<and> snd q = int (\<delta> (fst q))) \<and>
     sorted (map snd (st_queue g))"

definition outer_ok :: "GraphSnapshot \<Rightarrow> GraphTraversal \<Rightarrow> string \<Rightarrow> (string \<Rightarrow> nat) \<Rightarrow> GraphState \<Rightarrow> bool" where
  "outer_ok s t r \<delta> g \<longleftrightarrow> queue_ok s t r \<delta> g \<and>
     (\<forall>i\<in>set (st_visited g). \<forall>q\<in>set (st_queue g). int (\<delta> i) \<le> snd q + 1) \<and>
     (\<forall>i\<in>set (st_visited g). i \<in> fst ` set (st_queue g) \<or> settled s t \<delta> (st_visited g) i)"

text \<open>While the neighbours of one issue are visited, that issue alone may be unsettled outside the queue.\<close>

definition inner_ok :: "GraphSnapshot \<Rightarrow> GraphTraversal \<Rightarrow> string \<Rightarrow> string \<Rightarrow> nat \<Rightarrow> (string \<Rightarrow> nat) \<Rightarrow> GraphState \<Rightarrow> bool" where
  "inner_ok s t r x d \<delta> g \<longleftrightarrow> queue_ok s t r \<delta> g \<and> x \<in> set (st_visited g) \<and> \<delta> x = d \<and>
     (\<forall>q\<in>set (st_queue g). int d \<le> snd q) \<and> (\<forall>i\<in>set (st_visited g). \<delta> i \<le> Suc d) \<and>
     (\<forall>i\<in>set (st_visited g). i = x \<or> i \<in> fst ` set (st_queue g) \<or> settled s t \<delta> (st_visited g) i)"

text \<open>Issues stay visited at the depth they were found.\<close>

definition grows :: "(string \<Rightarrow> nat) \<Rightarrow> GraphState \<Rightarrow> (string \<Rightarrow> nat) \<Rightarrow> GraphState \<Rightarrow> bool" where
  "grows \<delta> g \<delta>' g' \<longleftrightarrow> (\<forall>i\<in>set (st_visited g). i \<in> set (st_visited g') \<and> \<delta>' i = \<delta> i)"

lemma grows_trans: "grows \<delta> g \<delta>' g' \<Longrightarrow> grows \<delta>' g' \<delta>'' g'' \<Longrightarrow> grows \<delta> g \<delta>'' g''"
  by (simp add: grows_def)

lemma grows_same: "st_visited g' = st_visited g \<Longrightarrow> grows \<delta> g \<delta> g'"
  by (simp add: grows_def)

lemma grows_queue: "grows \<delta> (g\<lparr>st_queue := q\<rparr>) = grows \<delta> g"
  by (simp add: grows_def fun_eq_iff)

lemma settled_mono:
  assumes "settled s t \<delta> V i" "i \<in> set V" "set V \<subseteq> set V'" "\<And>j. j \<in> set V \<Longrightarrow> \<delta>' j = \<delta> j"
  shows "settled s t \<delta>' V' i"
  using assms unfolding settled_def by (metis subset_iff)

lemma inner_ok_edges: "inner_ok s t r x d \<delta> (g\<lparr>st_edges := es\<rparr>) = inner_ok s t r x d \<delta> g"
  by (simp add: inner_ok_def queue_ok_def)

lemma inner_push:
  assumes g: "inner_ok s t r x d \<delta> g" and c: "linked s t x c" "\<not> nodeExcluded s t x" "\<not> nodeExcluded s t c" "c \<notin> set (st_visited g)"
    and depth: "int d < gt_depth t"
  shows "inner_ok s t r x d (\<delta>(c := Suc d))
    (g\<lparr>st_visited := c # st_visited g, st_nodes := ns, st_queue := st_queue g @ [(c, int d + 1)], st_edges := es\<rparr>)"
proof -
  have q: "queue_ok s t r \<delta> g" and x: "x \<in> set (st_visited g)" "\<delta> x = d" using g by (simp_all add: inner_ok_def)
  have old: "within s t r i (\<delta> i) \<and> int (\<delta> i) \<le> max 0 (gt_depth t)" if "i \<in> set (st_visited g)" for i
    using q that unfolding queue_ok_def by (elim conjE) blast
  have queued: "fst p \<in> set (st_visited g)" "snd p = int (\<delta> (fst p))" if "p \<in> set (st_queue g)" for p
    using q that unfolding queue_ok_def by (elim conjE, blast)+
  have new: "within s t r c (Suc d)" using within_step [of s t r x d c] old [of x] x c by simp
  have deep: "snd p \<le> int d + 1" if p: "p \<in> set (st_queue g)" for p
  proof -
    have "\<delta> (fst p) \<le> Suc d" using g queued(1) [OF p] unfolding inner_ok_def by (elim conjE) blast
    then show ?thesis using queued(2) [OF p] by simp
  qed
  have "sorted (map snd (st_queue g @ [(c, int d + 1)]))"
    using q deep unfolding queue_ok_def by (elim conjE) (simp add: sorted_append)
  moreover have "fst p \<noteq> c" if "p \<in> set (st_queue g)" for p using queued(1) [OF that] c(4) by metis
  moreover have "i \<noteq> c" if "i \<in> set (st_visited g)" for i using that c(4) by metis
  ultimately have "queue_ok s t r (\<delta>(c := Suc d))
    (g\<lparr>st_visited := c # st_visited g, st_nodes := ns, st_queue := st_queue g @ [(c, int d + 1)], st_edges := es\<rparr>)"
    using old queued new depth unfolding queue_ok_def by simp
  moreover have "settled s t (\<delta>(c := Suc d)) (c # st_visited g) i" if "settled s t \<delta> (st_visited g) i" "i \<in> set (st_visited g)" for i
    by (rule settled_mono [OF that]) (use c in auto)
  ultimately show ?thesis using g c(4) unfolding inner_ok_def by simp (metis image_insert insertCI)
qed

lemma inner_visit:
  assumes "\<not> gt_prefer_open t" "inner_ok s t r x d \<delta> g" "linked s t x (gn_id c)" "\<not> nodeExcluded s t x" "int d < gt_depth t"
    "\<not> st_truncated (visit_candidate s t x (int d) c g)"
  obtains \<delta>' where "inner_ok s t r x d \<delta>' (visit_candidate s t x (int d) c g)"
    "nodeExcluded s t (gn_id c) \<or> gn_id c \<in> set (st_visited (visit_candidate s t x (int d) c g))"
    "grows \<delta> g \<delta>' (visit_candidate s t x (int d) c g)"
  using assms(1)
proof (cases rule: visit_cases [of t s x "int d" c g])
  case (skip es)
  then show ?thesis using that [of \<delta>] assms(2) by (simp add: inner_ok_edges grows_same)
next
  case full
  then show ?thesis using assms(6) by simp
next
  case (push es n)
  show ?thesis
    using that inner_push [OF assms(2,3,4) push(1,2) assms(5), where ns = "st_nodes g @ [n]" and es = es] push
    by (auto simp: grows_def)
qed

lemma inner_fold:
  assumes "\<not> gt_prefer_open t" "\<not> nodeExcluded s t x" "int d < gt_depth t"
  shows "inner_ok s t r x d \<delta> g \<Longrightarrow> (\<And>c. c \<in> set cs \<Longrightarrow> linked s t x (gn_id c)) \<Longrightarrow>
    \<not> st_truncated (fold (visit_candidate s t x (int d)) cs g) \<Longrightarrow>
    \<exists>\<delta>'. inner_ok s t r x d \<delta>' (fold (visit_candidate s t x (int d)) cs g) \<and>
      (\<forall>c\<in>set cs. nodeExcluded s t (gn_id c) \<or> gn_id c \<in> set (st_visited (fold (visit_candidate s t x (int d)) cs g))) \<and>
      grows \<delta> g \<delta>' (fold (visit_candidate s t x (int d)) cs g)"
proof (induction cs arbitrary: \<delta> g)
  case (Cons c cs)
  let ?g = "visit_candidate s t x (int d) c g"
  have "\<not> st_truncated ?g"
  proof
    assume "st_truncated ?g"
    then have "st_truncated (fold (visit_candidate s t x (int d)) cs ?g)"
      by (induction cs arbitrary: g c rule: rev_induct) (simp_all add: visit_truncated)
    then show False using Cons.prems(3) by simp
  qed
  then obtain \<delta>' where step: "inner_ok s t r x d \<delta>' ?g" "nodeExcluded s t (gn_id c) \<or> gn_id c \<in> set (st_visited ?g)"
      "grows \<delta> g \<delta>' ?g"
    using inner_visit [OF assms(1) Cons.prems(1) _ assms(2,3), of c] Cons.prems(2) by auto
  have "c' \<in> set cs \<Longrightarrow> linked s t x (gn_id c')" for c' using Cons.prems(2) by simp
  then obtain \<delta>'' where rest: "inner_ok s t r x d \<delta>'' (fold (visit_candidate s t x (int d)) cs ?g)"
      "\<forall>c\<in>set cs. nodeExcluded s t (gn_id c) \<or> gn_id c \<in> set (st_visited (fold (visit_candidate s t x (int d)) cs ?g))"
      "grows \<delta>' ?g \<delta>'' (fold (visit_candidate s t x (int d)) cs ?g)"
    using Cons.IH [OF step(1)] Cons.prems(3) by auto
  then have "nodeExcluded s t (gn_id c) \<or> gn_id c \<in> set (st_visited (fold (visit_candidate s t x (int d)) cs ?g))"
    using step(2) by (auto simp: grows_def)
  then show ?case using rest grows_trans [OF step(3) rest(3)] by auto
qed (auto simp: grows_def)


lemma outer_close:
  assumes g: "outer_ok s t r \<delta> g" and x: "st_queue g = x # rest" and all: "settled s t \<delta> (st_visited g) (fst x)"
  shows "outer_ok s t r \<delta> (g\<lparr>st_queue := rest\<rparr>)"
proof -
  have q: "queue_ok s t r \<delta> (g\<lparr>st_queue := rest\<rparr>)" using g x by (simp add: outer_ok_def queue_ok_def)
  have "int (\<delta> i) \<le> snd p + 1" if "i \<in> set (st_visited g)" "p \<in> set rest" for i p
    using g x that unfolding outer_ok_def by (elim conjE) (metis list.set_intros(2))
  moreover have "i \<in> fst ` set rest \<or> settled s t \<delta> (st_visited g) i" if "i \<in> set (st_visited g)" for i
    using g x that all unfolding outer_ok_def by (elim conjE) auto
  ultimately show ?thesis using q unfolding outer_ok_def by simp
qed

lemma outer_open:
  assumes g: "outer_ok s t r \<delta> g" and x: "st_queue g = x # rest"
  shows "inner_ok s t r (fst x) (\<delta> (fst x)) \<delta> (g\<lparr>st_queue := rest\<rparr>)" "snd x = int (\<delta> (fst x))"
proof -
  have q: "queue_ok s t r \<delta> g"
    and near: "\<And>i. i \<in> set (st_visited g) \<Longrightarrow> int (\<delta> i) \<le> snd x + 1"
    and cl: "\<And>i. i \<in> set (st_visited g) \<Longrightarrow> i \<in> fst ` set (st_queue g) \<or> settled s t \<delta> (st_visited g) i"
    using g x unfolding outer_ok_def by simp_all
  have d: "fst x \<in> set (st_visited g)" "snd x = int (\<delta> (fst x))" using q x by (simp_all add: queue_ok_def)
  have "sorted (map snd (x # rest))" using q x unfolding queue_ok_def by (elim conjE) simp
  then have ge: "\<forall>p\<in>set rest. int (\<delta> (fst x)) \<le> snd p" by (simp add: d(2))
  have "queue_ok s t r \<delta> (g\<lparr>st_queue := rest\<rparr>)" using q x by (simp add: queue_ok_def)
  moreover have "\<delta> i \<le> Suc (\<delta> (fst x))" if "i \<in> set (st_visited g)" for i using near [OF that] d(2) by simp
  moreover have "i = fst x \<or> i \<in> fst ` set rest \<or> settled s t \<delta> (st_visited g) i" if "i \<in> set (st_visited g)" for i
    using cl [OF that] x by auto
  ultimately show "inner_ok s t r (fst x) (\<delta> (fst x)) \<delta> (g\<lparr>st_queue := rest\<rparr>)"
    unfolding inner_ok_def using d(1) ge by simp
  show "snd x = int (\<delta> (fst x))" by fact
qed

lemma inner_close:
  assumes g: "inner_ok s t r x d \<delta> g" and all: "\<And>j. linked s t x j \<Longrightarrow> \<not> nodeExcluded s t j \<Longrightarrow> j \<in> set (st_visited g)"
  shows "outer_ok s t r \<delta> g"
proof -
  have q: "queue_ok s t r \<delta> g" and d: "\<delta> x = d"
    and far: "\<And>p. p \<in> set (st_queue g) \<Longrightarrow> int d \<le> snd p"
    and near: "\<And>i. i \<in> set (st_visited g) \<Longrightarrow> \<delta> i \<le> Suc d"
    and cl: "\<And>i. i \<in> set (st_visited g) \<Longrightarrow> i = x \<or> i \<in> fst ` set (st_queue g) \<or> settled s t \<delta> (st_visited g) i"
    using g unfolding inner_ok_def by (elim conjE, blast)+
  have "settled s t \<delta> (st_visited g) x" unfolding settled_def using all near d by simp
  moreover have "int (\<delta> i) \<le> snd p + 1" if "i \<in> set (st_visited g)" "p \<in> set (st_queue g)" for i p
    using near [OF that(1)] far [OF that(2)] by linarith
  ultimately show ?thesis unfolding outer_ok_def using q cl by blast
qed

lemma expand_outer:
  assumes eager: "\<not> gt_prefer_open t" and g: "outer_ok s t r \<delta> g" and x: "st_queue g = x # rest"
    and full: "\<not> st_truncated (expand_node s t x (g\<lparr>st_queue := rest\<rparr>))"
  obtains \<delta>' where "outer_ok s t r \<delta>' (expand_node s t x (g\<lparr>st_queue := rest\<rparr>))"
    "grows \<delta> g \<delta>' (expand_node s t x (g\<lparr>st_queue := rest\<rparr>))"
proof (cases "gt_depth t \<le> snd x \<or> nodeExcluded s t (fst x)")
  case True
  have "\<not> isDeferrable s t (fst x)" using eager by (simp add: isDeferrable_def)
  then have e: "expand_node s t x (g\<lparr>st_queue := rest\<rparr>) = g\<lparr>st_queue := rest\<rparr>"
    using True by (auto simp: expand_node_def split: prod.split)
  have "settled s t \<delta> (st_visited g) (fst x)" using True outer_open(2) [OF g x] by (auto simp: settled_def)
  from outer_close [OF g x this] show ?thesis using that by (simp add: e grows_same)
next
  case False
  let ?cs = "graphNeighbors s (fst x) (adjacency s t (fst x)) (gt_direction t)"
  let ?d = "\<delta> (fst x)"
  note start = outer_open [OF g x]
  have e: "expand_node s t x (g\<lparr>st_queue := rest\<rparr>) = fold (visit_candidate s t (fst x) (int ?d)) ?cs (g\<lparr>st_queue := rest\<rparr>)"
    using False start(2) by (auto simp: expand_node_def split: prod.split)
  have lt: "int ?d < gt_depth t" using False start(2) by simp
  have nx: "\<not> nodeExcluded s t (fst x)" using False by simp
  have nb: "c \<in> set ?cs \<Longrightarrow> linked s t (fst x) (gn_id c)" for c unfolding linked_iff by blast
  obtain \<delta>' where fin: "inner_ok s t r (fst x) ?d \<delta>' (expand_node s t x (g\<lparr>st_queue := rest\<rparr>))"
      "\<forall>c\<in>set ?cs. nodeExcluded s t (gn_id c) \<or> gn_id c \<in> set (st_visited (expand_node s t x (g\<lparr>st_queue := rest\<rparr>)))"
      "grows \<delta> g \<delta>' (expand_node s t x (g\<lparr>st_queue := rest\<rparr>))"
    using inner_fold [OF eager nx lt start(1), of ?cs] nb full unfolding e grows_queue by auto
  have "outer_ok s t r \<delta>' (expand_node s t x (g\<lparr>st_queue := rest\<rparr>))"
    by (rule inner_close [OF fin(1)]) (use fin(2) in \<open>auto simp: linked_iff\<close>)
  then show ?thesis using that fin(3) by blast
qed

lemma drain_outer:
  "\<not> gt_prefer_open t \<Longrightarrow> outer_ok s t r \<delta> g \<Longrightarrow> \<not> st_truncated (drain s t g) \<Longrightarrow>
   \<exists>\<delta>'. outer_ok s t r \<delta>' (drain s t g) \<and> st_queue (drain s t g) = [] \<and> grows \<delta> g \<delta>' (drain s t g)"
proof (induction s t g arbitrary: \<delta> rule: drain.induct)
  case (1 s t g)
  show ?case
  proof (cases "st_queue g")
    case Nil
    then show ?thesis using 1(3) grows_same [OF refl] by (auto simp: drain.simps [of s t g])
  next
    case (Cons x rest)
    let ?g = "expand_node s t x (g\<lparr>st_queue := rest\<rparr>)"
    have d: "drain s t g = drain s t ?g" by (simp add: drain.simps [of s t g] Cons)
    then have "\<not> st_truncated ?g" using 1(4) drain_truncated by metis
    then obtain \<delta>' where "outer_ok s t r \<delta>' ?g" "grows \<delta> g \<delta>' ?g"
      using expand_outer [OF 1(2,3) Cons] by blast
    then show ?thesis using 1(1) [OF Cons 1(2), of \<delta>'] 1(4) grows_trans unfolding d by metis
  qed
qed

lemma within_visited:
  assumes g: "outer_ok s t r \<delta> g" "st_queue g = []" "r \<in> set (st_visited g)" "\<delta> r = 0"
  shows "within s t r i k \<Longrightarrow> int k \<le> max 0 (gt_depth t) \<Longrightarrow> i \<in> set (st_visited g) \<and> \<delta> i \<le> k"
proof (induction rule: within.induct)
  case within_root
  then show ?case using g by simp
next
  case (within_step i k j)
  then have i: "i \<in> set (st_visited g)" "\<delta> i \<le> k" by auto
  then have "settled s t \<delta> (st_visited g) i" using g by (simp add: outer_ok_def)
  then have "j \<in> set (st_visited g) \<and> \<delta> j \<le> Suc (\<delta> i)" using within_step i(2) unfolding settled_def by auto
  then show ?case using i(2) by simp
qed



lemma within_start: "within s t r i k \<Longrightarrow> allowedNode s t r (r = gt_explicit t)"
  by (induction rule: within.induct)

lemma traverse_eager:
  assumes "\<not> gt_prefer_open t"
  shows "traverse s t = visit_roots s t (gt_roots t) start_state"
proof -
  have "defer_ok s t (visit_roots s t (gt_roots t) start_state)"
    using visit_roots_ok [OF pass_ok_start] by blast
  then have "st_deferred (visit_roots s t (gt_roots t) start_state) = []"
    using assms by (auto simp: defer_ok_def isDeferrable_def)
  then show ?thesis by (simp add: traverse_def Let_def)
qed

lemma traverse_reaches:
  assumes eager: "\<not> gt_prefer_open t" and root: "gt_roots t = [r]" and full: "\<not> st_truncated (traverse s t)"
  shows "set (st_visited (traverse s t)) = {i. \<exists>k. int k \<le> max 0 (gt_depth t) \<and> within s t r i k}"
proof -
  let ?e = "r = gt_explicit t"
  have eager_r: "\<not> isDeferrable s t r" using eager by (simp add: isDeferrable_def)
  show ?thesis
  proof (cases "allowedNode s t r ?e")
    case False
    then have "traverse s t = start_state" using eager_r by (simp add: traverse_eager [OF eager] root start_state_def)
    then show ?thesis using False within_start by (auto simp: start_state_def)
  next
    case True
    then obtain n where n: "nodesByID s r = Some n" by (auto simp: allowedNode_def)
    let ?g = "start_state\<lparr>st_visited := [r], st_nodes := [n], st_queue := [(r, 0)]\<rparr>"
    have "0 < gt_max t"
    proof (rule ccontr)
      assume "\<not> 0 < gt_max t"
      then show False using full True n eager_r
        by (simp add: traverse_eager [OF eager] root addNode_def start_state_def)
    qed
    then have t: "traverse s t = drain s t ?g"
      using True n eager_r by (simp add: traverse_eager [OF eager] root addNode_def start_state_def)
    have "outer_ok s t r (\<lambda>_. 0) ?g"
      using within_root [OF True] by (simp add: outer_ok_def queue_ok_def start_state_def)
    from drain_outer [OF eager this] full obtain \<delta> where fin: "outer_ok s t r \<delta> (traverse s t)"
        "st_queue (traverse s t) = []" "r \<in> set (st_visited (traverse s t))" "\<delta> r = 0"
      unfolding t by (auto simp: grows_def start_state_def)
    have reached: "within s t r i (\<delta> i) \<and> int (\<delta> i) \<le> max 0 (gt_depth t)" if "i \<in> set (st_visited (traverse s t))" for i
      using fin(1) that unfolding outer_ok_def queue_ok_def by (elim conjE) blast
    have "i \<in> set (st_visited (traverse s t))" if "within s t r i k" "int k \<le> max 0 (gt_depth t)" for i k
      using within_visited [OF fin that] by blast
    with reached show ?thesis by blast
  qed
qed


section \<open>Properties\<close>

lemma BuildGraph_nodes: "gr_nodes (BuildGraph s t) = st_nodes (traverse s t)"
  by (simp add: BuildGraph_def Let_def)

lemma BuildGraph_limit: "gr_reason (BuildGraph s t) = Some ''node_limit'' \<longleftrightarrow> st_truncated (traverse s t)"
  by (simp add: BuildGraph_def Let_def)

lemma uniqueSorted_mset: "set (uniqueSortedGraphEdges s es) = set es" "distinct (uniqueSortedGraphEdges s es) = distinct es"
  by (simp_all add: uniqueSortedGraphEdges_def)

lemma traverse_ids: "set (st_visited (traverse s t)) = node_id ` set (gr_nodes (BuildGraph s t))"
  using traverse_ok [of s t] by (simp add: pass_ok_def BuildGraph_nodes)

text \<open>
  C19. A graph never exceeds its node budget and never leaves the snapshot: its nodes are distinct rows of the
  snapshot, none of an excluded status but the requested root, its edges are distinct allowed edges of the snapshot
  between two of its nodes, and it reports the node limit only when the budget is used up.
\<close>

theorem graph_within_budget:
  assumes "r = BuildGraph s t"
  shows "length (gr_nodes r) \<le> nat (gt_max t) \<and> distinct (map node_id (gr_nodes r)) \<and>
    set (gr_nodes r) \<subseteq> set (gs_nodes s) \<and>
    (\<forall>n\<in>set (gr_nodes r). node_id n = gt_explicit t \<or> \<not> nodeExcluded s t (node_id n)) \<and>
    distinct (gr_edges r) \<and> (\<forall>e\<in>set (gr_edges r). drawn s t (map node_id (gr_nodes r)) e) \<and>
    (gr_reason r = Some ''node_limit'' \<longrightarrow> gt_max t \<le> int (length (gr_nodes r)))"
proof -
  have ok: "pass_ok s t (traverse s t)" by (rule traverse_ok)
  have edges: "gr_edges r = uniqueSortedGraphEdges s (st_edges (traverse s t))"
    unfolding assms by (simp add: BuildGraph_def Let_def)
  have "set (gr_edges r) = set (st_edges (traverse s t))" unfolding edges uniqueSorted_mset ..
  moreover have "\<forall>e\<in>set (st_edges (traverse s t)). drawn s t (rev (map node_id (gr_nodes r))) e"
    using ok unfolding assms BuildGraph_nodes pass_ok_def list_all_iff by (elim conjE) metis
  ultimately have drawn: "\<forall>e\<in>set (gr_edges r). drawn s t (map node_id (gr_nodes r)) e" by (simp add: drawn_def)
  have all: "\<forall>n\<in>set (gr_nodes r). shown s t n"
    using ok unfolding assms BuildGraph_nodes pass_ok_def list_all_iff by (elim conjE)
  moreover have "set (gr_nodes r) \<subseteq> set (gs_nodes s)" using all nodesByID_in unfolding shown_def by blast
  moreover have "distinct (gr_edges r)" using ok unfolding edges uniqueSorted_mset pass_ok_def by (elim conjE)
  moreover have "gr_reason r = Some ''node_limit'' \<longrightarrow> gt_max t \<le> int (length (gr_nodes r))"
    using ok unfolding assms BuildGraph_limit BuildGraph_nodes pass_ok_def by (elim conjE)
  moreover have "length (gr_nodes r) \<le> nat (gt_max t)"
    using ok unfolding assms BuildGraph_nodes pass_ok_def by (elim conjE)
  moreover have "distinct (map node_id (gr_nodes r))"
    using ok unfolding assms BuildGraph_nodes pass_ok_def by (elim conjE) (metis distinct_rev)
  ultimately show ?thesis using drawn unfolding shown_def by blast
qed

text \<open>
  C8. An issue graph from one root that was not cut by the node limit shows exactly the issues that the allowed
  relations connect to the root within the requested depth, through issues that are not excluded themselves.
\<close>

theorem rooted_graph_exact:
  assumes "\<not> gt_prefer_open t" "gt_roots t = [r]" "gr_reason (BuildGraph s t) \<noteq> Some ''node_limit''"
  shows "node_id ` set (gr_nodes (BuildGraph s t)) = {i. \<exists>k. int k \<le> max 0 (gt_depth t) \<and> within s t r i k}"
  using traverse_reaches [OF assms(1,2), of s] assms(3) by (simp add: BuildGraph_limit traverse_ids)


section \<open>Witnesses\<close>

definition sample_node :: "string \<Rightarrow> Status \<Rightarrow> int \<Rightarrow> IssueProjection" where
  "sample_node i st n = \<lparr>ip_issue = sample_issue\<lparr>IID := i, IStatus := st, SequenceNo := n\<rparr>,
     ip_effective = EffectiveStatusReady, ip_blockers = 0, ip_blocked = False, ip_claimable = st = StatusReady, ip_active = None\<rparr>"

definition sample_chain :: GraphSnapshot where
  "sample_chain = \<lparr>gs_root = Some ''A'', gs_top = [],
     gs_nodes = [sample_node ''A'' StatusReady 1, sample_node ''B'' StatusReady 2, sample_node ''C'' StatusReady 3],
     gs_edges = [\<lparr>gx_source = ''A'', gx_target = ''B'', gx_type = ''blocks''\<rparr>, \<lparr>gx_source = ''B'', gx_target = ''C'', gx_type = ''blocks''\<rparr>],
     gs_selected = None, gs_entries = [], gs_entry_count = None\<rparr>"

definition sample_walk :: "int \<Rightarrow> int \<Rightarrow> GraphTraversal" where
  "sample_walk depth nodes = \<lparr>gt_roots = [''A''], gt_explicit = ''A'', gt_depth = depth, gt_max = nodes,
     gt_direction = GraphDirectionBoth, gt_types = [RelationTypeBlocks], gt_hierarchy = False, gt_terminal = True,
     gt_no_review = False, gt_prefer_open = False\<rparr>"

lemma sample_cut: "map node_id (gr_nodes (BuildGraph sample_chain (sample_walk 5 2))) = [''A'', ''B''] \<and>
    gr_reason (BuildGraph sample_chain (sample_walk 5 2)) = Some ''node_limit''"
  by code_simp

lemma sample_near: "map node_id (gr_nodes (BuildGraph sample_chain (sample_walk 1 100))) = [''A'', ''B''] \<and>
    gr_reason (BuildGraph sample_chain (sample_walk 1 100)) = None"
  by code_simp



theorem graph_within_budget_witness:
  "map node_id (gr_nodes (BuildGraph sample_chain (sample_walk 5 2))) = [''A'', ''B''] \<and>
   set (gr_nodes (BuildGraph sample_chain (sample_walk 5 2))) \<subseteq> set (gs_nodes sample_chain) \<and>
   length (gr_nodes (BuildGraph sample_chain (sample_walk 5 2))) = 2"
proof -
  have "gt_max (sample_walk 5 2) = 2" by (simp add: sample_walk_def)
  then show ?thesis
    using graph_within_budget [OF refl, of sample_chain "sample_walk 5 2"] sample_cut by (elim conjE) simp
qed

theorem rooted_graph_exact_witness:
  "{i. \<exists>k. int k \<le> 1 \<and> within sample_chain (sample_walk 1 100) ''A'' i k} = {''A'', ''B''}"
proof -
  have walk: "\<not> gt_prefer_open (sample_walk 1 100)" "gt_roots (sample_walk 1 100) = [''A'']" "gt_depth (sample_walk 1 100) = 1"
    by (simp_all add: sample_walk_def)
  have "gr_reason (BuildGraph sample_chain (sample_walk 1 100)) \<noteq> Some ''node_limit''" using sample_near by simp
  from rooted_graph_exact [OF walk(1,2) this]
  have "node_id ` set (gr_nodes (BuildGraph sample_chain (sample_walk 1 100))) =
      {i. \<exists>k. int k \<le> 1 \<and> within sample_chain (sample_walk 1 100) ''A'' i k}" by (simp add: walk(3))
  moreover have "node_id ` set (gr_nodes (BuildGraph sample_chain (sample_walk 1 100))) =
      set (map node_id (gr_nodes (BuildGraph sample_chain (sample_walk 1 100))))" by simp
  ultimately show ?thesis using sample_near by simp
qed


end
