(* ===== verification/JsonTokens.thy ===== *)
theory JsonTokens
  imports AttemptInput
begin

text \<open>
  The part of \<^verbatim>\<open>encoding/json\<close> that the canonicalizer calls: the tokens a \<^verbatim>\<open>Decoder\<close> with \<^verbatim>\<open>UseNumber\<close> delivers for a
  valid UTF-8 input. A string token is decoded, a number is its literal. Where \<^verbatim>\<open>Token\<close> reports an error the stream
  holds \<open>Malformed\<close>, and it ends where the input ends.
\<close>

datatype jsonToken =
    TokNull | TokBool bool | TokString string | TokNumber string
  | TokOpenObject | TokCloseObject | TokOpenArray | TokCloseArray | Malformed

datatype tokenState =
    TopValue | ArrayStart | ArrayValue | ArrayComma | ObjectStart | ObjectKey | ObjectColon | ObjectValue | ObjectComma

definition tokenValueAllowed :: "tokenState \<Rightarrow> bool" where
  "tokenValueAllowed st \<longleftrightarrow> st = TopValue \<or> st = ArrayStart \<or> st = ArrayValue \<or> st = ObjectValue"

definition tokenValueEnd :: "tokenState \<Rightarrow> tokenState" where
  "tokenValueEnd st =
     (if st = ArrayStart \<or> st = ArrayValue then ArrayComma else if st = ObjectValue then ObjectComma else st)"

definition json_space :: "char \<Rightarrow> bool" where
  "json_space c \<longleftrightarrow> byte c = 32 \<or> byte c = 9 \<or> byte c = 10 \<or> byte c = 13"

section \<open>Numbers\<close>

text \<open>One or more digits at the front.\<close>

definition scan_digits :: "string \<Rightarrow> (string \<times> string) option" where
  "scan_digits s = (if takeWhile is_digit s = [] then None else Some (takeWhile is_digit s, dropWhile is_digit s))"

definition scan_sign :: "string \<Rightarrow> string \<times> string" where
  "scan_sign s = (case s of [] \<Rightarrow> ([], []) | c # cs \<Rightarrow> if c = CHR ''-'' then ([c], cs) else ([], s))"

definition scan_integer :: "string \<Rightarrow> (string \<times> string) option" where
  "scan_integer s =
     (case s of [] \<Rightarrow> None | c # cs \<Rightarrow> if c = CHR ''0'' then Some ([c], cs) else scan_digits s)"

definition scan_fraction :: "string \<Rightarrow> (string \<times> string) option" where
  "scan_fraction s =
     (case s of [] \<Rightarrow> Some ([], [])
      | c # cs \<Rightarrow> if c = CHR ''.'' then map_option (\<lambda>(d, rest). (c # d, rest)) (scan_digits cs) else Some ([], s))"

definition scan_exponent :: "string \<Rightarrow> (string \<times> string) option" where
  "scan_exponent s =
     (case s of [] \<Rightarrow> Some ([], [])
      | c # cs \<Rightarrow>
          if c = CHR ''e'' \<or> c = CHR ''E'' then
            (case cs of
               [] \<Rightarrow> None
             | d # ds \<Rightarrow>
                 if d = CHR ''+'' \<or> d = CHR ''-'' then map_option (\<lambda>(x, rest). (c # d # x, rest)) (scan_digits ds)
                 else map_option (\<lambda>(x, rest). (c # x, rest)) (scan_digits cs))
          else Some ([], s))"

definition scan_number :: "string \<Rightarrow> (string \<times> string) option" where
  "scan_number s =
     (let (sign, s1) = scan_sign s in
      case scan_integer s1 of None \<Rightarrow> None | Some (i, s2) \<Rightarrow>
      case scan_fraction s2 of None \<Rightarrow> None | Some (f, s3) \<Rightarrow>
      case scan_exponent s3 of None \<Rightarrow> None | Some (x, s4) \<Rightarrow> Some (sign @ i @ f @ x, s4))"

section \<open>Strings\<close>

definition hex_value :: "char \<Rightarrow> nat option" where
  "hex_value h =
     (if 48 \<le> byte h \<and> byte h \<le> 57 then Some (byte h - 48)
      else if 97 \<le> byte h \<and> byte h \<le> 102 then Some (byte h - 87)
      else if 65 \<le> byte h \<and> byte h \<le> 70 then Some (byte h - 55)
      else None)"

definition hex4 :: "string \<Rightarrow> nat option" where
  "hex4 s =
     (case map hex_value (take 4 s) of
        [Some a, Some b, Some c, Some d] \<Rightarrow> Some (((a * 16 + b) * 16 + c) * 16 + d)
      | _ \<Rightarrow> None)"

definition encode_rune :: "nat \<Rightarrow> string" where
  "encode_rune r =
     (if r < 128 then [char_of r]
      else if r < 2048 then [char_of (192 + r div 64), char_of (128 + r mod 64)]
      else if r < 65536 then [char_of (224 + r div 4096), char_of (128 + r div 64 mod 64), char_of (128 + r mod 64)]
      else [char_of (240 + r div 262144), char_of (128 + r div 4096 mod 64), char_of (128 + r div 64 mod 64),
        char_of (128 + r mod 64)])"

text \<open>The rune a four-digit escape stands for, and how many bytes after the escape belong to it.\<close>

definition escaped_rune :: "nat \<Rightarrow> string \<Rightarrow> nat \<times> nat" where
  "escaped_rune r rest =
     (if r < 55296 \<or> 57343 < r then (r, 0)
      else
        case (if r < 56320 \<and> take 2 rest = [CHR 0x5C, CHR ''u''] then hex4 (drop 2 rest) else None) of
          None \<Rightarrow> (65533, 0)
        | Some r2 \<Rightarrow> if 56320 \<le> r2 \<and> r2 \<le> 57343 then ((r - 55296) * 1024 + (r2 - 56320) + 65536, 6) else (65533, 0))"

definition simple_escape :: "char \<Rightarrow> string option" where
  "simple_escape d =
     (if d = CHR 0x22 \<or> d = CHR 0x5C \<or> d = CHR ''/'' then Some [d]
      else if d = CHR ''b'' then Some [char_of (8 :: nat)]
      else if d = CHR ''f'' then Some [char_of (12 :: nat)]
      else if d = CHR ''n'' then Some [char_of (10 :: nat)]
      else if d = CHR ''r'' then Some [char_of (13 :: nat)]
      else if d = CHR ''t'' then Some [char_of (9 :: nat)]
      else None)"

definition prepend :: "string \<Rightarrow> (string \<times> string) option \<Rightarrow> (string \<times> string) option" where
  "prepend p = map_option (\<lambda>(s, rest). (p @ s, rest))"

text \<open>The string up to the closing quotation mark, decoded, and what follows it.\<close>

function (sequential) scan_string :: "string \<Rightarrow> (string \<times> string) option" where
  "scan_string [] = None"
| "scan_string (c # cs) =
     (if c = CHR 0x22 then Some ([], cs)
      else if byte c < 32 then None
      else if c \<noteq> CHR 0x5C then prepend [c] (scan_string cs)
      else
        case cs of
          [] \<Rightarrow> None
        | d # ds \<Rightarrow>
            if d = CHR ''u'' then
              (case hex4 ds of
                 None \<Rightarrow> None
               | Some r \<Rightarrow>
                   let (rune, more) = escaped_rune r (drop 4 ds) in
                   prepend (encode_rune rune) (scan_string (drop (4 + more) ds)))
            else
              (case simple_escape d of None \<Rightarrow> None | Some e \<Rightarrow> prepend e (scan_string ds)))"
  by pat_completeness auto
termination by (relation "measure length") auto

declare scan_string.simps [simp del]

section \<open>Tokens\<close>

definition scan_word :: "string \<Rightarrow> string \<Rightarrow> string option" where
  "scan_word w s = (if take (length w) s = w then Some (drop (length w) s) else None)"

text \<open>A scalar at the front of the input.\<close>

definition scan_scalar :: "string \<Rightarrow> (jsonToken \<times> string) option" where
  "scan_scalar s =
     (case s of
        [] \<Rightarrow> None
      | c # cs \<Rightarrow>
          if c = CHR 0x22 then map_option (\<lambda>(v, rest). (TokString v, rest)) (scan_string cs)
          else if c = CHR ''n'' then map_option (Pair TokNull) (scan_word ''null'' s)
          else if c = CHR ''t'' then map_option (Pair (TokBool True)) (scan_word ''true'' s)
          else if c = CHR ''f'' then map_option (Pair (TokBool False)) (scan_word ''false'' s)
          else map_option (\<lambda>(n, rest). (TokNumber n, rest)) (scan_number s))"

text \<open>What is left after a token is shorter.\<close>

lemma prepend_Some: "prepend p x = Some (s, rest) \<longleftrightarrow> (\<exists>t. x = Some (t, rest) \<and> s = p @ t)"
  by (auto simp: prepend_def)

lemma scan_string_less: "scan_string s = Some (v, rest) \<Longrightarrow> length rest < length s"
proof (induction s arbitrary: v rest rule: scan_string.induct)
  case 1
  then show ?case by (simp add: scan_string.simps)
next
  case (2 c cs)
  consider "c = CHR 0x22" "rest = cs"
    | t where "\<not> byte c < 32" "c \<noteq> CHR 0x22" "c \<noteq> CHR 0x5C" "scan_string cs = Some (t, rest)"
    | ds r rune more t where "\<not> byte c < 32" "c \<noteq> CHR 0x22" "c = CHR 0x5C" "cs = CHR ''u'' # ds" "hex4 ds = Some r"
        "escaped_rune r (drop 4 ds) = (rune, more)" "scan_string (drop (4 + more) ds) = Some (t, rest)"
    | d ds e t where "\<not> byte c < 32" "c \<noteq> CHR 0x22" "c = CHR 0x5C" "cs = d # ds" "d \<noteq> CHR ''u''" "simple_escape d = Some e"
        "scan_string ds = Some (t, rest)"
    using 2(4) unfolding scan_string.simps(2)
    by (auto simp: prepend_Some split: if_split_asm list.splits option.splits prod.splits)
  then show ?case
  proof cases
    case 1
    then show ?thesis by simp
  next
    case 2
    then show ?thesis using "2.IH"(1) by fastforce
  next
    case (3 ds r rune more t)
    then have "length rest < length (drop (4 + more) ds)" using "2.IH"(2) [OF 3(2,1) _ 3(4) refl 3(5) refl 3(6) [symmetric] 3(7)] by simp
    then show ?thesis by (simp add: 3)
  next
    case (4 d ds e t)
    then have "length rest < length ds" using "2.IH"(3) [OF 4(2,1) _ 4(4,5,6,7)] by simp
    then show ?thesis by (simp add: 4)
  qed
qed

lemma scan_digits_le: "scan_digits s = Some (d, rest) \<Longrightarrow> length rest < length s"
  by (auto simp: scan_digits_def split: if_split_asm)
    (metis append_Nil length_append length_greater_0_conv less_add_same_cancel2 takeWhile_dropWhile_id)

lemma scan_number_less: "scan_number s = Some (n, rest) \<Longrightarrow> length rest < length s"
proof -
  assume n: "scan_number s = Some (n, rest)"
  obtain sign s1 where s1: "scan_sign s = (sign, s1)" by fastforce
  then obtain i s2 f s3 x where p: "scan_integer s1 = Some (i, s2)" "scan_fraction s2 = Some (f, s3)" "scan_exponent s3 = Some (x, rest)"
    using n by (auto simp: scan_number_def split: option.splits)
  have "length s1 \<le> length s" using s1 by (auto simp: scan_sign_def split: list.splits if_split_asm)
  moreover have "length s2 < length s1"
    using p(1) scan_digits_le [of s1] by (auto simp: scan_integer_def split: list.splits if_split_asm)
  moreover have "length s3 \<le> length s2"
    using p(2) by (auto simp: scan_fraction_def split: list.splits if_split_asm dest: scan_digits_le)
  moreover have "length rest \<le> length s3"
    using p(3) by (auto simp: scan_exponent_def split: list.splits if_split_asm dest: scan_digits_le)
  ultimately show ?thesis by linarith
qed

lemma scan_scalar_less: "scan_scalar s = Some (t, rest) \<Longrightarrow> length rest < length s"
  using scan_string_less scan_number_less
  by (fastforce simp: scan_scalar_def scan_word_def split: list.splits if_split_asm)

text \<open>After a comma the decoder reports an error at the end of the input.\<close>

definition expects :: "jsonToken list \<Rightarrow> jsonToken list" where
  "expects ts = (if ts = [] then [Malformed] else ts)"

text \<open>A misplaced closing bracket is delivered where \<^verbatim>\<open>More\<close> looks at it, before the error.\<close>

function (sequential) lex :: "tokenState \<Rightarrow> tokenState list \<Rightarrow> string \<Rightarrow> jsonToken list" where
  "lex st stack [] = []"
| "lex st stack (c # cs) =
     (if json_space c then lex st stack cs
      else if c = CHR ''['' then
        (if tokenValueAllowed st then TokOpenArray # lex ArrayStart (st # stack) cs else [Malformed])
      else if c = CHR '']'' then
        (if st = ArrayStart \<or> st = ArrayComma
         then TokCloseArray # (case stack of [] \<Rightarrow> [] | outer # stack \<Rightarrow> lex (tokenValueEnd outer) stack cs)
         else if st = ObjectStart \<or> st = ObjectComma then [TokCloseArray] else [Malformed])
      else if c = CHR ''{'' then
        (if tokenValueAllowed st then TokOpenObject # lex ObjectStart (st # stack) cs else [Malformed])
      else if c = CHR ''}'' then
        (if st = ObjectStart \<or> st = ObjectComma
         then TokCloseObject # (case stack of [] \<Rightarrow> [] | outer # stack \<Rightarrow> lex (tokenValueEnd outer) stack cs)
         else if st = ArrayStart \<or> st = ArrayComma then [TokCloseObject] else [Malformed])
      else if c = CHR '':'' then (if st = ObjectColon then lex ObjectValue stack cs else [Malformed])
      else if c = CHR '','' then
        (if st = ArrayComma then expects (lex ArrayValue stack cs)
         else if st = ObjectComma then expects (lex ObjectKey stack cs) else [Malformed])
      else if c = CHR 0x22 \<and> (st = ObjectStart \<or> st = ObjectKey) then
        (case scan_string cs of None \<Rightarrow> [Malformed] | Some (key, rest) \<Rightarrow> TokString key # lex ObjectColon stack rest)
      else if \<not> tokenValueAllowed st then [Malformed]
      else (case scan_scalar (c # cs) of None \<Rightarrow> [Malformed] | Some (t, rest) \<Rightarrow> t # lex (tokenValueEnd st) stack rest))"
  by pat_completeness auto
termination
proof (relation "measure (\<lambda>(st, stack, s). length s)")
  show "\<And>st stack c cs x key rest. scan_string cs = Some x \<Longrightarrow> (key, rest) = x \<Longrightarrow>
      ((ObjectColon, stack, rest), st, stack, c # cs) \<in> measure (\<lambda>(st, stack, s). length s)"
    using scan_string_less by fastforce
  show "\<And>st stack c cs x t rest. scan_scalar (c # cs) = Some x \<Longrightarrow> (t, rest) = x \<Longrightarrow>
      ((tokenValueEnd st, stack, rest), st, stack, c # cs) \<in> measure (\<lambda>(st, stack, s). length s)"
    using scan_scalar_less by fastforce
qed auto

declare lex.simps [simp del]

definition json_tokens :: "string \<Rightarrow> jsonToken list" where
  "json_tokens s = lex TopValue [] s"


end
