(* ===== verification/CanonicalJson.thy ===== *)
theory CanonicalJson
  imports JsonTokens
begin

text \<open>
  The canonical JSON encoding of requests (\<^verbatim>\<open>internal/normalization/normalization.go\<close>), the input of the request
  hashes that decide whether a retried request is the same request. The decoder
  bounds nesting, members and elements and rejects duplicate keys; numbers get one spelling and objects one order of
  members; the output is written through a bounded writer.
\<close>

section \<open>Errors and limits\<close>

record Limits =
  lim_input :: int
  lim_depth :: int
  lim_members :: int
  lim_elements :: int
  lim_output :: int

definition DefaultLimits :: Limits where
  "DefaultLimits = \<lparr>lim_input = 1048576, lim_depth = 64, lim_members = 4096, lim_elements = 4096, lim_output = 1048576\<rparr>"

definition invalidJSON :: "string \<Rightarrow> Error" where
  "invalidJSON code = NewError CodeInvalidArgument False [detail ''normalized_json'' code]"

definition limitJSON :: "string \<Rightarrow> Error" where
  "limitJSON code = NewError CodeLimitExceeded False [detail ''normalized_json'' code]"

definition NewCanonicalizer :: "Limits \<Rightarrow> Limits res" where
  "NewCanonicalizer l =
     (if lim_input l < 0 \<or> lim_depth l < 0 \<or> lim_members l < 0 \<or> lim_elements l < 0 \<or> lim_output l < 0
      then Inl (invalidJSON ''INVALID_LIMIT'') else Inr l)"

section \<open>Numbers\<close>

text \<open>The part of a string before the first character with a property, and the part after it, if there is one.\<close>

definition break_at :: "(char \<Rightarrow> bool) \<Rightarrow> string \<Rightarrow> string \<times> string option" where
  "break_at p s = (takeWhile (\<lambda>c. \<not> p c) s, case dropWhile (\<lambda>c. \<not> p c) s of [] \<Rightarrow> None | _ # rest \<Rightarrow> Some rest)"

abbreviation exponent_mark :: "char \<Rightarrow> bool" where
  "exponent_mark c \<equiv> c = CHR ''e'' \<or> c = CHR ''E''"

definition unsigned_part :: "string \<Rightarrow> string" where
  "unsigned_part s = (case s of [] \<Rightarrow> [] | c # cs \<Rightarrow> if c = CHR ''-'' then cs else s)"

definition negative_sign :: "string \<Rightarrow> bool" where
  "negative_sign s \<longleftrightarrow> (case s of [] \<Rightarrow> False | c # _ \<Rightarrow> c = CHR ''-'')"

definition allDigits :: "string \<Rightarrow> bool" where
  "allDigits s \<longleftrightarrow> list_all is_digit s"

definition unsign :: "string \<Rightarrow> string" where
  "unsign s = (case s of [] \<Rightarrow> [] | c # cs \<Rightarrow> if c = CHR ''-'' \<or> c = CHR ''+'' then cs else s)"

text \<open>\<^verbatim>\<open>big.Int.SetString\<close> in base 10.\<close>

definition SetString :: "string \<Rightarrow> int option" where
  "SetString s =
     (if unsign s = [] \<or> \<not> allDigits (unsign s) then None
      else Some (if negative_sign s then - int (digits_value (unsign s)) else int (digits_value (unsign s))))"

definition big_String :: "int \<Rightarrow> string" where
  "big_String n = (if n < 0 then CHR ''-'' # Itoa (nat (- n)) else Itoa (nat n))"

text \<open>The regular expression for JSON numbers.\<close>

definition number_pattern :: "string \<Rightarrow> bool" where
  "number_pattern s \<longleftrightarrow>
     (let (mantissa, ex) = break_at exponent_mark (unsigned_part s); (ip, fp) = break_at (\<lambda>c. c = CHR ''.'') mantissa in
      ip \<noteq> [] \<and> allDigits ip \<and> (ip = ''0'' \<or> hd ip \<noteq> CHR ''0'') \<and>
      (case fp of None \<Rightarrow> True | Some f \<Rightarrow> f \<noteq> [] \<and> allDigits f) \<and>
      (case ex of None \<Rightarrow> True | Some x \<Rightarrow> unsign x \<noteq> [] \<and> allDigits (unsign x)))"

abbreviation zero_digit :: "char \<Rightarrow> bool" where
  "zero_digit c \<equiv> c = CHR ''0''"

definition trim_zeros_left :: "string \<Rightarrow> string" where
  "trim_zeros_left s = dropWhile zero_digit s"

definition trim_zeros_right :: "string \<Rightarrow> string" where
  "trim_zeros_right s = rev (dropWhile zero_digit (rev s))"

definition zeros :: "int \<Rightarrow> string" where
  "zeros n = replicate (nat n) CHR ''0''"

definition plain_notation :: "int \<Rightarrow> string \<Rightarrow> string" where
  "plain_notation exponent digits =
     (let point = exponent + int (length digits) in
      if point \<le> 0 then ''0.'' @ zeros (- point) @ digits
      else if point \<ge> int (length digits) then digits @ zeros (point - int (length digits))
      else take (nat point) digits @ ''.'' @ drop (nat point) digits)"

definition scientific_notation :: "int \<Rightarrow> string \<Rightarrow> string" where
  "scientific_notation exponent digits =
     take 1 digits @ (if length digits > 1 then ''.'' @ drop 1 digits else []) @ ''e'' @ big_String exponent"

definition canonicalNumber :: "string \<Rightarrow> string option" where
  "canonicalNumber raw =
     (if \<not> number_pattern raw then None
      else
        let negative = negative_sign raw;
            (unsigned, ex) = break_at exponent_mark (unsigned_part raw);
            exponentText = (case ex of None \<Rightarrow> ''0'' | Some x \<Rightarrow> x);
            (whole, fraction) = break_at (\<lambda>c. c = CHR ''.'') unsigned;
            fractionDigits = (case fraction of None \<Rightarrow> 0 | Some f \<Rightarrow> length f);
            unsigned = (case fraction of None \<Rightarrow> whole | Some f \<Rightarrow> whole @ f) in
        if unsigned = [] \<or> \<not> allDigits unsigned \<or> exponentText = [] then None
        else
          case SetString exponentText of
            None \<Rightarrow> None
          | Some exponent \<Rightarrow>
              let digits = trim_zeros_left unsigned in
              if digits = [] then Some ''0''
              else
                let trailingZeros = length digits - length (trim_zeros_right digits);
                    digits = trim_zeros_right digits;
                    exponent = exponent - int fractionDigits + int trailingZeros;
                    scientificExponent = exponent + (int (length digits) - 1);
                    result = (if - 6 \<le> scientificExponent \<and> scientificExponent < 21
                              then plain_notation exponent digits else scientific_notation scientificExponent digits) in
                Some (if negative then CHR ''-'' # result else result))"

section \<open>Values\<close>

datatype jsonValue =
    JNull | JBool bool | JString string | JNumber string
  | JArray "jsonValue list" | JObject "(string \<times> jsonValue) list"

text \<open>\<^verbatim>\<open>decoder.More()\<close>\<close>

definition More :: "jsonToken list \<Rightarrow> bool" where
  "More ts = (case ts of [] \<Rightarrow> False | t # _ \<Rightarrow> t \<noteq> TokCloseObject \<and> t \<noteq> TokCloseArray)"

definition validateJSONString :: "string \<Rightarrow> unit res" where
  "validateJSONString s =
     and_then (require (utf8_valid s) (invalidJSON ''INVALID_UTF8'')) (\<lambda>_.
     require (CHR 0x00 \<notin> set s) (invalidJSON ''NUL_NOT_ALLOWED''))"

definition sort_members :: "(string \<times> jsonValue) list \<Rightarrow> (string \<times> jsonValue) list" where
  "sort_members = sort_key fst"

text \<open>
  The three mutually recursive readers, all over the remaining tokens. An object or array reader takes the
  members or elements read so far, in reverse.
\<close>

function (sequential) decodeValue :: "Limits \<Rightarrow> int \<Rightarrow> jsonToken list \<Rightarrow> (jsonValue \<times> jsonToken list) res"
  and decodeObject :: "Limits \<Rightarrow> int \<Rightarrow> (string \<times> jsonValue) list \<Rightarrow> jsonToken list \<Rightarrow> (jsonValue \<times> jsonToken list) res"
  and decodeArray :: "Limits \<Rightarrow> int \<Rightarrow> jsonValue list \<Rightarrow> jsonToken list \<Rightarrow> (jsonValue \<times> jsonToken list) res" where
  "decodeValue l depth [] = Inl (invalidJSON ''MALFORMED_JSON'')"
| "decodeValue l depth (t # ts) =
     (case t of
        Malformed \<Rightarrow> Inl (invalidJSON ''MALFORMED_JSON'')
      | TokNull \<Rightarrow> Inr (JNull, ts)
      | TokBool b \<Rightarrow> Inr (JBool b, ts)
      | TokString s \<Rightarrow> and_then (validateJSONString s) (\<lambda>_. Inr (JString s, ts))
      | TokNumber n \<Rightarrow> (case canonicalNumber n of None \<Rightarrow> Inl (invalidJSON ''INVALID_NUMBER'') | Some x \<Rightarrow> Inr (JNumber x, ts))
      | _ \<Rightarrow>
        if depth \<ge> lim_depth l then Inl (limitJSON ''MAX_DEPTH'')
        else if t = TokOpenObject then decodeObject l (depth + 1) [] ts
        else if t = TokOpenArray then decodeArray l (depth + 1) [] ts
        else Inl (invalidJSON ''MALFORMED_JSON''))"
| "decodeObject l depth members ts =
     (if More ts then
        if int (length members) \<ge> lim_members l then Inl (limitJSON ''MAX_OBJECT_MEMBERS'')
        else (case ts of
            TokString key # ts \<Rightarrow>
              (case validateJSONString key of
                 Inl e \<Rightarrow> Inl e
               | Inr _ \<Rightarrow>
                   if key \<in> fst ` set members then Inl (invalidJSON ''DUPLICATE_KEY'')
                   else (case decodeValue l depth ts of
                       Inl e \<Rightarrow> Inl e
                     | Inr (v, rest) \<Rightarrow> decodeObject l depth ((key, v) # members) rest))
          | _ \<Rightarrow> Inl (invalidJSON ''MALFORMED_JSON''))
      else (case ts of
          TokCloseObject # ts \<Rightarrow> Inr (JObject (sort_members (rev members)), ts)
        | _ \<Rightarrow> Inl (invalidJSON ''MALFORMED_JSON'')))"
| "decodeArray l depth elements ts =
     (if More ts then
        if int (length elements) \<ge> lim_elements l then Inl (limitJSON ''MAX_ARRAY_ELEMENTS'')
        else (case decodeValue l depth ts of
            Inl e \<Rightarrow> Inl e
          | Inr (v, rest) \<Rightarrow> decodeArray l depth (v # elements) rest)
      else (case ts of
          TokCloseArray # ts \<Rightarrow> Inr (JArray (rev elements), ts)
        | _ \<Rightarrow> Inl (invalidJSON ''MALFORMED_JSON'')))"
  by pat_completeness auto

termination \<comment> \<open>every reader leaves fewer tokens than it was given\<close>
proof -
  have shrinks:
    "decodeValue_decodeObject_decodeArray_dom (Inl (l, depth, ts)) \<Longrightarrow>
       (\<forall>v rest. decodeValue l depth ts = Inr (v, rest) \<longrightarrow> length rest < length ts)"
    "decodeValue_decodeObject_decodeArray_dom (Inr (Inl (l, depth, members, ts))) \<Longrightarrow>
       (\<forall>v rest. decodeObject l depth members ts = Inr (v, rest) \<longrightarrow> length rest < length ts)"
    "decodeValue_decodeObject_decodeArray_dom (Inr (Inr (l, depth, elements, ts))) \<Longrightarrow>
       (\<forall>v rest. decodeArray l depth elements ts = Inr (v, rest) \<longrightarrow> length rest < length ts)"
    for l depth members elements ts
  proof (induction l depth ts and l depth members ts and l depth elements ts
      rule: decodeValue_decodeObject_decodeArray.pinduct)
    case (1 l depth)
    then show ?case by (simp add: decodeValue.psimps)
  next
    case (2 l depth t ts)
    then show ?case by (cases t) (auto simp: decodeValue.psimps result_simps split: option.splits if_split_asm dest!: less_SucI)
  next
    case (3 l depth members ts)
    then show ?case
      by (fastforce simp: decodeObject.psimps split: if_split_asm list.splits jsonToken.splits sum.splits prod.splits)
  next
    case (4 l depth elements ts)
    then show ?case
      by (fastforce simp: decodeArray.psimps split: if_split_asm list.splits jsonToken.splits sum.splits prod.splits)
  qed
  show ?thesis
    by (relation "measure (\<lambda>x. case x of Inl (l, depth, ts) \<Rightarrow> 2 * length ts
        | Inr (Inl (l, depth, members, ts)) \<Rightarrow> 2 * length ts + 1 | Inr (Inr (l, depth, elements, ts)) \<Rightarrow> 2 * length ts + 1)")
      (auto dest: shrinks(1))
qed

declare decodeValue.simps [simp del] decodeObject.simps [simp del] decodeArray.simps [simp del]

section \<open>Encoding\<close>

record boundedWriter =
  bw_buffer :: string
  bw_maximum :: int

definition writeString :: "string \<Rightarrow> boundedWriter \<Rightarrow> boundedWriter res" where
  "writeString v w =
     (if int (length v) > bw_maximum w - int (length (bw_buffer w)) then Inl (limitJSON ''MAX_OUTPUT_BYTES'')
      else Inr (w\<lparr>bw_buffer := bw_buffer w @ v\<rparr>))"

definition hex_digit :: "nat \<Rightarrow> char" where
  "hex_digit n = (if n < 10 then char_of (48 + n) else char_of (87 + n))"

definition escape :: "char \<Rightarrow> string" where
  "escape c =
     (if c = CHR 0x5C then [CHR 0x5C, CHR 0x5C]
      else if c = CHR 0x22 then [CHR 0x5C, CHR 0x22]
      else if byte c = 8 then [CHR 0x5C, CHR ''b'']
      else if byte c = 12 then [CHR 0x5C, CHR ''f'']
      else if byte c = 10 then [CHR 0x5C, CHR ''n'']
      else if byte c = 13 then [CHR 0x5C, CHR ''r'']
      else if byte c = 9 then [CHR 0x5C, CHR ''t'']
      else if byte c < 32 then CHR 0x5C # ''u00'' @ [hex_digit (byte c div 16), hex_digit (byte c mod 16)]
      else [])"

text \<open>
  The loop runs over the runes of a valid string; only single bytes below 128 have an escape, so running over
  the bytes writes the same pieces. \<open>pending\<close> is the slice from \<^verbatim>\<open>start\<close> to the current index.
\<close>

fun encode_runes :: "string \<Rightarrow> string \<Rightarrow> boundedWriter \<Rightarrow> boundedWriter res" where
  "encode_runes pending [] w = writeString pending w"
| "encode_runes pending (c # cs) w =
     (if escape c = [] then encode_runes (pending @ [c]) cs w
      else and_then (writeString pending w) (\<lambda>w. and_then (writeString (escape c) w) (encode_runes [] cs)))"

definition encodeString :: "string \<Rightarrow> boundedWriter \<Rightarrow> boundedWriter res" where
  "encodeString s w =
     and_then (writeString [CHR 0x22] w) (\<lambda>w. and_then (encode_runes [] s w) (writeString [CHR 0x22]))"

text \<open>The separator is written before every element but the first.\<close>

fun encodeCanonical :: "jsonValue \<Rightarrow> boundedWriter \<Rightarrow> boundedWriter res"
  and encode_elements :: "bool \<Rightarrow> jsonValue list \<Rightarrow> boundedWriter \<Rightarrow> boundedWriter res"
  and encode_members :: "bool \<Rightarrow> (string \<times> jsonValue) list \<Rightarrow> boundedWriter \<Rightarrow> boundedWriter res" where
  "encodeCanonical JNull w = writeString ''null'' w"
| "encodeCanonical (JBool b) w = writeString (if b then ''true'' else ''false'') w"
| "encodeCanonical (JString s) w = encodeString s w"
| "encodeCanonical (JNumber n) w = writeString n w"
| "encodeCanonical (JArray vs) w =
     and_then (writeString ''['' w) (\<lambda>w. and_then (encode_elements True vs w) (writeString '']''))"
| "encodeCanonical (JObject ms) w =
     and_then (writeString ''{'' w) (\<lambda>w. and_then (encode_members True ms w) (writeString ''}''))"
| "encode_elements start [] w = Inr w"
| "encode_elements start (v # vs) w =
     and_then (if start then Inr w else writeString '','' w) (\<lambda>w.
     and_then (encodeCanonical v w) (encode_elements False vs))"
| "encode_members start [] w = Inr w"
| "encode_members start ((key, v) # ms) w =
     and_then (if start then Inr w else writeString '','' w) (\<lambda>w.
     and_then (encodeString key w) (\<lambda>w.
     and_then (writeString '':'' w) (\<lambda>w.
     and_then (encodeCanonical v w) (encode_members False ms))))"

section \<open>The canonicalizer\<close>

definition encodeRaw :: "Limits \<Rightarrow> bool \<Rightarrow> string \<Rightarrow> string res" where
  "encodeRaw l enforceInputBound raw =
     (if enforceInputBound \<and> int (length raw) > lim_input l then Inl (limitJSON ''MAX_INPUT_BYTES'')
      else if \<not> utf8_valid raw then Inl (invalidJSON ''INVALID_UTF8'')
      else
        and_then (decodeValue l 0 (json_tokens raw)) (\<lambda>(v, rest).
        and_then (require (rest = []) (invalidJSON ''TRAILING_DATA'')) (\<lambda>_.
        and_then (encodeCanonical v \<lparr>bw_buffer = [], bw_maximum = lim_output l\<rparr>) (\<lambda>w. Inr (bw_buffer w)))))"

definition EncodeNormalizedJSON :: "Limits \<Rightarrow> string \<Rightarrow> string res" where
  "EncodeNormalizedJSON l raw = encodeRaw l True raw"

text \<open>The digest is taken of the encoding; the hash function is an argument.\<close>

definition HashNormalizedJSON :: "(string \<Rightarrow> 'h) \<Rightarrow> Limits \<Rightarrow> string \<Rightarrow> 'h res" where
  "HashNormalizedJSON sha256 l raw = and_then (EncodeNormalizedJSON l raw) (\<lambda>encoded. Inr (sha256 encoded))"

end
