(* ===== verification/CanonicalNumber.thy ===== *)
theory CanonicalNumber
  imports CanonicalJson Complex_Main
begin

text \<open>
  The canonical spelling of JSON numbers: the value a literal denotes, and the proof that \<^verbatim>\<open>canonicalNumber\<close> keeps it
  and gives two literals the same spelling exactly when they have the same value.
\<close>

section \<open>Digit strings\<close>

lemma digits_value_Nil [simp]: "digits_value [] = 0"
  by (simp add: digits_value_def)

lemma digits_value_snoc: "digits_value (ds @ [c]) = digits_value ds * 10 + (byte c - 48)"
  by (simp add: digits_value_def)

lemma digits_value_append: "digits_value (ds @ es) = digits_value ds * 10 ^ length es + digits_value es"
proof (induction es rule: rev_induct)
  case (snoc c es)
  show ?case using snoc by (simp add: digits_value_snoc algebra_simps flip: append_assoc)
qed simp

lemma zero_byte: "byte CHR ''0'' - 48 = (0 :: nat)" "is_digit CHR ''0''"
  by code_simp+

lemma digits_value_zeros: "digits_value (replicate n CHR ''0'') = 0"
  by (induction n) (simp_all add: digits_value_snoc zero_byte flip: replicate_append_same)

lemma digits_value_leading: "digits_value (replicate n CHR ''0'' @ ds) = digits_value ds"
  by (simp add: digits_value_append digits_value_zeros)

lemma digits_value_trailing: "digits_value (ds @ replicate n CHR ''0'') = digits_value ds * 10 ^ n"
  by (simp add: digits_value_append digits_value_zeros)

lemma digits_value_inj:
  assumes "ds \<noteq> []" "allDigits ds" "hd ds \<noteq> CHR ''0''" "es \<noteq> []" "allDigits es" "hd es \<noteq> CHR ''0''"
    and "digits_value ds = digits_value es"
  shows "ds = es"
  using Itoa_digits_value [of ds] Itoa_digits_value [of es] assms by (metis allDigits_def list_all_iff)

lemma digits_value_pos: "ds \<noteq> [] \<Longrightarrow> allDigits ds \<Longrightarrow> hd ds \<noteq> CHR ''0'' \<Longrightarrow> 0 < digits_value ds"
  using Itoa_digits_value [of ds] by (simp add: allDigits_def list_all_iff)

lemma last_digit_mod:
  assumes "ds \<noteq> []" "allDigits ds" "last ds \<noteq> CHR ''0''"
  shows "\<not> 10 dvd digits_value ds"
proof -
  define c where "c = last ds"
  have ds: "digits_value ds = digits_value (butlast ds) * 10 + (byte c - 48)"
    using assms(1) digits_value_snoc [of "butlast ds" "last ds"] by (simp add: c_def)
  have c: "is_digit c" "c \<noteq> CHR ''0''" using assms by (auto simp: c_def allDigits_def list_all_iff)
  then have b: "48 \<le> byte c" "byte c \<le> 57" by (simp_all add: is_digit_def)
  have "byte c \<noteq> 48"
  proof
    assume "byte c = 48"
    then have "c = char_of (48 :: nat)" by (metis char_of_char)
    moreover have "char_of (48 :: nat) = CHR ''0''" by code_simp
    ultimately show False using c(2) by simp
  qed
  then have "0 < byte c - 48" "byte c - 48 < (10 :: nat)" using b by linarith+
  then show ?thesis unfolding ds by presburger
qed

lemma Itoa_inverse: "digits_value (Itoa n) = n \<and> Itoa n \<noteq> [] \<and> allDigits (Itoa n)"
proof (induction n rule: less_induct)
  case (less n)
  have b: "byte (char_of (48 + k)) = 48 + k" if "k < 10" for k :: nat using that by (simp add: of_char_of)
  show ?case
  proof (cases "n < 10")
    case True
    then show ?thesis using b [of n]
      by (simp add: Itoa.simps [of n] digits_value_def allDigits_def is_digit_def)
  next
    case False
    then have "n div 10 < n" by simp
    from less [OF this] show ?thesis using False b [of "n mod 10"]
      by (simp add: Itoa.simps [of n] digits_value_snoc allDigits_def is_digit_def)
  qed
qed

section \<open>Trimming zeros\<close>

lemma trim_left_split: "\<exists>n. s = replicate n CHR ''0'' @ trim_zeros_left s"
proof -
  have "takeWhile zero_digit s = replicate (length (takeWhile zero_digit s)) CHR ''0''"
    by (rule replicate_length_same [symmetric]) (auto dest: set_takeWhileD)
  then show ?thesis using takeWhile_dropWhile_id [of zero_digit s] unfolding trim_zeros_left_def by metis
qed

lemma trim_left_hd: "trim_zeros_left s \<noteq> [] \<Longrightarrow> hd (trim_zeros_left s) \<noteq> CHR ''0''"
  unfolding trim_zeros_left_def using hd_dropWhile by blast

lemma trim_right_left: "trim_zeros_right s = rev (trim_zeros_left (rev s))"
  by (simp add: trim_zeros_right_def trim_zeros_left_def)

lemma trim_right_split: "s = trim_zeros_right s @ replicate (length s - length (trim_zeros_right s)) CHR ''0''"
proof -
  obtain n where "rev s = replicate n CHR ''0'' @ trim_zeros_left (rev s)" using trim_left_split by blast
  then have "s = trim_zeros_right s @ replicate n CHR ''0''"
    unfolding trim_right_left by (metis rev_append rev_replicate rev_rev_ident)
  moreover from this have "n = length s - length (trim_zeros_right s)" by (metis add_diff_cancel_left' length_append length_replicate)
  ultimately show ?thesis by simp
qed

lemma trim_right_last: "trim_zeros_right s \<noteq> [] \<Longrightarrow> last (trim_zeros_right s) \<noteq> CHR ''0''"
  unfolding trim_right_left using trim_left_hd [of "rev s"] by (simp add: last_rev)

section \<open>The value of a literal\<close>

definition fraction_part :: "string option \<Rightarrow> string" where
  "fraction_part f = (case f of None \<Rightarrow> [] | Some ds \<Rightarrow> ds)"

definition exponent_value :: "string option \<Rightarrow> int" where
  "exponent_value x = (case x of None \<Rightarrow> 0 | Some t \<Rightarrow> (case SetString t of None \<Rightarrow> 0 | Some n \<Rightarrow> n))"

definition num_value :: "string \<Rightarrow> rat" where
  "num_value s =
     (let (mantissa, ex) = break_at exponent_mark (unsigned_part s); (ip, fp) = break_at (\<lambda>c. c = CHR ''.'') mantissa in
      (if negative_sign s then - 1 else 1) *
      (of_nat (digits_value ip) + of_nat (digits_value (fraction_part fp)) / 10 ^ length (fraction_part fp)) *
      10 powi exponent_value ex)"

text \<open>A literal assembled from its parts, and the parts found again.\<close>

definition literal :: "bool \<Rightarrow> string \<Rightarrow> string option \<Rightarrow> string option \<Rightarrow> string" where
  "literal neg ip fp ex =
     (if neg then ''-'' else []) @ ip @ (case fp of None \<Rightarrow> [] | Some f \<Rightarrow> ''.'' @ f) @ (case ex of None \<Rightarrow> [] | Some x \<Rightarrow> ''e'' @ x)"

lemma digit_chars: "is_digit c \<Longrightarrow> c \<noteq> CHR ''.'' \<and> c \<noteq> CHR ''-'' \<and> c \<noteq> CHR ''+'' \<and> c \<noteq> CHR ''e'' \<and> c \<noteq> CHR ''E''"
  by (auto simp: is_digit_def)

lemma break_at_found: "\<forall>c\<in>set a. \<not> p c \<Longrightarrow> p x \<Longrightarrow> break_at p (a @ x # b) = (a, Some b)"
  by (simp add: break_at_def takeWhile_append2 dropWhile_append2)

lemma break_at_missing: "\<forall>c\<in>set a. \<not> p c \<Longrightarrow> break_at p a = (a, None)"
proof -
  assume "\<forall>c\<in>set a. \<not> p c"
  then have "dropWhile (\<lambda>c. \<not> p c) a = []" "takeWhile (\<lambda>c. \<not> p c) a = a"
    by (simp_all add: takeWhile_eq_all_conv)
  then show "break_at p a = (a, None)" by (simp only: break_at_def list.case)
qed

lemma literal_parts:
  assumes "ip \<noteq> []" "allDigits ip" "\<And>f. fp = Some f \<Longrightarrow> allDigits f"
  shows "negative_sign (literal neg ip fp ex) = neg"
    "break_at exponent_mark (unsigned_part (literal neg ip fp ex)) = (literal False ip fp None, ex)"
    "break_at (\<lambda>c. c = CHR ''.'') (literal False ip fp None) = (ip, fp)"
proof -
  have ip: "\<forall>c\<in>set ip. c \<noteq> CHR ''.'' \<and> c \<noteq> CHR ''-'' \<and> c \<noteq> CHR ''e'' \<and> c \<noteq> CHR ''E''"
    using assms(2) digit_chars by (auto simp: allDigits_def list_all_iff)
  have f: "\<forall>c\<in>set f. c \<noteq> CHR ''e'' \<and> c \<noteq> CHR ''E''" if "fp = Some f" for f
    using assms(3) [OF that] digit_chars by (auto simp: allDigits_def list_all_iff)
  have u: "unsigned_part (literal neg ip fp ex) = literal False ip fp ex" "negative_sign (literal neg ip fp ex) = neg"
    using assms(1) ip by (cases ip; simp add: literal_def unsigned_part_def negative_sign_def)+
  have free: "\<forall>c\<in>set (literal False ip fp None). \<not> exponent_mark c"
    using ip f by (auto simp: literal_def split: option.splits)
  show "negative_sign (literal neg ip fp ex) = neg" by fact
  show "break_at exponent_mark (unsigned_part (literal neg ip fp ex)) = (literal False ip fp None, ex)"
  proof (cases ex)
    case None
    then show ?thesis unfolding u(1) using break_at_missing [OF free] by simp
  next
    case (Some x)
    then have "literal False ip fp ex = literal False ip fp None @ CHR ''e'' # x" by (simp add: literal_def split: option.split)
    then show ?thesis unfolding u(1) using break_at_found [OF free, of "CHR ''e''" x] by (simp add: Some)
  qed
  show "break_at (\<lambda>c. c = CHR ''.'') (literal False ip fp None) = (ip, fp)"
    using ip by (cases fp) (simp_all add: literal_def break_at_found break_at_missing)
qed

lemma literal_pattern:
  assumes "ip \<noteq> []" "allDigits ip" "ip = ''0'' \<or> hd ip \<noteq> CHR ''0''"
    "\<And>f. fp = Some f \<Longrightarrow> f \<noteq> [] \<and> allDigits f" "\<And>x. ex = Some x \<Longrightarrow> unsign x \<noteq> [] \<and> allDigits (unsign x)"
  shows "number_pattern (literal neg ip fp ex)"
proof -
  have f: "\<And>f. fp = Some f \<Longrightarrow> allDigits f" using assms(4) by blast
  show ?thesis
    using assms literal_parts(1,2) [OF assms(1,2) f, where neg = neg and ex = ex] literal_parts(3) [OF assms(1,2) f] by (auto simp: number_pattern_def split: option.split)
qed

lemma literal_value:
  assumes "ip \<noteq> []" "allDigits ip" "\<And>f. fp = Some f \<Longrightarrow> allDigits f"
  shows "num_value (literal neg ip fp ex) = (if neg then - 1 else 1) *
    (of_nat (digits_value ip) + of_nat (digits_value (fraction_part fp)) / 10 ^ length (fraction_part fp)) * 10 powi exponent_value ex"
  using literal_parts(1,2) [OF assms, where neg = neg and ex = ex] literal_parts(3) [OF assms] by (simp add: num_value_def)

lemma scale_fraction:
  "(of_nat (digits_value ip) + of_nat (digits_value f) / 10 ^ length f) * (10 :: rat) powi e =
   of_nat (digits_value (ip @ f)) * 10 powi (e - int (length f))"
  by (simp add: digits_value_append power_int_diff add_divide_distrib algebra_simps)

section \<open>Canonical literals\<close>

definition render :: "int \<Rightarrow> string \<Rightarrow> string" where
  "render e d = (if - 6 \<le> e + (int (length d) - 1) \<and> e + (int (length d) - 1) < 21
     then plain_notation e d else scientific_notation (e + (int (length d) - 1)) d)"

definition sign_of :: "bool \<Rightarrow> rat" where
  "sign_of neg = (if neg then - 1 else 1)"

lemma big_String_parse: "SetString (big_String n) = Some n" "unsign (big_String n) \<noteq> [] \<and> allDigits (unsign (big_String n))"
proof -
  have i: "digits_value (Itoa k) = k" "Itoa k \<noteq> []" "allDigits (Itoa k)" for k using Itoa_inverse by blast+
  have h: "c \<noteq> CHR ''-'' \<and> c \<noteq> CHR ''+''" if "Itoa k = c # cs" for k c cs
    using i(3) [of k] digit_chars [of c] by (simp add: that allDigits_def)
  have u: "unsign (Itoa k) = Itoa k" "\<not> negative_sign (Itoa k)" for k
    using h i(2) [of k] by (cases "Itoa k"; simp add: unsign_def negative_sign_def)+
  show "unsign (big_String n) \<noteq> [] \<and> allDigits (unsign (big_String n))"
    using i u by (simp add: big_String_def) (simp add: unsign_def)
  show "SetString (big_String n) = Some n"
    using i u by (auto simp: big_String_def SetString_def) (simp_all add: unsign_def negative_sign_def)
qed


lemma literal_signed: "(if neg then ''-'' else []) @ literal False ip fp ex = literal neg ip fp ex"
  by (simp add: literal_def)

definition well_formed_parts :: "string \<Rightarrow> string option \<Rightarrow> string option \<Rightarrow> bool" where
  "well_formed_parts ip fp ex \<longleftrightarrow> ip \<noteq> [] \<and> allDigits ip \<and> (ip = ''0'' \<or> hd ip \<noteq> CHR ''0'') \<and>
     (\<forall>f. fp = Some f \<longrightarrow> f \<noteq> [] \<and> allDigits f) \<and> (\<forall>x. ex = Some x \<longrightarrow> unsign x \<noteq> [] \<and> allDigits (unsign x))"

lemma allDigits_append [simp]: "allDigits (a @ b) \<longleftrightarrow> allDigits a \<and> allDigits b"
  by (simp add: allDigits_def)

lemma allDigits_zeros [simp]: "allDigits (zeros n)"
  by (simp add: allDigits_def zeros_def list_all_iff zero_byte)

lemma allDigits_zero: "allDigits ''0''"
  by code_simp

lemma allDigits_part: "allDigits d \<Longrightarrow> allDigits (take n d) \<and> allDigits (drop n d)"
  by (metis allDigits_append append_take_drop_id)

lemma plain_literal:
  assumes d: "d \<noteq> []" "allDigits d" "hd d \<noteq> CHR ''0''"
  shows "\<exists>ip fp. plain_notation e d = literal False ip fp None \<and> well_formed_parts ip fp None \<and>
    of_nat (digits_value (ip @ fraction_part fp)) * 10 powi (- int (length (fraction_part fp))) = (of_nat (digits_value d) * 10 powi e :: rat)"
proof -
  let ?point = "e + int (length d)"
  consider "?point \<le> 0" | "int (length d) \<le> ?point" "0 < ?point" | "0 < ?point" "?point < int (length d)" by linarith
  then show ?thesis
  proof cases
    case 1
    let ?f = "zeros (- ?point) @ d"
    have "plain_notation e d = literal False ''0'' (Some ?f) None" using 1 by (simp add: plain_notation_def literal_def)
    moreover have "well_formed_parts ''0'' (Some ?f) None" using d allDigits_zero by (simp add: well_formed_parts_def)
    moreover have "digits_value (''0'' @ ?f) = digits_value d"
      using digits_value_leading [of "Suc (nat (- ?point))" d] by (simp add: zeros_def)
    moreover have "- int (length ?f) = e" using 1 by (simp add: zeros_def)
    ultimately show ?thesis by (intro exI [of _ "''0''"] exI [of _ "Some ?f"]) (simp add: fraction_part_def)
  next
    case 2
    let ?ip = "d @ zeros e"
    have "plain_notation e d = literal False ?ip None None" using 2 by (simp add: plain_notation_def literal_def)
    moreover have "well_formed_parts ?ip None None" using d by (simp add: well_formed_parts_def)
    moreover have "of_nat (digits_value ?ip) = (of_nat (digits_value d) * 10 powi e :: rat)"
      using 2 by (simp add: zeros_def digits_value_trailing power_int_def)
    ultimately show ?thesis by (intro exI [of _ ?ip] exI [of _ None]) (simp add: fraction_part_def)
  next
    case 3
    let ?n = "nat ?point"
    have n: "0 < ?n" "?n < length d" using 3 by linarith+
    have "plain_notation e d = literal False (take ?n d) (Some (drop ?n d)) None" using 3 by (simp add: plain_notation_def literal_def Let_def)
    moreover have "well_formed_parts (take ?n d) (Some (drop ?n d)) None"
      using d n allDigits_part [OF d(2), of ?n] by (simp add: well_formed_parts_def)
    moreover have "- int (length (drop ?n d)) = e" using 3 by simp
    moreover from this have "of_nat (digits_value (take ?n d @ fraction_part (Some (drop ?n d)))) *
        10 powi (- int (length (fraction_part (Some (drop ?n d))))) = (of_nat (digits_value d) * 10 powi e :: rat)"
      by (simp only: fraction_part_def option.case append_take_drop_id)
    ultimately show ?thesis by blast
  qed
qed

lemma scientific_literal:
  assumes d: "d \<noteq> []" "allDigits d" "hd d \<noteq> CHR ''0''"
  shows "\<exists>ip fp ex. scientific_notation (e + (int (length d) - 1)) d = literal False ip fp ex \<and> well_formed_parts ip fp ex \<and>
    of_nat (digits_value (ip @ fraction_part fp)) * 10 powi (exponent_value ex - int (length (fraction_part fp))) =
      (of_nat (digits_value d) * 10 powi e :: rat)"
proof -
  let ?x = "big_String (e + (int (length d) - 1))"
  let ?f = "if length d > 1 then Some (drop 1 d) else None"
  have f: "take 1 d @ fraction_part ?f = d" "int (length (fraction_part ?f)) = int (length d) - 1"
  proof -
    obtain c cs where "d = c # cs" using d(1) by (cases d) auto
    then show "take 1 d @ fraction_part ?f = d" "int (length (fraction_part ?f)) = int (length d) - 1"
      by (cases cs; simp add: fraction_part_def)+
  qed
  have "scientific_notation (e + (int (length d) - 1)) d = literal False (take 1 d) ?f (Some ?x)"
    by (simp add: scientific_notation_def literal_def)
  moreover have "well_formed_parts (take 1 d) ?f (Some ?x)"
    using d allDigits_part [OF d(2), of 1] big_String_parse(2) by (auto simp: well_formed_parts_def)
  moreover have "exponent_value (Some ?x) - int (length (fraction_part ?f)) = e"
    by (simp add: exponent_value_def big_String_parse f(2) del: One_nat_def)
  ultimately show ?thesis using f(1) by (intro exI [of _ "take 1 d"] exI [of _ ?f] exI [of _ "Some ?x"]) simp
qed

lemma render_literal:
  assumes "d \<noteq> []" "allDigits d" "hd d \<noteq> CHR ''0''"
  obtains ip fp ex where "render e d = literal False ip fp ex" "well_formed_parts ip fp ex"
    "of_nat (digits_value (ip @ fraction_part fp)) * 10 powi (exponent_value ex - int (length (fraction_part fp))) =
      (of_nat (digits_value d) * 10 powi e :: rat)"
proof (cases "- 6 \<le> e + (int (length d) - 1) \<and> e + (int (length d) - 1) < 21")
  case True
  then show ?thesis using plain_literal [OF assms, of e] that [of _ _ None] by (auto simp: render_def exponent_value_def)
next
  case False
  then show ?thesis using scientific_literal [OF assms, of e] that by (auto simp: render_def)
qed

lemma render_ok:
  assumes "d \<noteq> []" "allDigits d" "hd d \<noteq> CHR ''0''"
  shows "number_pattern ((if neg then ''-'' else []) @ render e d)"
    "num_value ((if neg then ''-'' else []) @ render e d) = sign_of neg * (of_nat (digits_value d) * 10 powi e)"
proof -
  obtain ip fp ex where r: "render e d = literal False ip fp ex" "well_formed_parts ip fp ex"
    "of_nat (digits_value (ip @ fraction_part fp)) * 10 powi (exponent_value ex - int (length (fraction_part fp))) =
      (of_nat (digits_value d) * 10 powi e :: rat)"
    using render_literal [OF assms] by blast
  then show "number_pattern ((if neg then ''-'' else []) @ render e d)"
    unfolding r(1) literal_signed by (intro literal_pattern) (auto simp: well_formed_parts_def)
  have v: "num_value (literal neg ip fp ex) = sign_of neg *
      ((of_nat (digits_value ip) + of_nat (digits_value (fraction_part fp)) / 10 ^ length (fraction_part fp)) * 10 powi exponent_value ex)"
    using r(2) by (subst literal_value) (auto simp: well_formed_parts_def sign_of_def)
  show "num_value ((if neg then ''-'' else []) @ render e d) = sign_of neg * (of_nat (digits_value d) * 10 powi e)"
    unfolding r(1) literal_signed v scale_fraction r(3) ..
qed


section \<open>The canonical spelling is exact\<close>

lemma pattern_parts:
  assumes "number_pattern s"
  obtains mantissa ex ip fp where "break_at exponent_mark (unsigned_part s) = (mantissa, ex)"
    "break_at (\<lambda>c. c = CHR ''.'') mantissa = (ip, fp)" "ip \<noteq> []" "allDigits ip"
    "\<And>f. fp = Some f \<Longrightarrow> allDigits f" "\<And>x. ex = Some x \<Longrightarrow> unsign x \<noteq> [] \<and> allDigits (unsign x)"
  using assms by (auto simp: number_pattern_def split: prod.splits option.splits)

text \<open>What the body computes from the digits \<open>m\<close> of the mantissa and the exponent of the last of them.\<close>

definition normalize_digits :: "bool \<Rightarrow> string \<Rightarrow> int \<Rightarrow> string" where
  "normalize_digits neg m e =
     (let digits = trim_zeros_left m in
      if digits = [] then ''0''
      else (if neg then ''-'' else []) @
        render (e + int (length digits - length (trim_zeros_right digits))) (trim_zeros_right digits))"

lemma canonicalNumber_body:
  assumes s: "number_pattern s"
  obtains m e where "canonicalNumber s = Some (normalize_digits (negative_sign s) m e)" "allDigits m"
    "num_value s = sign_of (negative_sign s) * (of_nat (digits_value m) * 10 powi e)"
proof -
  obtain mantissa ex ip fp where p: "break_at exponent_mark (unsigned_part s) = (mantissa, ex)"
    "break_at (\<lambda>c. c = CHR ''.'') mantissa = (ip, fp)" "ip \<noteq> []" "allDigits ip"
    "\<And>f. fp = Some f \<Longrightarrow> allDigits f" "\<And>x. ex = Some x \<Longrightarrow> unsign x \<noteq> [] \<and> allDigits (unsign x)"
    using pattern_parts [OF s] by blast
  let ?f = "fraction_part fp"
  have m: "(case fp of None \<Rightarrow> ip | Some f \<Rightarrow> ip @ f) = ip @ ?f" "(case fp of None \<Rightarrow> 0 | Some f \<Rightarrow> length f) = length ?f"
    by (simp_all add: fraction_part_def split: option.split)
  have d: "allDigits (ip @ ?f)" "ip @ ?f \<noteq> []" using p(3-5) by (auto simp: fraction_part_def allDigits_def split: option.split)
  have x: "SetString (case ex of None \<Rightarrow> ''0'' | Some x \<Rightarrow> x) = Some (exponent_value ex)"
      "(case ex of None \<Rightarrow> ''0'' | Some x \<Rightarrow> x) \<noteq> []"
  proof -
    have "SetString ''0'' = Some 0" by code_simp
    then show "SetString (case ex of None \<Rightarrow> ''0'' | Some x \<Rightarrow> x) = Some (exponent_value ex)"
    proof (cases ex)
      case (Some t)
      then show ?thesis using p(6) [OF Some] by (simp add: exponent_value_def SetString_def [of t])
    qed (simp add: exponent_value_def)
    show "(case ex of None \<Rightarrow> ''0'' | Some x \<Rightarrow> x) \<noteq> []" using p(6) by (auto simp: unsign_def split: option.split)
  qed
  have "canonicalNumber s = Some (normalize_digits (negative_sign s) (ip @ ?f) (exponent_value ex - int (length ?f)))"
    using s d x by (simp add: canonicalNumber_def p(1,2) m normalize_digits_def render_def Let_def)
  moreover have "num_value s = sign_of (negative_sign s) *
      (of_nat (digits_value (ip @ ?f)) * 10 powi (exponent_value ex - int (length ?f)))"
    by (simp add: num_value_def p(1,2) sign_of_def flip: scale_fraction)
  ultimately show ?thesis using that d(1) by blast
qed

lemma trim_digits: "allDigits m \<Longrightarrow> allDigits (trim_zeros_left m) \<and> allDigits (trim_zeros_right m)"
  by (auto simp: trim_zeros_left_def trim_zeros_right_def allDigits_def list_all_iff dest: set_dropWhileD)

lemma canonicalNumber_shape:
  assumes "canonicalNumber s = Some x"
  obtains (zero) "x = ''0''" "num_value s = 0"
  | (digits) d e where "d \<noteq> []" "allDigits d" "hd d \<noteq> CHR ''0''" "last d \<noteq> CHR ''0''"
      "x = (if negative_sign s then ''-'' else []) @ render e d"
      "num_value s = sign_of (negative_sign s) * (of_nat (digits_value d) * 10 powi e)"
proof -
  have "number_pattern s" using assms by (simp add: canonicalNumber_def split: if_split_asm)
  then obtain m e where b: "canonicalNumber s = Some (normalize_digits (negative_sign s) m e)" "allDigits m"
      "num_value s = sign_of (negative_sign s) * (of_nat (digits_value m) * 10 powi e)"
    using canonicalNumber_body by blast
  let ?l = "trim_zeros_left m" and ?d = "trim_zeros_right (trim_zeros_left m)"
  obtain n where n: "m = replicate n CHR ''0'' @ ?l" using trim_left_split by blast
  have v: "digits_value m = digits_value ?l" by (subst n) (rule digits_value_leading)
  show ?thesis
  proof (cases "?l = []")
    case True
    then show ?thesis using zero b assms v by (simp add: normalize_digits_def)
  next
    case False
    let ?z = "length ?l - length ?d"
    have l: "?l = ?d @ replicate ?z CHR ''0''" by (rule trim_right_split)
    have ne: "?d \<noteq> []" using False l trim_left_hd [OF False] by (metis append_Nil hd_replicate replicate_0)
    have "digits_value ?l = digits_value ?d * 10 ^ ?z" by (subst l) (rule digits_value_trailing)
    then have "num_value s = sign_of (negative_sign s) * (of_nat (digits_value ?d) * 10 powi (e + int ?z))"
      by (simp add: b(3) v power_int_add algebra_simps)
    moreover have "hd ?d \<noteq> CHR ''0''" using trim_left_hd [OF False] l ne by (metis hd_append2)
    moreover have "x = (if negative_sign s then ''-'' else []) @ render (e + int ?z) ?d"
      using assms b(1) False by (simp add: normalize_digits_def Let_def)
    ultimately show ?thesis using digits [of ?d "e + int ?z"] ne trim_digits b(2) trim_right_last [OF ne] by blast
  qed
qed

lemma decimal_unique_le:
  assumes "allDigits d" "d \<noteq> []" "last d \<noteq> CHR ''0''" "e \<le> e'"
    and "of_nat (digits_value d) * 10 powi e = (of_nat (digits_value d') * 10 powi e' :: rat)"
  shows "e = e'"
proof (rule ccontr)
  assume "e \<noteq> e'"
  then obtain k where k: "e' = e + int (Suc k)" using assms(4) zle_iff_zadd [of "e + 1" e'] by auto
  have "of_nat (digits_value d) = (of_nat (digits_value d' * 10 ^ Suc k) :: rat)"
    using assms(5) unfolding k by (simp add: power_int_add algebra_simps)
  then have "digits_value d = digits_value d' * 10 ^ Suc k" unfolding of_nat_eq_iff .
  then have "10 dvd digits_value d" by simp
  then show False using last_digit_mod [OF assms(2,1,3)] by simp
qed

lemma decimal_unique:
  assumes d: "d \<noteq> []" "allDigits d" "hd d \<noteq> CHR ''0''" "last d \<noteq> CHR ''0''"
    and d': "d' \<noteq> []" "allDigits d'" "hd d' \<noteq> CHR ''0''" "last d' \<noteq> CHR ''0''"
    and eq: "sign_of n * (of_nat (digits_value d) * 10 powi e) = sign_of n' * (of_nat (digits_value d') * 10 powi e')"
  shows "d = d' \<and> e = e' \<and> n = n'"
proof -
  have pos: "0 < of_nat (digits_value d) * (10 :: rat) powi e" "0 < of_nat (digits_value d') * (10 :: rat) powi e'"
    using digits_value_pos [OF d(1-3)] digits_value_pos [OF d'(1-3)] by (simp_all add: zero_less_power_int)
  have n: "n = n'" using eq pos by (auto simp: sign_of_def split: if_split_asm)
  have v: "of_nat (digits_value d) * (10 :: rat) powi e = of_nat (digits_value d') * 10 powi e'"
    using eq n by (simp add: sign_of_def split: if_split_asm)
  have e: "e = e'"
    using decimal_unique_le [OF d(2,1,4) _ v] decimal_unique_le [OF d'(2,1,4) _ v [symmetric]] by linarith
  have "(of_nat (digits_value d) :: rat) = of_nat (digits_value d')" using v e by simp
  then have "digits_value d = digits_value d'" unfolding of_nat_eq_iff .
  then have "d = d'" using digits_value_inj d d' by blast
  with n e show ?thesis by simp
qed

lemma canonicalNumber_keeps:
  assumes "canonicalNumber s = Some x"
  shows "number_pattern x" "num_value x = num_value s"
proof -
  have z: "number_pattern ''0''" "num_value ''0'' = 0"
    using literal_pattern [of "''0''" None None False] literal_value [of "''0''" None False None] allDigits_zero
    by (simp_all add: literal_def fraction_part_def digits_value_def)
  show "number_pattern x" "num_value x = num_value s"
    using assms z render_ok by (cases rule: canonicalNumber_shape; simp)+
qed

lemma canonicalNumber_exact:
  assumes a: "canonicalNumber a = Some x" and b: "canonicalNumber b = Some y"
  shows "x = y \<longleftrightarrow> num_value a = num_value b"
proof
  assume "x = y"
  then show "num_value a = num_value b" using canonicalNumber_keeps(2) [OF a] canonicalNumber_keeps(2) [OF b] by simp
next
  assume eq: "num_value a = num_value b"
  from a show "x = y"
  proof (cases rule: canonicalNumber_shape)
    case zero
    from b show ?thesis
    proof (cases rule: canonicalNumber_shape)
      case (digits d e)
      then show ?thesis using zero(2) eq digits_value_pos [OF digits(1-3)] by (auto simp: sign_of_def split: if_split_asm)
    qed (use zero in simp)
  next
    case (digits d e)
    note d = this
    from b show ?thesis
    proof (cases rule: canonicalNumber_shape)
      case zero
      then show ?thesis using d eq digits_value_pos [OF d(1-3)] by (auto simp: sign_of_def split: if_split_asm)
    next
      case (digits d' e')
      then show ?thesis using decimal_unique [OF d(1-4) digits(1-4)] d(5,6) eq by metis
    qed
  qed
qed


end
