(* ===== verification/CanonicalEncoding.thy ===== *)
theory CanonicalEncoding
  imports CanonicalNumber
begin

text \<open>
  The canonical encoding is exact (\<^verbatim>\<open>internal/normalization/normalization.go\<close>): two accepted requests have the same
  encoding exactly when they denote the same JSON value. The bounded writer is first replaced by the text it writes,
  the text is shown to determine the value, and the reader is related to a grammar of JSON tokens.
\<close>

section \<open>The text that is written\<close>

definition piece :: "char \<Rightarrow> string" where
  "piece c = (if escape c = [] then [c] else escape c)"

definition quoted :: "string \<Rightarrow> string" where
  "quoted s = CHR 0x22 # concat (map piece s) @ [CHR 0x22]"

fun enc :: "jsonValue \<Rightarrow> string"
  and enc_elements :: "bool \<Rightarrow> jsonValue list \<Rightarrow> string"
  and enc_members :: "bool \<Rightarrow> (string \<times> jsonValue) list \<Rightarrow> string" where
  "enc JNull = ''null''"
| "enc (JBool b) = (if b then ''true'' else ''false'')"
| "enc (JString s) = quoted s"
| "enc (JNumber n) = n"
| "enc (JArray vs) = ''['' @ enc_elements True vs @ '']''"
| "enc (JObject ms) = ''{'' @ enc_members True ms @ ''}''"
| "enc_elements start [] = []"
| "enc_elements start (v # vs) = (if start then [] else '','') @ enc v @ enc_elements False vs"
| "enc_members start [] = []"
| "enc_members start ((key, v) # ms) = (if start then [] else '','') @ quoted key @ '':'' @ enc v @ enc_members False ms"

definition room :: "boundedWriter \<Rightarrow> bool" where
  "room w \<longleftrightarrow> int (length (bw_buffer w)) \<le> bw_maximum w"

lemma writeString_room: "writeString v w = Inr w' \<Longrightarrow> room w'"
  by (auto simp: writeString_def room_def split: if_split_asm)

lemma writeString_Nil: "room w \<Longrightarrow> writeString [] w = Inr w"
  by (simp add: writeString_def room_def)

text \<open>Two writes in a row are one write of both pieces.\<close>

lemma write_seq:
  assumes "room w" "\<And>w'. room w' \<Longrightarrow> f w' = writeString b w'"
  shows "and_then (writeString a w) f = writeString (a @ b) w"
proof (cases "writeString a w")
  case (Inl e)
  then show ?thesis by (auto simp: writeString_def split: if_split_asm)
next
  case (Inr w')
  have "f w' = writeString b w'" using assms(2) writeString_room [OF Inr] by blast
  then show ?thesis using Inr by (auto simp: writeString_def split: if_split_asm)
qed

lemma encode_runes_writes: "room w \<Longrightarrow> encode_runes pending s w = writeString (pending @ concat (map piece s)) w"
proof (induction pending s w rule: encode_runes.induct)
  case (2 pending c cs w)
  show ?case
  proof (cases "escape c = []")
    case True
    then show ?thesis using 2 by (simp add: piece_def)
  next
    case False
    have "and_then (writeString (escape c) w') (encode_runes [] cs) = writeString (escape c @ concat (map piece cs)) w'" if "room w'" for w'
      using that by (rule write_seq) (use 2(2) [OF False] in simp)
    then show ?thesis
      using write_seq [OF 2(3), of _ "escape c @ concat (map piece cs)" pending] False by (simp add: piece_def [of c])
  qed
qed simp

lemma encodeString_writes: "room w \<Longrightarrow> encodeString s w = writeString (quoted s) w"
proof -
  assume w: "room w"
  have "and_then (encode_runes [] s w') (writeString [CHR 0x22]) = writeString (concat (map piece s) @ [CHR 0x22]) w'" if "room w'" for w'
    using write_seq [OF that, of "writeString [CHR 0x22]"] by (simp add: encode_runes_writes [OF that])
  then show "encodeString s w = writeString (quoted s) w"
    using write_seq [OF w, of _ "concat (map piece s) @ [CHR 0x22]" "[CHR 0x22]"] by (simp add: encodeString_def quoted_def)
qed

lemma encode_writes:
  "room w \<Longrightarrow> encodeCanonical v w = writeString (enc v) w"
  "room w \<Longrightarrow> encode_elements start vs w = writeString (enc_elements start vs) w"
  "room w \<Longrightarrow> encode_members start ms w = writeString (enc_members start ms) w"
proof (induction v and start vs and start ms arbitrary: w and w and w rule: enc_enc_elements_enc_members.induct)
  case (5 vs)
  have "and_then (encode_elements True vs w') (writeString '']'') = writeString (enc_elements True vs @ '']'') w'" if "room w'" for w'
    using write_seq [OF that, of "writeString '']''"] 5(1) [OF that] by simp
  then show ?case using write_seq [OF 5(2), of _ "enc_elements True vs @ '']''" "''[''"] by simp
next
  case (6 ms)
  have "and_then (encode_members True ms w') (writeString ''}'') = writeString (enc_members True ms @ ''}'') w'" if "room w'" for w'
    using write_seq [OF that, of "writeString ''}''"] 6(1) [OF that] by simp
  then show ?case using write_seq [OF 6(2), of _ "enc_members True ms @ ''}''" "''{''"] by simp
next
  case (8 start v vs)
  have rest: "and_then (encodeCanonical v w') (encode_elements False vs) = writeString (enc v @ enc_elements False vs) w'" if "room w'" for w'
    using write_seq [OF that, of "encode_elements False vs"] 8(1,2) that by simp
  then show ?case using write_seq [OF 8(3), of _ "enc v @ enc_elements False vs" "'',''"] 8(3) by simp
next
  case (10 start key v ms)
  let ?a = "enc v @ enc_members False ms"
  have a: "and_then (encodeCanonical v w') (encode_members False ms) = writeString ?a w'" if "room w'" for w'
    using write_seq [OF that, of "encode_members False ms"] 10(1,2) that by simp
  have b: "and_then (writeString '':'' w') (\<lambda>w. and_then (encodeCanonical v w) (encode_members False ms)) = writeString ('':'' @ ?a) w'"
    if "room w'" for w' using write_seq [OF that a] by simp
  have c: "and_then (encodeString key w') (\<lambda>w. and_then (writeString '':'' w) (\<lambda>w. and_then (encodeCanonical v w) (encode_members False ms))) =
      writeString (quoted key @ '':'' @ ?a) w'" if "room w'" for w'
    using write_seq [OF that b] by (simp add: encodeString_writes [OF that])
  show ?case using write_seq [OF 10(3) c] c [OF 10(3)] by simp
qed (simp_all add: encodeString_writes writeString_Nil)

section \<open>The text determines the value\<close>

text \<open>Pieces are a prefix code, and none of them starts with a quotation mark.\<close>

definition unhex :: "char \<Rightarrow> nat" where
  "unhex h = (if byte h < 58 then byte h - 48 else byte h - 87)"

definition unpiece :: "string \<Rightarrow> (char \<times> string) option" where
  "unpiece s = (case s of
      [] \<Rightarrow> None
    | c # cs \<Rightarrow>
        if c \<noteq> CHR 0x5C then Some (c, cs)
        else case cs of
          [] \<Rightarrow> None
        | d # ds \<Rightarrow>
            if d = CHR ''b'' then Some (char_of (8 :: nat), ds)
            else if d = CHR ''f'' then Some (char_of (12 :: nat), ds)
            else if d = CHR ''n'' then Some (char_of (10 :: nat), ds)
            else if d = CHR ''r'' then Some (char_of (13 :: nat), ds)
            else if d = CHR ''t'' then Some (char_of (9 :: nat), ds)
            else if d = CHR ''u'' then
              Some (char_of (16 * unhex (ds ! 2) + unhex (ds ! 3)), drop 4 ds)
            else Some (d, ds))"

lemma unhex_digit: "n < 16 \<Longrightarrow> unhex (hex_digit n) = n"
  by (simp add: unhex_def hex_digit_def of_char_of)

lemma char_of_byte: "byte c = n \<Longrightarrow> char_of n = c"
  by auto

lemma unpiece_piece: "unpiece (piece c @ r) = Some (c, r)"
proof (cases "c = CHR 0x5C \<or> c = CHR 0x22 \<or> \<not> byte c < 32")
  case True
  then show ?thesis by (auto simp: piece_def escape_def unpiece_def)
next
  case False
  consider "byte c \<in> {8, 9, 10, 12, 13}" | "byte c \<notin> {8, 9, 10, 12, 13}" by blast
  then show ?thesis
  proof cases
    case 1
    then show ?thesis using False by (elim insertE) (simp_all add: piece_def escape_def unpiece_def char_of_byte)
  next
    case 2
    have "byte c < 16 * 16" "byte c mod 16 < 16" using False by simp_all
    then have "byte c div 16 < 16" "byte c mod 16 < 16" by (simp_all only: less_mult_imp_div_less)
    then have h: "unhex (hex_digit (byte c div 16)) = byte c div 16" "unhex (hex_digit (byte c mod 16)) = byte c mod 16"
      using unhex_digit by blast+
    have "piece c = [CHR 0x5C, CHR ''u'', CHR ''0'', CHR ''0'', hex_digit (byte c div 16), hex_digit (byte c mod 16)]"
      using False 2 by (simp add: piece_def escape_def)
    then show ?thesis using h by (simp add: unpiece_def Let_def)
  qed
qed

lemma piece_prefix: "piece c @ r = piece d @ q \<Longrightarrow> c = d \<and> r = q"
  by (metis unpiece_piece option.inject prod.inject)

lemma piece_no_quote: "piece c @ r \<noteq> CHR 0x22 # q"
proof
  assume eq: "piece c @ r = CHR 0x22 # q"
  have "unpiece (CHR 0x22 # q) = Some (CHR 0x22, q)" by (simp add: unpiece_def)
  then have "c = CHR 0x22" using unpiece_piece [of c r] unfolding eq by simp
  then show False using eq by (simp add: piece_def escape_def)
qed

lemma quoted_prefix: "quoted s @ r = quoted t @ q \<Longrightarrow> s = t \<and> r = q"
proof -
  assume "quoted s @ r = quoted t @ q"
  then have "concat (map piece s) @ CHR 0x22 # r = concat (map piece t) @ CHR 0x22 # q" by (simp add: quoted_def)
  then show "s = t \<and> r = q"
  proof (induction s arbitrary: t)
    case Nil
    then show ?case using piece_no_quote by (cases t) (auto dest: sym)
  next
    case (Cons c s)
    show ?case
    proof (cases t)
      case Nil
      then show ?thesis using Cons.prems piece_no_quote by simp
    next
      case (Cons d t')
      have "c = d \<and> concat (map piece s) @ CHR 0x22 # r = concat (map piece t') @ CHR 0x22 # q"
        using Cons.prems Cons by (intro piece_prefix) simp
      then show ?thesis using Cons.IH Cons by simp
    qed
  qed
qed

text \<open>A number is not self-delimiting, so the rest of the text must not continue it.\<close>

definition number_char :: "char \<Rightarrow> bool" where
  "number_char c \<longleftrightarrow> is_digit c \<or> c = CHR ''-'' \<or> c = CHR ''+'' \<or> c = CHR ''.'' \<or> c = CHR ''e'' \<or> c = CHR ''E''"

definition ends_value :: "string \<Rightarrow> bool" where
  "ends_value r \<longleftrightarrow> (case r of [] \<Rightarrow> True | c # _ \<Rightarrow> \<not> number_char c)"

definition number_text :: "string \<Rightarrow> bool" where
  "number_text n \<longleftrightarrow> n \<noteq> [] \<and> list_all number_char n \<and> (is_digit (hd n) \<or> hd n = CHR ''-'')"

fun plain_numbers :: "jsonValue \<Rightarrow> bool" where
  "plain_numbers (JNumber n) = number_text n"
| "plain_numbers (JArray vs) = (\<forall>v\<in>set vs. plain_numbers v)"
| "plain_numbers (JObject ms) = (\<forall>m\<in>set ms. plain_numbers (snd m))"
| "plain_numbers _ = True"

lemma number_prefix:
  assumes "number_text n" "number_text m" "ends_value r" "ends_value q" "n @ r = m @ q"
  shows "n = m \<and> r = q"
proof -
  have "takeWhile number_char (k @ t) = k" if "number_text k" "ends_value t" for k t
    using that by (cases t) (auto simp: number_text_def ends_value_def list_all_iff takeWhile_append2)
  then show ?thesis using assms by (metis same_append_eq)
qed

lemma number_text_first: "number_text n \<Longrightarrow> \<exists>c cs. n = c # cs \<and> (is_digit c \<or> c = CHR ''-'')"
  by (cases n) (auto simp: number_text_def)

lemma ends_value_closers: "ends_value (CHR '']'' # r)" "ends_value (CHR ''}'' # r)" "ends_value (CHR '','' # r)" "ends_value []"
  by (simp_all add: ends_value_def number_char_def is_digit_def)

lemma enc_first: "plain_numbers v \<Longrightarrow> \<exists>c cs. enc v = c # cs \<and>
    (case v of JNull \<Rightarrow> c = CHR ''n'' | JBool b \<Rightarrow> c = (if b then CHR ''t'' else CHR ''f'') | JString _ \<Rightarrow> c = CHR 0x22
      | JNumber _ \<Rightarrow> is_digit c \<or> c = CHR ''-'' | JArray _ \<Rightarrow> c = CHR ''['' | JObject _ \<Rightarrow> c = CHR ''{'')"
  using number_text_first by (cases v) (auto simp: quoted_def)

lemma first_chars: "\<not> is_digit CHR ''n''" "\<not> is_digit CHR ''t''" "\<not> is_digit CHR ''f''" "\<not> is_digit CHR 0x22"
    "\<not> is_digit CHR ''[''" "\<not> is_digit CHR ''{''" "\<not> is_digit CHR '']''"
  by code_simp+

text \<open>Equal texts start with the same constructor, and do not start with a closing bracket.\<close>

lemma enc_same_kind:
  assumes "plain_numbers v" "plain_numbers w" "enc v @ r = enc w @ q"
  shows "(case v of JNull \<Rightarrow> w = JNull | JBool b \<Rightarrow> w = JBool b | JString _ \<Rightarrow> (\<exists>s. w = JString s)
      | JNumber _ \<Rightarrow> (\<exists>n. w = JNumber n) | JArray _ \<Rightarrow> (\<exists>vs. w = JArray vs) | JObject _ \<Rightarrow> (\<exists>ms. w = JObject ms))"
  using enc_first [OF assms(1)] enc_first [OF assms(2)] assms(3) first_chars
  by (cases v; cases w) (auto split: if_split_asm)

lemma enc_not_closed: "plain_numbers v \<Longrightarrow> enc v @ r \<noteq> CHR '']'' # q"
  using enc_first [of v] first_chars by (cases v) (auto split: if_split_asm)

lemma rest_ends: "ends_value (enc_elements False vs @ '']'' @ r)" "ends_value (enc_members False ms @ ''}'' @ r)"
  by (cases vs; simp add: ends_value_closers) (cases ms; auto simp: ends_value_closers)

lemma enc_prefix:
  "plain_numbers v \<Longrightarrow> plain_numbers w \<Longrightarrow> ends_value r \<Longrightarrow> ends_value q \<Longrightarrow> enc v @ r = enc w @ q \<Longrightarrow> v = w \<and> r = q"
  "\<forall>v\<in>set vs. plain_numbers v \<Longrightarrow> \<forall>v\<in>set ws. plain_numbers v \<Longrightarrow>
    enc_elements start vs @ '']'' @ r = enc_elements start ws @ '']'' @ q \<Longrightarrow> vs = ws \<and> r = q"
  "\<forall>m\<in>set ms. plain_numbers (snd m) \<Longrightarrow> \<forall>m\<in>set ns. plain_numbers (snd m) \<Longrightarrow>
    enc_members start ms @ ''}'' @ r = enc_members start ns @ ''}'' @ q \<Longrightarrow> ms = ns \<and> r = q"
proof (induction v and start vs and start ms arbitrary: w r q and ws r q and ns r q rule: enc_enc_elements_enc_members.induct)
  case 1
  then show ?case using enc_same_kind [OF 1(1,2,5)] by auto
next
  case (2 b)
  then show ?case using enc_same_kind [OF 2(1,2,5)] by auto
next
  case (3 s)
  then obtain t where "w = JString t" using enc_same_kind [OF 3(1,2,5)] by auto
  then show ?case using 3(5) quoted_prefix [of s r t q] by simp
next
  case (4 n)
  then obtain m where "w = JNumber m" using enc_same_kind [OF 4(1,2,5)] by auto
  then show ?case using 4 number_prefix [of n m r q] by simp
next
  case (5 vs)
  then obtain ws where "w = JArray ws" using enc_same_kind [OF 5(2,3,6)] by auto
  then show ?case using 5(1) [of ws r q] 5(2-6) by simp
next
  case (6 ms)
  then obtain ns where "w = JObject ns" using enc_same_kind [OF 6(2,3,6)] by auto
  then show ?case using 6(1) [of ns r q] 6(2-6) by simp
next
  case (7 start)
  then show ?case using enc_not_closed by (cases ws) (auto split: if_split_asm dest: sym)
next
  case (8 start v vs)
  show ?case
  proof (cases ws)
    case Nil
    then show ?thesis using 8(3,5) enc_not_closed [of v] by (auto split: if_split_asm)
  next
    case (Cons u us)
    then have "enc v @ enc_elements False vs @ '']'' @ r = enc u @ enc_elements False us @ '']'' @ q"
      using 8(5) by (simp split: if_split_asm)
    then have "v = u \<and> enc_elements False vs @ '']'' @ r = enc_elements False us @ '']'' @ q"
      using 8(1) [of u "enc_elements False vs @ '']'' @ r" "enc_elements False us @ '']'' @ q"] rest_ends(1) 8(3,4) Cons by auto
    then show ?thesis using 8(2) [of us r q] 8(3,4) Cons by simp
  qed
next
  case (9 start)
  then show ?case by (cases ns) (auto simp: quoted_def split: if_split_asm)
next
  case (10 start key v ms)
  show ?case
  proof (cases ns)
    case Nil
    then show ?thesis using 10(5) by (auto simp: quoted_def split: if_split_asm)
  next
    case (Cons n us)
    obtain k u where n: "n = (k, u)" by fastforce
    then have "quoted key @ '':'' @ enc v @ enc_members False ms @ ''}'' @ r = quoted k @ '':'' @ enc u @ enc_members False us @ ''}'' @ q"
      using 10(5) Cons by (simp split: if_split_asm)
    then have k: "key = k" and "enc v @ enc_members False ms @ ''}'' @ r = enc u @ enc_members False us @ ''}'' @ q"
      using quoted_prefix by (blast, metis append_Cons append_Nil list.inject quoted_prefix)
    then have "v = u \<and> enc_members False ms @ ''}'' @ r = enc_members False us @ ''}'' @ q"
      using 10(1) [of u "enc_members False ms @ ''}'' @ r" "enc_members False us @ ''}'' @ q"] rest_ends(2) 10(3,4) Cons n by auto
    then show ?thesis using 10(2) [of us r q] 10(3,4) Cons n k by simp
  qed
qed


end
