(* ===== verification/CanonicalSafety.thy ===== *)
theory CanonicalSafety
  imports CanonicalEncoding "HOL-Library.Multiset"
begin

text \<open>
  What a request hash compares: the value a token stream denotes, the reader as a reader of those values, and the
  two properties of \<^verbatim>\<open>internal/normalization\<close>, exact numbers and an exact encoding.
\<close>

section \<open>The value of a request\<close>

text \<open>A number is its value and an object a finite map: spelling and order are gone.\<close>

datatype meaning =
    MNull | MBool bool | MString string | MNumber rat | MArray "meaning list" | MObject "string \<Rightarrow> meaning option"

inductive reads :: "jsonToken list \<Rightarrow> meaning \<Rightarrow> jsonToken list \<Rightarrow> bool"
  and reads_elements :: "jsonToken list \<Rightarrow> meaning list \<Rightarrow> jsonToken list \<Rightarrow> bool"
  and reads_members :: "jsonToken list \<Rightarrow> (string \<times> meaning) list \<Rightarrow> jsonToken list \<Rightarrow> bool" where
  read_null: "reads (TokNull # ts) MNull ts"
| read_bool: "reads (TokBool b # ts) (MBool b) ts"
| read_string: "reads (TokString s # ts) (MString s) ts"
| read_number: "number_pattern n \<Longrightarrow> reads (TokNumber n # ts) (MNumber (num_value n)) ts"
| read_array: "reads_elements ts ms rest \<Longrightarrow> reads (TokOpenArray # ts) (MArray ms) rest"
| read_object: "reads_members ts ms rest \<Longrightarrow> reads (TokOpenObject # ts) (MObject (map_of ms)) rest"
| read_no_element: "reads_elements (TokCloseArray # ts) [] ts"
| read_element: "reads ts m rest \<Longrightarrow> reads_elements rest ms rest' \<Longrightarrow> reads_elements ts (m # ms) rest'"
| read_no_member: "reads_members (TokCloseObject # ts) [] ts"
| read_member: "reads ts m rest \<Longrightarrow> reads_members rest ms rest' \<Longrightarrow> key \<notin> fst ` set ms \<Longrightarrow>
    reads_members (TokString key # ts) ((key, m) # ms) rest'"

inductive_cases reads_nullE: "reads (TokNull # ts) m rest"
inductive_cases reads_boolE: "reads (TokBool b # ts) m rest"
inductive_cases reads_stringE: "reads (TokString s # ts) m rest"
inductive_cases reads_numberE: "reads (TokNumber n # ts) m rest"
inductive_cases reads_arrayE: "reads (TokOpenArray # ts) m rest"
inductive_cases reads_objectE: "reads (TokOpenObject # ts) m rest"
inductive_cases reads_closeE: "reads (TokCloseArray # ts) m rest"
inductive_cases reads_elementsE: "reads_elements ts ms rest"
inductive_cases reads_elements_closeE: "reads_elements (TokCloseArray # ts) ms rest"
inductive_cases reads_members_closeE: "reads_members (TokCloseObject # ts) ms rest"
inductive_cases reads_membersE: "reads_members (TokString key # ts) ms rest"

lemmas reads_elims = reads_nullE reads_boolE reads_stringE reads_numberE reads_arrayE reads_objectE
  reads_closeE reads_elements_closeE reads_members_closeE

lemma reads_unique:
  "reads ts m rest \<Longrightarrow> reads ts m' rest' \<Longrightarrow> m' = m \<and> rest' = rest"
  "reads_elements ts ms rest \<Longrightarrow> reads_elements ts ms' rest' \<Longrightarrow> ms' = ms \<and> rest' = rest"
  "reads_members ts ks rest \<Longrightarrow> reads_members ts ks' rest' \<Longrightarrow> ks' = ks \<and> rest' = rest"
proof (induction arbitrary: m' rest' and ms' rest' and ks' rest' rule: reads_reads_elements_reads_members.inducts)
  case (read_array ts ms rest)
  from read_array(3) show ?case by (rule reads_arrayE) (use read_array(2) in blast)
next
  case (read_object ts ms rest)
  from read_object(3) show ?case by (rule reads_objectE) (use read_object(2) in blast)
next
  case (read_no_element ts)
  then show ?case by (rule reads_elements_closeE) (auto elim: reads_closeE)
next
  case (read_element ts m r1 ms r2)
  from read_element(5) show ?case
  proof (rule reads_elementsE)
    fix ts' assume "ts = TokCloseArray # ts'"
    then show ?thesis using read_element(1) reads_closeE by blast
  next
    fix m'' r'' ms''
    assume "ms' = m'' # ms''" "reads ts m'' r''" "reads_elements r'' ms'' rest'"
    then show ?thesis using read_element(3,4) by metis
  qed
next
  case (read_member ts m r1 ms r2 key)
  from read_member(6) show ?case
    by (rule reads_membersE) (use read_member(4,5) in metis)
qed (auto elim: reads_elims)

fun meaning_of :: "jsonValue \<Rightarrow> meaning" where
  "meaning_of JNull = MNull"
| "meaning_of (JBool b) = MBool b"
| "meaning_of (JString s) = MString s"
| "meaning_of (JNumber n) = MNumber (num_value n)"
| "meaning_of (JArray vs) = MArray (map meaning_of vs)"
| "meaning_of (JObject ms) = MObject (map_of (map (\<lambda>m. (fst m, meaning_of (snd m))) ms))"

fun canonical :: "jsonValue \<Rightarrow> bool" where
  "canonical (JNumber n) \<longleftrightarrow> canonicalNumber n = Some n"
| "canonical (JArray vs) \<longleftrightarrow> (\<forall>v\<in>set vs. canonical v)"
| "canonical (JObject ms) \<longleftrightarrow> sorted (map fst ms) \<and> distinct (map fst ms) \<and> (\<forall>m\<in>set ms. canonical (snd m))"
| "canonical _ \<longleftrightarrow> True"

abbreviation member_meaning :: "string \<times> jsonValue \<Rightarrow> string \<times> meaning" where
  "member_meaning \<equiv> \<lambda>m. (fst m, meaning_of (snd m))"

section \<open>The reader\<close>

lemma canonicalNumber_fixed: "canonicalNumber s = Some x \<Longrightarrow> canonicalNumber x = Some x"
  using canonicalNumber_body [OF canonicalNumber_keeps(1)] canonicalNumber_exact canonicalNumber_keeps(2) by metis

lemma canonicalNumber_pattern: "canonicalNumber s = Some x \<Longrightarrow> number_pattern s"
  by (simp add: canonicalNumber_def split: if_split_asm)

lemma sort_members_facts:
  "sorted (map fst (sort_members ms))" "set (sort_members ms) = set ms" "distinct (map fst (sort_members ms)) = distinct (map fst ms)"
proof -
  show "sorted (map fst (sort_members ms))" "set (sort_members ms) = set ms" by (simp_all add: sort_members_def)
  have "mset (map fst (sort_members ms)) = mset (map fst ms)" by (simp add: sort_members_def)
  then show "distinct (map fst (sort_members ms)) = distinct (map fst ms)" by (rule mset_eq_imp_distinct_iff)
qed

lemma map_of_sort_members: "distinct (map fst ms) \<Longrightarrow>
    map_of (map member_meaning (sort_members ms)) = map_of (map member_meaning ms)"
  by (subst map_of_inject_set) (simp_all add: sort_members_facts comp_def)

lemma decode_reads:
  "decodeValue l depth ts = Inr (v, rest) \<Longrightarrow> reads ts (meaning_of v) rest \<and> canonical v"
  "decodeObject l depth members ts = Inr (v, rest) \<Longrightarrow> distinct (map fst members) \<Longrightarrow>
    \<exists>ms. v = JObject (sort_members (rev members @ ms)) \<and> distinct (map fst (rev members @ ms)) \<and>
      reads_members ts (map member_meaning ms) rest \<and> (\<forall>m\<in>set ms. canonical (snd m))"
  "decodeArray l depth elements ts = Inr (v, rest) \<Longrightarrow>
    \<exists>vs. v = JArray (rev elements @ vs) \<and> reads_elements ts (map meaning_of vs) rest \<and> (\<forall>v\<in>set vs. canonical v)"
proof (induction l depth ts and l depth members ts and l depth elements ts arbitrary: v rest and v rest and v rest
    rule: decodeValue_decodeObject_decodeArray.induct)
  case (1 l depth)
  then show ?case by (simp add: decodeValue.simps)
next
  case (2 l depth t ts)
  show ?case
  proof (cases t)
    case (TokNumber n)
    then obtain x where n: "canonicalNumber n = Some x" "v = JNumber x" "rest = ts"
      using 2(9) by (cases "canonicalNumber n") (simp_all add: decodeValue.simps)
    then show ?thesis
      using canonicalNumber_fixed [OF n(1)] canonicalNumber_keeps(2) [OF n(1)] read_number [OF canonicalNumber_pattern [OF n(1)]]
      by (simp add: TokNumber)
  next
    case TokOpenObject
    then have d: "\<not> lim_depth l \<le> depth" "decodeObject l (depth + 1) [] ts = Inr (v, rest)"
      using 2(9) by (simp_all add: decodeValue.simps split: if_split_asm)
    obtain ms where "v = JObject (sort_members ms)" "distinct (map fst ms)"
        "reads_members ts (map member_meaning ms) rest" "\<forall>m\<in>set ms. canonical (snd m)"
      using 2(1) [OF TokOpenObject d(1) TokOpenObject d(2)] by auto
    then show ?thesis using read_object TokOpenObject map_of_sort_members by (simp add: sort_members_facts)
  next
    case TokOpenArray
    then have d: "\<not> lim_depth l \<le> depth" "decodeArray l (depth + 1) [] ts = Inr (v, rest)" "t \<noteq> TokOpenObject"
      using 2(9) by (simp_all add: decodeValue.simps split: if_split_asm)
    obtain vs where "v = JArray vs" "reads_elements ts (map meaning_of vs) rest" "\<forall>v\<in>set vs. canonical v"
      using 2(6) [OF TokOpenArray d(1,3) TokOpenArray d(2)] by auto
    then show ?thesis using read_array TokOpenArray by simp
  qed (use 2(9) in \<open>auto simp: decodeValue.simps result_simps split: if_split_asm intro: reads_reads_elements_reads_members.intros\<close>)
next
  case (3 l depth members ts)
  show ?case
  proof (cases "More ts")
    case True
    then obtain key ts' m r where step: "\<not> lim_members l \<le> int (length members)" "ts = TokString key # ts'"
        "validateJSONString key = Inr ()" "key \<notin> fst ` set members" "decodeValue l depth ts' = Inr (m, r)"
        "decodeObject l depth ((key, m) # members) r = Inr (v, rest)"
      using 3(3) by (auto simp: decodeObject.simps [of l depth members ts] split: if_split_asm list.splits jsonToken.splits sum.splits)
    have m: "reads ts' (meaning_of m) r" "canonical m" using 3(1) [OF True step(1,2) refl step(3,4,5)] by simp_all
    have "distinct (map fst ((key, m) # members))" using 3(4) step(4) by simp
    then obtain ms where ms: "v = JObject (sort_members (rev ((key, m) # members) @ ms))"
        "distinct (map fst (rev ((key, m) # members) @ ms))"
        "reads_members r (map member_meaning ms) rest" "\<forall>m\<in>set ms. canonical (snd m)"
      using 3(2) [OF True step(1,2) refl step(3,4,5) refl step(6)] by blast
    have "key \<notin> fst ` set (map member_meaning ms)" using ms(2) by (auto simp: image_iff)
    then have "reads_members ts (map member_meaning ((key, m) # ms)) rest"
      using read_member [OF m(1) ms(3)] by (simp add: step(2))
    then show ?thesis using ms m(2) by (intro exI [of _ "(key, m) # ms"]) simp
  next
    case False
    then obtain ts' where "ts = TokCloseObject # ts'" "v = JObject (sort_members (rev members))" "rest = ts'"
      using 3(3) by (auto simp: decodeObject.simps [of l depth members ts] split: if_split_asm list.splits jsonToken.splits)
    then show ?thesis using 3(4) read_no_member by (intro exI [of _ "[]"]) (simp flip: rev_map)
  qed
next
  case (4 l depth elements ts)
  show ?case
  proof (cases "More ts")
    case True
    then obtain m r where step: "\<not> lim_elements l \<le> int (length elements)" "decodeValue l depth ts = Inr (m, r)"
        "decodeArray l depth (m # elements) r = Inr (v, rest)"
      using 4(3) by (auto simp: decodeArray.simps [of l depth elements ts] split: if_split_asm sum.splits)
    have m: "reads ts (meaning_of m) r" "canonical m" using 4(1) [OF True step(1,2)] by simp_all
    obtain vs where vs: "v = JArray (rev (m # elements) @ vs)" "reads_elements r (map meaning_of vs) rest" "\<forall>v\<in>set vs. canonical v"
      using 4(2) [OF True step(1,2) refl step(3)] by blast
    then show ?thesis using read_element [OF m(1) vs(2)] m(2) by (intro exI [of _ "m # vs"]) simp
  next
    case False
    then obtain ts' where "ts = TokCloseArray # ts'" "v = JArray (rev elements)" "rest = ts'"
      using 4(3) by (auto simp: decodeArray.simps [of l depth elements ts] split: if_split_asm list.splits jsonToken.splits)
    then show ?thesis using read_no_element by (intro exI [of _ "[]"]) simp
  qed
qed

section \<open>Canonical values\<close>

lemma canonical_value_unique: "canonical v \<Longrightarrow> canonical w \<Longrightarrow> meaning_of v = meaning_of w \<Longrightarrow> v = w"
proof (induction v arbitrary: w)
  case (JNumber n)
  then show ?case using canonicalNumber_exact by (cases w) auto
next
  case (JArray vs)
  then obtain ws where w: "w = JArray ws" by (cases w) auto
  have "vs = ws" by (rule list.inj_map_strong [of vs ws meaning_of]) (use JArray w in auto)
  then show ?case by (simp add: w)
next
  case (JObject ms)
  then obtain ns where w: "w = JObject ns" by (cases w) auto
  have d: "distinct (map fst (map member_meaning ms))" "distinct (map fst (map member_meaning ns))"
    "sorted (map fst (map member_meaning ms))" "sorted (map fst (map member_meaning ns))"
    using JObject.prems w by (simp_all add: comp_def)
  have "map_of (map member_meaning ms) = map_of (map member_meaning ns)" using JObject.prems w by simp
  then have s: "set (map member_meaning ms) = set (map member_meaning ns)" using map_of_inject_set [OF d(1,2)] by blast
  have "inj_on fst (set (map member_meaning ms) \<union> set (map member_meaning ns))"
    using d(1) unfolding s Un_absorb by (metis d(2) distinct_map)
  then have eq: "map member_meaning ms = map member_meaning ns"
    using map_sorted_distinct_set_unique d s by blast
  have "ms = ns"
  proof (rule list.inj_map_strong [OF _ eq])
    fix m n assume mn: "m \<in> set ms" "n \<in> set ns" "member_meaning m = member_meaning n"
    have "snd m \<in> Basic_BNFs.snds m" by (simp add: prod_set_defs)
    then have "snd m = snd n" using JObject.IH [OF mn(1)] JObject.prems w mn by auto
    then show "m = n" using mn(3) by (simp add: prod_eq_iff)
  qed
  then show ?case by (simp add: w)
next
  case JNull
  then show ?case by (cases w) auto
next
  case (JBool b)
  then show ?case by (cases w) auto
next
  case (JString s)
  then show ?case by (cases w) auto
qed

lemma literal_text: "well_formed_parts ip fp ex \<Longrightarrow> number_text (literal neg ip fp ex)"
proof -
  assume w: "well_formed_parts ip fp ex"
  have d: "allDigits s \<Longrightarrow> list_all number_char s" for s
    by (auto simp: allDigits_def number_char_def list_all_iff)
  have x: "list_all number_char x" if "allDigits (unsign x)" for x
    using d [OF that] by (cases x) (auto simp: unsign_def number_char_def split: if_split_asm)
  have ip: "list_all number_char ip" "is_digit (hd ip)" "ip \<noteq> []"
    using w d by (auto simp: well_formed_parts_def allDigits_def list_all_iff)
  have "list_all number_char f" if "fp = Some f" for f using w d that by (simp add: well_formed_parts_def)
  moreover have "list_all number_char y" if "ex = Some y" for y using w x that by (simp add: well_formed_parts_def)
  ultimately have "list_all number_char (literal neg ip fp ex)"
    using ip by (auto simp: literal_def number_char_def split: option.split)
  then show ?thesis using ip by (auto simp: number_text_def literal_def hd_append)
qed

lemma canonical_text: "canonicalNumber s = Some x \<Longrightarrow> number_text x"
proof (erule canonicalNumber_shape)
  have "number_text ''0''" by code_simp
  then show "x = ''0'' \<Longrightarrow> number_text x" by simp
next
  fix d e
  assume d: "d \<noteq> []" "allDigits d" "hd d \<noteq> CHR ''0''" and x: "x = (if negative_sign s then ''-'' else []) @ render e d"
  obtain ip fp ex where r: "render e d = literal False ip fp ex" "well_formed_parts ip fp ex"
    using render_literal [OF d] by blast
  show "number_text x" unfolding x r(1) literal_signed by (rule literal_text [OF r(2)])
qed

section \<open>Properties\<close>

lemma canonical_plain: "canonical v \<Longrightarrow> plain_numbers v"
  using canonical_text by (induction v) (auto simp: prod_set_defs)


text \<open>
  C21. The spelling of numbers is canonical: exactly the literals of the JSON grammar are accepted, the result is a
  literal of the same value that is its own canonical form, and two literals get the same spelling exactly when they
  have the same value.
\<close>

theorem canonical_numbers_exact:
  assumes "canonicalNumber a = Some x" "canonicalNumber b = Some y"
  shows "(x = y \<longleftrightarrow> num_value a = num_value b) \<and> num_value x = num_value a \<and> canonicalNumber x = Some x \<and>
    (canonicalNumber c = None \<longleftrightarrow> \<not> number_pattern c)"
  using canonicalNumber_exact [OF assms] canonicalNumber_keeps [OF assms(1)] canonicalNumber_fixed [OF assms(1)]
    canonicalNumber_body [of c] by (auto simp: canonicalNumber_def)

theorem canonical_numbers_exact_witness:
  "canonicalNumber ''1500e-3'' = Some ''1.5'' \<and> canonicalNumber ''0.15E+1'' = Some ''1.5'' \<and>
   num_value ''1500e-3'' = num_value ''0.15E+1''"
proof -
  have "canonicalNumber ''1500e-3'' = Some ''1.5''" "canonicalNumber ''0.15E+1'' = Some ''1.5''" by code_simp+
  then show ?thesis using canonical_numbers_exact [of "''1500e-3''" "''1.5''" "''0.15E+1''" "''1.5''"] by simp
qed

lemma encoded_value:
  assumes l: "NewCanonicalizer l0 = Inr l" and a: "EncodeNormalizedJSON l a = Inr x"
  obtains v where "reads (json_tokens a) (meaning_of v) []" "canonical v" "x = enc v"
proof -
  have l: "0 \<le> lim_output l" using l by (auto simp: NewCanonicalizer_def split: if_split_asm)
  obtain v w where d: "decodeValue l 0 (json_tokens a) = Inr (v, [])"
      "encodeCanonical v \<lparr>bw_buffer = [], bw_maximum = lim_output l\<rparr> = Inr w" "x = bw_buffer w"
    using a by (auto simp: EncodeNormalizedJSON_def encodeRaw_def result_simps split: if_split_asm)
  have "room \<lparr>bw_buffer = [], bw_maximum = lim_output l\<rparr>" using l by (simp add: room_def)
  from encode_writes(1) [OF this, of v] have "x = enc v"
    using d(2,3) by (auto simp: writeString_def split: if_split_asm)
  then show ?thesis using that decode_reads(1) [OF d(1)] by blast
qed

text \<open>
  C9. The encoding of a request is canonical: two accepted requests get the same bytes exactly when they denote the
  same JSON value, whatever their white space, the spelling of their numbers and strings and the order of their members.
\<close>

theorem canonical_encoding_exact:
  assumes "NewCanonicalizer l0 = Inr l" "EncodeNormalizedJSON l a = Inr x" "EncodeNormalizedJSON l b = Inr y"
  shows "\<exists>m n. reads (json_tokens a) m [] \<and> reads (json_tokens b) n [] \<and> (x = y \<longleftrightarrow> m = n)"
proof -
  obtain v where v: "reads (json_tokens a) (meaning_of v) []" "canonical v" "x = enc v" using encoded_value [OF assms(1,2)] .
  obtain w where w: "reads (json_tokens b) (meaning_of w) []" "canonical w" "y = enc w" using encoded_value [OF assms(1,3)] .
  have "v = w" if "x = y"
    using enc_prefix(1) [OF canonical_plain [OF v(2)] canonical_plain [OF w(2)] ends_value_closers(4) ends_value_closers(4)] that v w by simp
  moreover have "v = w" if "meaning_of v = meaning_of w" using canonical_value_unique [OF v(2) w(2) that] .
  ultimately have "x = y \<longleftrightarrow> meaning_of v = meaning_of w" using v(3) w(3) by blast
  then show ?thesis using v(1) w(1) by blast
qed

definition sample_limits :: Limits where
  "sample_limits = \<lparr>lim_input = 1000, lim_depth = 8, lim_members = 8, lim_elements = 8, lim_output = 1000\<rparr>"

text \<open>A text with \<^verbatim>\<open>#\<close> for the quotation mark.\<close>

definition json_text :: "string \<Rightarrow> string" where
  "json_text s = map (\<lambda>c. if c = CHR ''#'' then CHR 0x22 else c) s"

lemma sample_texts:
  "NewCanonicalizer sample_limits = Inr sample_limits"
  "EncodeNormalizedJSON sample_limits (json_text ''{ #b#: [1.50, true], #a#: null }'') = Inr (json_text ''{#a#:null,#b#:[1.5,true]}'')"
  "EncodeNormalizedJSON sample_limits (json_text ''{#a#:null,#b#:[15e-1,true]}'') = Inr (json_text ''{#a#:null,#b#:[1.5,true]}'')"
  by code_simp+

theorem canonical_encoding_exact_witness:
  "\<exists>m. reads (json_tokens (json_text ''{ #b#: [1.50, true], #a#: null }'')) m [] \<and>
     reads (json_tokens (json_text ''{#a#:null,#b#:[15e-1,true]}'')) m []"
  using canonical_encoding_exact [OF sample_texts] by metis

end
