(* ===== verification/Spec2Isabelle.thy ===== *)
theory Spec2Isabelle
  imports IssueStatus ResourceNormalize AttemptPolicy BlocksGraph FinishSafety IssueSafety PlanSafety GraphSafety CanonicalSafety
begin

text \<open>
  Verification development for rhizome-mcp, a local issue tracker that coordinates several agents
  through leases, reviews and resource reservations.
\<close>

section \<open>The system\<close>

text \<open>Everything that holds of the store between two operations.\<close>

definition system_ok :: "db \<Rightarrow> bool" where
  "system_ok d \<longleftrightarrow> schema_ok d \<and> rights_ok d \<and> reservations_sound d \<and> blocking_acyclic d \<and> closed_ok d \<and>
     hierarchical d \<and> at_work d \<and> numbered d \<and> log_ok d"

lemma system_kept:
  assumes "reaches env d d'" and "system_ok d" shows "system_ok d'"
proof -
  note d = assms(2) [unfolded system_ok_def]
  have "schema_ok d' \<and> reservations_sound d'" using disjoint.system.reaches_keeps [OF assms(1)] d by blast
  moreover have "rights_ok d'" using lifecycle.reaches_keeps [OF assms(1)] d by blast
  moreover have "blocking_acyclic d'" using graph.system.reaches_keeps [OF assms(1)] d by blast
  moreover have "closed_ok d'" using closing.system.reaches_keeps [OF assms(1)] d by blast
  moreover have "hierarchical d'" using hierarchy.system.reaches_keeps [OF assms(1)] d by blast
  moreover have "at_work d'" using working.system.reaches_keeps [OF assms(1)] d by blast
  moreover have "numbered d'" using numbering.system.reaches_keeps [OF assms(1)] d by blast
  moreover have "log_ok d'"
    using log.system.reaches_keeps [OF assms(1), of "[]"] d by (simp add: log_after_def log_extends_def)
  ultimately show ?thesis by (simp add: system_ok_def)
qed

lemma ended_kept: "reaches env d d' \<Longrightarrow> schema_ok d \<Longrightarrow> ended a d \<Longrightarrow> ended a d' \<and> schema_ok d'"
  using dead.system.reaches_keeps by blast

section \<open>Refused credentials\<close>

text \<open>An operation that reports an error and leaves the store as it was.\<close>

definition refused :: "db \<Rightarrow> db \<times> 'a res \<Rightarrow> bool" where
  "refused d r \<longleftrightarrow> fst r = d \<and> isl (snd r)"

lemma refused_error [simp]: "refused d (d, Inl e)"
  by (simp add: refused_def)

lemma refused_lease:
  "authenticateActiveAttempt a h now required d = Inl e \<Longrightarrow> under_lease a h now required body d = Inl e"
  by (simp add: under_lease_def tx_then_def)

lemma refused_write [simp]: "body d = Inl e \<Longrightarrow> Write body d = (d, Inl e)"
  by (simp add: Write_def)

lemma refused_replay: "body d = Inl e \<Longrightarrow> Write (with_replay operation [] h decode body) d = (d, Inl e)"
  by (simp add: with_replay_def tx_then_def lookup_idempotency_def)

text \<open>No operation that presents these credentials, without a replay key, gets anywhere.\<close>

definition useless_credentials :: "env \<Rightarrow> (nat \<Rightarrow> string res) \<Rightarrow> string \<Rightarrow> string \<Rightarrow> time \<Rightarrow> db \<Rightarrow> bool" where
  "useless_credentials env fresh a h now d \<longleftrightarrow>
     (\<forall>c :: RenewAttemptCommand. rc_attempt c = a \<longrightarrow> rc_token_hash c = h \<longrightarrow> rc_now c = now \<longrightarrow> refused d (RenewAttempt env c d)) \<and>
     (\<forall>c :: SaveAttemptNoteCommand. nc_attempt c = a \<longrightarrow> nc_token_hash c = h \<longrightarrow> nc_now c = now \<longrightarrow> nc_key c = '''' \<longrightarrow> refused d (SaveAttemptNote env c d)) \<and>
     (\<forall>c :: ReserveResourcesCommand. vc_attempt c = a \<longrightarrow> vc_token_hash c = h \<longrightarrow> vc_now c = now \<longrightarrow> vc_key c = '''' \<longrightarrow> refused d (ReserveResources env c d)) \<and>
     (\<forall>c :: ReleaseResourcesCommand. lc_attempt c = a \<longrightarrow> lc_token_hash c = h \<longrightarrow> lc_now c = now \<longrightarrow> lc_key c = '''' \<longrightarrow> refused d (ReleaseResources env c d)) \<and>
     (\<forall>c :: FinishAttemptCommand. fc_attempt c = a \<longrightarrow> fc_token_hash c = h \<longrightarrow> fc_now c = now \<longrightarrow> fc_key c = '''' \<longrightarrow> refused d (FinishAttempt env fresh c d))"

lemma authentication_decides:
  assumes auth: "\<And>required. authenticateActiveAttempt a h now required d = Inl e"
  shows "useless_credentials env fresh a h now d"
  unfolding useless_credentials_def
proof (intro conjI allI impI)
  note refusal = refused_lease [OF auth]
  fix c :: RenewAttemptCommand
  assume "rc_attempt c = a" "rc_token_hash c = h" "rc_now c = now"
  then show "refused d (RenewAttempt env c d)" by (simp add: RenewAttempt_def refusal)
next
  fix c :: SaveAttemptNoteCommand
  assume "nc_attempt c = a" "nc_token_hash c = h" "nc_now c = now" "nc_key c = ''''"
  then show "refused d (SaveAttemptNote env c d)"
    by (simp add: SaveAttemptNote_def refused_replay refused_lease [OF auth] split: sum.split)
next
  fix c :: ReserveResourcesCommand
  assume "vc_attempt c = a" "vc_token_hash c = h" "vc_now c = now" "vc_key c = ''''"
  then show "refused d (ReserveResources env c d)"
    by (simp add: ReserveResources_def refused_replay refused_lease [OF auth] split: sum.split)
next
  fix c :: ReleaseResourcesCommand
  assume "lc_attempt c = a" "lc_token_hash c = h" "lc_now c = now" "lc_key c = ''''"
  then show "refused d (ReleaseResources env c d)"
    by (simp add: ReleaseResources_def refused_replay refused_lease [OF auth])
next
  fix c :: FinishAttemptCommand
  assume "fc_attempt c = a" "fc_token_hash c = h" "fc_now c = now" "fc_key c = ''''"
  then show "refused d (FinishAttempt env fresh c d)"
    by (simp add: FinishAttempt_def refused_replay refused_lease [OF auth] split: sum.split)
qed

lemma ended_unauthenticated:
  assumes "ended a d" shows "authenticateActiveAttempt a h now required d = Inl attemptNotActive"
proof -
  obtain x where x: "find (\<lambda>x. wa_id x = a) (db_attempts d) = Some x"
    using assms by (cases "find (\<lambda>x. wa_id x = a) (db_attempts d)") (auto simp: ended_def find_None_iff)
  then have "\<not> is_active x" using assms find_Some_mem [OF x] by (simp add: ended_def)
  then show ?thesis using x by (simp add: authenticateActiveAttempt_def tx_then_def tx_read_def tx_fail_def)
qed

lemma wrong_token_unauthenticated:
  assumes "find (\<lambda>x. wa_id x = a) (db_attempts d) = Some row" and "is_active row" and "wa_lease row > now" and "wa_token_hash row \<noteq> h"
  shows "authenticateActiveAttempt a h now required d = Inl (NewError CodeInvalidLeaseToken False [])"
  using assms by (simp add: authenticateActiveAttempt_def tx_then_def tx_read_def tx_fail_def)

section \<open>A concrete run\<close>

lemma sample_system_ok: "system_ok sample_db"
proof -
  have "rights_ok sample_db" by (rule sample_rights_ok)
  moreover have "blocking_acyclic sample_db"
    by (simp add: blocking_acyclic_def sample_db_def empty_db_def blocks_edges_def acyclic_def)
  moreover have "closed_ok sample_db"
    by (simp add: closed_ok_def closed_rightly_def sample_db_def sample_issue_def Terminal_def)
  moreover have "hierarchical sample_db" by code_simp
  moreover have "at_work sample_db" by code_simp
  moreover have "numbered sample_db" by code_simp
  moreover have "log_ok sample_db" by (simp add: log_ok_def sample_db_def empty_db_def)
  ultimately show ?thesis using sample_db_ok sample_db_sound by (simp add: system_ok_def)
qed

text \<open>The lease of the sample attempt ends at 100; at 200 it is expired and its reservation released.\<close>

definition swept_db :: db where
  "swept_db = run sample_env (\<lambda>_. Inl invalidCommand) (OpExpire 200) sample_db"

lemma swept_reached: "reaches sample_env sample_db swept_db"
  unfolding swept_db_def by (rule reaches.call [OF reaches.here refl])

lemma swept_ended: "ended (sample_ulid CHR ''A'') swept_db"
  by code_simp

section \<open>Properties of the system\<close>

text \<open>
  C1. Whatever operations run, in whatever order, every invariant of the store survives: the schema
  holds, active reservations of different rows do not overlap and belong to active work attempts of
  their issue, claimed review requests belong to active review attempts of theirs, the blocking graph
  has no cycle, an issue that is not terminal carries no closing time, the parent of an issue that is
  not archived is an epic that is not archived, no attempt is active on an archived or cancelled issue,
  issue numbers stay below the project's counter, and event ids increase.
\<close>

theorem system_invariants_survive:
  assumes "reaches env d d'" and "system_ok d"
  shows "system_ok d'"
  using assms by (rule system_kept)

theorem system_invariants_survive_witness:
  "system_ok swept_db \<and> \<not> list_ex is_held (db_reservations swept_db)"
proof -
  have "system_ok swept_db" using swept_reached sample_system_ok by (rule system_invariants_survive)
  moreover have "freed (sample_ulid CHR ''A'') swept_db"
    using ended_holds_nothing [of swept_db] swept_ended \<open>system_ok swept_db\<close> by (simp add: system_ok_def)
  moreover have "list_all (\<lambda>r. rs_attempt r = sample_ulid CHR ''A'') (db_reservations swept_db)" by code_simp
  ultimately show ?thesis by (auto simp: freed_def list_all_iff list_ex_iff)
qed

text \<open>
  C25. The event log is append-only: after any run the old log is a prefix of the new one, and every
  event added since has a larger id than all the events it follows.
\<close>

theorem event_log_append_only:
  assumes "reaches env d d'" and "schema_ok d" and "log_ok d"
  shows "\<exists>new. db_events d' = db_events d @ new \<and> sorted_wrt (<) (map ev_id (db_events d @ new))"
proof -
  have "log_after (db_events d) d" using assms(3) by (simp add: log_after_def log_extends_def)
  then have "log_after (db_events d) d'" using log.system.reaches_keeps [OF assms(1)] assms(2) by blast
  then show ?thesis by (auto simp: log_after_def log_extends_def log_ok_def)
qed

theorem event_log_append_only_witness:
  "\<exists>new. db_events swept_db = db_events sample_db @ new \<and> sorted_wrt (<) (map ev_id (db_events sample_db @ new))"
  using event_log_append_only [OF swept_reached] sample_system_ok by (simp add: system_ok_def)





text \<open>
  C26. A resolved review request is final: once approved, refused, blocked, cancelled or superseded,
  its row is never touched again.
\<close>

theorem resolved_request_is_final:
  assumes "reaches env d d'" and "schema_ok d" and "r \<in> set (db_requests d)" and "\<not> is_unresolved r"
  shows "r \<in> set (db_requests d')"
proof -
  have "resolved_as r d'"
    using final.system.reaches_keeps [OF assms(1), of r] assms(2-4) by (simp add: resolved_as_def)
  then show ?thesis by (simp add: resolved_as_def)
qed

definition sample_cancelled :: ReviewRequest where
  "sample_cancelled = set_request ReviewRequestStatusCancelled None (Some 9) sample_claimed"

definition after_cancel_db :: db where
  "after_cancel_db = reviewing_db\<lparr>db_requests := [sample_cancelled]\<rparr>"

theorem resolved_request_is_final_witness:
  "sample_cancelled \<in> set (db_requests (run sample_env (\<lambda>_. Inl invalidCommand) (OpExpire 200) after_cancel_db))"
proof (rule resolved_request_is_final [OF reaches.call [OF reaches.here refl]])
  show "schema_ok after_cancel_db" by code_simp
  show "sample_cancelled \<in> set (db_requests after_cancel_db)" by (simp add: after_cancel_db_def)
  show "\<not> is_unresolved sample_cancelled" by (simp add: sample_cancelled_def set_request_def is_unresolved_def)
qed

end
